(* ===== verification/Cherry_Prelude.thy ===== *)
theory Cherry_Prelude
  imports Complex_Main "HOL-Library.Word" "HOL-Library.AList" "HOL-Library.Multiset"
begin

text \<open>
  The prelude of the development: the JavaScript types every component uses (strings as lists of
  16-bit code units, results that may throw), the lemma collections, and the generic lemmas on
  lists, association lists and options. Nothing here is specific to one component.
\<close>

section \<open>Strings and results\<close>

text \<open>
  A JavaScript string is a sequence of 16-bit code units, not of Unicode characters: lone
  surrogates are legal strings, and \<open>length\<close> counts code units. \<open>js\<close> turns an ASCII literal
  of HOL into such a string.
\<close>

type_synonym code_unit = "16 word"
type_synonym jsstr = "code_unit list"

definition js :: "string \<Rightarrow> jsstr" where
  "js s = map of_char s"

text \<open>
  The value of an expression that may throw: \<open>Inl\<close> carries what is thrown. \<open>bind_result\<close> is
  sequencing: a throw skips the rest.
\<close>

type_synonym ('e, 'a) result = "'e + 'a"

definition bind_result :: "('e, 'a) result \<Rightarrow> ('a \<Rightarrow> ('e, 'b) result) \<Rightarrow> ('e, 'b) result" where
  "bind_result r f = (case r of Inl e \<Rightarrow> Inl e | Inr a \<Rightarrow> f a)"

definition require :: "bool \<Rightarrow> 'e \<Rightarrow> ('e, unit) result" where
  "require b e = (if b then Inr () else Inl e)"

named_theorems text_defs \<open>definitions of the text layer, unfolded when a closed string is evaluated\<close>
named_theorems step_defs \<open>definitions of the operations of a component, unfolded together\<close>

lemmas [text_defs] = js_def

lemma js_Nil [simp]: "js [] = []"
  by (simp add: js_def)

lemma js_Cons [simp]: "js (c # s) = of_char c # js s"
  by (simp add: js_def)

lemma js_eq_Nil [simp]: "js s = [] \<longleftrightarrow> s = []"
  by (simp add: js_def)

lemma bind_result_simps [simp]:
  "bind_result (Inl e) f = Inl e"
  "bind_result (Inr a) f = f a"
  by (simp_all add: bind_result_def)

lemma bind_result_Inr_iff:
  "bind_result r f = Inr b \<longleftrightarrow> (\<exists>a. r = Inr a \<and> f a = Inr b)"
  by (cases r) auto

lemma bind_result_Inl_iff:
  "bind_result r f = Inl e \<longleftrightarrow> r = Inl e \<or> (\<exists>a. r = Inr a \<and> f a = Inl e)"
  by (cases r) auto

lemma require_simps [simp]:
  "require b e = Inr u \<longleftrightarrow> b"
  "require b e = Inl e' \<longleftrightarrow> \<not> b \<and> e' = e"
  by (auto simp: require_def)

lemma uint_of_int_cu: "0 \<le> n \<Longrightarrow> n < 65536 \<Longrightarrow> uint (of_int n :: code_unit) = n"
  by (simp add: unsigned_of_int take_bit_int_eq_self)

lemma of_int_uint_cu [simp]: "of_int (uint c) = (c :: code_unit)"
  by simp

lemma uint_cu_bounds: "0 \<le> uint (c :: code_unit)" "uint (c :: code_unit) < 65536"
  using uint_lt2p [of c] by simp_all

section \<open>Lists\<close>

text \<open>\<open>Array.prototype.sort\<close> with a comparator: stable, so an insertion sort that moves an
  element past the ones the comparator puts strictly before it.\<close>

fun insert_by :: "('a \<Rightarrow> 'a \<Rightarrow> int) \<Rightarrow> 'a \<Rightarrow> 'a list \<Rightarrow> 'a list" where
  "insert_by cmp x [] = [x]"
| "insert_by cmp x (y # ys) = (if cmp x y \<le> 0 then x # y # ys else y # insert_by cmp x ys)"

fun sort_by :: "('a \<Rightarrow> 'a \<Rightarrow> int) \<Rightarrow> 'a list \<Rightarrow> 'a list" where
  "sort_by cmp [] = []"
| "sort_by cmp (x # xs) = insert_by cmp x (sort_by cmp xs)"

lemma mset_insert_by [simp]: "mset (insert_by cmp x xs) = add_mset x (mset xs)"
  by (induction xs) auto

lemma mset_sort_by [simp]: "mset (sort_by cmp xs) = mset xs"
  by (induction xs) auto

lemma set_sort_by [simp]: "set (sort_by cmp xs) = set xs"
  by (metis mset_sort_by set_mset_mset)

lemma length_sort_by [simp]: "length (sort_by cmp xs) = length xs"
  by (metis mset_sort_by size_mset)

lemma sort_by_eq_Nil [simp]: "sort_by cmp xs = [] \<longleftrightarrow> xs = []"
  by (metis length_0_conv length_sort_by)

lemma distinct_sort_by [simp]: "distinct (sort_by cmp xs) = distinct xs"
  by (rule mset_eq_imp_distinct_iff) simp

text \<open>A code whose blocks can be read off the front of a list is injective on lists.\<close>

lemma concat_map_decodable_inj:
  assumes dec: "\<And>x r. P x \<Longrightarrow> d (f x @ r) = Some (x, r)"
    and ne: "\<And>x. P x \<Longrightarrow> f x \<noteq> []"
    and "list_all P xs" and "list_all P ys"
    and "concat (map f xs) = concat (map f ys)"
  shows "xs = ys"
  using assms(3-)
proof (induction xs arbitrary: ys)
  case Nil
  then show ?case using ne by (cases ys) auto
next
  case (Cons x xs)
  then obtain y ys' where ys: "ys = y # ys'"
    using ne by (cases ys) auto
  have Px: "P x" and Py: "P y" using Cons.prems ys by auto
  have "f x @ concat (map f xs) = f y @ concat (map f ys')"
    using Cons.prems ys by simp
  then have "Some (x, concat (map f xs)) = Some (y, concat (map f ys'))"
    using dec [OF Px, of "concat (map f xs)"] dec [OF Py, of "concat (map f ys')"] by metis
  then have xy: "x = y" and eq: "concat (map f xs) = concat (map f ys')" by auto
  have "list_all P xs" and "list_all P ys'" using Cons.prems(1,2) ys by auto
  then have "xs = ys'" using eq by (rule Cons.IH)
  with xy ys show ?case by simp
qed

section \<open>Executions of a component\<close>

text \<open>
  A component is a function that performs one operation on its state. What every operation keeps holds
  after every sequence of operations.
\<close>

locale kept_invariant =
  fixes perform :: "'op \<Rightarrow> 's \<Rightarrow> 's" and good :: "'s \<Rightarrow> bool"
  assumes keeps: "good s \<Longrightarrow> good (perform op s)"
begin

lemma run_keeps: "good s \<Longrightarrow> good (fold perform ops s)"
  by (induction ops arbitrary: s) (simp_all add: keeps)

end

end
