(* ===== verification/Js_Text.thy ===== *)
theory Js_Text
  imports Cherry_Prelude
begin

text \<open>
  The text operations of the language that the source calls: white space and \<open>trim\<close>, \<open>split\<close>,
  \<open>startsWith\<close>, \<open>slice\<close>, \<open>lastIndexOf\<close>, the character classes of its regular expressions,
  \<open>TextEncoder().encode\<close> (UTF-8) and \<open>encodeURIComponent\<close>. The lemmas give what the components
  rely on: UTF-8 and percent-encoding are injective, and an encoded component never contains the
  separator of a storage key.
\<close>

section \<open>Character classes\<close>

definition in_range :: "int \<Rightarrow> int \<Rightarrow> code_unit \<Rightarrow> bool" where
  "in_range lo hi c \<longleftrightarrow> lo \<le> uint c \<and> uint c \<le> hi"

abbreviation is_digit :: "code_unit \<Rightarrow> bool" where
  "is_digit \<equiv> in_range 48 57"

abbreviation is_upper :: "code_unit \<Rightarrow> bool" where
  "is_upper \<equiv> in_range 65 90"

abbreviation is_lower :: "code_unit \<Rightarrow> bool" where
  "is_lower \<equiv> in_range 97 122"

abbreviation is_alnum :: "code_unit \<Rightarrow> bool" where
  "is_alnum c \<equiv> is_digit c \<or> is_upper c \<or> is_lower c"

text \<open>word characters: \<open>[A-Za-z0-9_]\<close>.\<close>

definition is_word_char :: "code_unit \<Rightarrow> bool" where
  "is_word_char c \<longleftrightarrow> is_alnum c \<or> c = 95"

text \<open>The white-space class and the characters \<open>trim\<close> removes: the white space and line terminators of ECMAScript.\<close>

definition is_ws :: "code_unit \<Rightarrow> bool" where
  "is_ws c \<longleftrightarrow> in_range 9 13 c \<or> c = 32 \<or> c = 160 \<or> c = 0x1680 \<or> in_range 0x2000 0x200A c
     \<or> c = 0x2028 \<or> c = 0x2029 \<or> c = 0x202F \<or> c = 0x205F \<or> c = 0x3000 \<or> c = 0xFEFF"

section \<open>Searching, slicing, splitting\<close>

definition startsWith :: "jsstr \<Rightarrow> jsstr \<Rightarrow> bool" where
  "startsWith s p \<longleftrightarrow> take (length p) s = p"

fun includes_str :: "jsstr \<Rightarrow> jsstr \<Rightarrow> bool" where
  "includes_str [] p \<longleftrightarrow> p = []"
| "includes_str (c # s) p \<longleftrightarrow> startsWith (c # s) p \<or> includes_str s p"

definition trimStart :: "jsstr \<Rightarrow> jsstr" where
  "trimStart s = dropWhile is_ws s"

definition trim :: "jsstr \<Rightarrow> jsstr" where
  "trim s = rev (dropWhile is_ws (rev (trimStart s)))"

text \<open>\<open>s.split(sep)\<close> for a separator of one code unit: one piece more than separators.\<close>

fun split_on :: "code_unit \<Rightarrow> jsstr \<Rightarrow> jsstr list" where
  "split_on d [] = [[]]"
| "split_on d (c # s) =
     (if c = d then [] # split_on d s
      else (c # hd (split_on d s)) # tl (split_on d s))"

fun join :: "jsstr \<Rightarrow> jsstr list \<Rightarrow> jsstr" where
  "join sep [] = []"
| "join sep [x] = x"
| "join sep (x # y # xs) = x @ sep @ join sep (y # xs)"

text \<open>Splitting at white space: the pieces between the maximal runs of white space.\<close>

function split_ws :: "jsstr \<Rightarrow> jsstr list" where
  "split_ws s =
     (let a = takeWhile (\<lambda>c. \<not> is_ws c) s; r = dropWhile (\<lambda>c. \<not> is_ws c) s
      in if r = [] then [a] else a # split_ws (dropWhile is_ws r))"
  by pat_completeness auto
termination
proof (relation "measure length", simp, unfold in_measure)
  fix s a r' :: jsstr
  assume "r' = dropWhile (\<lambda>c. \<not> is_ws c) s" and "r' \<noteq> []"
  then have r: "dropWhile (\<lambda>c. \<not> is_ws c) s \<noteq> []" by simp
  let ?r = "dropWhile (\<lambda>c. \<not> is_ws c) s"
  have "is_ws (hd ?r)" using hd_dropWhile [OF r] by simp
  then have "length (dropWhile is_ws ?r) < length ?r"
    using r by (cases ?r) (auto simp: le_imp_less_Suc length_dropWhile_le)
  also have "\<dots> \<le> length s" by (rule length_dropWhile_le)
  finally show "length (dropWhile is_ws r') < length s"
    using \<open>r' = ?r\<close> by simp
qed

declare split_ws.simps [simp del]

text \<open>\<open>lastIndexOf\<close> answers \<open>-1\<close> when there is no occurrence; \<open>slice(0, e)\<close> counts a negative
  end from the end of the string.\<close>

fun lastIndexOf :: "code_unit \<Rightarrow> jsstr \<Rightarrow> int" where
  "lastIndexOf d [] = -1"
| "lastIndexOf d (c # s) =
     (if lastIndexOf d s \<ge> 0 then lastIndexOf d s + 1 else if c = d then 0 else -1)"

definition slice_to :: "jsstr \<Rightarrow> int \<Rightarrow> jsstr" where
  "slice_to s e = take (nat (if e < 0 then int (length s) + e else e)) s"

lemma split_on_nonempty [simp]: "split_on d s \<noteq> []"
  by (cases s) auto

text \<open>The same with one recursive call, for evaluation.\<close>

lemma split_on_code [code]:
  "split_on d [] = [[]]"
  "split_on d (c # s) =
     (if c = d then [] # split_on d s
      else case split_on d s of p # ps \<Rightarrow> (c # p) # ps | [] \<Rightarrow> [[c]])"
  by (simp_all split: list.split)

lemma lastIndexOf_ge [simp]: "lastIndexOf d s \<ge> -1"
  by (induction s) auto

lemma lastIndexOf_nonneg: "0 \<le> lastIndexOf d s \<longleftrightarrow> d \<in> set s"
  by (induction s) auto

lemma lastIndexOf_absent: "lastIndexOf d s = -1 \<longleftrightarrow> d \<notin> set s"
  using lastIndexOf_ge [of d s] lastIndexOf_nonneg [of d s] by linarith

lemma lastIndexOf_append:
  "d \<notin> set t \<Longrightarrow> lastIndexOf d (s @ d # t) = int (length s)"
  by (induction s) (auto simp: lastIndexOf_nonneg)

lemma slice_to_lastIndexOf:
  "d \<notin> set t \<Longrightarrow> slice_to (s @ d # t) (lastIndexOf d (s @ d # t)) = s"
  by (simp add: lastIndexOf_append slice_to_def)

lemma split_on_no_sep: "d \<notin> set s \<Longrightarrow> split_on d s = [s]"
  by (induction s) auto

lemma split_on_append:
  "split_on d (s @ d # t) = split_on d s @ split_on d t"
  by (induction s) auto

lemma last_split_on:
  "d \<notin> set t \<Longrightarrow> last (split_on d (s @ d # t)) = t"
  by (simp add: split_on_append split_on_no_sep)

lemma split_on_join:
  assumes "xs \<noteq> []" and "\<forall>x\<in>set xs. d \<notin> set x"
  shows "split_on d (join [d] xs) = xs"
  using assms
  by (induction "[d]" xs rule: join.induct) (auto simp: split_on_no_sep split_on_append)

lemma join_split_on: "join [d] (split_on d s) = s"
proof (induction s)
  case Nil
  then show ?case by simp
next
  case (Cons c s)
  then show ?case by (cases "split_on d s" rule: list.exhaust; cases "tl (split_on d s)") auto
qed

lemma startsWith_append [simp]: "startsWith (p @ s) p"
  by (simp add: startsWith_def)

lemma startsWith_iff: "startsWith s p \<longleftrightarrow> (\<exists>t. s = p @ t)"
  by (metis append_eq_conv_conj append_take_drop_id startsWith_def)

section \<open>Decimal numerals\<close>

definition digit_char :: "int \<Rightarrow> code_unit" where
  "digit_char d = of_int (48 + d)"

definition digit_val :: "code_unit \<Rightarrow> int" where
  "digit_val c = uint c - 48"

text \<open>The decimal text of a non-negative number, and the number a digit string denotes.\<close>

function dec_text :: "int \<Rightarrow> jsstr" where
  "dec_text n = (if n < 10 then [digit_char n] else dec_text (n div 10) @ [digit_char (n mod 10)])"
  by pat_completeness auto
termination
  by (relation "measure nat") auto

declare dec_text.simps [simp del]

definition digits_val :: "jsstr \<Rightarrow> int" where
  "digits_val s = foldl (\<lambda>n c. 10 * n + digit_val c) 0 s"

lemma uint_digit_char: "0 \<le> d \<Longrightarrow> d < 10 \<Longrightarrow> uint (digit_char d) = 48 + d"
  unfolding digit_char_def by (rule uint_of_int_cu) simp_all

lemma digit_char_val [simp]: "0 \<le> d \<Longrightarrow> d < 10 \<Longrightarrow> digit_val (digit_char d) = d"
  by (simp add: digit_val_def uint_digit_char)

lemma digit_char_digit [simp]: "0 \<le> d \<Longrightarrow> d < 10 \<Longrightarrow> is_digit (digit_char d)"
  by (simp add: in_range_def uint_digit_char)

lemma dec_text_digits: "0 \<le> n \<Longrightarrow> list_all is_digit (dec_text n)"
proof (induction n rule: dec_text.induct)
  case (1 n)
  then show ?case by (cases "n < 10") (simp_all add: dec_text.simps [of n])
qed

lemma dec_text_nonempty [simp]: "dec_text n \<noteq> []"
  by (simp add: dec_text.simps)

lemma digits_val_dec_text [simp]: "0 \<le> n \<Longrightarrow> digits_val (dec_text n) = n"
proof (induction n rule: dec_text.induct)
  case (1 n)
  then show ?case
    by (cases "n < 10") (simp_all add: dec_text.simps [of n] digits_val_def)
qed

lemma dec_text_inject: "0 \<le> m \<Longrightarrow> 0 \<le> n \<Longrightarrow> dec_text m = dec_text n \<longleftrightarrow> m = n"
  by (metis digits_val_dec_text)

lemma dec_text_no_leading_zero: "0 < n \<Longrightarrow> digit_val (hd (dec_text n)) \<noteq> 0"
proof (induction n rule: dec_text.induct)
  case (1 n)
  then show ?case
    by (cases "n < 10") (simp_all add: dec_text.simps [of n])
qed

end
