(* ===== verification/Js_Number.thy ===== *)
theory Js_Number
  imports Js_Text
begin

text \<open>
  The Number type of the language: IEEE 754 binary64 with round-to-nearest-even, as exact rationals
  that are rounded after every operation. Signed zero is not distinguished, since nothing in the
  source observes it. Also here: \<open>Number(text)\<close>, \<open>String(number)\<close>, \<open>Number.isInteger\<close> and
  \<open>Number.isSafeInteger\<close>. The lemmas show that integers up to \<open>2 ^ 53\<close> are exact, which is
  what the components that count in nanoseconds and bytes depend on.
\<close>

datatype number = Fin rat | Infinity bool | NaN

section \<open>Rounding to binary64\<close>

definition pow2 :: "int \<Rightarrow> rat" where
  "pow2 k = (if k \<ge> 0 then 2 ^ nat k else 1 / 2 ^ nat (- k))"

definition round_half_even :: "rat \<Rightarrow> int" where
  "round_half_even r =
     (let f = \<lfloor>r\<rfloor>; d = r - of_int f
      in if d < 1 / 2 then f else if d > 1 / 2 then f + 1 else if even f then f else f + 1)"

function int_log2 :: "int \<Rightarrow> int" where
  "int_log2 n = (if n < 2 then 0 else 1 + int_log2 (n div 2))"
  by pat_completeness auto
termination
  by (relation "measure nat") auto

declare int_log2.simps [simp del]

text \<open>The exponent \<open>e\<close> with \<open>2 ^ e \<le> a < 2 ^ (e + 1)\<close>, for \<open>a > 0\<close>.\<close>

definition ilog2 :: "rat \<Rightarrow> int" where
  "ilog2 a =
     (case quotient_of a of (n, d) \<Rightarrow>
        let e = int_log2 n - int_log2 d
        in if a < pow2 e then e - 1 else e)"

definition to_double :: "rat \<Rightarrow> number" where
  "to_double q =
     (if q = 0 then Fin 0
      else let k = max (ilog2 \<bar>q\<bar>) (- 1022) - 52;
               v = of_int (round_half_even (\<bar>q\<bar> / pow2 k)) * pow2 k
           in if v \<ge> 2 ^ 1024 then Infinity (q > 0)
              else Fin (if q < 0 then - v else v))"

text \<open>Multiplication and division of Numbers.\<close>

fun num_mult :: "number \<Rightarrow> number \<Rightarrow> number" where
  "num_mult (Fin a) (Fin b) = to_double (a * b)"
| "num_mult (Infinity s) (Fin b) = (if b = 0 then NaN else Infinity (s = (b > 0)))"
| "num_mult (Fin a) (Infinity s) = (if a = 0 then NaN else Infinity (s = (a > 0)))"
| "num_mult (Infinity s) (Infinity t) = Infinity (s = t)"
| "num_mult _ _ = NaN"

fun num_div :: "number \<Rightarrow> number \<Rightarrow> number" where
  "num_div (Fin a) (Fin b) =
     (if b = 0 then (if a = 0 then NaN else Infinity (a > 0)) else to_double (a / b))"
| "num_div (Infinity s) (Fin b) = Infinity (s = (b \<ge> 0))"
| "num_div (Fin a) (Infinity s) = Fin 0"
| "num_div _ _ = NaN"

definition num_plus :: "number \<Rightarrow> number \<Rightarrow> number" where
  "num_plus x y =
     (case (x, y) of
        (Fin a, Fin b) \<Rightarrow> to_double (a + b)
      | (Infinity s, Infinity t) \<Rightarrow> if s = t then Infinity s else NaN
      | (Infinity s, Fin _) \<Rightarrow> Infinity s
      | (Fin _, Infinity s) \<Rightarrow> Infinity s
      | _ \<Rightarrow> NaN)"

definition safe_bound :: int where
  "safe_bound = 2 ^ 53"

definition isFinite :: "number \<Rightarrow> bool" where
  "isFinite x = (case x of Fin _ \<Rightarrow> True | _ \<Rightarrow> False)"

definition isInteger :: "number \<Rightarrow> bool" where
  "isInteger x = (case x of Fin q \<Rightarrow> of_int \<lfloor>q\<rfloor> = q | _ \<Rightarrow> False)"

definition isSafeInteger :: "number \<Rightarrow> bool" where
  "isSafeInteger x =
     (case x of Fin q \<Rightarrow> of_int \<lfloor>q\<rfloor> = q \<and> \<bar>q\<bar> < of_int safe_bound | _ \<Rightarrow> False)"

section \<open>Numerals\<close>

text \<open>
  The decimal scanner shared by \<open>Number(text)\<close> and \<open>JSON.parse\<close>: integer digits, whether there
  is a point, fraction digits, exponent, rest. An \<open>e\<close> without digits is left in the rest.
\<close>

record scanned =
  int_part :: jsstr
  has_point :: bool
  frac_part :: jsstr
  exponent :: int
  rest :: jsstr

definition scan_exponent :: "jsstr \<Rightarrow> int \<times> jsstr" where
  "scan_exponent s =
     (case s of
        c # r \<Rightarrow>
          if c = 101 \<or> c = 69 then
            let neg = (r \<noteq> [] \<and> hd r = 45);
                r' = (if r \<noteq> [] \<and> (hd r = 43 \<or> hd r = 45) then tl r else r);
                ds = takeWhile is_digit r'
            in if ds = [] then (0, s)
               else (if neg then - digits_val ds else digits_val ds, dropWhile is_digit r')
          else (0, s)
      | [] \<Rightarrow> (0, s))"

definition scan_decimal :: "jsstr \<Rightarrow> scanned" where
  "scan_decimal s =
     (let ip = takeWhile is_digit s; r = dropWhile is_digit s;
          pt = (r \<noteq> [] \<and> hd r = 46);
          fp = (if pt then takeWhile is_digit (tl r) else []);
          r' = (if pt then dropWhile is_digit (tl r) else r)
      in case scan_exponent r' of (e, r'') \<Rightarrow>
           \<lparr>int_part = ip, has_point = pt, frac_part = fp, exponent = e, rest = r''\<rparr>)"

definition pow10 :: "int \<Rightarrow> rat" where
  "pow10 k = (if k \<ge> 0 then 10 ^ nat k else 1 / 10 ^ nat (- k))"

definition scanned_value :: "scanned \<Rightarrow> rat" where
  "scanned_value d =
     of_int (digits_val (int_part d @ frac_part d)) * pow10 (exponent d - int (length (frac_part d)))"

definition negate :: "number \<Rightarrow> number" where
  "negate x = (case x of Fin q \<Rightarrow> Fin (- q) | Infinity s \<Rightarrow> Infinity (\<not> s) | NaN \<Rightarrow> NaN)"

definition unsigned_text :: "jsstr \<Rightarrow> number" where
  "unsigned_text t =
     (if t = js ''Infinity'' then Infinity True
      else let d = scan_decimal t
           in if rest d = [] \<and> (int_part d \<noteq> [] \<or> frac_part d \<noteq> [])
              then to_double (scanned_value d) else NaN)"

definition radix_val :: "int \<Rightarrow> jsstr \<Rightarrow> number" where
  "radix_val b ds =
     (let val = (\<lambda>c. if is_digit c then uint c - 48
                     else if is_lower c then uint c - 87
                     else if is_upper c then uint c - 55 else 99)
      in if ds \<noteq> [] \<and> list_all (\<lambda>c. val c < b) ds
         then to_double (of_int (foldl (\<lambda>n c. b * n + val c) 0 ds)) else NaN)"

text \<open>\<open>Number(text)\<close>.\<close>

definition Number_of :: "jsstr \<Rightarrow> number" where
  "Number_of s =
     (let t = trim s; p = take 2 t in
      if t = [] then Fin 0
      else if p = js ''0x'' \<or> p = js ''0X'' then radix_val 16 (drop 2 t)
      else if p = js ''0o'' \<or> p = js ''0O'' then radix_val 8 (drop 2 t)
      else if p = js ''0b'' \<or> p = js ''0B'' then radix_val 2 (drop 2 t)
      else if hd t = 45 then negate (unsigned_text (tl t))
      else if hd t = 43 then unsigned_text (tl t)
      else unsigned_text t)"

definition int_text :: "int \<Rightarrow> jsstr" where
  "int_text n = (if n < 0 then 45 # dec_text (- n) else dec_text n)"

text \<open>
  \<open>String(number)\<close>: the shortest digits that read back as the same double. Integers up to
  \<open>2 ^ 53\<close> are printed in full, which is what the general rule gives for them.
\<close>

fun dec_exponent :: "nat \<Rightarrow> rat \<Rightarrow> int \<Rightarrow> int" where
  "dec_exponent 0 q n = n"
| "dec_exponent (Suc fuel) q n =
     (if q \<ge> pow10 n then dec_exponent fuel q (n + 1)
      else if q < pow10 (n - 1) then dec_exponent fuel q (n - 1) else n)"

fun shortest :: "nat \<Rightarrow> int \<Rightarrow> rat \<Rightarrow> int \<Rightarrow> int \<times> int" where
  "shortest 0 k q n = (k, round_half_even (q * pow10 (k - n)))"
| "shortest (Suc fuel) k q n =
     (let s = round_half_even (q * pow10 (k - n))
      in if to_double (of_int s * pow10 (n - k)) = Fin q then (k, s)
         else shortest fuel (k + 1) q n)"

definition zeros :: "nat \<Rightarrow> jsstr" where
  "zeros n = replicate n 48"

definition format_digits :: "jsstr \<Rightarrow> int \<Rightarrow> jsstr" where
  "format_digits ds n =
     (let k = int (length ds) in
      if k \<le> n \<and> n \<le> 21 then ds @ zeros (nat (n - k))
      else if 0 < n \<and> n \<le> 21 then take (nat n) ds @ [46] @ drop (nat n) ds
      else if - 6 < n \<and> n \<le> 0 then js ''0.'' @ zeros (nat (- n)) @ ds
      else take 1 ds @ (if length ds = 1 then [] else 46 # drop 1 ds) @
           [101, if n - 1 < 0 then 45 else 43] @ dec_text \<bar>n - 1\<bar>)"

definition positive_text :: "rat \<Rightarrow> jsstr" where
  "positive_text q =
     (let n = dec_exponent 700 q 0; (k, s) = shortest 16 1 q n
      in if s = 10 ^ nat k then format_digits [49] (n + 1) else format_digits (dec_text s) n)"

definition number_text :: "number \<Rightarrow> jsstr" where
  "number_text x =
     (case x of
        NaN \<Rightarrow> js ''NaN''
      | Infinity s \<Rightarrow> if s then js ''Infinity'' else js ''-Infinity''
      | Fin q \<Rightarrow>
          if of_int \<lfloor>q\<rfloor> = q \<and> \<bar>q\<bar> \<le> of_int safe_bound then int_text \<lfloor>q\<rfloor>
          else if q < 0 then 45 # positive_text (- q) else positive_text q)"

section \<open>Small integers are exact\<close>

lemma round_half_even_of_int [simp]: "round_half_even (of_int n) = n"
  by (simp add: round_half_even_def)

lemma pow2_pos [simp]: "0 < pow2 k"
  by (simp add: pow2_def)

lemma pow2_nonzero [simp]: "pow2 k \<noteq> 0"
  using pow2_pos [of k] by (metis less_irrefl)

lemma pow2_nat: "pow2 (int n) = 2 ^ n"
  by (simp add: pow2_def)

lemma int_log2_nonneg: "0 \<le> int_log2 n"
proof (induction n rule: int_log2.induct)
  case (1 n)
  then show ?case by (cases "n < 2") (simp_all add: int_log2.simps [of n])
qed

lemma int_log2_bounds:
  "0 < n \<Longrightarrow> 2 ^ nat (int_log2 n) \<le> n \<and> n < 2 ^ Suc (nat (int_log2 n))"
proof (induction n rule: int_log2.induct)
  case (1 n)
  show ?case
  proof (cases "n < 2")
    case True
    with 1 show ?thesis by (simp add: int_log2.simps [of n])
  next
    case False
    let ?e = "nat (int_log2 (n div 2))"
    have "2 ^ ?e \<le> n div 2 \<and> n div 2 < 2 ^ Suc ?e"
      using 1 False by simp
    then have "2 * 2 ^ ?e \<le> n" and "n < 2 * 2 ^ Suc ?e" by linarith+
    moreover have "nat (int_log2 n) = Suc ?e"
      using False int_log2_nonneg [of "n div 2"] by (simp add: int_log2.simps [of n] nat_add_distrib)
    ultimately show ?thesis by simp
  qed
qed

lemma ilog2_of_int:
  assumes "0 < n"
  shows "ilog2 (of_int n) = int_log2 n"
proof -
  have one: "int_log2 1 = 0" by (simp add: int_log2.simps)
  have "2 ^ nat (int_log2 n) \<le> n" using int_log2_bounds [OF assms] by simp
  then have "(2::rat) ^ nat (int_log2 n) \<le> of_int n"
    by (metis of_int_le_iff of_int_numeral of_int_power)
  then have "\<not> (of_int n :: rat) < pow2 (int_log2 n)"
    using int_log2_nonneg [of n] by (simp add: pow2_def)
  then show ?thesis by (simp add: ilog2_def quotient_of_int one Let_def)
qed

lemma to_double_positive:
  assumes "0 < n" and "n \<le> safe_bound"
  shows "to_double (of_int n) = Fin (of_int n)"
proof -
  define e where "e = nat (int_log2 n)"
  have lo: "2 ^ e \<le> n" and hi: "n < 2 ^ Suc e"
    using int_log2_bounds [OF assms(1)] by (simp_all add: e_def)
  define k where "k = max (ilog2 \<bar>of_int n :: rat\<bar>) (- 1022) - 52"
  have k: "k = int e - 52"
    using ilog2_of_int [OF assms(1)] int_log2_nonneg [of n] assms(1) by (simp add: k_def e_def)
  have "\<exists>m. (of_int n :: rat) / pow2 k = of_int m"
  proof (cases "e \<le> 52")
    case True
    then have "nat (- (int e - 52)) = 52 - e" by linarith
    with True have "pow2 k = 1 / 2 ^ (52 - e)" by (auto simp: k pow2_def)
    then have "(of_int n :: rat) / pow2 k = of_int (n * 2 ^ (52 - e))" by simp
    then show ?thesis by blast
  next
    case False
    have "2 ^ e \<le> (2::int) ^ 53" using lo assms(2) unfolding safe_bound_def by linarith
    then have "e \<le> 53" by (rule power_le_imp_le_exp [rotated]) simp
    with False have e: "e = 53" by simp
    with lo assms(2) have "n = 2 ^ 53" by (simp add: safe_bound_def)
    then have "(of_int n :: rat) / pow2 k = of_int (2 ^ 52)" by (simp add: k e pow2_def)
    then show ?thesis by blast
  qed
  then obtain m where m: "(of_int n :: rat) / pow2 k = of_int m" by blast
  have v: "of_int (round_half_even ((of_int n :: rat) / pow2 k)) * pow2 k = of_int n"
    unfolding m round_half_even_of_int unfolding m [symmetric] by simp
  have "(of_int n :: rat) \<le> 2 ^ 53"
    using assms(2) unfolding safe_bound_def by (metis of_int_le_iff of_int_numeral of_int_power)
  also have "\<dots> < (2::rat) ^ 1024" by (rule power_strict_increasing) simp_all
  finally have "\<not> (2::rat) ^ 1024 \<le> of_int n" by simp
  then show ?thesis
    using assms(1) v unfolding to_double_def k_def [symmetric] Let_def
    by simp
qed

lemma to_double_nonneg:
  "0 \<le> n \<Longrightarrow> n \<le> safe_bound \<Longrightarrow> to_double (of_int n) = Fin (of_int n)"
  using to_double_positive [of n] by (cases "n = 0") (auto simp: to_double_def)

end
