(* ===== verification/Js_Encoding.thy ===== *)
theory Js_Encoding
  imports Js_Text
begin

text \<open>
  UTF-8 (\<open>new TextEncoder().encode\<close>) and \<open>encodeURIComponent\<close>. A string is first read as code
  points, a pair of surrogates giving one; \<open>TextEncoder\<close> replaces a lone surrogate by U+FFFD,
  \<open>encodeURIComponent\<close> throws on it. The lemmas show both encodings injective on well-formed
  strings and that an encoded component holds neither the separator nor a percent sign on its own.
\<close>

section \<open>Code points\<close>

abbreviation is_lead :: "code_unit \<Rightarrow> bool" where
  "is_lead \<equiv> in_range 0xD800 0xDBFF"

abbreviation is_trail :: "code_unit \<Rightarrow> bool" where
  "is_trail \<equiv> in_range 0xDC00 0xDFFF"

abbreviation is_surrogate :: "code_unit \<Rightarrow> bool" where
  "is_surrogate \<equiv> in_range 0xD800 0xDFFF"

definition pair_point :: "code_unit \<Rightarrow> code_unit \<Rightarrow> int" where
  "pair_point c d = 0x10000 + (uint c - 0xD800) * 0x400 + (uint d - 0xDC00)"

definition unit_point :: "code_unit \<Rightarrow> int" where
  "unit_point c = (if is_surrogate c then 0xFFFD else uint c)"

fun code_points :: "jsstr \<Rightarrow> int list" where
  "code_points [] = []"
| "code_points [c] = [unit_point c]"
| "code_points (c # d # s) =
     (if is_lead c \<and> is_trail d then pair_point c d # code_points s
      else unit_point c # code_points (d # s))"

text \<open>\<open>isWellFormed\<close>: no lone surrogate.\<close>

fun isWellFormed :: "jsstr \<Rightarrow> bool" where
  "isWellFormed [] = True"
| "isWellFormed [c] = (\<not> is_surrogate c)"
| "isWellFormed (c # d # s) =
     (if is_lead c \<and> is_trail d then isWellFormed s
      else \<not> is_surrogate c \<and> isWellFormed (d # s))"

definition point_units :: "int \<Rightarrow> jsstr" where
  "point_units p =
     (if p < 0x10000 then [of_int p]
      else [of_int (0xD800 + (p - 0x10000) div 0x400), of_int (0xDC00 + (p - 0x10000) mod 0x400)])"

lemma point_units_unit: "\<not> is_surrogate c \<Longrightarrow> point_units (unit_point c) = [c]"
  using uint_cu_bounds [of c] by (simp add: point_units_def unit_point_def)

lemma point_units_pair:
  assumes "is_lead c" and "is_trail d"
  shows "point_units (pair_point c d) = [c, d]"
proof -
  define a b where "a = uint c - 0xD800" and "b = uint d - 0xDC00"
  have a: "uint c = 0xD800 + a" "a < 0x400" and b: "uint d = 0xDC00 + b" "b < 0x400" "0 \<le> b"
    and "0 \<le> a"
    using assms by (auto simp: a_def b_def in_range_def)
  have p: "pair_point c d = 0x10000 + (a * 0x400 + b)"
    by (simp add: pair_point_def a_def b_def)
  have dm: "(a * 0x400 + b) div 0x400 = a" "(a * 0x400 + b) mod 0x400 = b"
    using b(2,3) by simp_all
  have "point_units (pair_point c d) = [of_int (0xD800 + a), of_int (0xDC00 + b)]"
    unfolding p point_units_def using dm b(3) \<open>0 \<le> a\<close> by simp
  also have "\<dots> = [of_int (uint c), of_int (uint d)]"
    by (simp only: a(1) b(1))
  finally show ?thesis by simp
qed

lemma point_units_code_points:
  "isWellFormed s \<Longrightarrow> concat (map point_units (code_points s)) = s"
  by (induction s rule: code_points.induct)
    (auto simp: point_units_unit point_units_pair split: if_splits)

lemma code_points_inj:
  "isWellFormed s \<Longrightarrow> isWellFormed t \<Longrightarrow> code_points s = code_points t \<Longrightarrow> s = t"
  by (metis point_units_code_points)

lemma unit_point_bound: "0 \<le> unit_point c \<and> unit_point c < 0x110000"
  using uint_cu_bounds [of c] by (simp add: unit_point_def)

lemma pair_point_arith:
  fixes a b :: int
  shows "55296 \<le> a \<Longrightarrow> a \<le> 56319 \<Longrightarrow> 56320 \<le> b \<Longrightarrow> b \<le> 57343 \<Longrightarrow>
    0 \<le> 65536 + (a - 55296) * 1024 + (b - 56320) \<and>
    65536 + (a - 55296) * 1024 + (b - 56320) < 1114112"
  by simp

lemma pair_point_bound:
  "is_lead c \<Longrightarrow> is_trail d \<Longrightarrow> 0 \<le> pair_point c d \<and> pair_point c d < 0x110000"
  unfolding pair_point_def in_range_def by (elim conjE) (rule pair_point_arith)

lemma code_points_bound: "list_all (\<lambda>p. 0 \<le> p \<and> p < 0x110000) (code_points s)"
  by (induction s rule: code_points.induct) (simp_all add: unit_point_bound pair_point_bound)

section \<open>UTF-8\<close>

definition utf8_bytes :: "int \<Rightarrow> int list" where
  "utf8_bytes p =
     (if p < 0x80 then [p]
      else if p < 0x800 then [0xC0 + p div 64, 0x80 + p mod 64]
      else if p < 0x10000 then [0xE0 + p div 4096, 0x80 + p div 64 mod 64, 0x80 + p mod 64]
      else [0xF0 + p div 262144, 0x80 + p div 4096 mod 64, 0x80 + p div 64 mod 64, 0x80 + p mod 64])"

text \<open>\<open>new TextEncoder().encode(s)\<close> and its \<open>length\<close>.\<close>

definition utf8 :: "jsstr \<Rightarrow> int list" where
  "utf8 s = concat (map utf8_bytes (code_points s))"

definition byteLength :: "jsstr \<Rightarrow> int" where
  "byteLength s = int (length (utf8 s))"

fun utf8_read :: "int list \<Rightarrow> (int \<times> int list) option" where
  "utf8_read (b # r) =
     (if b < 0x80 then Some (b, r)
      else if b < 0xE0 then
        (case r of c1 # r' \<Rightarrow> Some ((b - 0xC0) * 64 + (c1 - 0x80), r') | _ \<Rightarrow> None)
      else if b < 0xF0 then
        (case r of c1 # c2 # r' \<Rightarrow> Some ((b - 0xE0) * 4096 + (c1 - 0x80) * 64 + (c2 - 0x80), r')
         | _ \<Rightarrow> None)
      else
        (case r of c1 # c2 # c3 # r' \<Rightarrow>
           Some ((b - 0xF0) * 262144 + (c1 - 0x80) * 4096 + (c2 - 0x80) * 64 + (c3 - 0x80), r')
         | _ \<Rightarrow> None))"
| "utf8_read [] = None"

lemma base64_2: "p div 64 * 64 + p mod 64 = (p::int)"
  by simp

lemma base64_3: "p div 4096 * 4096 + p div 64 mod 64 * 64 + p mod 64 = (p::int)"
proof -
  have "p div 4096 * 4096 + p div 64 mod 64 * 64 = p div 64 * 64"
  proof -
    have "p div 4096 = p div 64 div 64" by (simp add: div_mult2_eq [symmetric])
    then have "p div 4096 * 64 + p div 64 mod 64 = p div 64" by simp
    then have "(p div 4096 * 64 + p div 64 mod 64) * 64 = p div 64 * 64" by simp
    then show ?thesis by (simp add: add_mult_distrib)
  qed
  then show ?thesis by simp
qed

lemma base64_4:
  "p div 262144 * 262144 + p div 4096 mod 64 * 4096 + p div 64 mod 64 * 64 + p mod 64 = (p::int)"
proof -
  have "p div 262144 = p div 4096 div 64" by (simp add: div_mult2_eq [symmetric])
  then have "p div 262144 * 64 + p div 4096 mod 64 = p div 4096" by simp
  then have "(p div 262144 * 64 + p div 4096 mod 64) * 4096 = p div 4096 * 4096" by simp
  then have "p div 262144 * 262144 + p div 4096 mod 64 * 4096 = p div 4096 * 4096"
    by (simp add: add_mult_distrib)
  then show ?thesis using base64_3 [of p] by simp
qed

lemma utf8_read_2:
  "0 \<le> q \<Longrightarrow> q < 32 \<Longrightarrow> utf8_read ((0xC0 + q) # (0x80 + x) # r) = Some (q * 64 + x, r)"
  by simp

lemma utf8_read_3:
  "0 \<le> q \<Longrightarrow> q < 16 \<Longrightarrow>
     utf8_read ((0xE0 + q) # (0x80 + x) # (0x80 + y) # r) = Some (q * 4096 + x * 64 + y, r)"
  by simp

lemma utf8_read_4:
  "0 \<le> q \<Longrightarrow>
     utf8_read ((0xF0 + q) # (0x80 + x) # (0x80 + y) # (0x80 + z) # r) =
       Some (q * 262144 + x * 4096 + y * 64 + z, r)"
  by simp

lemma utf8_read_bytes:
  assumes p: "0 \<le> p \<and> p < 0x110000"
  shows "utf8_read (utf8_bytes p @ r) = Some (p, r)"
proof -
  consider "p < 0x80" | "0x80 \<le> p" "p < 0x800" | "0x800 \<le> p" "p < 0x10000" | "0x10000 \<le> p"
    by linarith
  then show ?thesis
  proof cases
    case 1
    then show ?thesis by (simp add: utf8_bytes_def)
  next
    case 2
    then have eq: "utf8_bytes p = [0xC0 + p div 64, 0x80 + p mod 64]"
      by (simp add: utf8_bytes_def)
    from 2 have "0 \<le> p div 64" and "p div 64 < 32" by linarith+
    from utf8_read_2 [OF this, of "p mod 64" r] show ?thesis
      by (simp only: eq append.simps base64_2)
  next
    case 3
    then have eq: "utf8_bytes p = [0xE0 + p div 4096, 0x80 + p div 64 mod 64, 0x80 + p mod 64]"
      by (simp add: utf8_bytes_def)
    from 3 have "0 \<le> p div 4096" and "p div 4096 < 16" by linarith+
    from utf8_read_3 [OF this, of "p div 64 mod 64" "p mod 64" r] show ?thesis
      by (simp only: eq append.simps base64_3)
  next
    case 4
    then have eq: "utf8_bytes p =
        [0xF0 + p div 262144, 0x80 + p div 4096 mod 64, 0x80 + p div 64 mod 64, 0x80 + p mod 64]"
      by (simp add: utf8_bytes_def)
    from 4 have "0 \<le> p div 262144" by linarith
    from utf8_read_4 [OF this, of "p div 4096 mod 64" "p div 64 mod 64" "p mod 64" r] show ?thesis
      by (simp only: eq append.simps base64_4)
  qed
qed

lemma utf8_bytes_nonempty: "utf8_bytes p \<noteq> []"
  by (simp add: utf8_bytes_def)

lemma utf8_inj:
  assumes "isWellFormed s" and "isWellFormed t" and "utf8 s = utf8 t"
  shows "s = t"
proof -
  have "code_points s = code_points t"
    using utf8_read_bytes utf8_bytes_nonempty code_points_bound code_points_bound
      assms(3) [unfolded utf8_def]
    by (rule concat_map_decodable_inj)
  then show ?thesis using assms code_points_inj by blast
qed

lemma utf8_byte_bound:
  assumes "0 \<le> p" and "p < 0x110000" and "b \<in> set (utf8_bytes p)"
  shows "0 \<le> b \<and> b < 256"
proof -
  have mod: "0 \<le> 0x80 + x mod 64 \<and> 0x80 + x mod 64 < 256" for x :: int
    using pos_mod_bound [of 64 x] pos_mod_sign [of 64 x] by linarith
  consider "p < 0x80" | "0x80 \<le> p" "p < 0x800" | "0x800 \<le> p" "p < 0x10000" | "0x10000 \<le> p"
    by linarith
  then show ?thesis
  proof cases
    case 1
    with assms show ?thesis by (simp add: utf8_bytes_def)
  next
    case 2
    then have "0 \<le> 0xC0 + p div 64 \<and> 0xC0 + p div 64 < 256" by linarith
    with 2 assms mod show ?thesis by (auto simp: utf8_bytes_def)
  next
    case 3
    then have "0 \<le> 0xE0 + p div 4096 \<and> 0xE0 + p div 4096 < 256" by linarith
    with 3 assms mod show ?thesis by (auto simp: utf8_bytes_def)
  next
    case 4
    then have "0 \<le> 0xF0 + p div 262144 \<and> 0xF0 + p div 262144 < 256"
      using assms(2) by linarith
    with 4 assms mod show ?thesis by (auto simp: utf8_bytes_def)
  qed
qed

lemma utf8_bound: "list_all (\<lambda>b. 0 \<le> b \<and> b < 256) (utf8 s)"
  using code_points_bound [of s] utf8_byte_bound
  by (fastforce simp: utf8_def list_all_iff)

lemma utf8_bytes_length: "1 \<le> length (utf8_bytes p) \<and> length (utf8_bytes p) \<le> 4"
  by (simp add: utf8_bytes_def)

lemma byteLength_Nil [simp]: "byteLength [] = 0"
  by (simp add: byteLength_def utf8_def)

text \<open>ASCII text is one byte per code unit; any text is at most three bytes per code unit.\<close>

lemma code_points_ascii: "list_all (in_range 0 127) s \<Longrightarrow> code_points s = map uint s"
  by (induction s rule: code_points.induct) (auto simp: in_range_def unit_point_def)

lemma byteLength_ascii: "list_all (in_range 0 127) s \<Longrightarrow> byteLength s = int (length s)"
proof -
  assume s: "list_all (in_range 0 127) s"
  then have "utf8 s = concat (map (\<lambda>c. [uint c]) s)"
    unfolding utf8_def code_points_ascii [OF s] map_map
    by (intro arg_cong [where f = concat] map_cong)
      (auto simp: utf8_bytes_def in_range_def list_all_iff)
  then show ?thesis by (simp add: byteLength_def length_concat comp_def sum_list_triv)
qed

section \<open>encodeURIComponent\<close>

definition uri_unreserved :: "int \<Rightarrow> bool" where
  "uri_unreserved b \<longleftrightarrow> (48 \<le> b \<and> b \<le> 57) \<or> (65 \<le> b \<and> b \<le> 90) \<or> (97 \<le> b \<and> b \<le> 122)
     \<or> b \<in> {45, 95, 46, 33, 126, 42, 39, 40, 41}"

definition hex_upper :: "int \<Rightarrow> code_unit" where
  "hex_upper d = of_int (if d < 10 then 48 + d else 55 + d)"

definition hex_upper_val :: "code_unit \<Rightarrow> int" where
  "hex_upper_val c = (if uint c < 58 then uint c - 48 else uint c - 55)"

definition uri_escape :: "int \<Rightarrow> jsstr" where
  "uri_escape b =
     (if uri_unreserved b then [of_int b] else [37, hex_upper (b div 16), hex_upper (b mod 16)])"

text \<open>\<open>None\<close> is the \<open>URIError\<close> thrown at a lone surrogate.\<close>

definition encodeURIComponent :: "jsstr \<Rightarrow> jsstr option" where
  "encodeURIComponent s =
     (if isWellFormed s then Some (concat (map uri_escape (utf8 s))) else None)"

fun uri_read :: "jsstr \<Rightarrow> (int \<times> jsstr) option" where
  "uri_read (c # r) =
     (if c = 37 then
        (case r of h # l # r' \<Rightarrow> Some (hex_upper_val h * 16 + hex_upper_val l, r') | _ \<Rightarrow> None)
      else Some (uint c, r))"
| "uri_read [] = None"

lemma uint_hex_upper: "0 \<le> d \<Longrightarrow> d < 16 \<Longrightarrow> uint (hex_upper d) = (if d < 10 then 48 + d else 55 + d)"
  unfolding hex_upper_def by (rule uint_of_int_cu) simp_all

lemma hex_upper_val [simp]: "0 \<le> d \<Longrightarrow> d < 16 \<Longrightarrow> hex_upper_val (hex_upper d) = d"
  by (simp add: hex_upper_val_def uint_hex_upper)

lemma uri_read_escape: "0 \<le> b \<and> b < 256 \<Longrightarrow> uri_read (uri_escape b @ r) = Some (b, r)"
proof -
  assume b: "0 \<le> b \<and> b < 256"
  show ?thesis
  proof (cases "uri_unreserved b")
    case True
    then have "uint (of_int b :: code_unit) = b" and "b \<noteq> 37"
      using b by (auto simp: uint_of_int_cu uri_unreserved_def)
    then have "(of_int b :: code_unit) \<noteq> 37" by fastforce
    with True \<open>uint (of_int b :: code_unit) = b\<close> show ?thesis by (simp add: uri_escape_def)
  next
    case False
    have "b div 16 < 16" and "0 \<le> b div 16" using b by linarith+
    with False show ?thesis by (simp add: uri_escape_def)
  qed
qed

lemma encodeURIComponent_inj:
  assumes "encodeURIComponent s = Some e" and "encodeURIComponent t = Some e"
  shows "s = t"
proof -
  have wf: "isWellFormed s" "isWellFormed t"
    and eq: "concat (map uri_escape (utf8 s)) = concat (map uri_escape (utf8 t))"
    using assms by (auto simp: encodeURIComponent_def split: if_splits)
  have ne: "uri_escape b \<noteq> []" for b by (simp add: uri_escape_def)
  have "utf8 s = utf8 t"
    using uri_read_escape ne utf8_bound utf8_bound eq by (rule concat_map_decodable_inj)
  with wf show ?thesis by (rule utf8_inj)
qed

lemma uri_escape_no_colon: "0 \<le> b \<and> b < 256 \<Longrightarrow> 58 \<notin> set (uri_escape b)"
proof -
  assume b: "0 \<le> b \<and> b < 256"
  have hex: "hex_upper d \<noteq> 58" if "0 \<le> d" "d < 16" for d
  proof
    assume "hex_upper d = 58"
    then have "uint (hex_upper d) = 58" by simp
    with that show False using uint_hex_upper [of d] by (simp split: if_splits)
  qed
  have "0 \<le> b div 16" and "b div 16 < 16" using b by linarith+
  then have "hex_upper (b div 16) \<noteq> 58" by (rule hex)
  moreover have "hex_upper (b mod 16) \<noteq> 58" by (rule hex) simp_all
  moreover have "(of_int b :: code_unit) \<noteq> 58" if "uri_unreserved b"
  proof
    assume "(of_int b :: code_unit) = 58"
    then have "b = 58" using uint_of_int_cu [of b] b by simp
    with that show False by (simp add: uri_unreserved_def)
  qed
  ultimately show ?thesis by (auto simp: uri_escape_def)
qed

lemma encodeURIComponent_no_colon: "encodeURIComponent s = Some e \<Longrightarrow> 58 \<notin> set e"
  using utf8_bound [of s]
  by (auto simp: encodeURIComponent_def list_all_iff uri_escape_no_colon split: if_splits
      dest: uri_escape_no_colon)

end
