(* ===== verification/Js_Json.thy ===== *)
theory Js_Json
  imports Js_Number Js_Encoding
begin

text \<open>
  \<open>JSON.parse\<close> and \<open>JSON.stringify\<close>. A value is a tree whose objects keep their members in
  order; \<open>JUndef\<close> is \<open>undefined\<close>, which \<open>JSON.parse\<close> never returns and \<open>JSON.stringify\<close>
  drops from objects. The parser recurses on a fuel that \<open>JSON_parse\<close> sets to the length of the
  text plus one, enough for every text since each call consumes a character; the round trip
  below shows it is enough for every printed value.
\<close>

datatype json =
    JUndef
  | JNull
  | JBool bool
  | JNum number
  | JStr jsstr
  | JArr "json list"
  | JObj "(jsstr \<times> json) list"

text \<open>Property access: \<open>undefined\<close> for a missing member and on anything but an object.\<close>

definition jget :: "jsstr \<Rightarrow> json \<Rightarrow> json" where
  "jget k v =
     (case v of JObj ms \<Rightarrow> (case map_of ms k of Some x \<Rightarrow> x | None \<Rightarrow> JUndef) | _ \<Rightarrow> JUndef)"

section \<open>Printing\<close>

definition hex_lower :: "int \<Rightarrow> code_unit" where
  "hex_lower d = of_int (if d < 10 then 48 + d else 87 + d)"

definition hex4 :: "code_unit \<Rightarrow> jsstr" where
  "hex4 c = [92, 117, hex_lower (uint c div 4096), hex_lower (uint c div 256 mod 16),
             hex_lower (uint c div 16 mod 16), hex_lower (uint c mod 16)]"

definition quote_unit :: "code_unit \<Rightarrow> jsstr" where
  "quote_unit c =
     (if c = 34 then [92, 34] else if c = 92 then [92, 92]
      else if c = 8 then [92, 98] else if c = 12 then [92, 102]
      else if c = 10 then [92, 110] else if c = 13 then [92, 114] else if c = 9 then [92, 116]
      else if in_range 0 31 c \<or> is_surrogate c then hex4 c
      else [c])"

fun quote_body :: "jsstr \<Rightarrow> jsstr" where
  "quote_body [] = []"
| "quote_body [c] = quote_unit c"
| "quote_body (c # d # s) =
     (if is_lead c \<and> is_trail d then c # d # quote_body s
      else quote_unit c @ quote_body (d # s))"

definition quote :: "jsstr \<Rightarrow> jsstr" where
  "quote s = 34 # quote_body s @ [34]"

fun JSON_text :: "json \<Rightarrow> jsstr"
  and JSON_elems :: "json list \<Rightarrow> jsstr list"
  and JSON_members :: "(jsstr \<times> json) list \<Rightarrow> jsstr list" where
  "JSON_text JUndef = js ''null''"
| "JSON_text JNull = js ''null''"
| "JSON_text (JBool b) = (if b then js ''true'' else js ''false'')"
| "JSON_text (JNum x) = (if isFinite x then number_text x else js ''null'')"
| "JSON_text (JStr s) = quote s"
| "JSON_text (JArr vs) = 91 # join [44] (JSON_elems vs) @ [93]"
| "JSON_text (JObj ms) = 123 # join [44] (JSON_members ms) @ [125]"
| "JSON_elems [] = []"
| "JSON_elems (v # vs) = JSON_text v # JSON_elems vs"
| "JSON_members [] = []"
| "JSON_members ((k, v) # ms) =
     (if v = JUndef then JSON_members ms else (quote k @ 58 # JSON_text v) # JSON_members ms)"

definition JSON_stringify :: "json \<Rightarrow> jsstr option" where
  "JSON_stringify v = (if v = JUndef then None else Some (JSON_text v))"

section \<open>Parsing\<close>

definition is_json_ws :: "code_unit \<Rightarrow> bool" where
  "is_json_ws c \<longleftrightarrow> c = 32 \<or> c = 9 \<or> c = 10 \<or> c = 13"

definition skip :: "jsstr \<Rightarrow> jsstr" where
  "skip s = dropWhile is_json_ws s"

definition hex_val :: "code_unit \<Rightarrow> int option" where
  "hex_val c =
     (if is_digit c then Some (uint c - 48)
      else if in_range 97 102 c then Some (uint c - 87)
      else if in_range 65 70 c then Some (uint c - 55) else None)"

definition escape_val :: "code_unit \<Rightarrow> code_unit option" where
  "escape_val e =
     (if e = 34 then Some 34 else if e = 92 then Some 92 else if e = 47 then Some 47
      else if e = 98 then Some 8 else if e = 102 then Some 12 else if e = 110 then Some 10
      else if e = 114 then Some 13 else if e = 116 then Some 9 else None)"

definition unit_hex :: "code_unit \<Rightarrow> code_unit \<Rightarrow> code_unit \<Rightarrow> code_unit \<Rightarrow> code_unit option" where
  "unit_hex a b c d =
     (case (hex_val a, hex_val b, hex_val c, hex_val d) of
        (Some w, Some x, Some y, Some z) \<Rightarrow> Some (of_int (w * 4096 + x * 256 + y * 16 + z))
      | _ \<Rightarrow> None)"

definition push :: "code_unit \<Rightarrow> (jsstr \<times> jsstr) option \<Rightarrow> (jsstr \<times> jsstr) option" where
  "push c = map_option (\<lambda>(s, r). (c # s, r))"

text \<open>The rest of a string literal, after its opening quote.\<close>

function pstr :: "jsstr \<Rightarrow> (jsstr \<times> jsstr) option" where
  "pstr [] = None"
| "pstr (c # r) =
     (if c = 34 then Some ([], r)
      else if c = 92 then
        (if r = [] then None
         else if hd r = 117 then
           (if length r < 5 then None
            else case unit_hex (r ! 1) (r ! 2) (r ! 3) (r ! 4) of
                   None \<Rightarrow> None
                 | Some x \<Rightarrow> push x (pstr (drop 5 r)))
         else case escape_val (hd r) of None \<Rightarrow> None | Some x \<Rightarrow> push x (pstr (tl r)))
      else if in_range 0 31 c then None
      else push c (pstr r))"
  by pat_completeness auto
termination
  by (relation "measure length") auto

declare pstr.simps(2) [simp del]

definition pnum :: "jsstr \<Rightarrow> (json \<times> jsstr) option" where
  "pnum s =
     (let neg = (s \<noteq> [] \<and> hd s = 45); t = (if neg then tl s else s); d = scan_decimal t
      in if int_part d = [] \<or> (hd (int_part d) = 48 \<and> length (int_part d) \<noteq> 1)
            \<or> (has_point d \<and> frac_part d = [])
         then None
         else let x = to_double (scanned_value d)
              in Some (JNum (if neg then negate x else x), rest d))"

definition keyword :: "jsstr \<Rightarrow> json \<Rightarrow> jsstr \<Rightarrow> (json \<times> jsstr) option" where
  "keyword w v s = (if startsWith s w then Some (v, drop (length w) s) else None)"

text \<open>A repeated member keeps its first place and its last value.\<close>

definition make_object :: "(jsstr \<times> json) list \<Rightarrow> json" where
  "make_object ms = JObj (fold (\<lambda>(k, v) acc. AList.update k v acc) ms [])"

fun pval :: "nat \<Rightarrow> jsstr \<Rightarrow> (json \<times> jsstr) option"
  and pelems :: "nat \<Rightarrow> jsstr \<Rightarrow> (json list \<times> jsstr) option"
  and pmembers :: "nat \<Rightarrow> jsstr \<Rightarrow> ((jsstr \<times> json) list \<times> jsstr) option" where
  "pval 0 s = None"
| "pval (Suc n) s =
     (case skip s of
        [] \<Rightarrow> None
      | c # r \<Rightarrow>
          if c = 123 then
            (case skip r of
               [] \<Rightarrow> None
             | d # r' \<Rightarrow> if d = 125 then Some (JObj [], r')
                       else map_option (\<lambda>(ms, r''). (make_object ms, r'')) (pmembers n (d # r')))
          else if c = 91 then
            (case skip r of
               [] \<Rightarrow> None
             | d # r' \<Rightarrow> if d = 93 then Some (JArr [], r')
                       else map_option (\<lambda>(vs, r''). (JArr vs, r'')) (pelems n (d # r')))
          else if c = 34 then map_option (\<lambda>(x, r'). (JStr x, r')) (pstr r)
          else if c = 116 then keyword (js ''true'') (JBool True) (c # r)
          else if c = 102 then keyword (js ''false'') (JBool False) (c # r)
          else if c = 110 then keyword (js ''null'') JNull (c # r)
          else pnum (c # r))"
| "pelems 0 s = None"
| "pelems (Suc n) s =
     (case pval n s of
        None \<Rightarrow> None
      | Some (v, r) \<Rightarrow>
          (case skip r of
             [] \<Rightarrow> None
           | d # r' \<Rightarrow> if d = 44 then map_option (\<lambda>(vs, r''). (v # vs, r'')) (pelems n r')
                     else if d = 93 then Some ([v], r') else None))"
| "pmembers 0 s = None"
| "pmembers (Suc n) s =
     (case skip s of
        [] \<Rightarrow> None
      | c # r \<Rightarrow>
          if c \<noteq> 34 then None
          else (case pstr r of
                  None \<Rightarrow> None
                | Some (k, r1) \<Rightarrow>
                    (case skip r1 of
                       [] \<Rightarrow> None
                     | d # r2 \<Rightarrow>
                         if d \<noteq> 58 then None
                         else (case pval n r2 of
                                 None \<Rightarrow> None
                               | Some (v, r3) \<Rightarrow>
                                   (case skip r3 of
                                      [] \<Rightarrow> None
                                    | e # r4 \<Rightarrow>
                                        if e = 44 then
                                          map_option (\<lambda>(ms, r5). ((k, v) # ms, r5)) (pmembers n r4)
                                        else if e = 125 then Some ([(k, v)], r4) else None)))))"

text \<open>\<open>None\<close> is the \<open>SyntaxError\<close>.\<close>

definition JSON_parse :: "jsstr \<Rightarrow> json option" where
  "JSON_parse s =
     (case pval (Suc (length s)) s of
        Some (v, r) \<Rightarrow> if skip r = [] then Some v else None
      | None \<Rightarrow> None)"

section \<open>The round trip\<close>

text \<open>Values the source prints: no \<open>undefined\<close>, integers up to \<open>2 ^ 53\<close>, distinct keys.\<close>

definition small_int :: "number \<Rightarrow> bool" where
  "small_int x \<longleftrightarrow> (\<exists>n. x = Fin (of_int n) \<and> \<bar>n\<bar> \<le> safe_bound)"

fun printable :: "json \<Rightarrow> bool" where
  "printable JUndef = False"
| "printable JNull = True"
| "printable (JBool b) = True"
| "printable (JNum x) = small_int x"
| "printable (JStr s) = True"
| "printable (JArr vs) = list_all printable vs"
| "printable (JObj ms) = (distinct (map fst ms) \<and> list_all printable (map snd ms))"

fun need :: "json \<Rightarrow> nat"
  and needs :: "json list \<Rightarrow> nat"
  and needm :: "(jsstr \<times> json) list \<Rightarrow> nat" where
  "need (JArr vs) = Suc (needs vs)"
| "need (JObj ms) = Suc (needm ms)"
| "need _ = 1"
| "needs [] = 0"
| "needs (v # vs) = Suc (need v + needs vs)"
| "needm [] = 0"
| "needm ((k, v) # ms) = Suc (need v + needm ms)"

lemma uint_hex_lower: "0 \<le> d \<Longrightarrow> d < 16 \<Longrightarrow> uint (hex_lower d) = (if d < 10 then 48 + d else 87 + d)"
  unfolding hex_lower_def by (rule uint_of_int_cu) simp_all

lemma hex_val_lower: "0 \<le> d \<Longrightarrow> d < 16 \<Longrightarrow> hex_val (hex_lower d) = Some d"
  by (simp add: hex_val_def in_range_def uint_hex_lower)

lemma base16_4:
  fixes n :: int
  shows "n div 4096 * 4096 + n div 256 mod 16 * 256 + n div 16 mod 16 * 16 + n mod 16 = n"
proof -
  have a: "n div 16 * 16 + n mod 16 = n" by simp
  have b: "n div 256 * 16 + n div 16 mod 16 = n div 16"
    using div_mult_mod_eq [of "n div 16" 16] by (simp add: zdiv_zmult2_eq [symmetric])
  have c: "n div 4096 * 16 + n div 256 mod 16 = n div 256"
    using div_mult_mod_eq [of "n div 256" 16] by (simp add: zdiv_zmult2_eq [symmetric])
  show ?thesis using a b c by linarith
qed

lemma unit_hex_hex4:
  "unit_hex (hex_lower (uint c div 4096)) (hex_lower (uint c div 256 mod 16))
     (hex_lower (uint c div 16 mod 16)) (hex_lower (uint c mod 16)) = Some c"
proof -
  have "0 \<le> uint c div 4096" and "uint c div 4096 < 16"
    using uint_cu_bounds [of c] by linarith+
  then show ?thesis by (simp add: unit_hex_def hex_val_lower base16_4)
qed

lemma pstr_hex4: "pstr (hex4 c @ r) = push c (pstr r)"
  unfolding hex4_def by (simp add: pstr.simps(2) [of 92] unit_hex_hex4)

lemma pstr_quote_unit: "pstr (quote_unit c @ r) = push c (pstr r)"
proof (cases "in_range 0 31 c \<or> is_surrogate c \<or> c = 34 \<or> c = 92")
  case True
  then show ?thesis
    by (auto simp: quote_unit_def pstr_hex4 pstr.simps(2) [of 92] escape_val_def)
next
  case False
  moreover from this have "c \<noteq> 8" "c \<noteq> 12" "c \<noteq> 10" "c \<noteq> 13" "c \<noteq> 9"
    by (auto simp: in_range_def)
  ultimately show ?thesis by (simp add: quote_unit_def pstr.simps(2) [of c])
qed

lemma pstr_plain: "\<not> in_range 0 31 c \<Longrightarrow> c \<noteq> 34 \<Longrightarrow> c \<noteq> 92 \<Longrightarrow> pstr (c # r) = push c (pstr r)"
  by (simp add: pstr.simps(2))

lemma surrogate_plain: "is_surrogate c \<Longrightarrow> \<not> in_range 0 31 c \<and> c \<noteq> 34 \<and> c \<noteq> 92"
  by (auto simp: in_range_def)

lemma lead_trail_surrogate: "is_lead c \<Longrightarrow> is_surrogate c" "is_trail c \<Longrightarrow> is_surrogate c"
  by (simp_all add: in_range_def)

lemma pstr_quote: "pstr (quote_body s @ 34 # r) = Some (s, r)"
proof (induction s rule: quote_body.induct)
  case 1
  then show ?case by (simp add: pstr.simps(2))
next
  case (2 c)
  then show ?case by (simp add: pstr_quote_unit pstr.simps(2) [of 34] push_def)
next
  case (3 c d s)
  show ?case
  proof (cases "is_lead c \<and> is_trail d")
    case True
    then have "pstr (c # d # quote_body s @ 34 # r) = push c (push d (pstr (quote_body s @ 34 # r)))"
      using surrogate_plain lead_trail_surrogate by (simp add: pstr_plain)
    with True 3 show ?thesis by (simp add: push_def)
  next
    case False
    then have "quote_body (c # d # s) @ 34 # r = quote_unit c @ quote_body (d # s) @ 34 # r" by auto
    with 3 False show ?thesis by (simp only: pstr_quote_unit) (simp add: push_def)
  qed
qed

text \<open>What may follow a value inside a printed text.\<close>

definition delim :: "jsstr \<Rightarrow> bool" where
  "delim r \<longleftrightarrow> r = [] \<or> hd r \<in> {44, 93, 125}"

lemma delim_simps [simp]: "delim []" "delim (44 # r)" "delim (93 # r)" "delim (125 # r)"
  by (simp_all add: delim_def)

lemma delim_not_digit: "delim r \<Longrightarrow> dropWhile is_digit r = r \<and> takeWhile is_digit r = []"
  by (cases r) (auto simp: delim_def in_range_def)

lemma scan_decimal_digits:
  assumes "list_all is_digit ds" and "delim r"
  shows "scan_decimal (ds @ r) =
    \<lparr>int_part = ds, has_point = False, frac_part = [], exponent = 0, rest = r\<rparr>"
proof -
  have t: "takeWhile is_digit (ds @ r) = ds" and d: "dropWhile is_digit (ds @ r) = r"
    using assms delim_not_digit [OF assms(2)]
    by (simp_all add: list_all_iff takeWhile_append dropWhile_append)
  have "scan_exponent r = (0, r)" and "\<not> (r \<noteq> [] \<and> hd r = 46)"
    using assms(2) by (cases r; auto simp: scan_exponent_def delim_def)+
  then show ?thesis by (auto simp: scan_decimal_def t d Let_def)
qed

lemma dec_text_scan:
  assumes "0 \<le> n" and "n \<le> safe_bound" and "delim r"
  shows "let d = scan_decimal (dec_text n @ r) in
    int_part d \<noteq> [] \<and> (hd (int_part d) = 48 \<longrightarrow> length (int_part d) = 1) \<and> \<not> has_point d
    \<and> to_double (scanned_value d) = Fin (of_int n) \<and> rest d = r"
proof -
  have "hd (dec_text n) = 48 \<longrightarrow> length (dec_text n) = 1"
  proof (cases "n = 0")
    case True
    then show ?thesis by (simp add: dec_text.simps)
  next
    case False
    then have "digit_val (hd (dec_text n)) \<noteq> 0"
      using assms(1) dec_text_no_leading_zero [of n] by simp
    then show ?thesis by (auto simp: digit_val_def)
  qed
  then show ?thesis
    using scan_decimal_digits [OF dec_text_digits [OF assms(1)] assms(3)] assms
    by (simp add: Let_def scanned_value_def pow10_def to_double_nonneg)
qed

lemma dec_text_hd: "0 \<le> n \<Longrightarrow> is_digit (hd (dec_text n))"
  using dec_text_digits [of n] by (cases "dec_text n") auto

lemma pnum_int_text:
  assumes "\<bar>n\<bar> \<le> safe_bound" and "delim r"
  shows "pnum (int_text n @ r) = Some (JNum (Fin (of_int n)), r)"
proof (cases "n < 0")
  case True
  then have "to_double (scanned_value (scan_decimal (dec_text (- n) @ r))) = Fin (of_int (- n))"
    and "pnum (int_text n @ r) =
      Some (JNum (negate (to_double (scanned_value (scan_decimal (dec_text (- n) @ r))))), r)"
    using dec_text_scan [of "- n" r] assms by (auto simp: pnum_def int_text_def Let_def)
  then show ?thesis by (simp add: negate_def)
next
  case False
  then have "hd (dec_text n @ r) \<noteq> 45"
    using dec_text_hd [of n] by (auto simp: in_range_def)
  then show ?thesis
    using False dec_text_scan [of n r] assms by (auto simp: pnum_def int_text_def Let_def)
qed

lemma skip_plain: "\<not> is_json_ws c \<Longrightarrow> skip (c # r) = c # r"
  by (simp add: skip_def)

lemma skip_delim: "delim r \<Longrightarrow> skip r = r"
  by (cases r) (auto simp: delim_def skip_def is_json_ws_def)

lemma skip_punct [simp]:
  "skip (44 # r) = 44 # r" "skip (93 # r) = 93 # r" "skip (125 # r) = 125 # r"
  "skip (58 # r) = 58 # r" "skip (34 # r) = 34 # r" "skip (123 # r) = 123 # r"
  "skip (91 # r) = 91 # r"
  by (simp_all add: skip_def is_json_ws_def)

lemma number_text_small: "\<bar>n\<bar> \<le> safe_bound \<Longrightarrow> number_text (Fin (of_int n)) = int_text n"
  by (auto simp: number_text_def simp flip: of_int_abs)

lemma int_text_hd: "hd (int_text n) = 45 \<or> is_digit (hd (int_text n))"
  using dec_text_hd [of n] by (auto simp: int_text_def)

lemma int_text_nonempty [simp]: "int_text n \<noteq> []"
  by (simp add: int_text_def)

lemma pval_number:
  assumes "\<bar>n\<bar> \<le> safe_bound" and "delim r"
  shows "pval (Suc m) (int_text n @ r) = Some (JNum (Fin (of_int n)), r)"
proof -
  obtain c t where ct: "int_text n = c # t" by (cases "int_text n") auto
  then have c: "c = 45 \<or> is_digit c" using int_text_hd [of n] by simp
  then have "skip (int_text n @ r) = c # t @ r"
    using ct by (auto simp: skip_def is_json_ws_def in_range_def)
  moreover have "c \<noteq> 123 \<and> c \<noteq> 91 \<and> c \<noteq> 34 \<and> c \<noteq> 116 \<and> c \<noteq> 102 \<and> c \<noteq> 110"
    using c by (auto simp: in_range_def)
  ultimately show ?thesis using pnum_int_text [OF assms] ct by simp
qed

lemma fold_update_distinct:
  assumes "distinct (map fst (acc @ ms))"
  shows "fold (\<lambda>(k, v) a. AList.update k v a) ms acc = acc @ ms"
  using assms
proof (induction ms arbitrary: acc)
  case Nil
  then show ?case by simp
next
  case (Cons m ms)
  obtain k v where m: "m = (k, v)" by (cases m)
  have "k \<notin> fst ` set acc" using Cons.prems m by auto
  then have "AList.update k v acc = acc @ [(k, v)]" by (induction acc) auto
  moreover have "distinct (map fst ((acc @ [(k, v)]) @ ms))" using Cons.prems m by auto
  ultimately show ?case using Cons.IH [of "acc @ [(k, v)]"] m by simp
qed

lemma make_object_distinct: "distinct (map fst ms) \<Longrightarrow> make_object ms = JObj ms"
  using fold_update_distinct [of "[]" ms] by (simp add: make_object_def)

lemma quote_append: "quote k @ r = 34 # quote_body k @ 34 # r"
  by (simp add: quote_def)

lemma JSON_text_start: "v \<noteq> JUndef \<Longrightarrow> printable v \<Longrightarrow>
    JSON_text v \<noteq> [] \<and> \<not> is_json_ws (hd (JSON_text v)) \<and> hd (JSON_text v) \<notin> {93, 125}"
proof (cases v)
  case (JNum x)
  assume "printable v"
  then obtain n where n: "x = Fin (of_int n)" "\<bar>n\<bar> \<le> safe_bound"
    using JNum by (auto simp: small_int_def)
  then have "JSON_text v = int_text n"
    using JNum by (simp add: isFinite_def number_text_small)
  then show ?thesis using int_text_hd [of n] by (auto simp: is_json_ws_def in_range_def)
qed (auto simp: quote_def is_json_ws_def)

lemma join_Cons: "ts \<noteq> [] \<Longrightarrow> join sep (t # ts) = t @ sep @ join sep ts"
  by (cases ts) auto

lemma JSON_elems_eq_Nil [simp]: "JSON_elems vs = [] \<longleftrightarrow> vs = []"
  by (cases vs) auto

lemma JSON_members_eq_Nil: "list_all printable (map snd ms) \<Longrightarrow> JSON_members ms = [] \<longleftrightarrow> ms = []"
  by (cases ms) (auto split: if_splits)

lemma printable_not_undef [dest]: "printable v \<Longrightarrow> v \<noteq> JUndef"
  by auto

lemma pval_pelems_pmembers:
  "printable v \<Longrightarrow> need v \<le> n \<Longrightarrow> delim r \<Longrightarrow> pval n (JSON_text v @ r) = Some (v, r)"
  "list_all printable vs \<Longrightarrow> vs \<noteq> [] \<Longrightarrow> needs vs \<le> n \<Longrightarrow>
     pelems n (join [44] (JSON_elems vs) @ 93 # r') = Some (vs, r')"
  "list_all printable (map snd ms) \<Longrightarrow> ms \<noteq> [] \<Longrightarrow> needm ms \<le> n \<Longrightarrow>
     pmembers n (join [44] (JSON_members ms) @ 125 # r') = Some (ms, r')"
proof (induction v and vs and ms arbitrary: n r and n r' and n r'
    rule: JSON_text_JSON_elems_JSON_members.induct)
  case (4 x)
  then obtain k m where "x = Fin (of_int k)" "\<bar>k\<bar> \<le> safe_bound" "n = Suc m"
    by (cases n) (auto simp: small_int_def)
  with 4 show ?case by (simp add: isFinite_def number_text_small pval_number del: pval.simps)
next
  case (5 s)
  then show ?case by (cases n) (simp_all add: quote_append pstr_quote)
next
  case (6 vs)
  obtain m where n: "n = Suc m" using 6 by (cases n) auto
  show ?case
  proof (cases vs)
    case Nil
    with n show ?thesis by simp
  next
    case (Cons w ws)
    obtain c t where ct: "join [44] (JSON_elems vs) @ 93 # r = c # t" "c \<noteq> 93" "\<not> is_json_ws c"
      using JSON_text_start [of w] 6(2) Cons
      by (cases "JSON_text w"; cases ws) (auto simp: join_Cons)
    have "pelems m (c # t) = Some (vs, r)"
      using 6(1) [of m r] 6(2,3) n Cons ct by simp
    with n ct show ?thesis by (simp add: skip_plain)
  qed
next
  case (7 ms)
  obtain m where n: "n = Suc m" using 7 by (cases n) auto
  show ?case
  proof (cases ms)
    case Nil
    with n show ?thesis by simp
  next
    case (Cons w ws)
    obtain k x where w: "w = (k, x)" by (cases w)
    have px: "printable x" using 7(2) Cons w by simp
    obtain t where ct: "join [44] (JSON_members ms) @ 125 # r = 34 # t"
      using px Cons w JSON_members_eq_Nil [of ws] 7(2)
      by (cases "ws = []") (auto simp: join_Cons quote_def)
    have "pmembers m (34 # t) = Some (ms, r)"
      using 7(1) [of m r] 7(2,3) n Cons ct by simp
    with n ct 7(2) show ?thesis by (simp add: make_object_distinct del: pmembers.simps)
  qed
next
  case (9 v vs)
  then obtain m where n: "n = Suc m" by (cases n) auto
  show ?case
  proof (cases "vs = []")
    case True
    with 9 n show ?thesis by simp
  next
    case False
    have "pval m (JSON_text v @ 44 # join [44] (JSON_elems vs) @ 93 # r') =
        Some (v, 44 # join [44] (JSON_elems vs) @ 93 # r')"
      using 9 n by simp
    moreover have "pelems m (join [44] (JSON_elems vs) @ 93 # r') = Some (vs, r')"
      using 9 n False by simp
    ultimately show ?thesis using n False by (simp add: join_Cons)
  qed
next
  case (11 k v ms)
  then obtain m where n: "n = Suc m" by (cases n) auto
  have pv: "printable v" and nu: "v \<noteq> JUndef" using 11 by auto
  have step: "pval m (JSON_text v @ q) = Some (v, q)" if "delim q" for q
    using 11 n nu that by auto
  show ?case
  proof (cases "ms = []")
    case True
    with n nu step show ?thesis by (simp add: quote_append pstr_quote)
  next
    case False
    then have "JSON_members ms \<noteq> []" using 11 JSON_members_eq_Nil [of ms] by simp
    moreover have "pmembers m (join [44] (JSON_members ms) @ 125 # r') = Some (ms, r')"
      using 11 n nu False by auto
    ultimately show ?thesis using n nu step by (simp add: join_Cons quote_append pstr_quote)
  qed
qed (auto simp: keyword_def startsWith_def skip_def is_json_ws_def gr0_conv_Suc Suc_le_eq elim!: less_natE)

lemma need_le_length:
  "printable v \<Longrightarrow> need v \<le> length (JSON_text v)"
  "list_all printable vs \<Longrightarrow> needs vs \<le> Suc (length (join [44] (JSON_elems vs)))"
  "list_all printable (map snd ms) \<Longrightarrow> needm ms \<le> Suc (length (join [44] (JSON_members ms)))"
proof (induction v and vs and ms rule: JSON_text_JSON_elems_JSON_members.induct)
  case (4 x)
  then show ?case by (auto simp: small_int_def isFinite_def number_text_small Suc_le_eq)
next
  case (9 v vs)
  then show ?case by (cases vs) auto
next
  case (11 k v ms)
  then show ?case
    by (cases "JSON_members ms") (auto simp: join_Cons quote_def JSON_members_eq_Nil)
qed (auto simp: quote_def)

lemma JSON_roundtrip: "printable v \<Longrightarrow> JSON_parse (JSON_text v) = Some v"
  using pval_pelems_pmembers(1) [of v "Suc (length (JSON_text v))" "[]"] need_le_length(1) [of v]
  by (simp add: JSON_parse_def skip_def del: pval.simps)

lemma jget_JObj: "jget k (JObj ms) = (case map_of ms k of Some x \<Rightarrow> x | None \<Rightarrow> JUndef)"
  by (simp add: jget_def)

section \<open>Texts of values\<close>

text \<open>\<open>String(v)\<close>, which patterns and templates apply to what they are given.\<close>

fun json_string :: "json \<Rightarrow> jsstr" where
  "json_string JUndef = js ''undefined''"
| "json_string JNull = js ''null''"
| "json_string (JBool b) = (if b then js ''true'' else js ''false'')"
| "json_string (JNum n) = number_text n"
| "json_string (JStr s) = s"
| "json_string (JArr vs) = join [44] (map (\<lambda>v. if v = JNull \<or> v = JUndef then [] else json_string v) vs)"
| "json_string (JObj ms) = js ''[object Object]''"

end
