(* ===== verification/Zod_Schema.thy ===== *)
theory Zod_Schema
  imports Js_Json
begin

text \<open>
  The schema library \<open>zod\<close> is not part of the repository: its \<open>safeParse\<close> is a parameter of
  every definition that calls it. The schemas are the repository's own declarations, kept as data
  (\<open>schema\<close>, one constructor per combinator the source uses). The locale \<open>zod\<close> states the
  documented behaviour of each combinator; what \<open>z.string().uuid()\<close> and
  \<open>z.string().datetime()\<close> accept stays a parameter. \<open>zod_parse\<close> is a function with that
  behaviour, so the contract can be met, and every property that uses the contract is also shown
  at a concrete input with it.
\<close>

datatype str_check = SMin int | SMax int | SRegex "jsstr \<Rightarrow> bool" | SUuid | SDatetime bool

datatype num_check = NInt | NMin int | NMax int | NPositive

datatype unknown_keys = Strip | Loose

datatype schema =
    ZString "str_check list"
  | ZNumber "num_check list"
  | ZCoerceNumber "num_check list"
  | ZBoolean
  | ZLiteral json
  | ZEnum "jsstr list"
  | ZArray schema "int option"
  | ZTuple "schema list"
  | ZObject unknown_keys "(jsstr \<times> schema) list"
  | ZNullable schema
  | ZOptional schema
  | ZDiscriminated jsstr "schema list"
  | ZRefine schema "json \<Rightarrow> bool"
  | ZTransform schema "json \<Rightarrow> json"
  | ZCatch schema json
  | ZUnion "schema list"
  | ZDefault schema json

type_synonym safe_parse = "schema \<Rightarrow> json \<Rightarrow> json option"

section \<open>The documented behaviour\<close>

fun str_ok :: "(jsstr \<Rightarrow> bool) \<Rightarrow> (bool \<Rightarrow> jsstr \<Rightarrow> bool) \<Rightarrow> jsstr \<Rightarrow> str_check \<Rightarrow> bool" where
  "str_ok uuid dt s (SMin n) = (n \<le> int (length s))"
| "str_ok uuid dt s (SMax n) = (int (length s) \<le> n)"
| "str_ok uuid dt s (SRegex p) = p s"
| "str_ok uuid dt s SUuid = uuid s"
| "str_ok uuid dt s (SDatetime offset) = dt offset s"

text \<open>\<open>z.number()\<close> takes finite numbers; \<open>int()\<close> takes safe integers.\<close>

fun num_ok :: "number \<Rightarrow> num_check \<Rightarrow> bool" where
  "num_ok x NInt = isSafeInteger x"
| "num_ok x (NMin n) = (case x of Fin q \<Rightarrow> of_int n \<le> q | _ \<Rightarrow> False)"
| "num_ok x (NMax n) = (case x of Fin q \<Rightarrow> q \<le> of_int n | _ \<Rightarrow> False)"
| "num_ok x NPositive = (case x of Fin q \<Rightarrow> 0 < q | _ \<Rightarrow> False)"

definition num_result :: "num_check list \<Rightarrow> number \<Rightarrow> json option" where
  "num_result cs x = (if isFinite x \<and> list_all (num_ok x) cs then Some (JNum x) else None)"

text \<open>\<open>Number(value)\<close>: an array is taken as its text, an object's text is no number.\<close>

definition coerce_number :: "json \<Rightarrow> number" where
  "coerce_number v =
     (case v of JStr s \<Rightarrow> Number_of s | JNum x \<Rightarrow> x | JBool b \<Rightarrow> Fin (if b then 1 else 0)
      | JNull \<Rightarrow> Fin 0 | JArr vs \<Rightarrow> Number_of (json_string (JArr vs)) | _ \<Rightarrow> NaN)"

text \<open>The members of a parsed object: those of the schema in its order, undefined results left
  out, then the unknown ones when the object is loose.\<close>

definition object_result ::
    "unknown_keys \<Rightarrow> jsstr list \<Rightarrow> (jsstr \<times> json) list \<Rightarrow> (jsstr \<times> json) list option \<Rightarrow> json option" where
  "object_result mode ks ms r =
     map_option (\<lambda>kvs. JObj (filter (\<lambda>(k, v). v \<noteq> JUndef) kvs @
        (if mode = Loose then filter (\<lambda>(k, v). k \<notin> set ks) ms else []))) r"

definition discriminator :: "jsstr \<Rightarrow> schema \<Rightarrow> json" where
  "discriminator d s =
     (case s of ZObject _ fs \<Rightarrow> (case map_of fs d of Some (ZLiteral l) \<Rightarrow> l | _ \<Rightarrow> JUndef)
      | _ \<Rightarrow> JUndef)"

definition within_max :: "int option \<Rightarrow> 'a list \<Rightarrow> bool" where
  "within_max m xs = (case m of None \<Rightarrow> True | Some n \<Rightarrow> int (length xs) \<le> n)"

definition sequence :: "'a option list \<Rightarrow> 'a list option" where
  "sequence rs = those rs"

lemma sequence_Some:
  "sequence rs = Some ys \<longleftrightarrow> rs = map Some ys"
  unfolding sequence_def
  by (induction rs arbitrary: ys) (auto split: option.splits)

lemma sequence_map_Some:
  "sequence (map f xs) = Some ys \<longleftrightarrow> list_all2 (\<lambda>x y. f x = Some y) xs ys"
  by (auto simp: sequence_Some list_all2_conv_all_nth list_eq_iff_nth_eq)

lemma sequence_simps [simp]:
  "sequence [] = Some []" "sequence (None # rs) = None"
  "sequence (Some x # rs) = map_option ((#) x) (sequence rs)"
  by (simp_all add: sequence_def)

lemma sequence_map_id: "(\<And>x. x \<in> set xs \<Longrightarrow> f x = Some x) \<Longrightarrow> sequence (map f xs) = Some xs"
  by (induction xs) auto

lemma fields_map_of:
  assumes "sequence (map (\<lambda>(k, z). map_option (Pair k) (f k z)) fs) = Some kvs"
    and "map_of fs k = Some z"
  shows "f k z = map_of kvs k \<and> map_of kvs k \<noteq> None"
  using assms unfolding sequence_map_Some
proof (induction fs arbitrary: kvs)
  case Nil
  then show ?case by simp
next
  case (Cons p fs)
  obtain j y where p: "p = (j, y)" by (cases p)
  with Cons.prems(1) obtain x kvs' where "f j y = Some x" and kvs: "kvs = (j, x) # kvs'"
    and "list_all2 (\<lambda>q r. (case q of (k, z) \<Rightarrow> map_option (Pair k) (f k z)) = Some r) fs kvs'"
    by (auto simp: list_all2_Cons1)
  then show ?case using Cons.IH [of kvs'] Cons.prems(2) p by (cases "j = k") auto
qed

lemma fields_keys:
  "sequence (map (\<lambda>(k, z). map_option (Pair k) (f k z)) fs) = Some kvs \<Longrightarrow> map fst kvs = map fst fs"
  unfolding sequence_map_Some
  by (induction fs arbitrary: kvs) (auto simp: list_all2_Cons1)

lemma fields_Some:
  assumes "\<And>k z. (k, z) \<in> set fs \<Longrightarrow> f k z = Some (g k)"
  shows "sequence (map (\<lambda>(k, z). map_option (Pair k) (f k z)) fs) = Some (map (\<lambda>(k, z). (k, g k)) fs)"
  unfolding sequence_map_Some using assms by (induction fs) auto

lemma map_of_filter_defined:
  assumes "distinct (map fst kvs)" and "map_of kvs k = Some x"
  shows "(case map_of (filter (\<lambda>(k, v). v \<noteq> JUndef) kvs @ ms) k of Some y \<Rightarrow> y | None \<Rightarrow> JUndef) =
    (if x = JUndef then (case map_of ms k of Some y \<Rightarrow> y | None \<Rightarrow> JUndef) else x)"
  using assms
proof (induction kvs)
  case Nil
  then show ?case by simp
next
  case (Cons p kvs)
  obtain j y where p: "p = (j, y)" by (cases p)
  show ?case
  proof (cases "j = k")
    case True
    then have "x = y" using Cons.prems p by simp
    moreover have "map_of (filter (\<lambda>(k, v). v \<noteq> JUndef) kvs) k = None"
      using Cons.prems(1) p True by (auto simp: map_of_eq_None_iff)
    ultimately show ?thesis using p True by (auto simp: map_add_def split: option.splits)
  next
    case False
    then show ?thesis using Cons p by simp
  qed
qed

locale zod =
  fixes safeParse :: safe_parse
    and is_uuid :: "jsstr \<Rightarrow> bool"
    and is_datetime :: "bool \<Rightarrow> jsstr \<Rightarrow> bool"
  assumes string_law:
      "safeParse (ZString cs) v =
         (case v of JStr s \<Rightarrow> if list_all (str_ok is_uuid is_datetime s) cs then Some v else None
          | _ \<Rightarrow> None)"
    and number_law:
      "safeParse (ZNumber ns) v = (case v of JNum x \<Rightarrow> num_result ns x | _ \<Rightarrow> None)"
    and coerce_law: "safeParse (ZCoerceNumber ns) v = num_result ns (coerce_number v)"
    and boolean_law: "safeParse ZBoolean v = (case v of JBool _ \<Rightarrow> Some v | _ \<Rightarrow> None)"
    and literal_law: "safeParse (ZLiteral l) v = (if v = l then Some v else None)"
    and enum_law:
      "safeParse (ZEnum ks) v = (case v of JStr s \<Rightarrow> if s \<in> set ks then Some v else None | _ \<Rightarrow> None)"
    and array_law:
      "safeParse (ZArray z m) v =
         (case v of JArr vs \<Rightarrow>
            if within_max m vs then map_option JArr (sequence (map (safeParse z) vs)) else None
          | _ \<Rightarrow> None)"
    and tuple_law:
      "safeParse (ZTuple zs) v =
         (case v of JArr vs \<Rightarrow>
            if length vs = length zs
            then map_option JArr (sequence (map2 (\<lambda>z x. safeParse z x) zs vs)) else None
          | _ \<Rightarrow> None)"
    and object_law:
      "safeParse (ZObject mode fs) v =
         (case v of JObj ms \<Rightarrow>
            object_result mode (map fst fs) ms
              (sequence (map (\<lambda>(k, z). map_option (Pair k) (safeParse z (jget k v))) fs))
          | _ \<Rightarrow> None)"
    and nullable_law: "safeParse (ZNullable z) v = (if v = JNull then Some v else safeParse z v)"
    and optional_law: "safeParse (ZOptional z) v = (if v = JUndef then Some v else safeParse z v)"
    and discriminated_law:
      "safeParse (ZDiscriminated d zs) v =
         (case find (\<lambda>z. discriminator d z = jget d v \<and> jget d v \<noteq> JUndef) zs of
            Some z \<Rightarrow> safeParse z v | None \<Rightarrow> None)"
    and refine_law:
      "safeParse (ZRefine z p) v =
         (case safeParse z v of Some w \<Rightarrow> if p w then Some w else None | None \<Rightarrow> None)"
    and transform_law: "safeParse (ZTransform z f) v = map_option f (safeParse z v)"
    and catch_law:
      "safeParse (ZCatch z dflt) v = (case safeParse z v of Some w \<Rightarrow> Some w | None \<Rightarrow> Some dflt)"
    and union_law:
      "safeParse (ZUnion zs) v =
         (case find (\<lambda>z. safeParse z v \<noteq> None) zs of Some z \<Rightarrow> safeParse z v | None \<Rightarrow> None)"
    and default_law: "safeParse (ZDefault z dflt) v = (if v = JUndef then Some dflt else safeParse z v)"
begin

lemmas laws = string_law number_law coerce_law boolean_law literal_law enum_law array_law tuple_law
  object_law nullable_law optional_law discriminated_law refine_law transform_law catch_law union_law default_law

lemma string_SomeD:
  "safeParse (ZString cs) v = Some w \<Longrightarrow>
     \<exists>s. v = JStr s \<and> w = v \<and> list_all (str_ok is_uuid is_datetime s) cs"
  by (auto simp: string_law split: json.splits if_splits)

lemma number_SomeD:
  "safeParse (ZNumber ns) v = Some w \<Longrightarrow>
     \<exists>q. v = JNum (Fin q) \<and> w = v \<and> list_all (num_ok (Fin q)) ns"
  by (auto simp: number_law num_result_def isFinite_def split: json.splits if_splits number.splits)

lemma int_SomeD:
  assumes "safeParse (ZNumber ns) v = Some w" and "NInt \<in> set ns"
  shows "\<exists>n. v = JNum (Fin (of_int n)) \<and> w = v \<and> \<bar>n\<bar> < safe_bound
    \<and> list_all (num_ok (Fin (of_int n))) ns"
proof -
  obtain q where q: "v = JNum (Fin q)" "w = v" "list_all (num_ok (Fin q)) ns"
    using number_SomeD [OF assms(1)] by blast
  with assms(2) have "isSafeInteger (Fin q)" by (auto simp: list_all_iff)
  then have "of_int \<lfloor>q\<rfloor> = q" and "\<bar>q\<bar> < of_int safe_bound"
    by (simp_all add: isSafeInteger_def)
  then have "\<bar>\<lfloor>q\<rfloor>\<bar> < safe_bound" by (metis of_int_abs of_int_less_iff)
  with q \<open>of_int \<lfloor>q\<rfloor> = q\<close> show ?thesis by metis
qed

lemma object_SomeD:
  assumes "safeParse (ZObject mode fs) v = Some w" and "distinct (map fst fs)"
    and "map_of fs k = Some z"
  shows "safeParse z (jget k v) = Some (jget k w)"
proof -
  obtain ms kvs where v: "v = JObj ms"
    and kvs: "sequence (map (\<lambda>(k, z). map_option (Pair k) (safeParse z (jget k v))) fs) = Some kvs"
    and w: "w = JObj (filter (\<lambda>(k, v). v \<noteq> JUndef) kvs @
        (if mode = Loose then filter (\<lambda>(k, v). k \<notin> set (map fst fs)) ms else []))"
    using assms(1) by (auto simp: object_law object_result_def split: json.splits)
  obtain x where x: "safeParse z (jget k v) = Some x" "map_of kvs k = Some x"
    using fields_map_of [OF kvs assms(3)] by auto
  have "k \<in> fst ` set fs" using assms(3) by (force dest: map_of_SomeD)
  then have none: "map_of (if mode = Loose then filter (\<lambda>(k, v). k \<notin> set (map fst fs)) ms else []) k
      = None"
    by (auto simp: map_of_eq_None_iff image_iff)
  have "distinct (map fst kvs)" using fields_keys [OF kvs] assms(2) by simp
  then have "jget k w = x"
    unfolding w jget_JObj using x(2) none by (simp only: map_of_filter_defined) simp
  with x(1) show ?thesis by simp
qed

lemma object_JObj: "safeParse (ZObject mode fs) v = Some w \<Longrightarrow> \<exists>ms ns. v = JObj ms \<and> w = JObj ns"
  by (auto simp: object_law object_result_def split: json.splits)

lemma object_SomeI:
  assumes "v = JObj ms" and ok: "\<And>k z. (k, z) \<in> set fs \<Longrightarrow> safeParse z (jget k v) \<noteq> None"
  shows "\<exists>w. safeParse (ZObject mode fs) v = Some w"
proof -
  have "sequence (map (\<lambda>(k, z). map_option (Pair k) (safeParse z (jget k v))) fs) =
      Some (map (\<lambda>(k, z). (k, the (safeParse z (jget k v)))) fs)"
    using ok by (auto simp: sequence_Some)
  then show ?thesis by (simp add: assms(1) object_law object_result_def)
qed

lemma array_SomeD:
  "safeParse (ZArray z m) v = Some w \<Longrightarrow>
     \<exists>vs ws. v = JArr vs \<and> w = JArr ws \<and> within_max m vs \<and> sequence (map (safeParse z) vs) = Some ws"
  by (auto simp: array_law split: json.splits if_splits)

lemma array_bound:
  assumes "safeParse (ZArray z (Some m)) v = Some w"
  shows "\<exists>ws. w = JArr ws \<and> int (length ws) \<le> m"
proof -
  obtain vs ws where w: "w = JArr ws" "within_max (Some m) vs" "list_all2 (\<lambda>x y. safeParse z x = Some y) vs ws"
    using array_SomeD [OF assms] unfolding sequence_map_Some by blast
  then show ?thesis using list_all2_lengthD [OF w(3)] by (simp add: within_max_def)
qed

lemma array_elems:
  assumes "safeParse (ZArray z m) v = Some w"
  obtains ws where "w = JArr ws" and "\<And>y. y \<in> set ws \<Longrightarrow> \<exists>x. safeParse z x = Some y"
proof -
  obtain vs ws where w: "w = JArr ws" and "list_all2 (\<lambda>x y. safeParse z x = Some y) vs ws"
    using array_SomeD [OF assms] unfolding sequence_map_Some by blast
  then have "\<exists>x. safeParse z x = Some y" if "y \<in> set ws" for y
    using that by (auto simp: list_all2_conv_all_nth in_set_conv_nth)
  with w show thesis using that by blast
qed

end

section \<open>A parser with that behaviour\<close>

fun zod_parse :: "(jsstr \<Rightarrow> bool) \<Rightarrow> (bool \<Rightarrow> jsstr \<Rightarrow> bool) \<Rightarrow> safe_parse" where
  "zod_parse U D (ZString cs) v =
     (case v of JStr s \<Rightarrow> if list_all (str_ok U D s) cs then Some v else None | _ \<Rightarrow> None)"
| "zod_parse U D (ZNumber ns) v = (case v of JNum x \<Rightarrow> num_result ns x | _ \<Rightarrow> None)"
| "zod_parse U D (ZCoerceNumber ns) v = num_result ns (coerce_number v)"
| "zod_parse U D ZBoolean v = (case v of JBool _ \<Rightarrow> Some v | _ \<Rightarrow> None)"
| "zod_parse U D (ZLiteral l) v = (if v = l then Some v else None)"
| "zod_parse U D (ZEnum ks) v =
     (case v of JStr s \<Rightarrow> if s \<in> set ks then Some v else None | _ \<Rightarrow> None)"
| "zod_parse U D (ZArray z m) v =
     (case v of JArr vs \<Rightarrow>
        if within_max m vs then map_option JArr (sequence (map (zod_parse U D z) vs)) else None
      | _ \<Rightarrow> None)"
| "zod_parse U D (ZTuple zs) v =
     (case v of JArr vs \<Rightarrow>
        if length vs = length zs
        then map_option JArr (sequence (map (\<lambda>(f, x). f x) (zip (map (\<lambda>z. zod_parse U D z) zs) vs)))
        else None
      | _ \<Rightarrow> None)"
| "zod_parse U D (ZObject mode fs) v =
     (case v of JObj ms \<Rightarrow>
        object_result mode (map fst fs) ms
          (sequence (map (\<lambda>(k, z). map_option (Pair k) (zod_parse U D z (jget k v))) fs))
      | _ \<Rightarrow> None)"
| "zod_parse U D (ZNullable z) v = (if v = JNull then Some v else zod_parse U D z v)"
| "zod_parse U D (ZOptional z) v = (if v = JUndef then Some v else zod_parse U D z v)"
| "zod_parse U D (ZDiscriminated d zs) v =
     (case find (\<lambda>(z, r). discriminator d z = jget d v \<and> jget d v \<noteq> JUndef)
        (map (\<lambda>z. (z, zod_parse U D z v)) zs) of
        Some (z, r) \<Rightarrow> r | None \<Rightarrow> None)"
| "zod_parse U D (ZRefine z p) v =
     (case zod_parse U D z v of Some w \<Rightarrow> if p w then Some w else None | None \<Rightarrow> None)"
| "zod_parse U D (ZTransform z f) v = map_option f (zod_parse U D z v)"
| "zod_parse U D (ZCatch z dflt) v =
     (case zod_parse U D z v of Some w \<Rightarrow> Some w | None \<Rightarrow> Some dflt)"
| "zod_parse U D (ZUnion zs) v =
     (case find (\<lambda>r. r \<noteq> None) (map (\<lambda>z. zod_parse U D z v) zs) of Some r \<Rightarrow> r | None \<Rightarrow> None)"
| "zod_parse U D (ZDefault z dflt) v = (if v = JUndef then Some dflt else zod_parse U D z v)"

lemma find_map_option:
  "(case find (\<lambda>r. r \<noteq> None) (map f zs) of Some r \<Rightarrow> r | None \<Rightarrow> None) =
   (case find (\<lambda>z. f z \<noteq> None) zs of Some z \<Rightarrow> f z | None \<Rightarrow> None)"
  by (induction zs) auto

lemma find_map_pair:
  "(case find (\<lambda>(z, r). P z) (map (\<lambda>z. (z, f z)) zs) of Some (z, r) \<Rightarrow> r | None \<Rightarrow> None) =
   (case find P zs of Some z \<Rightarrow> f z | None \<Rightarrow> None)"
  by (induction zs) auto

lemma zip_map_apply:
  "map (\<lambda>(f, x). f x) (zip (map g zs) vs) = map2 (\<lambda>z x. g z x) zs vs"
  by (simp add: zip_map1 comp_def case_prod_beta)

text \<open>The shape of a UUID as RFC 9562 writes it, in lower or upper case.\<close>

definition is_hex :: "code_unit \<Rightarrow> bool" where
  "is_hex c \<longleftrightarrow> is_digit c \<or> in_range 97 102 c \<or> in_range 65 70 c"

definition uuid_shape :: "jsstr \<Rightarrow> bool" where
  "uuid_shape s \<longleftrightarrow> map length (split_on 45 s) = [8, 4, 4, 4, 12] \<and> list_all (\<lambda>c. c = 45 \<or> is_hex c) s"

interpretation zp: zod "zod_parse U D" U D for U D
  by unfold_locales (simp_all only: zod_parse.simps find_map_pair find_map_option zip_map_apply)

end
