(* ===== verification/Code_Draft.thy ===== *)
theory Code_Draft
  imports Zod_Schema
begin

text \<open>
  Local recovery drafts, \<open>features/problems/lib/code-draft.ts\<close> and its hook
  \<open>hooks/use-code-draft.ts\<close>. Every open page is a writer with a key of its own in the shared
  \<open>localStorage\<close>; a saved draft names the revisions it was written on top of, and a scan of the
  keys of one identity yields the heads, the records no other record supersedes. This theory holds
  the data, the scan and the controller with all its operations.

  The state is the controller's fields together with what it reads and writes outside itself: the
  shared storage and the module's map of interrupted drafts. \<open>env\<close> is what one call meets: the
  clock, whether the storage can be reached, whether \<open>setItem\<close> succeeds, and what other pages
  write in between (\<open>before_write\<close> after the scan, \<open>after_write\<close> after the own write).
\<close>

section \<open>Records\<close>

definition codeDraftMaxBytes :: int where
  "codeDraftMaxBytes = 256 * 1024"

record CodeDraftIdentity =
  userId :: jsstr
  problemId :: jsstr
  languageId :: jsstr

text \<open>\<open>None\<close> is the \<open>URIError\<close> of \<open>encodeURIComponent\<close>.\<close>

definition codeDraftKey :: "CodeDraftIdentity \<Rightarrow> jsstr option" where
  "codeDraftKey i =
     map_option (\<lambda>parts. js ''cherry-oj.code-draft.v2:'' @ join [58] parts @ [58])
       (those (map encodeURIComponent [userId i, problemId i, languageId i]))"

definition is_writer_char :: "code_unit \<Rightarrow> bool" where
  "is_writer_char c \<longleftrightarrow> is_word_char c \<or> c = 45"

definition writer_regex :: "jsstr \<Rightarrow> bool" where
  "writer_regex s \<longleftrightarrow> s \<noteq> [] \<and> list_all is_writer_char s"

definition revision_regex :: "jsstr \<Rightarrow> bool" where
  "revision_regex s \<longleftrightarrow>
     (case split_on 58 s of
        [w, n] \<Rightarrow> w \<noteq> [] \<and> list_all is_writer_char w
          \<and> n \<noteq> [] \<and> in_range 49 57 (hd n) \<and> list_all is_digit (tl n)
      | _ \<Rightarrow> False)"

definition revisionSchema :: schema where
  "revisionSchema = ZString [SRegex revision_regex]"

definition source_fits :: "json \<Rightarrow> bool" where
  "source_fits v = (case v of JStr s \<Rightarrow> byteLength s \<le> codeDraftMaxBytes | _ \<Rightarrow> False)"

definition draftRecordSchema :: schema where
  "draftRecordSchema = ZObject Strip
     [(js ''schemaVersion'', ZLiteral (JNum (Fin 1))),
      (js ''writerId'', ZString [SRegex writer_regex]),
      (js ''revision'', revisionSchema),
      (js ''parentRevision'', ZNullable revisionSchema),
      (js ''supersedes'', ZArray revisionSchema None),
      (js ''source'', ZRefine (ZString []) source_fits),
      (js ''updatedAt'', ZNumber [NInt, NMin 0])]"

record CodeDraftRecord =
  schemaVersion :: int
  writerId :: jsstr
  revision :: jsstr
  parentRevision :: "jsstr option"
  supersedes :: "jsstr list"
  source :: jsstr
  updatedAt :: int

definition as_str :: "json \<Rightarrow> jsstr" where
  "as_str v = (case v of JStr s \<Rightarrow> s | _ \<Rightarrow> [])"

definition as_int :: "json \<Rightarrow> int" where
  "as_int v = (case v of JNum (Fin q) \<Rightarrow> \<lfloor>q\<rfloor> | _ \<Rightarrow> 0)"

definition as_list :: "json \<Rightarrow> json list" where
  "as_list v = (case v of JArr vs \<Rightarrow> vs | _ \<Rightarrow> [])"

text \<open>The typed view of a parsed record, and the object \<open>persist\<close> serialises.\<close>

definition draft_of_json :: "json \<Rightarrow> CodeDraftRecord" where
  "draft_of_json v =
     \<lparr>schemaVersion = as_int (jget (js ''schemaVersion'') v),
      writerId = as_str (jget (js ''writerId'') v),
      revision = as_str (jget (js ''revision'') v),
      parentRevision = (case jget (js ''parentRevision'') v of JStr s \<Rightarrow> Some s | _ \<Rightarrow> None),
      supersedes = map as_str (as_list (jget (js ''supersedes'') v)),
      source = as_str (jget (js ''source'') v),
      updatedAt = as_int (jget (js ''updatedAt'') v)\<rparr>"

definition json_of_draft :: "CodeDraftRecord \<Rightarrow> json" where
  "json_of_draft r = JObj
     [(js ''schemaVersion'', JNum (Fin (of_int (schemaVersion r)))),
      (js ''writerId'', JStr (writerId r)),
      (js ''revision'', JStr (revision r)),
      (js ''parentRevision'', case parentRevision r of None \<Rightarrow> JNull | Some p \<Rightarrow> JStr p),
      (js ''supersedes'', JArr (map JStr (supersedes r))),
      (js ''source'', JStr (source r)),
      (js ''updatedAt'', JNum (Fin (of_int (updatedAt r))))]"

text \<open>\<open>createWriterId\<close>: the sixteen random bytes are a parameter.\<close>

definition createWriterId :: "int list \<Rightarrow> jsstr" where
  "createWriterId bytes = concat (map (\<lambda>b. [hex_lower (b div 16), hex_lower (b mod 16)]) bytes)"

section \<open>Revisions\<close>

definition revisionWriter :: "jsstr \<Rightarrow> jsstr" where
  "revisionWriter r = slice_to r (lastIndexOf 58 r)"

definition revisionNumber :: "jsstr \<Rightarrow> number" where
  "revisionNumber r = Number_of (last (split_on 58 r))"

definition num_gt :: "number \<Rightarrow> number \<Rightarrow> bool" where
  "num_gt x y =
     (case (x, y) of
        (Fin a, Fin b) \<Rightarrow> b < a
      | (Infinity s, Fin b) \<Rightarrow> s
      | (Fin a, Infinity s) \<Rightarrow> \<not> s
      | (Infinity s, Infinity t) \<Rightarrow> s \<and> \<not> t
      | _ \<Rightarrow> False)"

fun compact_loop :: "jsstr \<Rightarrow> (jsstr \<times> jsstr) list \<Rightarrow> jsstr list \<Rightarrow> (jsstr \<times> jsstr) list" where
  "compact_loop cw latest [] = latest"
| "compact_loop cw latest (r # rs) =
     (let w = revisionWriter r in
      if w = cw then compact_loop cw latest rs
      else if (case map_of latest w of
                 None \<Rightarrow> True
               | Some p \<Rightarrow> p = [] \<or> num_gt (revisionNumber r) (revisionNumber p))
           then compact_loop cw (AList.update w r latest) rs
           else compact_loop cw latest rs)"

definition compactRevisions :: "jsstr list \<Rightarrow> jsstr \<Rightarrow> jsstr list" where
  "compactRevisions revisions currentWriter = map snd (compact_loop currentWriter [] revisions)"

definition mentions :: "CodeDraftRecord \<Rightarrow> jsstr list" where
  "mentions r = revision r # supersedes r @
     (case parentRevision r of Some p \<Rightarrow> if p = [] then [] else [p] | None \<Rightarrow> [])"

definition ancestry :: "CodeDraftRecord list \<Rightarrow> jsstr \<Rightarrow> jsstr list" where
  "ancestry records w = compactRevisions (concat (map mentions records)) w"

section \<open>The scan\<close>

type_synonym storage = "(jsstr \<times> jsstr) list"

text \<open>What the source takes from outside: zod's \<open>safeParse\<close> and the collation order of the
  browser's locale (\<open>localeCompare\<close>).\<close>

record host =
  hostParse :: safe_parse
  hostCollate :: "jsstr \<Rightarrow> jsstr \<Rightarrow> int"

record DraftScan =
  heads :: "CodeDraftRecord list"
  corruptKeys :: "jsstr list"

definition read_draft :: "safe_parse \<Rightarrow> jsstr \<Rightarrow> jsstr \<Rightarrow> jsstr \<Rightarrow> CodeDraftRecord option" where
  "read_draft P prefix k raw =
     (case JSON_parse raw of
        None \<Rightarrow> None
      | Some v \<Rightarrow>
          (case P draftRecordSchema v of
             None \<Rightarrow> None
           | Some w \<Rightarrow>
               let r = draft_of_json w
               in if k \<noteq> prefix @ writerId r \<or> revisionWriter (revision r) \<noteq> writerId r
                  then None else Some r))"

fun scan_loop :: "safe_parse \<Rightarrow> jsstr \<Rightarrow> storage \<Rightarrow> CodeDraftRecord list \<times> jsstr list" where
  "scan_loop P prefix [] = ([], [])"
| "scan_loop P prefix ((k, raw) # st) =
     (let (records, corrupt) = scan_loop P prefix st in
      if \<not> startsWith k prefix then (records, corrupt)
      else case read_draft P prefix k raw of
             None \<Rightarrow> (records, k # corrupt)
           | Some r \<Rightarrow> (r # records, corrupt))"

definition superseded :: "CodeDraftRecord list \<Rightarrow> jsstr set" where
  "superseded records = set (concat (map (\<lambda>r. ancestry [r] (writerId r)) records))"

definition draft_order :: "(jsstr \<Rightarrow> jsstr \<Rightarrow> int) \<Rightarrow> CodeDraftRecord \<Rightarrow> CodeDraftRecord \<Rightarrow> int" where
  "draft_order lc l r =
     (if updatedAt r - updatedAt l \<noteq> 0 then updatedAt r - updatedAt l
      else lc (revision r) (revision l))"

definition scanDrafts :: "host \<Rightarrow> storage \<Rightarrow> jsstr \<Rightarrow> DraftScan" where
  "scanDrafts H st prefix =
     (let (records, corrupt) = scan_loop (hostParse H) prefix st;
          hs = sort_by (draft_order (hostCollate H))
                 (filter (\<lambda>r. revision r \<notin> superseded records) records)
      in \<lparr>heads = hs,
          corruptKeys = corrupt @
            (if records \<noteq> [] \<and> hs = [] then map (\<lambda>r. prefix @ writerId r) records else [])\<rparr>)"

section \<open>The controller\<close>

datatype CodeDraftStatus = Clean | Dirty | Saving | Saved | Failed | Conflict

text \<open>The texts the controller shows, one constructor per literal of the source.\<close>

datatype draft_message =
    MsgStarter | MsgSaved | MsgSaving | MsgFailed | MsgCorrupt | MsgConflict | MsgUnreadable
  | MsgTooLarge | MsgDeleted | MsgRecovered

record CodeDraftSnapshot =
  snap_value :: jsstr
  snap_status :: CodeDraftStatus
  snap_message :: draft_message
  hasUnsavedChanges :: bool
  snap_conflicts :: "CodeDraftRecord list"

record draft_state =
  ctl_key :: jsstr
  ctl_writer :: jsstr
  starterCode :: jsstr
  listeners :: "nat list"
  baseline :: "CodeDraftRecord option"
  seq :: int
  timer :: bool
  dirty :: bool
  initialReadFailed :: bool
  snapshot :: CodeDraftSnapshot
  calls :: "nat list"
  storage :: storage
  interruptedDrafts :: "jsstr \<rightharpoonup> jsstr \<times> CodeDraftRecord option"

record env =
  now :: int
  storage_ok :: bool
  write_ok :: bool
  before_write :: "storage \<Rightarrow> storage"
  after_write :: "storage \<Rightarrow> storage"

text \<open>\<open>update\<close> replaces fields of the snapshot and calls every listener once.\<close>

definition update :: "(CodeDraftSnapshot \<Rightarrow> CodeDraftSnapshot) \<Rightarrow> draft_state \<Rightarrow> draft_state" where
  "update f s = s\<lparr>snapshot := f (snapshot s), calls := calls s @ listeners s\<rparr>"

definition adopt :: "CodeDraftRecord \<Rightarrow> draft_state \<Rightarrow> draft_state" where
  "adopt r s = update (\<lambda>n. n\<lparr>snap_value := source r, snap_status := Saved, snap_message := MsgSaved,
       hasUnsavedChanges := False, snap_conflicts := []\<rparr>) (s\<lparr>baseline := Some r, dirty := False\<rparr>)"

definition fail :: "draft_message \<Rightarrow> draft_state \<Rightarrow> draft_state" where
  "fail m s = update (\<lambda>n. n\<lparr>snap_status := Failed, snap_message := m,
       hasUnsavedChanges := dirty s\<rparr>) s"

definition showConflict :: "CodeDraftRecord list \<Rightarrow> draft_state \<Rightarrow> draft_state" where
  "showConflict hs s = update (\<lambda>n. n\<lparr>snap_status := Conflict, snap_message := MsgConflict,
       snap_conflicts := hs, hasUnsavedChanges := dirty s\<rparr>) s"

definition setValue :: "jsstr \<Rightarrow> draft_state \<Rightarrow> draft_state" where
  "setValue v s =
     (if v = snap_value (snapshot s) then s
      else (update (\<lambda>n. n\<lparr>snap_value := v, snap_status := Dirty, snap_message := MsgSaving,
              hasUnsavedChanges := True\<rparr>) (s\<lparr>dirty := True\<rparr>))\<lparr>timer := True\<rparr>)"

definition draft_record :: "env \<Rightarrow> CodeDraftRecord list \<Rightarrow> draft_state \<Rightarrow> CodeDraftRecord" where
  "draft_record E parents s =
     \<lparr>schemaVersion = 1,
      writerId = ctl_writer s,
      revision = ctl_writer s @ 58 # int_text (seq s + 1),
      parentRevision = map_option revision (baseline s),
      supersedes = ancestry parents (ctl_writer s),
      source = snap_value (snapshot s),
      updatedAt = now E\<rparr>"

text \<open>\<open>persist\<close> answers whether \<open>setItem\<close> went through; the sequence number is spent either way.\<close>

definition persist :: "env \<Rightarrow> CodeDraftRecord list \<Rightarrow> draft_state \<Rightarrow> bool \<times> draft_state" where
  "persist E parents s =
     (let r = draft_record E parents s; st = before_write E (storage s)
      in if \<not> write_ok E then (False, s\<lparr>seq := seq s + 1, storage := st\<rparr>)
         else (True, update (\<lambda>n. n\<lparr>hasUnsavedChanges := False\<rparr>)
           (s\<lparr>seq := seq s + 1,
              storage := AList.update (ctl_key s @ ctl_writer s) (JSON_text (json_of_draft r)) st,
              baseline := Some r, dirty := False,
              interruptedDrafts := (interruptedDrafts s)(ctl_key s := None)\<rparr>)))"

definition flush :: "host \<Rightarrow> env \<Rightarrow> draft_state \<Rightarrow> bool \<times> draft_state" where
  "flush H E s0 =
     (let s = s0\<lparr>timer := False\<rparr> in
      if \<not> dirty s then (True, s)
      else if byteLength (snap_value (snapshot s)) > codeDraftMaxBytes then (False, fail MsgTooLarge s)
      else if \<not> storage_ok E then (let s' = fail MsgFailed s in (\<not> dirty s', s'))
      else if corruptKeys (scanDrafts H (storage s) (ctl_key s)) \<noteq> [] then (False, fail MsgCorrupt s)
      else
        (case persist E (case baseline s of Some b \<Rightarrow> [b] | None \<Rightarrow> [])
            (update (\<lambda>n. n\<lparr>snap_status := Saving, snap_message := MsgSaving\<rparr>) s) of
           (False, s') \<Rightarrow> (let s'' = fail MsgFailed s' in (\<not> dirty s'', s''))
         | (True, s') \<Rightarrow>
             (let s1 = s'\<lparr>initialReadFailed := False, storage := after_write E (storage s')\<rparr>;
                  scan = scanDrafts H (storage s1) (ctl_key s1);
                  s2 = (if corruptKeys scan \<noteq> [] then fail MsgCorrupt s1
                        else if length (heads scan) > 1 then showConflict (heads scan) s1
                        else update (\<lambda>n. n\<lparr>snap_status := Saved, snap_message := MsgSaved,
                               snap_conflicts := [], hasUnsavedChanges := False\<rparr>) s1)
              in (\<not> dirty s2, s2))))"

definition refresh :: "host \<Rightarrow> env \<Rightarrow> draft_state \<Rightarrow> draft_state" where
  "refresh H E s =
     (if \<not> storage_ok E then fail MsgFailed s
      else
        let scan = scanDrafts H (storage s) (ctl_key s) in
        if corruptKeys scan \<noteq> [] then fail MsgCorrupt s
        else if length (heads scan) > 1
             \<or> (heads scan \<noteq> [] \<and> Some (revision (hd (heads scan))) \<noteq> map_option revision (baseline s))
        then showConflict (heads scan) s
        else if \<not> dirty s \<and> heads scan \<noteq> [] then adopt (hd (heads scan)) s
        else if \<not> dirty s \<and> baseline s \<noteq> None then fail MsgDeleted (s\<lparr>dirty := True\<rparr>)
        else if \<not> dirty s \<and> initialReadFailed s
        then update (\<lambda>n. n\<lparr>snap_status := Clean, snap_message := MsgStarter\<rparr>)
               (s\<lparr>initialReadFailed := False\<rparr>)
        else s)"

definition retrySave :: "host \<Rightarrow> env \<Rightarrow> draft_state \<Rightarrow> draft_state" where
  "retrySave H E s = (if dirty s then snd (flush H E s) else refresh H E s)"

definition detach :: "host \<Rightarrow> env \<Rightarrow> draft_state \<Rightarrow> draft_state" where
  "detach H E s0 =
     (let s = snd (flush H E s0) in
      if dirty s
      then s\<lparr>interruptedDrafts :=
               (interruptedDrafts s)(ctl_key s \<mapsto> (snap_value (snapshot s), baseline s))\<rparr>
      else s)"

text \<open>The end of \<open>resolveConflict\<close> and \<open>resetToStarter\<close>: write a record that joins the observed
  heads and the baseline, then look again.\<close>

definition persist_joined :: "host \<Rightarrow> env \<Rightarrow> CodeDraftRecord list \<Rightarrow> draft_state \<Rightarrow> draft_state" where
  "persist_joined H E hs s =
     (case persist E (hs @ (case baseline s of Some b \<Rightarrow> [b] | None \<Rightarrow> [])) s of
        (False, s') \<Rightarrow> fail MsgFailed s'
      | (True, s') \<Rightarrow> refresh H E (s'\<lparr>storage := after_write E (storage s')\<rparr>))"

definition resolveConflict :: "host \<Rightarrow> env \<Rightarrow> jsstr \<Rightarrow> draft_state \<Rightarrow> draft_state" where
  "resolveConflict H E choice s0 =
     (let s = s0\<lparr>timer := False\<rparr> in
      if \<not> storage_ok E then fail MsgFailed s
      else
        let scan = scanDrafts H (storage s) (ctl_key s);
            selected = (if choice = js ''current'' then None
                        else find (\<lambda>r. revision r = choice) (heads scan))
        in if corruptKeys scan \<noteq> [] then fail MsgCorrupt s
           else if choice \<noteq> js ''current'' \<and> selected = None then showConflict (heads scan) s
           else
             let s1 = (case selected of
                         Some r \<Rightarrow> update (\<lambda>n. n\<lparr>snap_value := source r\<rparr>) s | None \<Rightarrow> s);
                 s2 = s1\<lparr>dirty := True\<rparr>
             in if byteLength (snap_value (snapshot s2)) > codeDraftMaxBytes then fail MsgTooLarge s2
                else persist_joined H E (heads scan) s2)"

definition resetToStarter :: "host \<Rightarrow> env \<Rightarrow> draft_state \<Rightarrow> draft_state" where
  "resetToStarter H E s0 =
     (let s = update (\<lambda>n. n\<lparr>snap_value := starterCode s0, hasUnsavedChanges := True\<rparr>)
                (s0\<lparr>timer := False, dirty := True\<rparr>) in
      if byteLength (starterCode s) > codeDraftMaxBytes then fail MsgTooLarge s
      else if \<not> storage_ok E then fail MsgFailed s
      else
        let scan = scanDrafts H (storage s) (ctl_key s)
        in persist_joined H E (heads scan)
             (s\<lparr>storage := fold AList.delete (corruptKeys scan) (storage s)\<rparr>))"

definition newController ::
    "host \<Rightarrow> env \<Rightarrow> CodeDraftIdentity \<Rightarrow> jsstr \<Rightarrow> jsstr \<Rightarrow> storage \<Rightarrow>
     (jsstr \<rightharpoonup> jsstr \<times> CodeDraftRecord option) \<Rightarrow> draft_state option" where
  "newController H E i starter w st lost =
     (case codeDraftKey i of
        None \<Rightarrow> None
      | Some k \<Rightarrow> Some (
          let s0 = \<lparr>ctl_key = k, ctl_writer = w, starterCode = starter, listeners = [],
                    baseline = None, seq = 0, timer = False, dirty = False,
                    initialReadFailed = False,
                    snapshot = \<lparr>snap_value = starter, snap_status = Clean,
                                snap_message = MsgStarter, hasUnsavedChanges = False,
                                snap_conflicts = []\<rparr>,
                    calls = [], storage = st, interruptedDrafts = lost\<rparr>;
              s1 = (if \<not> storage_ok E then fail MsgUnreadable (s0\<lparr>initialReadFailed := True\<rparr>)
                    else let scan = scanDrafts H st k;
                             a = (case heads scan of r # _ \<Rightarrow> adopt r s0 | [] \<Rightarrow> s0);
                             b = (if length (heads scan) > 1 then showConflict (heads scan) a else a)
                         in if corruptKeys scan \<noteq> [] then fail MsgCorrupt b else b)
          in case lost k of
               None \<Rightarrow> s1
             | Some (src, base) \<Rightarrow>
                 update (\<lambda>n. n\<lparr>snap_value := src, snap_status := Failed,
                   snap_message := MsgRecovered, hasUnsavedChanges := True\<rparr>)
                   (s1\<lparr>baseline := base, dirty := True\<rparr>)))"

definition subscribe :: "nat \<Rightarrow> draft_state \<Rightarrow> draft_state" where
  "subscribe l s = s\<lparr>listeners := List.insert l (listeners s)\<rparr>"

definition unsubscribe :: "nat \<Rightarrow> draft_state \<Rightarrow> draft_state" where
  "unsubscribe l s = s\<lparr>listeners := removeAll l (listeners s)\<rparr>"

section \<open>The hook: browser events\<close>

text \<open>\<open>onStorage\<close>, \<open>pagehide\<close>, \<open>onBeforeUnload\<close> (which answers whether it asks the user to stay)
  and the save timer.\<close>

definition onStorage :: "host \<Rightarrow> env \<Rightarrow> jsstr option \<Rightarrow> draft_state \<Rightarrow> draft_state" where
  "onStorage H E k s =
     (if (case k of None \<Rightarrow> True | Some x \<Rightarrow> startsWith x (ctl_key s)) then refresh H E s else s)"

definition onBeforeUnload :: "host \<Rightarrow> env \<Rightarrow> draft_state \<Rightarrow> bool \<times> draft_state" where
  "onBeforeUnload H E s =
     (let s' = snd (flush H E s) in (hasUnsavedChanges (snapshot s'), s'))"

definition timerFires :: "host \<Rightarrow> env \<Rightarrow> draft_state \<Rightarrow> draft_state" where
  "timerFires H E s = (if timer s then snd (flush H E s) else s)"

end
