(* ===== verification/Draft_Records.thy ===== *)
theory Draft_Records
  imports Code_Draft
begin

text \<open>
  Facts about draft records: storage keys of different identities are isolated from each other, a
  written record reads back as itself, revisions are a writer and a positive number, and
  compaction keeps exactly the newest mentioned revision of every other writer.
\<close>

section \<open>Storage keys\<close>

definition draft_prefix :: jsstr where
  "draft_prefix = js ''cherry-oj.code-draft.v2:''"

lemma codeDraftKey_parts:
  assumes "codeDraftKey i = Some k"
  obtains a b c where "encodeURIComponent (userId i) = Some a"
    and "encodeURIComponent (problemId i) = Some b" and "encodeURIComponent (languageId i) = Some c"
    and "k = draft_prefix @ a @ 58 # b @ 58 # c @ [58]"
  using assms unfolding codeDraftKey_def draft_prefix_def
  by (auto split: option.splits)

lemma split_on_key:
  assumes "58 \<notin> set a" "58 \<notin> set b" "58 \<notin> set c"
  shows "split_on 58 (a @ 58 # b @ 58 # c @ 58 # t) = a # b # c # split_on 58 t"
  using assms by (simp add: split_on_append split_on_no_sep)

lemma codeDraftKey_prefix_inj:
  assumes "codeDraftKey i = Some k" and "codeDraftKey j = Some k'" and "startsWith (k @ w) k'"
  shows "i = j"
proof -
  obtain a b c where i: "encodeURIComponent (userId i) = Some a"
      "encodeURIComponent (problemId i) = Some b" "encodeURIComponent (languageId i) = Some c"
    and k: "k = draft_prefix @ a @ 58 # b @ 58 # c @ [58]"
    using codeDraftKey_parts [OF assms(1)] .
  obtain a' b' c' where j: "encodeURIComponent (userId j) = Some a'"
      "encodeURIComponent (problemId j) = Some b'" "encodeURIComponent (languageId j) = Some c'"
    and k': "k' = draft_prefix @ a' @ 58 # b' @ 58 # c' @ [58]"
    using codeDraftKey_parts [OF assms(2)] .
  obtain t where "k @ w = k' @ t" using assms(3) by (auto simp: startsWith_iff)
  then have "a @ 58 # b @ 58 # c @ 58 # w = a' @ 58 # b' @ 58 # c' @ 58 # t"
    by (simp add: k k')
  then have "a # b # c # split_on 58 w = a' # b' # c' # split_on 58 t"
    using i j by (simp only: split_on_key [OF encodeURIComponent_no_colon
          encodeURIComponent_no_colon encodeURIComponent_no_colon, symmetric])
  then have "userId i = userId j" "problemId i = problemId j" "languageId i = languageId j"
    using i j encodeURIComponent_inj by auto
  then show ?thesis by simp
qed

section \<open>Revisions\<close>

definition mk_rev :: "jsstr \<Rightarrow> int \<Rightarrow> jsstr" where
  "mk_rev w n = w @ 58 # dec_text n"

lemma digits_no_colon: "list_all is_digit s \<Longrightarrow> 58 \<notin> set s"
  by (auto simp: list_all_iff in_range_def)

lemma writer_no_colon: "list_all is_writer_char w \<Longrightarrow> 58 \<notin> set w"
  by (auto simp: list_all_iff in_range_def is_writer_char_def is_word_char_def)

lemma dec_text_no_colon: "0 \<le> n \<Longrightarrow> 58 \<notin> set (dec_text n)"
  using dec_text_digits digits_no_colon by blast

lemma revisionWriter_mk_rev [simp]: "0 \<le> n \<Longrightarrow> revisionWriter (mk_rev w n) = w"
  by (simp add: revisionWriter_def mk_rev_def slice_to_lastIndexOf dec_text_no_colon)

lemma mk_rev_inject:
  "0 \<le> m \<Longrightarrow> 0 \<le> n \<Longrightarrow> mk_rev w m = mk_rev v n \<longleftrightarrow> w = v \<and> m = n"
  by (metis revisionWriter_mk_rev append_same_eq dec_text_inject list.inject mk_rev_def
      same_append_eq)

lemma mk_rev_nonempty [simp]: "mk_rev w n \<noteq> []"
  by (simp add: mk_rev_def)

lemma digit_not_ws: "is_digit c \<Longrightarrow> \<not> is_ws c"
  by (auto simp: is_ws_def in_range_def)

lemma trim_id:
  assumes "s \<noteq> []" and "\<not> is_ws (hd s)" and "\<not> is_ws (last s)"
  shows "trim s = s"
proof -
  have "trimStart s = s" using assms(1,2) by (cases s) (auto simp: trimStart_def)
  moreover have "dropWhile is_ws (rev s) = rev s"
    using assms(1,3) by (cases s rule: rev_cases) auto
  ultimately show ?thesis by (simp add: trim_def)
qed

lemma dec_text_zero_start: "0 \<le> n \<Longrightarrow> hd (dec_text n) = 48 \<Longrightarrow> n = 0"
  using dec_text_no_leading_zero [of n] by (cases "n = 0") (auto simp: digit_val_def)

lemma Number_of_dec_text:
  assumes "0 \<le> n"
  shows "Number_of (dec_text n) = to_double (of_int n)"
proof -
  let ?t = "dec_text n"
  have dig: "list_all is_digit ?t" using assms by (rule dec_text_digits)
  then have mem: "is_digit c" if "c \<in> set ?t" for c using that by (auto simp: list_all_iff)
  have "trim ?t = ?t"
    by (rule trim_id) (simp_all add: digit_not_ws mem)
  moreover have "take 2 ?t \<noteq> p" if "hd p = 48" "length p = 2" for p
  proof
    assume eq: "take 2 ?t = p"
    then have "hd ?t = 48" using that by (cases ?t) auto
    then have "n = 0" using dec_text_zero_start assms by blast
    then show False using eq that by (auto simp: dec_text.simps)
  qed
  then have "take 2 ?t \<noteq> js ''0x''" "take 2 ?t \<noteq> js ''0X''" "take 2 ?t \<noteq> js ''0o''"
    "take 2 ?t \<noteq> js ''0O''" "take 2 ?t \<noteq> js ''0b''" "take 2 ?t \<noteq> js ''0B''"
    by auto
  moreover have "hd ?t \<noteq> 45" "hd ?t \<noteq> 43" "?t \<noteq> js ''Infinity''"
    using mem [of "hd ?t"] by (auto simp: in_range_def)
  ultimately show ?thesis
    using scan_decimal_digits [OF dig delim_simps(1)] assms
    by (simp add: Number_of_def Let_def unsigned_text_def scanned_value_def pow10_def)
qed

lemma revisionNumber_mk_rev:
  "0 \<le> n \<Longrightarrow> n \<le> safe_bound \<Longrightarrow> revisionNumber (mk_rev w n) = Fin (of_int n)"
  by (simp add: revisionNumber_def mk_rev_def last_split_on dec_text_no_colon
      Number_of_dec_text to_double_nonneg)

lemma digits_val_snoc: "digits_val (s @ [c]) = 10 * digits_val s + digit_val c"
  by (simp add: digits_val_def)

lemma digit_char_of_val: "is_digit c \<Longrightarrow> digit_char (digit_val c) = c"
  by (simp add: digit_char_def digit_val_def)

lemma canonical_digits:
  assumes "s \<noteq> []" and "in_range 49 57 (hd s)" and "list_all is_digit (tl s)"
  shows "0 < digits_val s \<and> dec_text (digits_val s) = s"
  using assms
proof (induction s rule: rev_induct)
  case Nil
  then show ?case by simp
next
  case (snoc c s)
  show ?case
  proof (cases "s = []")
    case True
    with snoc.prems have "0 < digit_val c" "digit_val c < 10" "is_digit c"
      by (simp_all add: digit_val_def in_range_def)
    with True show ?thesis
      by (simp add: digits_val_def dec_text.simps [of "digit_val c"] digit_char_of_val)
  next
    case False
    with snoc.prems have "is_digit c" and IH: "0 < digits_val s" "dec_text (digits_val s) = s"
      using snoc.IH by (auto simp: list_all_iff)
    then have d: "0 \<le> digit_val c" "digit_val c < 10"
      by (simp_all add: digit_val_def in_range_def)
    let ?m = "10 * digits_val s + digit_val c"
    have "?m div 10 = digits_val s" and "?m mod 10 = digit_val c" and "\<not> ?m < 10"
      using d IH(1) by simp_all
    then show ?thesis
      using IH d \<open>is_digit c\<close>
      by (simp add: digits_val_snoc dec_text.simps [of ?m] digit_char_of_val)
  qed
qed

lemma revision_regex_iff:
  "revision_regex s \<longleftrightarrow> (\<exists>w n. s = mk_rev w n \<and> 0 < n \<and> writer_regex w)"
proof
  assume "revision_regex s"
  then obtain w ds where sp: "split_on 58 s = [w, ds]" and w: "writer_regex w"
    and ds: "ds \<noteq> []" "in_range 49 57 (hd ds)" "list_all is_digit (tl ds)"
    by (auto simp: revision_regex_def writer_regex_def split: list.splits)
  have "s = w @ 58 # ds"
    using join_split_on [of 58 s] sp by simp
  with canonical_digits [OF ds] w show "\<exists>w n. s = mk_rev w n \<and> 0 < n \<and> writer_regex w"
    by (metis mk_rev_def)
next
  assume "\<exists>w n. s = mk_rev w n \<and> 0 < n \<and> writer_regex w"
  then obtain w n where s: "s = mk_rev w n" and n: "0 < n" and w: "writer_regex w" by blast
  have "split_on 58 s = [w, dec_text n]"
    using w n by (simp add: s mk_rev_def split_on_append split_on_no_sep writer_no_colon
        dec_text_no_colon writer_regex_def)
  moreover obtain d ds where t: "dec_text n = d # ds" by (cases "dec_text n") auto
  moreover have "is_digit d" "list_all is_digit ds" "digit_val d \<noteq> 0"
    using dec_text_digits [of n] dec_text_no_leading_zero [of n] n t by auto
  ultimately show "revision_regex s"
    using w by (auto simp: revision_regex_def writer_regex_def in_range_def digit_val_def)
qed

section \<open>Compaction\<close>

text \<open>Revisions whose number a Number holds exactly.\<close>

definition exact_rev :: "jsstr \<Rightarrow> bool" where
  "exact_rev r \<longleftrightarrow> (\<exists>w n. r = mk_rev w n \<and> 0 < n \<and> n \<le> safe_bound \<and> writer_regex w)"

definition newest :: "jsstr list \<Rightarrow> jsstr \<Rightarrow> jsstr \<Rightarrow> bool" where
  "newest rs w r \<longleftrightarrow> (\<exists>n>0. r = mk_rev w n \<and> r \<in> set rs \<and> (\<forall>m>0. mk_rev w m \<in> set rs \<longrightarrow> m \<le> n))"

definition latest_inv :: "jsstr \<Rightarrow> jsstr list \<Rightarrow> (jsstr \<times> jsstr) list \<Rightarrow> bool" where
  "latest_inv cw seen latest \<longleftrightarrow> distinct (map fst latest)
     \<and> (\<forall>w r. map_of latest w = Some r \<longrightarrow> w \<noteq> cw \<and> newest seen w r)
     \<and> (\<forall>w n. 0 < n \<longrightarrow> mk_rev w n \<in> set seen \<longrightarrow> w \<noteq> cw \<longrightarrow> map_of latest w \<noteq> None)"

lemma num_gt_Fin [simp]: "num_gt (Fin a) (Fin b) \<longleftrightarrow> b < a"
  by (simp add: num_gt_def)

lemma newest_snoc_other:
  assumes "newest seen v p" and "v \<noteq> w" and "0 < n"
  shows "newest (seen @ [mk_rev w n]) v p"
  using assms by (auto simp: newest_def mk_rev_inject)

lemma newest_snoc_greater:
  assumes "newest seen w (mk_rev w m)" and "0 < m" and "m < n"
  shows "newest (seen @ [mk_rev w n]) w (mk_rev w n)"
  using assms unfolding newest_def
  by (intro exI [of _ n]) (auto simp: mk_rev_inject intro: order_trans [of _ m])

lemma newest_snoc_smaller:
  assumes "newest seen w (mk_rev w m)" and "0 < m" and "0 < n" and "\<not> m < n"
  shows "newest (seen @ [mk_rev w n]) w (mk_rev w m)"
  using assms by (auto simp: newest_def mk_rev_inject)

lemma newest_first:
  assumes "\<And>n. 0 < n \<Longrightarrow> mk_rev w n \<notin> set seen" and "0 < n"
  shows "newest (seen @ [mk_rev w n]) w (mk_rev w n)"
  using assms by (auto simp: newest_def mk_rev_inject)

lemma newest_unique:
  assumes "newest rs w p" and "newest rs w r"
  shows "p = r"
proof -
  obtain m where m: "0 < m" "p = mk_rev w m" "p \<in> set rs"
      "\<And>k. 0 < k \<Longrightarrow> mk_rev w k \<in> set rs \<Longrightarrow> k \<le> m"
    using assms(1) unfolding newest_def by blast
  obtain n where n: "0 < n" "r = mk_rev w n" "r \<in> set rs"
      "\<And>k. 0 < k \<Longrightarrow> mk_rev w k \<in> set rs \<Longrightarrow> k \<le> n"
    using assms(2) unfolding newest_def by blast
  have "n \<le> m" using m(4) [OF n(1)] n(2,3) by simp
  moreover have "m \<le> n" using n(4) [OF m(1)] m(2,3) by simp
  ultimately have "m = n" by simp
  with m n show ?thesis by simp
qed

lemma latest_inv_step:
  assumes inv: "latest_inv cw seen latest" and ex: "\<forall>r\<in>set (seen @ [mk_rev w n]). exact_rev r"
    and n: "0 < n" "n \<le> safe_bound"
  shows "compact_loop cw latest (mk_rev w n # rs) =
      compact_loop cw (if w = cw then latest
        else case map_of latest w of None \<Rightarrow> AList.update w (mk_rev w n) latest
             | Some p \<Rightarrow> if num_gt (revisionNumber (mk_rev w n)) (revisionNumber p)
                        then AList.update w (mk_rev w n) latest else latest) rs"
    and "latest_inv cw (seen @ [mk_rev w n]) (if w = cw then latest
        else case map_of latest w of None \<Rightarrow> AList.update w (mk_rev w n) latest
             | Some p \<Rightarrow> if num_gt (revisionNumber (mk_rev w n)) (revisionNumber p)
                        then AList.update w (mk_rev w n) latest else latest)"
proof -
  have entry: "p \<noteq> [] \<and> (\<exists>m>0. p = mk_rev w m \<and> m \<le> safe_bound \<and> newest seen w p)"
    if "map_of latest w = Some p" for p
  proof -
    have "newest seen w p" using inv that by (auto simp: latest_inv_def)
    then obtain m where m: "0 < m" "p = mk_rev w m" "p \<in> set seen" by (auto simp: newest_def)
    then obtain v k where "p = mk_rev v k" "0 < k" "k \<le> safe_bound"
      using ex by (auto simp: exact_rev_def)
    with m have "m \<le> safe_bound" by (auto simp: mk_rev_inject)
    with m \<open>newest seen w p\<close> show ?thesis by auto
  qed
  show "compact_loop cw latest (mk_rev w n # rs) =
      compact_loop cw (if w = cw then latest
        else case map_of latest w of None \<Rightarrow> AList.update w (mk_rev w n) latest
             | Some p \<Rightarrow> if num_gt (revisionNumber (mk_rev w n)) (revisionNumber p)
                        then AList.update w (mk_rev w n) latest else latest) rs"
    using n entry by (cases "map_of latest w") (simp_all add: Let_def)
  let ?new = "AList.update w (mk_rev w n) latest"
  have upd: "latest_inv cw (seen @ [mk_rev w n]) ?new"
    if "w \<noteq> cw" and "newest (seen @ [mk_rev w n]) w (mk_rev w n)"
    using inv that n
    by (auto simp: latest_inv_def update_conv' distinct_update mk_rev_inject
        intro: newest_snoc_other)
  have keep: "latest_inv cw (seen @ [mk_rev w n]) latest"
    if "w = cw \<or> (\<exists>p. map_of latest w = Some p \<and> newest (seen @ [mk_rev w n]) w p)"
  proof -
    have "newest (seen @ [mk_rev w n]) v r" if "map_of latest v = Some r" for v r
      using inv that n \<open>w = cw \<or> _\<close> by (cases "v = w") (auto simp: latest_inv_def intro: newest_snoc_other)
    then show ?thesis using inv that n by (auto simp: latest_inv_def mk_rev_inject)
  qed
  show "latest_inv cw (seen @ [mk_rev w n]) (if w = cw then latest
        else case map_of latest w of None \<Rightarrow> AList.update w (mk_rev w n) latest
             | Some p \<Rightarrow> if num_gt (revisionNumber (mk_rev w n)) (revisionNumber p)
                        then AList.update w (mk_rev w n) latest else latest)"
  proof (cases "w = cw")
    case True
    then show ?thesis using keep by simp
  next
    case False
    show ?thesis
    proof (cases "map_of latest w")
      case None
      then have "mk_rev w m \<notin> set seen" if "0 < m" for m
        using inv False that unfolding latest_inv_def by blast
      then show ?thesis using False None upd newest_first n(1) by auto
    next
      case (Some p)
      then obtain m where m: "0 < m" "p = mk_rev w m" "m \<le> safe_bound" "newest seen w p"
        using entry by blast
      then show ?thesis
        using False Some n upd keep newest_snoc_greater newest_snoc_smaller
        by (auto simp: revisionNumber_mk_rev)
    qed
  qed
qed

lemma latest_inv_empty: "latest_inv cw [] []"
  by (simp add: latest_inv_def)

lemma compact_loop_inv:
  assumes "latest_inv cw seen latest" and "\<forall>r\<in>set (seen @ rs). exact_rev r"
  shows "latest_inv cw (seen @ rs) (compact_loop cw latest rs)"
  using assms
proof (induction rs arbitrary: seen latest)
  case Nil
  then show ?case by simp
next
  case (Cons r rs)
  then obtain w n where r: "r = mk_rev w n" "0 < n" "n \<le> safe_bound"
    by (auto simp: exact_rev_def)
  have ex: "\<forall>q\<in>set (seen @ [mk_rev w n]). exact_rev q" using Cons.prems r by auto
  note step = latest_inv_step [OF Cons.prems(1) ex r(2,3)]
  show ?case
    using Cons.IH [OF step(2)] Cons.prems(2) unfolding r(1) step(1) by simp
qed

lemma set_compactRevisions:
  assumes "\<forall>r\<in>set rs. exact_rev r"
  shows "set (compactRevisions rs cw) = {r. \<exists>w. w \<noteq> cw \<and> newest rs w r}"
proof -
  let ?l = "compact_loop cw [] rs"
  have inv: "latest_inv cw rs ?l"
    using compact_loop_inv [OF latest_inv_empty, of rs] assms by simp
  show ?thesis
  proof (intro set_eqI iffI)
    fix r assume "r \<in> set (compactRevisions rs cw)"
    then obtain w where "(w, r) \<in> set ?l" by (auto simp: compactRevisions_def)
    then have "map_of ?l w = Some r" using inv by (simp add: latest_inv_def)
    then show "r \<in> {r. \<exists>w. w \<noteq> cw \<and> newest rs w r}" using inv unfolding latest_inv_def by blast
  next
    fix r assume "r \<in> {r. \<exists>w. w \<noteq> cw \<and> newest rs w r}"
    then obtain w where w: "w \<noteq> cw" "newest rs w r" by blast
    then obtain p where p: "map_of ?l w = Some p" "newest rs w p"
      using inv unfolding latest_inv_def newest_def by blast
    have "p = r" using p(2) w(2) by (rule newest_unique)
    with p(1) show "r \<in> set (compactRevisions rs cw)"
      by (force simp: compactRevisions_def dest: map_of_SomeD)
  qed
qed

section \<open>A written record reads back\<close>

text \<open>The records the schema accepts, and those whose revision is also their writer's.\<close>

definition valid_draft :: "CodeDraftRecord \<Rightarrow> bool" where
  "valid_draft r \<longleftrightarrow> schemaVersion r = 1 \<and> writer_regex (writerId r) \<and> revision_regex (revision r)
     \<and> pred_option revision_regex (parentRevision r) \<and> list_all revision_regex (supersedes r)
     \<and> byteLength (source r) \<le> codeDraftMaxBytes \<and> 0 \<le> updatedAt r \<and> updatedAt r < safe_bound"

definition owned_draft :: "CodeDraftRecord \<Rightarrow> bool" where
  "owned_draft r \<longleftrightarrow> valid_draft r \<and> revisionWriter (revision r) = writerId r"

lemmas draft_keys = jget_JObj draftRecordSchema_def json_of_draft_def

lemma draft_of_json_of_draft [simp]: "draft_of_json (json_of_draft r) = r"
  by (cases r) (auto simp: draft_of_json_def json_of_draft_def jget_JObj as_str_def as_int_def
      as_list_def comp_def split: option.splits)

context zod
begin

lemma revision_accepts: "safeParse revisionSchema (JStr s) = (if revision_regex s then Some (JStr s) else None)"
  by (simp add: revisionSchema_def string_law)

lemma draft_accepts:
  assumes "valid_draft r"
  shows "safeParse draftRecordSchema (json_of_draft r) = Some (json_of_draft r)"
proof -
  have "sequence (map (safeParse revisionSchema) (map JStr (supersedes r))) = Some (map JStr (supersedes r))"
    using assms by (intro sequence_map_id) (auto simp: valid_draft_def list_all_iff revision_accepts)
  then have rev: "sequence (map (safeParse revisionSchema \<circ> JStr) (supersedes r)) = Some (map JStr (supersedes r))"
    by simp
  have upd: "num_result [NInt, NMin 0] (Fin (of_int (updatedAt r))) = Some (JNum (Fin (of_int (updatedAt r))))"
    using assms by (simp add: valid_draft_def num_result_def isSafeInteger_def isFinite_def)
  show ?thesis
    using assms rev upd
    by (auto simp: valid_draft_def draft_keys laws object_result_def revision_accepts source_fits_def
        within_max_def split: option.splits)
qed

lemma draft_parsed:
  assumes "safeParse draftRecordSchema v = Some w"
  shows "valid_draft (draft_of_json w)"
proof -
  have get: "safeParse z (jget k v) = Some (jget k w)"
    if "map_of [(js ''schemaVersion'', ZLiteral (JNum (Fin 1))),
      (js ''writerId'', ZString [SRegex writer_regex]), (js ''revision'', revisionSchema),
      (js ''parentRevision'', ZNullable revisionSchema),
      (js ''supersedes'', ZArray revisionSchema None),
      (js ''source'', ZRefine (ZString []) source_fits),
      (js ''updatedAt'', ZNumber [NInt, NMin 0])] k = Some z" for k z
    using object_SomeD [OF assms [unfolded draftRecordSchema_def] _ that] by simp
  have "jget (js ''schemaVersion'') w = JNum (Fin 1)"
    using get [of "js ''schemaVersion''"] by (simp add: literal_law split: if_splits)
  moreover obtain s where "jget (js ''writerId'') w = JStr s" "writer_regex s"
    using get [of "js ''writerId''"] by (auto dest!: string_SomeD)
  moreover obtain t where "jget (js ''revision'') w = JStr t" "revision_regex t"
    using get [of "js ''revision''"] by (auto simp: revisionSchema_def dest!: string_SomeD)
  moreover have "jget (js ''parentRevision'') w = JNull
      \<or> (\<exists>p. jget (js ''parentRevision'') w = JStr p \<and> revision_regex p)"
    using get [of "js ''parentRevision''"]
    by (auto simp: revisionSchema_def nullable_law split: if_splits dest!: string_SomeD)
  moreover have "safeParse (ZArray revisionSchema None) (jget (js ''supersedes'') v) =
      Some (jget (js ''supersedes'') w)"
    by (rule get) simp
  then obtain ws where "jget (js ''supersedes'') w = JArr ws"
      "\<And>x. x \<in> set ws \<Longrightarrow> \<exists>y. safeParse revisionSchema y = Some x"
    by (rule array_elems) blast
  then have "jget (js ''supersedes'') w = JArr ws"
      "\<forall>x\<in>set ws. \<exists>p. x = JStr p \<and> revision_regex p"
    by (fastforce simp: revisionSchema_def dest: string_SomeD)+
  moreover obtain u where "jget (js ''source'') w = JStr u" "byteLength u \<le> codeDraftMaxBytes"
    using get [of "js ''source''"]
    by (auto simp: refine_law source_fits_def split: option.splits if_splits dest!: string_SomeD)
  moreover obtain n where "jget (js ''updatedAt'') w = JNum (Fin (of_int n))" "0 \<le> n" "n < safe_bound"
    using get [of "js ''updatedAt''"] by (auto dest!: int_SomeD)
  ultimately show ?thesis
    by (auto simp: valid_draft_def draft_of_json_def as_int_def as_str_def as_list_def list_all_iff)
qed

end

lemma printable_draft: "valid_draft r \<Longrightarrow> printable (json_of_draft r)"
  by (auto simp: valid_draft_def json_of_draft_def list_all_iff small_int_def safe_bound_def
      split: option.splits)

lemma read_draft_roundtrip:
  assumes "zod P U D" and "owned_draft r"
  shows "read_draft P prefix (prefix @ writerId r) (JSON_text (json_of_draft r)) = Some r"
  using assms zod.draft_accepts [OF assms(1)] JSON_roundtrip [OF printable_draft]
  by (simp add: read_draft_def owned_draft_def Let_def)

lemma read_draft_owned:
  assumes "zod P U D" and "read_draft P prefix k raw = Some r"
  shows "owned_draft r \<and> k = prefix @ writerId r"
  using assms(2) zod.draft_parsed [OF assms(1)]
  by (auto simp: read_draft_def owned_draft_def Let_def split: option.splits if_splits)

end
