(* ===== verification/Draft_Controller.thy ===== *)
theory Draft_Controller
  imports Draft_Records
begin

text \<open>
  One page's draft controller over any sequence of calls and browser events, with any failures of
  the storage and any writes of other pages in between: what its snapshot promises, which keys it
  writes, and what a save that reports success has done.
\<close>

section \<open>Executions\<close>

datatype draft_op =
    Edit jsstr | Flush | Refresh | RetrySave | Detach | Resolve jsstr | Reset
  | StorageEvent "jsstr option" | SaveTimer | BeforeUnload | Subscribe nat | Unsubscribe nat

fun draft_step :: "host \<Rightarrow> env \<Rightarrow> draft_op \<Rightarrow> draft_state \<Rightarrow> draft_state" where
  "draft_step H E (Edit v) s = setValue v s"
| "draft_step H E Flush s = snd (flush H E s)"
| "draft_step H E Refresh s = refresh H E s"
| "draft_step H E RetrySave s = retrySave H E s"
| "draft_step H E Detach s = detach H E s"
| "draft_step H E (Resolve c) s = resolveConflict H E c s"
| "draft_step H E Reset s = resetToStarter H E s"
| "draft_step H E (StorageEvent k) s = onStorage H E k s"
| "draft_step H E SaveTimer s = timerFires H E s"
| "draft_step H E BeforeUnload s = snd (onBeforeUnload H E s)"
| "draft_step H E (Subscribe l) s = subscribe l s"
| "draft_step H E (Unsubscribe l) s = unsubscribe l s"

text \<open>A page from its construction on; \<open>elsewhere\<close> is any change of the shared storage by other
  pages between two calls.\<close>

inductive page_state :: "host \<Rightarrow> draft_state \<Rightarrow> bool" for H where
  opened: "newController H E i starter w st lost = Some s \<Longrightarrow> page_state H s"
| call: "page_state H s \<Longrightarrow> page_state H (draft_step H E op s)"
| elsewhere: "page_state H s \<Longrightarrow> page_state H (s\<lparr>storage := st\<rparr>)"

section \<open>The snapshot's promises\<close>

text \<open>The unsaved flag is the controller's own; text without unsaved changes is the baseline's
  source, or the starter code when there is no baseline; a page that shows saved or starter code
  has nothing unsaved; while edits show as pending a save is scheduled; a call never ends in
  \<open>Saving\<close>.\<close>

definition clean_text :: "CodeDraftRecord option \<Rightarrow> jsstr \<Rightarrow> jsstr" where
  "clean_text b starter = (case b of None \<Rightarrow> starter | Some r \<Rightarrow> source r)"

lemma clean_text_simps [simp]:
  "clean_text None starter = starter" "clean_text (Some r) starter = source r"
  by (simp_all add: clean_text_def)

definition draft_inv :: "draft_state \<Rightarrow> bool" where
  "draft_inv s \<longleftrightarrow> hasUnsavedChanges (snapshot s) = dirty s
     \<and> (\<not> dirty s \<longrightarrow> snap_value (snapshot s) = clean_text (baseline s) (starterCode s))
     \<and> (snap_status (snapshot s) \<in> {Clean, Saved} \<longrightarrow> \<not> dirty s)
     \<and> (snap_status (snapshot s) = Dirty \<longrightarrow> dirty s \<and> timer s)
     \<and> (timer s \<longrightarrow> dirty s) \<and> snap_status (snapshot s) \<noteq> Saving"

lemmas snap_defs = update_def adopt_def fail_def showConflict_def draft_inv_def

lemma fail_inv:
  "(\<not> dirty s \<Longrightarrow> snap_value (snapshot s) = clean_text (baseline s) (starterCode s)) \<Longrightarrow>
     (timer s \<Longrightarrow> dirty s) \<Longrightarrow> draft_inv (fail m s)"
  "(\<not> dirty s \<Longrightarrow> snap_value (snapshot s) = clean_text (baseline s) (starterCode s)) \<Longrightarrow>
     (timer s \<Longrightarrow> dirty s) \<Longrightarrow> draft_inv (showConflict hs s)"
  by (auto simp: snap_defs)

lemma setValue_inv: "draft_inv s \<Longrightarrow> draft_inv (setValue v s)"
  by (auto simp: setValue_def snap_defs)

lemma refresh_inv:
  assumes "hasUnsavedChanges (snapshot s) = dirty s" and "\<not> dirty s \<Longrightarrow> snap_value (snapshot s) = clean_text (baseline s) (starterCode s)"
    and "timer s \<Longrightarrow> dirty s" and "draft_inv s \<or> \<not> dirty s \<and> baseline s \<noteq> None"
  shows "draft_inv (refresh H E s)"
  using assms by (auto simp: refresh_def Let_def snap_defs hd_in_set)

lemma refresh_keeps: "draft_inv s \<Longrightarrow> draft_inv (refresh H E s)"
  by (rule refresh_inv) (auto simp: draft_inv_def)

lemma persist_cases:
  obtains (failed) "persist E ps s = (False, s\<lparr>seq := seq s + 1, storage := before_write E (storage s)\<rparr>)"
    | (ok) s' where "persist E ps s = (True, s')" and "baseline s' = Some (draft_record E ps s)"
      and "\<not> dirty s'" and "timer s' = timer s" and "\<not> hasUnsavedChanges (snapshot s')"
      and "snap_value (snapshot s') = snap_value (snapshot s)" and "ctl_key s' = ctl_key s"
      and "snap_status (snapshot s') = snap_status (snapshot s)"
      and "storage s' = AList.update (ctl_key s @ ctl_writer s)
             (JSON_text (json_of_draft (draft_record E ps s))) (before_write E (storage s))"
  by (cases "write_ok E") (auto simp: persist_def Let_def update_def)

lemma draft_record_fields [simp]:
  "source (draft_record E ps s) = snap_value (snapshot s)"
  "writerId (draft_record E ps s) = ctl_writer s"
  by (simp_all add: draft_record_def)

lemma update_fields [simp]:
  "snapshot (update f s) = f (snapshot s)" "ctl_writer (update f s) = ctl_writer s"
  "ctl_key (update f s) = ctl_key s" "baseline (update f s) = baseline s"
  "storage (update f s) = storage s" "seq (update f s) = seq s" "dirty (update f s) = dirty s"
  "timer (update f s) = timer s" "starterCode (update f s) = starterCode s"
  "interruptedDrafts (update f s) = interruptedDrafts s"
  by (simp_all add: update_def)

lemma flush_inv: "draft_inv s \<Longrightarrow> draft_inv (snd (flush H E s))"
  by (rule persist_cases [of E "case baseline s of Some b \<Rightarrow> [b] | None \<Rightarrow> []"
        "update (\<lambda>n. n\<lparr>snap_status := Saving, snap_message := MsgSaving\<rparr>) (s\<lparr>timer := False\<rparr>)"])
    (auto simp: flush_def Let_def snap_defs)

lemma persist_joined_inv:
  assumes "dirty s" and "\<not> timer s" and "snap_status (snapshot s) \<noteq> Saving"
  shows "draft_inv (persist_joined H E hs s)"
proof (cases rule: persist_cases [of E "hs @ (case baseline s of Some b \<Rightarrow> [b] | None \<Rightarrow> [])" s])
  case failed
  with assms show ?thesis by (auto simp: persist_joined_def snap_defs)
next
  case (ok s')
  then have "draft_inv (refresh H E (s'\<lparr>storage := after_write E (storage s')\<rparr>))"
    using assms by (intro refresh_inv) simp_all
  with ok show ?thesis by (simp add: persist_joined_def)
qed

lemma if_inv: "(b \<Longrightarrow> draft_inv x) \<Longrightarrow> (\<not> b \<Longrightarrow> draft_inv y) \<Longrightarrow> draft_inv (if b then x else y)"
  by simp

lemma resolveConflict_inv:
  assumes "draft_inv s"
  shows "draft_inv (resolveConflict H E c s)"
proof -
  have s: "\<not> dirty s \<Longrightarrow> snap_value (snapshot s) = clean_text (baseline s) (starterCode s)"
      "timer s \<Longrightarrow> dirty s" "snap_status (snapshot s) \<noteq> Saving"
    using assms by (auto simp: draft_inv_def)
  show ?thesis
    unfolding resolveConflict_def Let_def
    by (intro if_inv persist_joined_inv fail_inv) (use s in \<open>simp_all split: option.split\<close>)
qed

lemma resetToStarter_inv: "draft_inv s \<Longrightarrow> draft_inv (resetToStarter H E s)"
  unfolding resetToStarter_def Let_def draft_inv_def [of s]
  by (auto intro!: persist_joined_inv fail_inv simp: update_def)

lemma newController_inv: "newController H E i starter w st lost = Some s \<Longrightarrow> draft_inv s"
  unfolding newController_def Let_def
  by (auto simp: snap_defs split: option.splits list.splits if_splits)

lemma retrySave_inv: "draft_inv s \<Longrightarrow> draft_inv (retrySave H E s)"
  by (simp add: retrySave_def flush_inv refresh_keeps)

lemma detach_inv: "draft_inv s \<Longrightarrow> draft_inv (detach H E s)"
  using flush_inv [of s H E] by (auto simp: detach_def Let_def draft_inv_def)

lemma event_inv:
  "draft_inv s \<Longrightarrow> draft_inv (onStorage H E k s)" "draft_inv s \<Longrightarrow> draft_inv (timerFires H E s)"
  "draft_inv s \<Longrightarrow> draft_inv (snd (onBeforeUnload H E s))"
  by (simp_all add: onStorage_def timerFires_def onBeforeUnload_def Let_def flush_inv refresh_keeps)

lemma subscribe_inv:
  "draft_inv s \<Longrightarrow> draft_inv (subscribe l s)" "draft_inv s \<Longrightarrow> draft_inv (unsubscribe l s)"
  by (simp_all add: subscribe_def unsubscribe_def draft_inv_def)

lemma draft_step_inv: "draft_inv s \<Longrightarrow> draft_inv (draft_step H E op s)"
  by (cases op) (simp_all add: setValue_inv refresh_keeps flush_inv resolveConflict_inv resetToStarter_inv
      retrySave_inv detach_inv event_inv subscribe_inv)

lemma page_state_inv: "page_state H s \<Longrightarrow> draft_inv s"
proof (induction rule: page_state.induct)
  case (elsewhere s st)
  then show ?case by (simp add: draft_inv_def)
qed (simp_all add: newController_inv draft_step_inv)

section \<open>What a save has done\<close>

text \<open>The record a save writes is stored under the page's own key, with the text of the editor, at
  the moment of the write.\<close>

definition stored_record :: "storage \<Rightarrow> jsstr \<Rightarrow> CodeDraftRecord \<Rightarrow> bool" where
  "stored_record st k r \<longleftrightarrow> map_of st (k @ writerId r) = Some (JSON_text (json_of_draft r))"

lemma flush_answer: "fst (flush H E s) = (\<not> dirty (snd (flush H E s)))"
  by (rule persist_cases [of E "case baseline s of Some b \<Rightarrow> [b] | None \<Rightarrow> []"
        "update (\<lambda>n. n\<lparr>snap_status := Saving, snap_message := MsgSaving\<rparr>) (s\<lparr>timer := False\<rparr>)"])
    (auto simp: flush_def Let_def snap_defs)

lemma flush_keeps_text: "snap_value (snapshot (snd (flush H E s))) = snap_value (snapshot s)"
  by (rule persist_cases [of E "case baseline s of Some b \<Rightarrow> [b] | None \<Rightarrow> []"
        "update (\<lambda>n. n\<lparr>snap_status := Saving, snap_message := MsgSaving\<rparr>) (s\<lparr>timer := False\<rparr>)"])
    (auto simp: flush_def Let_def snap_defs)

lemma flush_stores:
  assumes "dirty s" and "fst (flush H E s)"
  shows "\<exists>r st. storage (snd (flush H E s)) = after_write E st \<and> stored_record st (ctl_key s) r
    \<and> source r = snap_value (snapshot s) \<and> baseline (snd (flush H E s)) = Some r
    \<and> byteLength (source r) \<le> codeDraftMaxBytes"
proof -
  let ?ps = "case baseline s of Some b \<Rightarrow> [b] | None \<Rightarrow> []"
  let ?s = "update (\<lambda>n. n\<lparr>snap_status := Saving, snap_message := MsgSaving\<rparr>) (s\<lparr>timer := False\<rparr>)"
  have ok: "write_ok E" "storage_ok E" "byteLength (snap_value (snapshot s)) \<le> codeDraftMaxBytes"
      "corruptKeys (scanDrafts H (storage s) (ctl_key s)) = []"
    using assms by (auto simp: flush_def Let_def persist_def snap_defs split: if_splits)
  then have "storage (snd (flush H E s)) = after_write E (AList.update (ctl_key s @ ctl_writer s)
      (JSON_text (json_of_draft (draft_record E ?ps ?s))) (before_write E (storage s)))"
      "baseline (snd (flush H E s)) = Some (draft_record E ?ps ?s)"
    using assms(1) by (simp_all add: flush_def Let_def persist_def snap_defs)
  then show ?thesis
    using ok(3)
    by (intro exI [of _ "draft_record E ?ps ?s"] exI [of _ "AList.update (ctl_key s @ ctl_writer s)
        (JSON_text (json_of_draft (draft_record E ?ps ?s))) (before_write E (storage s))"] conjI)
      (simp_all only: stored_record_def draft_record_fields update_conv' update_fields, simp_all)
qed

section \<open>Which keys a page touches\<close>

text \<open>Calls during which no other page writes.\<close>

definition quiet :: "env \<Rightarrow> bool" where
  "quiet E \<longleftrightarrow> before_write E = id \<and> after_write E = id"

lemma snap_storage [simp]:
  "storage (adopt r s) = storage s" "storage (fail m s) = storage s"
  "storage (showConflict hs s) = storage s" "storage (setValue v s) = storage s"
  "storage (subscribe l s) = storage s" "storage (unsubscribe l s) = storage s"
  by (simp_all add: adopt_def fail_def showConflict_def setValue_def subscribe_def unsubscribe_def)

lemma refresh_storage [simp]: "storage (refresh H E s) = storage s"
  by (simp add: refresh_def Let_def)

lemma persist_storage:
  assumes "quiet E" and "k \<noteq> ctl_key s @ ctl_writer s"
  shows "map_of (storage (snd (persist E ps s))) k = map_of (storage s) k"
  using assms by (simp add: persist_def Let_def quiet_def update_conv')

lemma flush_storage:
  assumes "quiet E" and "k \<noteq> ctl_key s @ ctl_writer s"
  shows "map_of (storage (snd (flush H E s))) k = map_of (storage s) k"
  using assms by (simp add: flush_def persist_def Let_def quiet_def update_conv')

lemma persist_joined_storage:
  assumes "quiet E" and "k \<noteq> ctl_key s @ ctl_writer s"
  shows "map_of (storage (persist_joined H E hs s)) k = map_of (storage s) k"
  using assms by (simp add: persist_joined_def persist_def Let_def quiet_def update_conv')

lemma resolveConflict_storage:
  assumes "quiet E" and "k \<noteq> ctl_key s @ ctl_writer s"
  shows "map_of (storage (resolveConflict H E c s)) k = map_of (storage s) k"
  using assms by (simp add: resolveConflict_def Let_def persist_joined_storage split: option.split)

lemma map_of_fold_delete: "map_of (fold AList.delete ks st) k = (if k \<in> set ks then None else map_of st k)"
  by (induction ks arbitrary: st) (auto simp: delete_conv')

lemma resetToStarter_storage:
  assumes "quiet E" and "k \<noteq> ctl_key s @ ctl_writer s"
    and "k \<notin> set (corruptKeys (scanDrafts H (storage s) (ctl_key s)))"
  shows "map_of (storage (resetToStarter H E s)) k = map_of (storage s) k"
  using assms by (simp add: resetToStarter_def Let_def persist_joined_storage map_of_fold_delete)

lemma scan_loop_keys:
  "k \<in> set (snd (scan_loop P prefix st)) \<Longrightarrow> startsWith k prefix"
  by (induction st) (auto simp: Let_def split: if_splits prod.splits option.splits)

lemma corruptKeys_prefix:
  "k \<in> set (corruptKeys (scanDrafts H st prefix)) \<Longrightarrow> startsWith k prefix"
  using scan_loop_keys [of k "hostParse H" prefix st]
  by (auto simp: scanDrafts_def Let_def split: prod.splits if_splits)


text \<open>What a page's calls may change in the shared storage: its own record and, in a confirmed
  reset, unreadable records of the same identity.\<close>

lemma draft_step_storage:
  assumes "quiet E" and "k \<noteq> ctl_key s @ ctl_writer s"
    and "op = Reset \<Longrightarrow> k \<notin> set (corruptKeys (scanDrafts H (storage s) (ctl_key s)))"
  shows "map_of (storage (draft_step H E op s)) k = map_of (storage s) k"
  using assms
  by (cases op) (simp_all add: flush_storage resolveConflict_storage resetToStarter_storage
      retrySave_def detach_def onStorage_def timerFires_def onBeforeUnload_def Let_def)

end
