(* ===== verification/Draft_Causality.thy ===== *)
theory Draft_Causality
  imports Draft_Controller
begin

text \<open>
  What the revisions in a draft record mean. A history lists the records all pages have ever
  written for one identity, oldest first, each with the records its writer had in hand; a record
  \<open>knows\<close> its parents and what they know. The storage holds the newest record of every writer. The
  compacted revision lists of the source then decide exactly that causal order: a scan finds no
  corrupt record, and its heads are the stored records no other stored record knows.
\<close>

section \<open>Histories\<close>

type_synonym history = "(CodeDraftRecord \<times> CodeDraftRecord list) list"

abbreviation written :: "history \<Rightarrow> CodeDraftRecord list" where
  "written h \<equiv> map fst h"

definition rev_no :: "CodeDraftRecord \<Rightarrow> int" where
  "rev_no r = digits_val (last (split_on 58 (revision r)))"

definition last_of :: "jsstr \<Rightarrow> history \<Rightarrow> CodeDraftRecord option" where
  "last_of w h = find (\<lambda>r. writerId r = w) (rev (written h))"

text \<open>A record a page may write next: readable, with a number of its writer not used before, on top
  of parents that exist, the writer's own previous record among them.\<close>

definition fits :: "history \<Rightarrow> CodeDraftRecord \<Rightarrow> CodeDraftRecord list \<Rightarrow> bool" where
  "fits h r ps \<longleftrightarrow> owned_draft r
     \<and> revision r = mk_rev (writerId r) (rev_no r) \<and> 0 < rev_no r \<and> rev_no r < safe_bound
     \<and> (\<forall>q\<in>set (written h). writerId q = writerId r \<longrightarrow> rev_no q < rev_no r)
     \<and> set ps \<subseteq> set (written h)
     \<and> (\<forall>q. last_of (writerId r) h = Some q \<longrightarrow> q \<in> set ps)
     \<and> supersedes r = ancestry ps (writerId r)
     \<and> (case parentRevision r of None \<Rightarrow> True | Some v \<Rightarrow> v \<in> revision ` set ps)"

inductive chain :: "history \<Rightarrow> bool" where
  chain_Nil: "chain []"
| chain_snoc: "chain h \<Longrightarrow> fits h r ps \<Longrightarrow> chain (h @ [(r, ps)])"

inductive knows :: "history \<Rightarrow> CodeDraftRecord \<Rightarrow> CodeDraftRecord \<Rightarrow> bool" for h where
  parent: "(r, ps) \<in> set h \<Longrightarrow> p \<in> set ps \<Longrightarrow> knows h r p"
| beyond: "(r, ps) \<in> set h \<Longrightarrow> p \<in> set ps \<Longrightarrow> knows h p q \<Longrightarrow> knows h r q"

inductive_cases chain_snocE: "chain (h @ [x])"

lemma chain_record:
  assumes "chain h" and "r \<in> set (written h)"
  shows "owned_draft r \<and> revision r = mk_rev (writerId r) (rev_no r) \<and> 0 < rev_no r \<and> rev_no r < safe_bound"
  using assms by (induction rule: chain.induct) (auto simp: fits_def)

lemma chain_unique:
  assumes "chain h" and "(r, ps) \<in> set h" and "(q, qs) \<in> set h" and "writerId r = writerId q"
    and "rev_no r = rev_no q"
  shows "r = q \<and> ps = qs"
  using assms by (induction arbitrary: rule: chain.induct) (fastforce simp: fits_def)+

lemma chain_revision_unique:
  assumes "chain h" and "r \<in> set (written h)" and "q \<in> set (written h)" and "revision r = revision q"
  shows "r = q"
proof -
  have "writerId r = writerId q \<and> rev_no r = rev_no q"
    using chain_record [OF assms(1,2)] chain_record [OF assms(1,3)] assms(4) by (metis mk_rev_inject less_imp_le)
  then show ?thesis using chain_unique [OF assms(1)] assms(2,3) by auto
qed

lemma chain_parents:
  assumes "chain h" and "(r, ps) \<in> set h" and "p \<in> set ps"
  shows "p \<in> set (written h)"
  using assms by (induction rule: chain.induct) (auto simp: fits_def)

lemma knows_written:
  assumes "chain h" and "knows h r q"
  shows "r \<in> set (written h) \<and> q \<in> set (written h)"
  using assms(2,1) chain_parents [of h]
  by (induction rule: knows.induct) (auto simp: image_iff Bex_def)

lemma fits_new:
  assumes "fits h r ps"
  shows "r \<notin> set (written h)"
  using assms by (auto simp: fits_def)

lemma knows_snoc_old:
  assumes "chain (h @ [(r, ps)])" and "x \<in> set (written h)"
  shows "knows (h @ [(r, ps)]) x q \<longleftrightarrow> knows h x q"
proof
  have h: "chain h" and f: "fits h r ps" using assms(1) by (auto elim: chain_snocE)
  show "knows h x q" if "knows (h @ [(r, ps)]) x q"
    using that assms(2)
  proof (induction rule: knows.induct)
    case (parent x qs p)
    then have "(x, qs) \<in> set h" using fits_new [OF f] by auto
    with parent show ?case by (auto intro: knows.parent)
  next
    case (beyond x qs p q)
    then have "(x, qs) \<in> set h" using fits_new [OF f] by auto
    moreover have "p \<in> set (written h)" using chain_parents [OF h \<open>(x, qs) \<in> set h\<close> beyond(2)] .
    ultimately show ?case using beyond by (auto intro: knows.beyond)
  qed
  show "knows (h @ [(r, ps)]) x q" if "knows h x q"
    using that by (induction rule: knows.induct) (auto intro: knows.intros)
qed

lemma knows_snoc_new:
  assumes "chain (h @ [(r, ps)])"
  shows "knows (h @ [(r, ps)]) r q \<longleftrightarrow> (\<exists>p\<in>set ps. q = p \<or> knows h p q)"
proof -
  have h: "chain h" and f: "fits h r ps" using assms by (auto elim: chain_snocE)
  have ps: "set ps \<subseteq> set (written h)" using f by (auto simp: fits_def)
  have only: "qs = ps" if "(r, qs) \<in> set (h @ [(r, ps)])" for qs
    using that fits_new [OF f] by force
  have "knows (h @ [(r, ps)]) r q \<longleftrightarrow> (\<exists>p\<in>set ps. q = p \<or> knows (h @ [(r, ps)]) p q)"
    using only by (subst knows.simps) auto
  then show ?thesis using knows_snoc_old [OF assms] ps by blast
qed

section \<open>Revision lists decide the causal order\<close>

lemma newest_exists:
  assumes "mk_rev w m \<in> set rs" and "0 < m"
  shows "\<exists>k\<ge>m. newest rs w (mk_rev w k)"
proof -
  let ?N = "{k. 0 < k \<and> mk_rev w k \<in> set rs}"
  have "inj_on (mk_rev w) ?N" by (auto simp: inj_on_def mk_rev_inject)
  moreover have "finite (mk_rev w ` ?N)" by (rule finite_subset [of _ "set rs"]) auto
  ultimately have fin: "finite ?N" by (simp add: finite_image_iff)
  moreover have "m \<in> ?N" using assms by simp
  ultimately have "Max ?N \<in> ?N" by (intro Max_in) blast+
  moreover have "\<And>k. k \<in> ?N \<Longrightarrow> k \<le> Max ?N" using fin by simp
  ultimately show ?thesis
    using \<open>m \<in> ?N\<close> by (intro exI [of _ "Max ?N"]) (auto simp: newest_def)
qed

lemma in_mentions:
  "v \<in> set (mentions r) \<longleftrightarrow> v = revision r \<or> v \<in> set (supersedes r) \<or> v \<noteq> [] \<and> parentRevision r = Some v"
  by (cases "parentRevision r") (auto simp: mentions_def)

lemma mentions_exact:
  assumes "chain h" and "r \<in> set (written h)" and "v \<in> set (mentions r)"
  shows "exact_rev v \<and> (v = revision r \<or> (\<exists>q. knows h r q \<and> revision q = v))"
  using assms
proof (induction arbitrary: r v rule: chain.induct)
  case chain_Nil
  then show ?case by simp
next
  case (chain_snoc h n ps)
  have c: "chain (h @ [(n, ps)])" using chain_snoc.hyps by (rule chain.chain_snoc)
  have self: "exact_rev (revision x)" if "x \<in> set (written (h @ [(n, ps)]))" for x
    using chain_record [OF c that] unfolding exact_rev_def owned_draft_def valid_draft_def
    by (metis less_imp_le)
  show ?case
  proof (cases "r \<in> set (written h)")
    case True
    then show ?thesis using chain_snoc.IH chain_snoc.prems(2) knows_snoc_old [OF c True] by blast
  next
    case False
    then have r: "r = n" using chain_snoc.prems(1) by auto
    have ps: "set ps \<subseteq> set (written h)" using chain_snoc.hyps(2) by (auto simp: fits_def)
    have all: "exact_rev u \<and> (\<exists>q. knows (h @ [(n, ps)]) n q \<and> revision q = u)"
      if u: "u \<in> set (concat (map mentions ps))" for u
    proof -
      obtain p where p: "p \<in> set ps" "u \<in> set (mentions p)" using u by auto
      then have "exact_rev u \<and> (u = revision p \<or> (\<exists>q. knows h p q \<and> revision q = u))"
        using chain_snoc.IH ps by blast
      then show ?thesis using p(1) knows_snoc_new [OF c] by blast
    qed
    have "set (supersedes n) \<subseteq> set (concat (map mentions ps))"
      using chain_snoc.hyps(2) set_compactRevisions [of "concat (map mentions ps)" "writerId n"] all
      by (auto simp: fits_def ancestry_def newest_def)
    moreover have "u \<in> set (concat (map mentions ps))" if "parentRevision n = Some u" for u
      using chain_snoc.hyps(2) that by (auto simp: fits_def mentions_def)
    ultimately have "v = revision n \<or> v \<in> set (concat (map mentions ps))"
      using chain_snoc.prems(2) unfolding r in_mentions by blast
    then show ?thesis using all self [of n] r by auto
  qed
qed

lemma knows_covered:
  assumes "chain h" and "knows h r q"
  shows "\<exists>m\<ge>rev_no q. mk_rev (writerId q) m \<in> set (mentions r)"
  using assms
proof (induction arbitrary: r q rule: chain.induct)
  case chain_Nil
  then show ?case by (auto elim: knows.cases)
next
  case (chain_snoc h n ps)
  have c: "chain (h @ [(n, ps)])" using chain_snoc.hyps by (rule chain.chain_snoc)
  show ?case
  proof (cases "r \<in> set (written h)")
    case True
    then show ?thesis using chain_snoc.IH chain_snoc.prems knows_snoc_old [OF c True] by blast
  next
    case False
    then have r: "r = n" using knows_written [OF c chain_snoc.prems] by auto
    obtain p where p: "p \<in> set ps" "q = p \<or> knows h p q"
      using chain_snoc.prems knows_snoc_new [OF c] r by blast
    have pw: "p \<in> set (written h)" using p(1) chain_snoc.hyps(2) by (auto simp: fits_def)
    have "q \<in> set (written h)"
      using p(2) pw knows_written [OF chain_snoc.hyps(1)] by blast
    show ?thesis
    proof (cases "writerId q = writerId n")
      case True
      then show ?thesis
        using chain_snoc.hyps(2) \<open>q \<in> set (written h)\<close> r
        by (intro exI [of _ "rev_no n"]) (auto simp: fits_def mentions_def)
    next
      case False
      let ?M = "concat (map mentions ps)"
      have "\<exists>m\<ge>rev_no q. mk_rev (writerId q) m \<in> set (mentions p)"
      proof (cases "q = p")
        case True
        then show ?thesis
          using chain_record [OF chain_snoc.hyps(1) pw]
          by (intro exI [of _ "rev_no q"]) (simp add: mentions_def)
      next
        case False
        then show ?thesis using p(2) chain_snoc.IH by blast
      qed
      then obtain m where m: "rev_no q \<le> m" "mk_rev (writerId q) m \<in> set ?M" using p(1) by auto
      have "0 < rev_no q"
        using chain_record [OF chain_snoc.hyps(1) \<open>q \<in> set (written h)\<close>] by simp
      then obtain k where k: "m \<le> k" "newest ?M (writerId q) (mk_rev (writerId q) k)"
        using newest_exists [OF m(2)] m(1) by force
      have "\<forall>v\<in>set ?M. exact_rev v"
        using mentions_exact [OF chain_snoc.hyps(1)] chain_snoc.hyps(2) by (fastforce simp: fits_def)
      then have "mk_rev (writerId q) k \<in> set (supersedes n)"
        using chain_snoc.hyps(2) False k(2) set_compactRevisions [of ?M "writerId n"]
        by (auto simp: fits_def ancestry_def)
      then show ?thesis using m(1) k(1) r by (intro exI [of _ k]) (auto simp: mentions_def)
    qed
  qed
qed

lemma knows_trans: "knows h r q \<Longrightarrow> knows h q p \<Longrightarrow> knows h r p"
  by (induction rule: knows.induct) (auto intro: knows.beyond)

text \<open>Knowledge goes back in time, so no two records know each other.\<close>

lemma knows_acyclic: "chain h \<Longrightarrow> \<not> knows h r r"
proof (induction arbitrary: r rule: chain.induct)
  case chain_Nil
  then show ?case by (auto elim: knows.cases)
next
  case (chain_snoc h n ps)
  have c: "chain (h @ [(n, ps)])" using chain_snoc.hyps by (rule chain.chain_snoc)
  show ?case
  proof
    assume k: "knows (h @ [(n, ps)]) r r"
    show False
    proof (cases "r \<in> set (written h)")
      case True
      then show ?thesis using k knows_snoc_old [OF c True] chain_snoc.IH by blast
    next
      case False
      then have r: "r = n" using knows_written [OF c k] by auto
      have "set ps \<subseteq> set (written h)" using chain_snoc.hyps(2) by (simp add: fits_def)
      moreover obtain p where "p \<in> set ps" "r = p \<or> knows h p r"
        using k knows_snoc_new [OF c] r by blast
      ultimately have "r \<in> set (written h)" using knows_written [OF chain_snoc.hyps(1)] by blast
      then show ?thesis using False by blast
    qed
  qed
qed

section \<open>The newest record of every writer\<close>

lemma last_of_SomeD: "last_of w h = Some r \<Longrightarrow> r \<in> set (written h) \<and> writerId r = w"
  unfolding last_of_def find_Some_iff by (metis nth_mem set_rev)

lemma last_of_snoc: "last_of w (h @ [(r, ps)]) = (if writerId r = w then Some r else last_of w h)"
  by (simp add: last_of_def)

lemma last_of_greatest:
  assumes "chain h" and "last_of w h = Some r" and "q \<in> set (written h)" and "writerId q = w"
  shows "rev_no q \<le> rev_no r"
  using assms
proof (induction arbitrary: r q rule: chain.induct)
  case chain_Nil
  then show ?case by simp
next
  case (chain_snoc h n ps)
  then show ?case by (auto simp: last_of_snoc fits_def split: if_splits)
qed

lemma last_of_exists: "q \<in> set (written h) \<Longrightarrow> \<exists>r. last_of (writerId q) h = Some r"
  unfolding last_of_def by (cases "find (\<lambda>r. writerId r = writerId q) (rev (written h))") (auto simp: find_None_iff)

lemma newest_writer: "newest rs u (mk_rev w n) \<Longrightarrow> 0 < n \<Longrightarrow> u = w"
  by (auto simp: newest_def mk_rev_inject)

text \<open>The comparison the source makes: between the newest records of two writers, a record is in
  the other's ancestry exactly when the other's writer had it in hand.\<close>

lemma ancestry_iff_knows:
  assumes "chain h" and r: "last_of w h = Some r" and q: "q \<in> set (written h)" "writerId q \<noteq> w"
  shows "revision r \<in> set (ancestry [q] (writerId q)) \<longleftrightarrow> knows h q r"
proof -
  have rw: "r \<in> set (written h)" "writerId r = w" using last_of_SomeD [OF r] by auto
  have rr: "revision r = mk_rev w (rev_no r)" "0 < rev_no r" using chain_record [OF assms(1) rw(1)] rw(2) by auto
  have "set (ancestry [q] (writerId q)) = {v. \<exists>u. u \<noteq> writerId q \<and> newest (mentions q) u v}"
    using set_compactRevisions [of "mentions q" "writerId q"] mentions_exact [OF assms(1) q(1)]
    by (auto simp: ancestry_def)
  then have mem: "revision r \<in> set (ancestry [q] (writerId q)) \<longleftrightarrow> newest (mentions q) w (revision r)"
    using q(2) rr newest_writer [of "mentions q" _ w "rev_no r"] by (auto intro: exI [of _ w])
  have bound: "m \<le> rev_no r" if m: "0 < m" "mk_rev w m \<in> set (mentions q)" for m
  proof -
    obtain x where x: "x \<in> set (written h)" "revision x = mk_rev w m"
      using mentions_exact [OF assms(1) q(1) m(2)] q(1) knows_written [OF assms(1)] by metis
    then have "writerId x = w \<and> rev_no x = m"
      using chain_record [OF assms(1) x(1)] m(1) by (metis mk_rev_inject less_imp_le)
    then show ?thesis using last_of_greatest [OF assms(1) r x(1)] by auto
  qed
  show ?thesis unfolding mem
  proof
    assume "newest (mentions q) w (revision r)"
    then have "revision r \<in> set (mentions q)" by (auto simp: newest_def)
    then have "revision r = revision q \<or> (\<exists>x. knows h q x \<and> revision x = revision r)"
      using mentions_exact [OF assms(1) q(1)] by blast
    then show "knows h q r"
      using chain_revision_unique [OF assms(1) rw(1)] q rw(2) knows_written [OF assms(1)] by metis
  next
    assume k: "knows h q r"
    then obtain m where m: "rev_no r \<le> m" "mk_rev w m \<in> set (mentions q)"
      using knows_covered [OF assms(1) k] rw(2) by auto
    then have "m = rev_no r" using bound [of m] rr(2) by simp
    with m rr bound show "newest (mentions q) w (revision r)" by (auto simp: newest_def)
  qed
qed

section \<open>The storage and its scan\<close>

definition stored :: "history \<Rightarrow> CodeDraftRecord \<Rightarrow> bool" where
  "stored h r \<longleftrightarrow> last_of (writerId r) h = Some r"

definition maximal :: "history \<Rightarrow> CodeDraftRecord \<Rightarrow> bool" where
  "maximal h r \<longleftrightarrow> stored h r \<and> (\<forall>q. stored h q \<longrightarrow> \<not> knows h q r)"

text \<open>Under the keys of one identity lies the newest record of every writer of the history, and
  nothing else; other keys are free.\<close>

definition causal :: "jsstr \<Rightarrow> history \<Rightarrow> storage \<Rightarrow> bool" where
  "causal K h st \<longleftrightarrow> chain h \<and> distinct (map fst st)
     \<and> (\<forall>w. map_of st (K @ w) = map_option (\<lambda>r. JSON_text (json_of_draft r)) (last_of w h))"

lemma stored_written: "stored h r \<Longrightarrow> r \<in> set (written h)"
  by (auto simp: stored_def dest: last_of_SomeD)

lemma last_of_stored: "last_of w h = Some r \<longleftrightarrow> stored h r \<and> writerId r = w"
  by (auto simp: stored_def dest: last_of_SomeD)

lemma scan_loop_readable:
  assumes "\<And>k raw. (k, raw) \<in> set st \<Longrightarrow> startsWith k K \<Longrightarrow> read_draft P K k raw = Some (f k)"
  shows "scan_loop P K st = (map f (filter (\<lambda>k. startsWith k K) (map fst st)), [])"
  using assms
proof (induction st)
  case (Cons p st)
  obtain k raw where p: "p = (k, raw)" by (cases p)
  have "read_draft P K k raw = Some (f k)" if "startsWith k K" using Cons.prems p that by simp
  moreover have "scan_loop P K st = (map f (filter (\<lambda>k. startsWith k K) (map fst st)), [])"
    using Cons by simp
  ultimately show ?case by (auto simp: p)
qed simp

lemma causal_scan_loop:
  assumes "zod P U D" and "causal K h st"
  obtains rs where "scan_loop P K st = (rs, [])" and "set rs = {r. stored h r}" and "distinct rs"
proof -
  let ?f = "\<lambda>k. the (last_of (drop (length K) k) h)"
  have ch: "chain h" and dist: "distinct (map fst st)"
    and at: "\<And>w. map_of st (K @ w) = map_option (\<lambda>r. JSON_text (json_of_draft r)) (last_of w h)"
    using assms(2) by (auto simp: causal_def)
  have "read_draft P K k raw = Some (?f k)" if kr: "(k, raw) \<in> set st" "startsWith k K" for k raw
  proof -
    obtain w where k: "k = K @ w" using kr(2) by (auto simp: startsWith_iff)
    have "map_of st k = Some raw" using kr(1) dist by simp
    then obtain r where r: "last_of w h = Some r" "raw = JSON_text (json_of_draft r)"
      using at [of w] k by auto
    have "owned_draft r" "writerId r = w"
      using last_of_SomeD [OF r(1)] chain_record [OF ch] by auto
    then show ?thesis using read_draft_roundtrip [OF assms(1), of r K] r k by simp
  qed
  then have scan: "scan_loop P K st = (map ?f (filter (\<lambda>k. startsWith k K) (map fst st)), [])"
    by (rule scan_loop_readable)
  have keys: "K @ w \<in> set (map fst st) \<longleftrightarrow> last_of w h \<noteq> None" for w
    using at [of w] by (metis map_of_eq_None_iff map_option_is_None list.set_map)
  have "r \<in> set (map ?f (filter (\<lambda>k. startsWith k K) (map fst st))) \<longleftrightarrow> stored h r" for r
  proof
    assume "r \<in> set (map ?f (filter (\<lambda>k. startsWith k K) (map fst st)))"
    then obtain k where k: "k \<in> set (map fst st)" "startsWith k K" "r = ?f k" by auto
    then obtain w where "k = K @ w" by (auto simp: startsWith_iff)
    with k have "K @ w \<in> set (map fst st)" "r = the (last_of w h)" by simp_all
    then have "last_of w h = Some r" using keys [of w] by (metis option.collapse)
    then show "stored h r" by (simp add: last_of_stored)
  next
    assume "stored h r"
    then have "K @ writerId r \<in> set (map fst st)" "?f (K @ writerId r) = r"
      using keys [of "writerId r"] by (auto simp: stored_def)
    then show "r \<in> set (map ?f (filter (\<lambda>k. startsWith k K) (map fst st)))"
      by (metis (mono_tags, lifting) image_eqI list.set_map mem_Collect_eq set_filter startsWith_append)
  qed
  then have "set (map ?f (filter (\<lambda>k. startsWith k K) (map fst st))) = {r. stored h r}" by blast
  moreover have "inj_on ?f (set (filter (\<lambda>k. startsWith k K) (map fst st)))"
  proof (rule inj_on_inverseI [where g = "\<lambda>r. K @ writerId r"])
    fix k assume "k \<in> set (filter (\<lambda>k. startsWith k K) (map fst st))"
    then have "startsWith k K" "k \<in> set (map fst st)" by simp_all
    then obtain w where "k = K @ w" "K @ w \<in> set (map fst st)"
      unfolding startsWith_iff by blast
    then show "K @ writerId (?f k) = k" using keys [of w] last_of_SomeD [of w h] by fastforce
  qed
  then have "distinct (map ?f (filter (\<lambda>k. startsWith k K) (map fst st)))"
    using dist by (simp add: distinct_map distinct_filter)
  ultimately show thesis using that scan by blast
qed

lemma superseded_iff_known:
  assumes "chain h" and "set rs = {r. stored h r}" and "stored h r"
  shows "revision r \<in> superseded rs \<longleftrightarrow> (\<exists>q. stored h q \<and> knows h q r)"
proof -
  have "revision r \<in> set (ancestry [q] (writerId q)) \<longleftrightarrow> knows h q r" if q: "stored h q" for q
  proof (cases "writerId q = writerId r")
    case True
    then have "q = r" using q assms(3) by (simp add: stored_def)
    moreover have "revision r \<notin> set (ancestry [r] (writerId r))"
    proof
      have "set (ancestry [r] (writerId r)) = {v. \<exists>u. u \<noteq> writerId r \<and> newest (mentions r) u v}"
        using set_compactRevisions [of "mentions r" "writerId r"]
          mentions_exact [OF assms(1) stored_written [OF assms(3)]]
        by (auto simp: ancestry_def)
      moreover assume "revision r \<in> set (ancestry [r] (writerId r))"
      ultimately obtain u where "u \<noteq> writerId r" "newest (mentions r) u (revision r)" by blast
      then show False
        using newest_writer [of "mentions r" u "writerId r" "rev_no r"]
          chain_record [OF assms(1) stored_written [OF assms(3)]] by simp
    qed
    ultimately show ?thesis using knows_acyclic [OF assms(1)] by blast
  next
    case False
    have "last_of (writerId r) h = Some r" using assms(3) by (simp add: stored_def)
    from ancestry_iff_knows [OF assms(1) this stored_written [OF q] False] show ?thesis .
  qed
  then show ?thesis using assms(2) by (auto simp: superseded_def)
qed

lemma last_maximal: "chain (h @ [(r, ps)]) \<Longrightarrow> maximal (h @ [(r, ps)]) r"
  unfolding maximal_def
proof (intro conjI allI impI notI)
  assume c: "chain (h @ [(r, ps)])"
  then have h: "chain h" "fits h r ps" by (auto elim: chain_snocE)
  show "stored (h @ [(r, ps)]) r" by (simp add: stored_def last_of_snoc)
  fix q assume k: "knows (h @ [(r, ps)]) q r"
  then have "q \<in> set (written h)"
    using knows_written [OF c k] knows_acyclic [OF c] by auto
  then have "knows h q r" using knows_snoc_old [OF c] k by blast
  then show False using knows_written [OF h(1)] fits_new [OF h(2)] by blast
qed

text \<open>Every stored record is a maximal one or known to one.\<close>

lemma maximal_above:
  assumes "chain h" and "stored h q"
  shows "\<exists>m. maximal h m \<and> (m = q \<or> knows h m q)"
  using assms(2)
proof (induction "card {x. stored h x \<and> knows h x q}" arbitrary: q rule: less_induct)
  case less
  show ?case
  proof (cases "maximal h q")
    case False
    then obtain x where x: "stored h x" "knows h x q" using less.prems by (auto simp: maximal_def)
    have "finite {x. stored h x \<and> knows h x q}"
      by (rule finite_subset [of _ "set (written h)"]) (auto dest: stored_written)
    moreover have "{y. stored h y \<and> knows h y x} \<subset> {y. stored h y \<and> knows h y q}"
      using x knows_trans knows_acyclic [OF assms(1)] by blast
    ultimately have "card {y. stored h y \<and> knows h y x} < card {y. stored h y \<and> knows h y q}"
      by (rule psubset_card_mono)
    then obtain m where "maximal h m" "m = x \<or> knows h m x" using less.hyps x(1) by blast
    then show ?thesis using x(2) knows_trans by blast
  qed blast
qed

theorem causal_scan:
  assumes "zod (hostParse H) U D" and "causal K h st"
  shows "corruptKeys (scanDrafts H st K) = []"
    and "set (heads (scanDrafts H st K)) = {r. maximal h r}"
    and "heads (scanDrafts H st K) = [] \<longleftrightarrow> h = []"
    and "distinct (heads (scanDrafts H st K))"
proof -
  obtain rs where scan: "scan_loop (hostParse H) K st = (rs, [])" and rs: "set rs = {r. stored h r}"
    and dist: "distinct rs"
    using causal_scan_loop [OF assms] .
  show "distinct (heads (scanDrafts H st K))" using dist by (simp add: scanDrafts_def scan Let_def)
  have ch: "chain h" using assms(2) by (simp add: causal_def)
  show hs: "set (heads (scanDrafts H st K)) = {r. maximal h r}"
    using superseded_iff_known [OF ch rs] rs by (auto simp: scanDrafts_def scan maximal_def)
  show ne: "heads (scanDrafts H st K) = [] \<longleftrightarrow> h = []"
  proof
    show "h = []" if "heads (scanDrafts H st K) = []"
    proof (rule ccontr)
      assume "h \<noteq> []"
      then obtain h' r ps where "h = h' @ [(r, ps)]" by (metis rev_exhaust surj_pair)
      then show False using last_maximal ch hs that by fastforce
    qed
    show "heads (scanDrafts H st K) = []" if "h = []"
      using hs that by (auto simp: maximal_def stored_def last_of_def)
  qed
  have "rs = []" if "h = []" using rs that by (auto simp: stored_def last_of_def)
  then show "corruptKeys (scanDrafts H st K) = []"
    using ne by (auto simp: scanDrafts_def scan Let_def)
qed

end
