(* ===== verification/Draft_Pages.thy ===== *)
theory Draft_Pages
  imports Draft_Causality
begin

text \<open>
  A page among other pages. \<open>coherent\<close> relates one controller to the history all pages have
  written; other pages may extend the history at any time (\<open>rely\<close>), also inside a call of this
  page, between its scan and its write and between its write and its second scan (\<open>in_between\<close>).
  Every call of the controller keeps the relation and is in turn what the other pages rely on, so
  saved text is never lost, a save that reports success is what any page opened next shows, and an
  explicit choice joins the branches.
\<close>

section \<open>The relation\<close>

definition rely :: "jsstr \<Rightarrow> history \<Rightarrow> history \<Rightarrow> bool" where
  "rely w h h' \<longleftrightarrow> (\<exists>ext. h' = h @ ext \<and> (\<forall>r\<in>set (written ext). writerId r \<noteq> w))"

definition page_ok :: "history \<Rightarrow> draft_state \<Rightarrow> bool" where
  "page_ok h s \<longleftrightarrow> writer_regex (ctl_writer s)
     \<and> (\<forall>b. baseline s = Some b \<longrightarrow> b \<in> set (written h))
     \<and> (\<forall>q. last_of (ctl_writer s) h = Some q \<longrightarrow> baseline s = Some q)
     \<and> 0 \<le> seq s
     \<and> (\<forall>q\<in>set (written h). writerId q = ctl_writer s \<longrightarrow> rev_no q \<le> seq s)
     \<and> (\<forall>src b. interruptedDrafts s (ctl_key s) = Some (src, Some b) \<longrightarrow> b \<in> set (written h))"

definition coherent :: "history \<Rightarrow> draft_state \<Rightarrow> bool" where
  "coherent h s \<longleftrightarrow> causal (ctl_key s) h (storage s) \<and> page_ok h s"

text \<open>Other pages take the history to \<open>h1\<close> before this page writes, and on by \<open>F\<close> after.\<close>

definition meets :: "history \<Rightarrow> draft_state \<Rightarrow> env \<Rightarrow> history \<Rightarrow> (history \<Rightarrow> history) \<Rightarrow> bool" where
  "meets h s E h1 F \<longleftrightarrow> rely (ctl_writer s) h h1 \<and> causal (ctl_key s) h1 (before_write E (storage s))
     \<and> (\<forall>r ps st. writerId r = ctl_writer s \<longrightarrow> causal (ctl_key s) (h1 @ [(r, ps)]) st \<longrightarrow>
          rely (ctl_writer s) (h1 @ [(r, ps)]) (F (h1 @ [(r, ps)]))
          \<and> causal (ctl_key s) (F (h1 @ [(r, ps)])) (after_write E st))"

definition in_between :: "history \<Rightarrow> draft_state \<Rightarrow> env \<Rightarrow> bool" where
  "in_between h s E \<longleftrightarrow> (\<exists>h1 F. meets h s E h1 F)"

definition clock_ok :: "env \<Rightarrow> draft_state \<Rightarrow> bool" where
  "clock_ok E s \<longleftrightarrow> 0 \<le> now E \<and> now E < safe_bound \<and> seq s + 1 < safe_bound"

lemma rely_refl [simp]: "rely w h h"
  by (simp add: rely_def)

lemma rely_trans: "rely w h h1 \<Longrightarrow> rely w h1 h2 \<Longrightarrow> rely w h h2"
  by (auto simp: rely_def)

lemma quiet_meets: "quiet E \<Longrightarrow> coherent h s \<Longrightarrow> meets h s E h id"
  by (simp add: meets_def coherent_def quiet_def)

lemma quiet_in_between: "quiet E \<Longrightarrow> coherent h s \<Longrightarrow> in_between h s E"
  unfolding in_between_def using quiet_meets by blast

lemma last_of_append_other:
  "\<forall>r\<in>set (written ext). writerId r \<noteq> w \<Longrightarrow> last_of w (h @ ext) = last_of w h"
proof (induction ext rule: rev_induct)
  case (snoc x ext)
  obtain r ps where "x = (r, ps)" by (cases x)
  with snoc show ?case using last_of_snoc [of w "h @ ext" r ps] by simp
qed simp

lemma rely_last_of: "rely w h h' \<Longrightarrow> last_of w h' = last_of w h"
  by (auto simp: rely_def last_of_append_other)

lemma rely_written: "rely w h h' \<Longrightarrow> set (written h) \<subseteq> set (written h')"
  by (auto simp: rely_def)

lemma page_ok_rely:
  assumes "page_ok h s" and "rely (ctl_writer s) h h'"
  shows "page_ok h' s"
proof -
  obtain ext where ext: "h' = h @ ext" "\<forall>r\<in>set (written ext). writerId r \<noteq> ctl_writer s"
    using assms(2) by (auto simp: rely_def)
  show ?thesis
    using assms(1) rely_last_of [OF assms(2)] ext unfolding page_ok_def by auto
qed

lemma coherent_rely:
  assumes "coherent h s" and "rely (ctl_writer s) h h'" and "causal (ctl_key s) h' st"
  shows "coherent h' (s\<lparr>storage := st\<rparr>)"
  using assms page_ok_rely [of h s h'] by (auto simp: coherent_def page_ok_def)

section \<open>A write extends the history\<close>

definition base_list :: "draft_state \<Rightarrow> CodeDraftRecord list" where
  "base_list s = (case baseline s of Some b \<Rightarrow> [b] | None \<Rightarrow> [])"

lemma exact_rev_regex: "exact_rev v \<Longrightarrow> revision_regex v"
  unfolding exact_rev_def revision_regex_iff by blast

lemma draft_record_fits:
  assumes "chain h" and "page_ok h s" and "clock_ok E s"
    and "set ps \<subseteq> set (written h)" and "set (base_list s) \<subseteq> set ps"
    and "byteLength (snap_value (snapshot s)) \<le> codeDraftMaxBytes"
  shows "fits h (draft_record E ps s) ps"
proof -
  let ?r = "draft_record E ps s" and ?w = "ctl_writer s"
  have rev: "revision ?r = mk_rev ?w (seq s + 1)" and seq: "0 \<le> seq s" "seq s + 1 < safe_bound"
    using assms(2,3) by (auto simp: draft_record_def mk_rev_def int_text_def page_ok_def clock_ok_def)
  then have no: "rev_no ?r = seq s + 1"
    by (simp add: rev_no_def mk_rev_def last_split_on dec_text_no_colon)
  have base: "b \<in> set ps \<and> b \<in> set (written h)" if "baseline s = Some b" for b
    using that assms(4,5) by (auto simp: base_list_def)
  have ex: "\<forall>v\<in>set (concat (map mentions ps)). exact_rev v"
    using mentions_exact [OF assms(1)] assms(4) by fastforce
  have "\<forall>v\<in>set (supersedes ?r). exact_rev v"
    using set_compactRevisions [OF ex] ex by (auto simp: draft_record_def ancestry_def newest_def)
  then have sup: "list_all revision_regex (supersedes ?r)"
    by (auto simp: list_all_iff intro: exact_rev_regex)
  have "revision_regex (revision b)" if b: "baseline s = Some b" for b
    using chain_record [OF assms(1)] base [OF b] unfolding owned_draft_def valid_draft_def by blast
  then have "pred_option revision_regex (parentRevision ?r)"
    by (cases "baseline s") (simp_all add: draft_record_def)
  moreover have "writer_regex ?w" using assms(2) by (simp add: page_ok_def)
  moreover have "revision_regex (mk_rev ?w (seq s + 1))"
    unfolding revision_regex_iff using \<open>writer_regex ?w\<close> seq by (intro exI conjI) (rule refl, simp_all)
  ultimately have "owned_draft ?r"
    using sup rev seq assms(3,6)
    by (simp add: owned_draft_def valid_draft_def clock_ok_def)
      (simp add: draft_record_def)
  then show ?thesis
    using rev no seq assms(2,4) base
    by (auto simp: fits_def page_ok_def draft_record_def split: option.splits)
qed

lemma causal_write:
  assumes "causal K h st" and "fits h r ps"
  shows "causal K (h @ [(r, ps)]) (AList.update (K @ writerId r) (JSON_text (json_of_draft r)) st)"
  using assms by (auto simp: causal_def distinct_update update_conv' last_of_snoc intro: chain.chain_snoc)

text \<open>The fields the relation reads.\<close>

definition view :: "draft_state \<Rightarrow> jsstr \<times> jsstr \<times> CodeDraftRecord option \<times> int \<times> storage
    \<times> (jsstr \<times> CodeDraftRecord option) option" where
  "view s = (ctl_key s, ctl_writer s, baseline s, seq s, storage s, interruptedDrafts s (ctl_key s))"

lemma coherent_view: "view s = view t \<Longrightarrow> coherent h s = coherent h t"
  unfolding view_def coherent_def page_ok_def prod.inject by (elim conjE) simp

lemma view_simps [simp]:
  "view (fail m s) = view s" "view (showConflict hs s) = view s" "view (update f s) = view s"
  "view (setValue v s) = view s" "view (subscribe l s) = view s" "view (unsubscribe l s) = view s"
  "view (s\<lparr>timer := t\<rparr>) = view s" "view (s\<lparr>dirty := d\<rparr>) = view s"
  "view (s\<lparr>initialReadFailed := f'\<rparr>) = view s"
  by (simp_all add: view_def fail_def showConflict_def setValue_def subscribe_def unsubscribe_def update_def)

lemma meets_view: "view s = view t \<Longrightarrow> meets h s E h1 F = meets h t E h1 F"
  by (simp add: view_def meets_def)

lemma in_between_view: "view s = view t \<Longrightarrow> in_between h s E = in_between h t E"
  unfolding in_between_def using meets_view by blast

lemma persist_coherent:
  assumes "coherent h s" and "meets h s E h1 F" and "clock_ok E s" and "write_ok E"
    and "set ps \<subseteq> set (written h)" and "set (base_list s) \<subseteq> set ps"
    and "byteLength (snap_value (snapshot s)) \<le> codeDraftMaxBytes"
  obtains s' where "persist E ps s = (True, s')"
    and "rely (ctl_writer s) (h1 @ [(draft_record E ps s, ps)]) (F (h1 @ [(draft_record E ps s, ps)]))"
    and "coherent (F (h1 @ [(draft_record E ps s, ps)])) (s'\<lparr>storage := after_write E (storage s')\<rparr>)"
    and "baseline s' = Some (draft_record E ps s)" and "ctl_key s' = ctl_key s" and "\<not> dirty s'"
    and "\<not> hasUnsavedChanges (snapshot s')" and "snap_value (snapshot s') = snap_value (snapshot s)"
proof -
  let ?r = "draft_record E ps s" and ?w = "ctl_writer s" and ?K = "ctl_key s"
  let ?h = "h1 @ [(?r, ps)]"
  have h1: "rely ?w h h1" "causal ?K h1 (before_write E (storage s))"
    and after: "\<And>st. causal ?K ?h st \<Longrightarrow> rely ?w ?h (F ?h) \<and> causal ?K (F ?h) (after_write E st)"
    using assms(2) by (simp_all add: meets_def)
  have p1: "page_ok h1 s" using assms(1) h1(1) page_ok_rely by (auto simp: coherent_def)
  have f: "fits h1 ?r ps"
    using draft_record_fits [OF _ p1 assms(3) _ assms(6,7)] h1(2) assms(5) rely_written [OF h1(1)]
    by (auto simp: causal_def)
  let ?st = "AList.update (?K @ ?w) (JSON_text (json_of_draft ?r)) (before_write E (storage s))"
  have "causal ?K ?h ?st" using causal_write [OF h1(2) f] by simp
  then have h2: "rely ?w ?h (F ?h)" "causal ?K (F ?h) (after_write E ?st)" using after by auto
  obtain s' where s': "persist E ps s = (True, s')" using assms(4) by (simp add: persist_def Let_def)
  have fields: "baseline s' = Some ?r" "ctl_key s' = ?K" "ctl_writer s' = ?w" "seq s' = seq s + 1"
      "storage s' = ?st" "interruptedDrafts s' ?K = None" "\<not> dirty s'"
      "\<not> hasUnsavedChanges (snapshot s')" "snap_value (snapshot s') = snap_value (snapshot s)"
    using s' assms(4) by (auto simp: persist_def Let_def update_def)
  have no: "rev_no ?r = seq s + 1"
    using p1 by (simp add: rev_no_def draft_record_def int_text_def page_ok_def last_split_on dec_text_no_colon)
  have "page_ok ?h s'"
    using p1 no unfolding page_ok_def fields by (auto simp: last_of_snoc fields)
  then have "page_ok (F ?h) s'" using h2(1) page_ok_rely fields(3) by metis
  then have "coherent (F ?h) (s'\<lparr>storage := after_write E (storage s')\<rparr>)"
    using h2(2) fields by (auto simp: coherent_def page_ok_def)
  then show thesis using that s' h2(1) fields by blast
qed

lemma persist_fails_coherent:
  assumes "coherent h s" and "in_between h s E" and "\<not> write_ok E"
  obtains h1 where "rely (ctl_writer s) h h1"
    and "persist E ps s = (False, s\<lparr>seq := seq s + 1, storage := before_write E (storage s)\<rparr>)"
    and "coherent h1 (s\<lparr>seq := seq s + 1, storage := before_write E (storage s)\<rparr>)"
proof -
  obtain h1 where h1: "rely (ctl_writer s) h h1" "causal (ctl_key s) h1 (before_write E (storage s))"
    using assms(2) unfolding in_between_def meets_def by blast
  then have "page_ok h1 s" using assms(1) page_ok_rely by (auto simp: coherent_def)
  with h1(2) have "coherent h1 (s\<lparr>seq := seq s + 1, storage := before_write E (storage s)\<rparr>)"
    by (auto simp: coherent_def page_ok_def) 
  then show thesis using that h1(1) assms(3) by (simp add: persist_def Let_def)
qed

section \<open>Calls keep the relation\<close>

lemma base_list_written: "coherent h s \<Longrightarrow> set (base_list s) \<subseteq> set (written h)"
  by (auto simp: base_list_def coherent_def page_ok_def split: option.splits)

lemma heads_written:
  "zod (hostParse H) U D \<Longrightarrow> coherent h s \<Longrightarrow> set (heads (scanDrafts H (storage s) (ctl_key s))) \<subseteq> set (written h)"
  using causal_scan(2) [of H U D "ctl_key s" h "storage s"]
  by (auto simp: coherent_def maximal_def simp del: set_map dest: stored_written)

lemma adopt_baseline_view: "baseline s = Some r \<Longrightarrow> view (adopt r s) = view s"
  by (simp add: adopt_def view_def update_def)

lemma refresh_view:
  assumes "zod (hostParse H) U D" and "coherent h s"
  shows "view (refresh H E s) = view s"
proof -
  let ?hs = "heads (scanDrafts H (storage s) (ctl_key s))"
  have "view (adopt (hd ?hs) s) = view s"
    if ne: "?hs \<noteq> []" and eq: "Some (revision (hd ?hs)) = map_option revision (baseline s)"
  proof -
    obtain b where b: "baseline s = Some b" "revision b = revision (hd ?hs)"
      using eq by (cases "baseline s") auto
    have "hd ?hs \<in> set (written h)" using heads_written [OF assms] ne by (meson hd_in_set subsetD)
    moreover have "b \<in> set (written h)" "chain h"
      using assms(2) b(1) by (auto simp: coherent_def page_ok_def causal_def)
    ultimately have "b = hd ?hs" using chain_revision_unique b(2) by blast
    then show ?thesis using adopt_baseline_view b(1) by blast
  qed
  then show ?thesis by (auto simp: refresh_def Let_def)
qed

lemma refresh_coherent:
  "zod (hostParse H) U D \<Longrightarrow> coherent h s \<Longrightarrow> coherent h (refresh H E s)"
  using refresh_view coherent_view by blast

text \<open>What a call does to the history: other pages extend it, and the page itself at most once.\<close>

definition grows :: "jsstr \<Rightarrow> history \<Rightarrow> history \<Rightarrow> bool" where
  "grows w h h' \<longleftrightarrow> (\<exists>h1. rely w h h1 \<and> (h' = h1 \<or> (\<exists>r ps. writerId r = w \<and> rely w (h1 @ [(r, ps)]) h')))"

lemma rely_grows: "rely w h h1 \<Longrightarrow> grows w h h1"
  by (auto simp: grows_def)

text \<open>The state after a write, with what other pages did behind it.\<close>

definition settled :: "env \<Rightarrow> bool \<times> draft_state \<Rightarrow> draft_state" where
  "settled E p = (case p of (ok, s) \<Rightarrow> if ok then s\<lparr>storage := after_write E (storage s)\<rparr> else s)"

lemma persist_settles:
  assumes "coherent h s" and "in_between h s E" and "clock_ok E s"
    and "set ps \<subseteq> set (written h)" and "set (base_list s) \<subseteq> set ps"
    and "byteLength (snap_value (snapshot s)) \<le> codeDraftMaxBytes"
  shows "\<exists>h'. grows (ctl_writer s) h h' \<and> coherent h' (settled E (persist E ps s))"
proof (cases "write_ok E")
  case True
  obtain h1 F where m: "meets h s E h1 F" using assms(2) by (auto simp: in_between_def)
  let ?h = "h1 @ [(draft_record E ps s, ps)]"
  obtain s' where p: "persist E ps s = (True, s')" "rely (ctl_writer s) ?h (F ?h)"
      "coherent (F ?h) (s'\<lparr>storage := after_write E (storage s')\<rparr>)"
    by (rule persist_coherent [OF assms(1) m assms(3) True assms(4,5,6)]) blast
  have "grows (ctl_writer s) h (F ?h)"
    unfolding grows_def using p(2) m draft_record_fields(2) [of E ps s] by (auto simp: meets_def)
  with p show ?thesis by (auto simp: settled_def)
next
  case False
  obtain h1 where "rely (ctl_writer s) h h1"
      "persist E ps s = (False, s\<lparr>seq := seq s + 1, storage := before_write E (storage s)\<rparr>)"
      "coherent h1 (s\<lparr>seq := seq s + 1, storage := before_write E (storage s)\<rparr>)"
    by (rule persist_fails_coherent [OF assms(1,2) False])
  then show ?thesis by (auto simp: settled_def intro: rely_grows)
qed

definition saving :: "draft_state \<Rightarrow> draft_state" where
  "saving s = update (\<lambda>n. n\<lparr>snap_status := Saving, snap_message := MsgSaving\<rparr>) (s\<lparr>timer := False\<rparr>)"

lemma saving_simps [simp]:
  "view (saving s) = view s" "base_list (saving s) = base_list s" "ctl_writer (saving s) = ctl_writer s"
  "ctl_key (saving s) = ctl_key s" "storage (saving s) = storage s" "baseline (saving s) = baseline s"
  "snap_value (snapshot (saving s)) = snap_value (snapshot s)" "clock_ok E (saving s) = clock_ok E s"
  by (simp_all add: saving_def base_list_def clock_ok_def)

definition can_save :: "host \<Rightarrow> env \<Rightarrow> draft_state \<Rightarrow> bool" where
  "can_save H E s \<longleftrightarrow> dirty s \<and> byteLength (snap_value (snapshot s)) \<le> codeDraftMaxBytes
     \<and> storage_ok E \<and> corruptKeys (scanDrafts H (storage s) (ctl_key s)) = []"

lemma flush_stays: "\<not> can_save H E s \<Longrightarrow> view (snd (flush H E s)) = view s"
  by (auto simp: flush_def Let_def can_save_def)

lemma flush_goes:
  "can_save H E s \<Longrightarrow> view (snd (flush H E s)) = view (settled E (persist E (base_list s) (saving s)))"
  by (simp add: flush_def Let_def can_save_def settled_def saving_def base_list_def persist_def)
    (simp add: view_def)

lemma flush_coherent:
  assumes "coherent h s" and "in_between h s E" and "clock_ok E s"
  shows "\<exists>h'. grows (ctl_writer s) h h' \<and> coherent h' (snd (flush H E s))"
proof (cases "can_save H E s")
  case True
  have "coherent h (saving s)" "in_between h (saving s) E"
    using assms coherent_view in_between_view saving_simps(1) by blast+
  then have "\<exists>h'. grows (ctl_writer (saving s)) h h' \<and> coherent h' (settled E (persist E (base_list s) (saving s)))"
    by (rule persist_settles) (use assms(3) base_list_written [OF assms(1)] True in
        \<open>simp_all add: can_save_def\<close>)
  then show ?thesis using coherent_view [OF flush_goes [OF True]] by simp
next
  case False
  then show ?thesis
    using flush_stays assms(1) coherent_view rely_grows rely_refl by blast
qed

lemma persist_joined_coherent:
  assumes "zod (hostParse H) U D" and "coherent h s" and "in_between h s E" and "clock_ok E s"
    and "set hs \<subseteq> set (written h)" and "byteLength (snap_value (snapshot s)) \<le> codeDraftMaxBytes"
  shows "\<exists>h'. grows (ctl_writer s) h h' \<and> coherent h' (persist_joined H E hs s)"
proof -
  let ?ps = "hs @ base_list s"
  obtain h' where h': "grows (ctl_writer s) h h'" "coherent h' (settled E (persist E ?ps s))"
    using persist_settles [OF assms(2,3,4), of ?ps] assms(5,6) base_list_written [OF assms(2)] by auto
  have "view (persist_joined H E hs s) = view (settled E (persist E ?ps s))"
    using refresh_view [OF assms(1) h'(2)]
    by (auto simp: persist_joined_def settled_def base_list_def split: prod.splits if_splits bool.splits)
  then show ?thesis using h' coherent_view by blast
qed

lemma clock_ok_view: "view s = view t \<Longrightarrow> clock_ok E s = clock_ok E t"
  by (simp add: view_def clock_ok_def)

lemma writer_view: "view s = view t \<Longrightarrow> ctl_writer s = ctl_writer t"
  by (simp add: view_def)

lemma join_coherent:
  assumes "zod (hostParse H) U D" and "coherent h s" and "in_between h s E" and "clock_ok E s"
    and "view t = view s" and "byteLength (snap_value (snapshot t)) \<le> codeDraftMaxBytes"
  shows "\<exists>h'. grows (ctl_writer s) h h'
    \<and> coherent h' (persist_joined H E (heads (scanDrafts H (storage s) (ctl_key s))) t)"
proof -
  have "coherent h t" "in_between h t E" "clock_ok E t" "ctl_writer t = ctl_writer s"
    using assms coherent_view in_between_view clock_ok_view writer_view by blast+
  from persist_joined_coherent [OF assms(1) this(1,2,3) heads_written [OF assms(1,2)] assms(6)] this(4)
  show ?thesis by simp
qed

definition selection :: "host \<Rightarrow> jsstr \<Rightarrow> draft_state \<Rightarrow> CodeDraftRecord option" where
  "selection H c s = (if c = js ''current'' then None
     else find (\<lambda>r. revision r = c) (heads (scanDrafts H (storage s) (ctl_key s))))"

definition chosen :: "host \<Rightarrow> jsstr \<Rightarrow> draft_state \<Rightarrow> draft_state" where
  "chosen H c s = (case selection H c s of
      Some r \<Rightarrow> update (\<lambda>n. n\<lparr>snap_value := source r\<rparr>) (s\<lparr>timer := False\<rparr>)
    | None \<Rightarrow> s\<lparr>timer := False\<rparr>)\<lparr>dirty := True\<rparr>"

definition can_join :: "host \<Rightarrow> env \<Rightarrow> jsstr \<Rightarrow> draft_state \<Rightarrow> bool" where
  "can_join H E c s \<longleftrightarrow> storage_ok E \<and> corruptKeys (scanDrafts H (storage s) (ctl_key s)) = []
     \<and> (c = js ''current'' \<or> selection H c s \<noteq> None)
     \<and> byteLength (snap_value (snapshot (chosen H c s))) \<le> codeDraftMaxBytes"

lemma chosen_view: "view (chosen H c s) = view s"
  by (simp add: chosen_def split: option.split)

lemma timer_fields: "storage (s\<lparr>timer := t\<rparr>) = storage s" "ctl_key (s\<lparr>timer := t\<rparr>) = ctl_key s"
  by simp_all

lemma resolve_alt:
  "resolveConflict H E c s =
     (if \<not> storage_ok E then fail MsgFailed (s\<lparr>timer := False\<rparr>)
      else if corruptKeys (scanDrafts H (storage s) (ctl_key s)) \<noteq> []
      then fail MsgCorrupt (s\<lparr>timer := False\<rparr>)
      else if c \<noteq> js ''current'' \<and> selection H c s = None
      then showConflict (heads (scanDrafts H (storage s) (ctl_key s))) (s\<lparr>timer := False\<rparr>)
      else if byteLength (snap_value (snapshot (chosen H c s))) > codeDraftMaxBytes
      then fail MsgTooLarge (chosen H c s)
      else persist_joined H E (heads (scanDrafts H (storage s) (ctl_key s))) (chosen H c s))"
  unfolding resolveConflict_def Let_def selection_def chosen_def timer_fields by (rule refl)

lemma resolve_joins:
  "can_join H E c s \<Longrightarrow> resolveConflict H E c s =
     persist_joined H E (heads (scanDrafts H (storage s) (ctl_key s))) (chosen H c s)"
  by (auto simp: can_join_def resolve_alt)

lemma resolve_stays: "\<not> can_join H E c s \<Longrightarrow> view (resolveConflict H E c s) = view s"
  by (auto simp: can_join_def resolve_alt chosen_view not_less)

lemma resolveConflict_coherent:
  assumes "zod (hostParse H) U D" and "coherent h s" and "in_between h s E" and "clock_ok E s"
  shows "\<exists>h'. grows (ctl_writer s) h h' \<and> coherent h' (resolveConflict H E c s)"
proof (cases "can_join H E c s")
  case True
  then show ?thesis
    using join_coherent [OF assms chosen_view] resolve_joins [OF True] by (simp add: can_join_def)
next
  case False
  then show ?thesis using assms(2) coherent_view resolve_stays rely_grows rely_refl by blast
qed

lemma resetToStarter_coherent:
  assumes "zod (hostParse H) U D" and "coherent h s" and "in_between h s E" and "clock_ok E s"
  shows "\<exists>h'. grows (ctl_writer s) h h' \<and> coherent h' (resetToStarter H E s)"
proof -
  let ?t = "(update (\<lambda>n. n\<lparr>snap_value := starterCode s, hasUnsavedChanges := True\<rparr>)
      (s\<lparr>timer := False, dirty := True\<rparr>))\<lparr>storage := storage s\<rparr>"
  have v: "view ?t = view s" by (simp add: view_def)
  have c: "corruptKeys (scanDrafts H (storage s) (ctl_key s)) = []"
    using causal_scan(1) [OF assms(1), of "ctl_key s" h "storage s"] assms(2) by (simp add: coherent_def)
  show ?thesis
  proof (cases "byteLength (starterCode s) \<le> codeDraftMaxBytes \<and> storage_ok E")
    case True
    have "resetToStarter H E s = persist_joined H E (heads (scanDrafts H (storage s) (ctl_key s))) ?t"
      using True c by (simp add: resetToStarter_def Let_def)
    then show ?thesis using join_coherent [OF assms v] True by simp
  next
    case False
    then have "view (resetToStarter H E s) = view s"
      by (auto simp: resetToStarter_def Let_def)
    then show ?thesis using assms(2) coherent_view rely_grows rely_refl by blast
  qed
qed

lemma detach_coherent:
  assumes "coherent h s" and "in_between h s E" and "clock_ok E s"
  shows "\<exists>h'. grows (ctl_writer s) h h' \<and> coherent h' (detach H E s)"
proof -
  obtain h' where h': "grows (ctl_writer s) h h'" "coherent h' (snd (flush H E s))"
    using flush_coherent [OF assms] by blast
  then have "coherent h' (detach H E s)"
    by (auto simp: detach_def Let_def coherent_def page_ok_def)
  with h'(1) show ?thesis by blast
qed

theorem draft_step_coherent:
  assumes "zod (hostParse H) U D" and "coherent h s" and "in_between h s E" and "clock_ok E s"
  shows "\<exists>h'. grows (ctl_writer s) h h' \<and> coherent h' (draft_step H E op s)"
proof -
  have stay: "\<exists>h'. grows (ctl_writer s) h h' \<and> coherent h' t" if "view t = view s" for t
    using assms(2) coherent_view [OF that] rely_grows rely_refl by blast
  note f = flush_coherent [OF assms(2-4), of H] and r = stay [OF refresh_view [OF assms(1,2)]]
  show ?thesis
  proof (cases op)
    case (Edit v)
    then show ?thesis using stay [of "setValue v s"] by simp
  next
    case (Subscribe l)
    then show ?thesis using stay [of "subscribe l s"] by simp
  next
    case (Unsubscribe l)
    then show ?thesis using stay [of "unsubscribe l s"] by simp
  next
    case Detach
    then show ?thesis using detach_coherent [OF assms(2-4)] by simp
  next
    case (Resolve c)
    then show ?thesis using resolveConflict_coherent [OF assms] by simp
  next
    case Reset
    then show ?thesis using resetToStarter_coherent [OF assms] by simp
  qed (use f r stay [of s] in \<open>auto simp: retrySave_def onStorage_def timerFires_def onBeforeUnload_def Let_def\<close>)
qed

text \<open>What one page guarantees is what every other page relies on.\<close>

lemma own_write_rely: "writerId r \<noteq> v \<Longrightarrow> rely v h (h @ [(r, ps)])"
  by (auto simp: rely_def)

text \<open>A page that opens joins the relation: its writer id is new, and what its memory of an
  interrupted draft names has been written.\<close>

theorem newController_coherent:
  assumes "zod (hostParse H) U D" and "causal K h st" and "codeDraftKey i = Some K"
    and "writer_regex w" and "last_of w h = None"
    and "\<And>src b. lost K = Some (src, Some b) \<Longrightarrow> b \<in> set (written h)"
    and "newController H E i starter w st lost = Some s"
  shows "coherent h s \<and> ctl_key s = K \<and> ctl_writer s = w"
proof -
  have none: "writerId q \<noteq> w" if "q \<in> set (written h)" for q
    using assms(5) last_of_exists [OF that] by auto
  have hs: "r \<in> set (written h)" if "heads (scanDrafts H st K) = r # rs" for r rs
    using causal_scan(2) [OF assms(1,2)] that
    by (auto simp: maximal_def simp del: set_map dest: stored_written)
  have f: "ctl_key s = K" "ctl_writer s = w" "seq s = 0" "storage s = st" "interruptedDrafts s = lost"
    using assms(7,3)
    by (auto simp: newController_def Let_def adopt_def fail_def showConflict_def split: option.splits list.splits if_splits)
  have "b \<in> set (written h)" if "baseline s = Some b" for b
    using assms(7,3,6) that hs
    by (auto simp: newController_def Let_def adopt_def fail_def showConflict_def simp del: set_map split: option.splits list.splits if_splits)
  then show ?thesis
    using assms(2,4,5,6) none f by (auto simp: coherent_def page_ok_def simp del: set_map)
qed

section \<open>Saves, reloads and joins\<close>

text \<open>A save that can be made is made: the text is in the history as this page's newest record, and
  the page reports a conflict exactly when the storage it then sees has another maximal record.\<close>

lemma flush_status:
  assumes "can_save H E s" and "persist E (base_list s) (saving s) = (True, s')"
  shows "fst (flush H E s) = (\<not> dirty (snd (flush H E s)))"
    and "snd (flush H E s) = (let s1 = s'\<lparr>initialReadFailed := False, storage := after_write E (storage s')\<rparr>;
           scan = scanDrafts H (storage s1) (ctl_key s1)
         in if corruptKeys scan \<noteq> [] then fail MsgCorrupt s1
            else if length (heads scan) > 1 then showConflict (heads scan) s1
            else update (\<lambda>n. n\<lparr>snap_status := Saved, snap_message := MsgSaved, snap_conflicts := [],
                   hasUnsavedChanges := False\<rparr>) s1)"
  using assms flush_answer [of H E s]
  by (simp_all add: flush_def Let_def can_save_def saving_def base_list_def not_less)

lemma length_one_iff: "distinct xs \<Longrightarrow> xs \<noteq> [] \<Longrightarrow> length xs > 1 \<longleftrightarrow> \<not> (\<exists>x. set xs = {x})"
  by (cases xs; cases "tl xs") auto

lemma singleton_set: "distinct xs \<Longrightarrow> set xs = {x} \<Longrightarrow> xs = [x]"
  by (cases xs; cases "tl xs") auto

lemma one_maximal:
  assumes "zod (hostParse H) U D" and "causal K h st" and "h \<noteq> []"
  shows "length (heads (scanDrafts H st K)) > 1 \<longleftrightarrow> \<not> (\<exists>m. \<forall>q. maximal h q \<longleftrightarrow> q = m)"
  using causal_scan [OF assms(1,2)] assms(3) length_one_iff [of "heads (scanDrafts H st K)"] by auto

lemma saving_coherent:
  "coherent h s \<Longrightarrow> coherent h (saving s)" "meets h s E h1 F \<Longrightarrow> meets h (saving s) E h1 F"
  using coherent_view meets_view saving_simps(1) by blast+

lemma flush_saves:
  assumes "zod (hostParse H) U D" and "coherent h s" and "meets h s E h1 F" and "clock_ok E s"
    and "write_ok E" and "storage_ok E" and "dirty s"
    and "byteLength (snap_value (snapshot s)) \<le> codeDraftMaxBytes"
  obtains r h' where "h' = F (h1 @ [(r, base_list s)])" and "rely (ctl_writer s) (h1 @ [(r, base_list s)]) h'"
    and "coherent h' (snd (flush H E s))" and "fst (flush H E s)"
    and "baseline (snd (flush H E s)) = Some r"
    and "writerId r = ctl_writer s" and "source r = snap_value (snapshot s)"
    and "if \<exists>m. \<forall>q. maximal h' q \<longleftrightarrow> q = m then snap_status (snapshot (snd (flush H E s))) = Saved
      else snap_status (snapshot (snd (flush H E s))) = Conflict
        \<and> set (snap_conflicts (snapshot (snd (flush H E s)))) = {q. maximal h' q}"
proof -
  let ?r = "draft_record E (base_list s) (saving s)"
  let ?h = "F (h1 @ [(?r, base_list s)])"
  have c: "corruptKeys (scanDrafts H (storage s) (ctl_key s)) = []"
    using causal_scan(1) [OF assms(1), of "ctl_key s" h "storage s"] assms(2) by (simp add: coherent_def)
  have can: "can_save H E s" using assms(6-8) c by (simp add: can_save_def)
  have pre: "clock_ok E (saving s)" "set (base_list s) \<subseteq> set (written h)"
      "set (base_list (saving s)) \<subseteq> set (base_list s)"
      "byteLength (snap_value (snapshot (saving s))) \<le> codeDraftMaxBytes"
    using assms(4,8) base_list_written [OF assms(2)] by simp_all
  obtain s' where p: "persist E (base_list s) (saving s) = (True, s')"
      "rely (ctl_writer s) (h1 @ [(?r, base_list s)]) ?h"
      "coherent ?h (s'\<lparr>storage := after_write E (storage s')\<rparr>)" "baseline s' = Some ?r"
      "ctl_key s' = ctl_key s" "\<not> dirty s'"
    using persist_coherent [OF saving_coherent(1) [OF assms(2)] saving_coherent(2) [OF assms(3)]
          pre(1) assms(5) pre(2,3,4)] saving_simps(3,4) [of s] by metis
  have ca: "causal (ctl_key s) ?h (after_write E (storage s'))" using p(3,5) by (simp add: coherent_def)
  have ne: "?h \<noteq> []" using p(2) by (auto simp: rely_def)
  note st = flush_status [OF can p(1)]
  have v: "view (snd (flush H E s)) = view (s'\<lparr>storage := after_write E (storage s')\<rparr>)"
    by (simp add: st(2) Let_def view_def fail_def showConflict_def)
  have "if \<exists>m. \<forall>q. maximal ?h q \<longleftrightarrow> q = m then snap_status (snapshot (snd (flush H E s))) = Saved
      else snap_status (snapshot (snd (flush H E s))) = Conflict
        \<and> set (snap_conflicts (snapshot (snd (flush H E s)))) = {q. maximal ?h q}"
    using causal_scan(1,2) [OF assms(1) ca] one_maximal [OF assms(1) ca ne] p(5)
    by (simp add: st(2) Let_def showConflict_def)
  moreover have "fst (flush H E s)" using p(6) by (simp add: st Let_def fail_def showConflict_def)
  moreover have "baseline (snd (flush H E s)) = Some ?r" using v p(4) by (simp add: view_def)
  moreover have "coherent ?h (snd (flush H E s))" using v coherent_view p(3) by blast
  ultimately show thesis using that [of ?h ?r] p(2) by simp
qed

lemma flush_saves_quiet:
  assumes "zod (hostParse H) U D" and "coherent h s" and "quiet E" and "clock_ok E s"
    and "write_ok E" and "storage_ok E" and "dirty s"
    and "byteLength (snap_value (snapshot s)) \<le> codeDraftMaxBytes"
  obtains r where "coherent (h @ [(r, base_list s)]) (snd (flush H E s))"
    and "writerId r = ctl_writer s" and "source r = snap_value (snapshot s)"
    and "maximal (h @ [(r, base_list s)]) r"
    and "(\<exists>q. maximal (h @ [(r, base_list s)]) q \<and> q \<noteq> r) \<longrightarrow>
      snap_status (snapshot (snd (flush H E s))) = Conflict
        \<and> set (snap_conflicts (snapshot (snd (flush H E s)))) = {q. maximal (h @ [(r, base_list s)]) q}"
    and "\<forall>q. snap_status (snapshot (snd (flush H E s))) = Saved \<and> maximal (h @ [(r, base_list s)]) q \<longrightarrow> q = r"
proof -
  obtain r h' where r: "h' = id (h @ [(r, base_list s)])" "coherent h' (snd (flush H E s))"
      "writerId r = ctl_writer s" "source r = snap_value (snapshot s)"
      "if \<exists>m. \<forall>q. maximal h' q \<longleftrightarrow> q = m then snap_status (snapshot (snd (flush H E s))) = Saved
       else snap_status (snapshot (snd (flush H E s))) = Conflict
        \<and> set (snap_conflicts (snapshot (snd (flush H E s)))) = {q. maximal h' q}"
    by (rule flush_saves [OF assms(1,2) quiet_meets [OF assms(3,2)] assms(4-8)])
  have m: "maximal h' r" using r(1,2) last_maximal by (auto simp: coherent_def causal_def)
  have c: "\<not> (\<exists>m. \<forall>q. maximal h' q \<longleftrightarrow> q = m)" if "\<exists>q. maximal h' q \<and> q \<noteq> r" using that m by metis
  have "q = r" if "snap_status (snapshot (snd (flush H E s))) = Saved" "maximal h' q" for q
    using that r(5) c by (auto split: if_splits)
  moreover have "snap_status (snapshot (snd (flush H E s))) = Conflict
      \<and> set (snap_conflicts (snapshot (snd (flush H E s)))) = {q. maximal h' q}"
    if "\<exists>q. maximal h' q \<and> q \<noteq> r" using r(5) c [OF that] by simp
  moreover have "h' = h @ [(r, base_list s)]" using r(1) by simp
  ultimately show thesis using that [of r] r(2-4) m by blast
qed

section \<open>Joining the branches\<close>

lemma join_maximal:
  assumes "chain (h @ [(r, ps)])" and "{m. maximal h m} \<subseteq> set ps"
  shows "maximal (h @ [(r, ps)]) q \<longleftrightarrow> q = r"
proof
  have h: "chain h" using assms(1) by (auto elim: chain_snocE)
  assume q: "maximal (h @ [(r, ps)]) q"
  show "q = r"
  proof (rule ccontr)
    assume "q \<noteq> r"
    then have "stored h q" using q by (auto simp: maximal_def stored_def last_of_snoc split: if_splits)
    then obtain m where "maximal h m" "m = q \<or> knows h m q" using maximal_above [OF h] by blast
    then have "knows (h @ [(r, ps)]) r q" using knows_snoc_new [OF assms(1)] assms(2) by blast
    moreover have "stored (h @ [(r, ps)]) r" by (simp add: stored_def last_of_snoc)
    ultimately show False using q by (auto simp: maximal_def)
  qed
qed (use last_maximal [OF assms(1)] in simp)

lemma persist_joined_converges:
  assumes "zod (hostParse H) U D" and "coherent h s" and "quiet E" and "clock_ok E s"
    and "write_ok E" and "storage_ok E" and "byteLength (snap_value (snapshot s)) \<le> codeDraftMaxBytes"
    and "set hs = {m. maximal h m}"
  obtains r where "writerId r = ctl_writer s" and "source r = snap_value (snapshot s)"
    and "heads (scanDrafts H (storage (persist_joined H E hs s)) (ctl_key s)) = [r]"
    and "snap_status (snapshot (persist_joined H E hs s)) = Saved"
    and "snap_value (snapshot (persist_joined H E hs s)) = snap_value (snapshot s)"
    and "\<not> dirty (persist_joined H E hs s)"
proof -
  let ?ps = "hs @ base_list s" and ?r = "draft_record E (hs @ base_list s) s"
  have hs: "set hs \<subseteq> set (written h)" using assms(8) by (auto simp: maximal_def simp del: set_map dest: stored_written)
  then have ps: "set ?ps \<subseteq> set (written h)" "set (base_list s) \<subseteq> set ?ps"
    using base_list_written [OF assms(2)] by auto
  obtain s' where p: "persist E ?ps s = (True, s')"
      "coherent (id (h @ [(?r, ?ps)])) (s'\<lparr>storage := after_write E (storage s')\<rparr>)"
      "baseline s' = Some ?r" "ctl_key s' = ctl_key s" "\<not> dirty s'"
    by (rule persist_coherent [OF assms(2) quiet_meets [OF assms(3,2)] assms(4,5) ps assms(7)])
  have co: "coherent (h @ [(?r, ?ps)]) s'" using p(2) assms(3) by (simp add: quiet_def)
  then have ca: "causal (ctl_key s) (h @ [(?r, ?ps)]) (storage s')" using p(4) by (simp add: coherent_def)
  have "set (heads (scanDrafts H (storage s') (ctl_key s))) = {?r}"
    using causal_scan(2) [OF assms(1) ca] join_maximal [of h ?r ?ps] ca assms(8) by (auto simp: causal_def)
  then have one: "heads (scanDrafts H (storage s') (ctl_key s)) = [?r]"
    by (rule singleton_set [OF causal_scan(4) [OF assms(1) ca]])
  have "persist_joined H E hs s = refresh H E s'"
    using p(1) assms(3) by (simp add: persist_joined_def base_list_def quiet_def)
  then have "persist_joined H E hs s = adopt ?r s'"
    using one causal_scan(1) [OF assms(1) ca] assms(6) p(3,4,5) by (simp add: refresh_def Let_def)
  then show thesis using that [of ?r] one by (simp add: adopt_def)
qed

section \<open>A concrete page\<close>

text \<open>A page of user u on problem p in language c, the starter code x edited to y, and a draft
  another page saves meanwhile.\<close>

definition demo_host :: host where
  "demo_host = \<lparr>hostParse = zod_parse uuid_shape (\<lambda>_ _. True), hostCollate = (\<lambda>_ _. 0)\<rparr>"

definition demo_env :: env where
  "demo_env = \<lparr>now = 1000, storage_ok = True, write_ok = True, before_write = id, after_write = id\<rparr>"

definition demo_identity :: CodeDraftIdentity where
  "demo_identity = \<lparr>userId = js ''u'', problemId = js ''p'', languageId = js ''c''\<rparr>"

definition demo_key :: jsstr where
  "demo_key = js ''cherry-oj.code-draft.v2:u:p:c:''"

definition demo_open :: draft_state where
  "demo_open = the (newController demo_host demo_env demo_identity (js ''x'') (js ''a'') [] Map.empty)"

definition demo_page :: draft_state where
  "demo_page = setValue (js ''y'') demo_open"

definition demo_other :: CodeDraftRecord where
  "demo_other = \<lparr>schemaVersion = 1, writerId = js ''b'', revision = mk_rev (js ''b'') 1,
     parentRevision = None, supersedes = [], source = js ''z'', updatedAt = 900\<rparr>"

definition demo_late :: draft_state where
  "demo_late = demo_page\<lparr>storage := [(demo_key @ js ''b'', JSON_text (json_of_draft demo_other))]\<rparr>"

lemma demo_zod: "zod (hostParse demo_host) uuid_shape (\<lambda>_ _. True)"
  unfolding demo_host_def by (simp add: zp.zod_axioms)

lemma demo_codeDraftKey: "codeDraftKey demo_identity = Some demo_key"
  by code_simp

lemma demo_open_eq: "newController demo_host demo_env demo_identity (js ''x'') (js ''a'') [] Map.empty = Some demo_open"
  by (simp add: demo_open_def newController_def demo_codeDraftKey)

lemma demo_regex: "writer_regex (js ''a'')" "writer_regex (js ''b'')" "revision_regex (mk_rev (js ''b'') 1)"
  by code_simp+

lemma causal_empty: "causal K [] []"
  by (simp add: causal_def last_of_def chain.chain_Nil)

lemma demo_open_coherent: "coherent [] demo_open" "ctl_key demo_open = demo_key" "ctl_writer demo_open = js ''a''"
  using newController_coherent [OF demo_zod causal_empty demo_codeDraftKey demo_regex(1), of Map.empty, OF _ _ demo_open_eq]
  by (simp_all add: last_of_def)

lemma demo_open_fields: "seq demo_open = 0" "baseline demo_open = None" "snap_value (snapshot demo_open) = js ''x''"
  by (simp_all add: demo_open_def newController_def demo_codeDraftKey demo_env_def scanDrafts_def)

lemma demo_page_coherent: "coherent [] demo_page"
  unfolding demo_page_def using demo_open_coherent(1) coherent_view view_simps(4) by blast

lemma demo_page_fields:
  "dirty demo_page" "snap_value (snapshot demo_page) = js ''y''" "ctl_key demo_page = demo_key"
  "ctl_writer demo_page = js ''a''" "baseline demo_page = None" "clock_ok demo_env demo_page"
  using demo_open_coherent demo_open_fields
  by (simp_all add: demo_page_def setValue_def update_def clock_ok_def demo_env_def safe_bound_def)

lemma demo_quiet: "quiet demo_env" "write_ok demo_env" "storage_ok demo_env"
  by (simp_all add: demo_env_def quiet_def)

lemma demo_size: "byteLength (js ''y'') \<le> codeDraftMaxBytes" "byteLength (js ''z'') \<le> codeDraftMaxBytes"
  by code_simp+

lemma demo_other_fits: "fits [] demo_other []"
proof -
  have "revisionWriter (mk_rev (js ''b'') 1) = js ''b''" by (simp only: revisionWriter_mk_rev)
  moreover have "rev_no demo_other = 1"
    by (simp add: rev_no_def demo_other_def mk_rev_def last_split_on dec_text_no_colon del: js_Cons)
  ultimately show ?thesis
    using demo_regex demo_size(2)
    by (simp add: fits_def owned_draft_def valid_draft_def last_of_def ancestry_def compactRevisions_def
        safe_bound_def demo_other_def del: js_Cons)
qed

lemma demo_late_coherent: "coherent [(demo_other, [])] demo_late"
proof -
  have "causal demo_key ([] @ [(demo_other, [])]) (AList.update (demo_key @ writerId demo_other) (JSON_text (json_of_draft demo_other)) [])"
    by (rule causal_write [OF causal_empty demo_other_fits])
  then have "causal (ctl_key demo_page) [(demo_other, [])] [(demo_key @ js ''b'', JSON_text (json_of_draft demo_other))]"
    using demo_page_fields by (simp add: demo_other_def)
  moreover have "rely (ctl_writer demo_page) [] [(demo_other, [])]"
    using demo_page_fields by (simp add: rely_def demo_other_def)
  ultimately show ?thesis
    unfolding demo_late_def using coherent_rely [OF demo_page_coherent] by blast
qed

lemma demo_late_fields:
  "dirty demo_late" "snap_value (snapshot demo_late) = js ''y''" "ctl_key demo_late = demo_key"
  "ctl_writer demo_late = js ''a''" "base_list demo_late = []" "clock_ok demo_env demo_late"
  using demo_page_fields by (simp_all add: demo_late_def base_list_def clock_ok_def)

lemma demo_other_maximal: "maximal [(demo_other, [])] demo_other"
  using last_maximal [of "[]" demo_other "[]"] demo_late_coherent by (simp add: coherent_def causal_def)

lemma demo_page_size: "byteLength (snap_value (snapshot demo_page)) \<le> codeDraftMaxBytes"
  using demo_size(1) demo_page_fields(2) by simp

lemma demo_saved: "snap_status (snapshot (snd (flush demo_host demo_env demo_page))) = Saved"
proof -
  obtain r h' where r: "h' = id ([] @ [(r, base_list demo_page)])" "coherent h' (snd (flush demo_host demo_env demo_page))"
      "if \<exists>m. \<forall>q. maximal h' q \<longleftrightarrow> q = m
       then snap_status (snapshot (snd (flush demo_host demo_env demo_page))) = Saved
       else snap_status (snapshot (snd (flush demo_host demo_env demo_page))) = Conflict
        \<and> set (snap_conflicts (snapshot (snd (flush demo_host demo_env demo_page)))) = {q. maximal h' q}"
    by (rule flush_saves [OF demo_zod demo_page_coherent quiet_meets [OF demo_quiet(1) demo_page_coherent]
          demo_page_fields(6) demo_quiet(2,3) demo_page_fields(1) demo_page_size])
  have "chain ([] @ [(r, base_list demo_page)])" using r(1,2) by (simp add: coherent_def causal_def)
  moreover have "{m. maximal [] m} \<subseteq> set (base_list demo_page)"
    by (simp add: maximal_def stored_def last_of_def)
  ultimately have "\<forall>q. maximal h' q \<longleftrightarrow> q = r" using join_maximal r(1) by fastforce
  then have "\<exists>m. \<forall>q. maximal h' q \<longleftrightarrow> q = m" by blast
  from r(3) [unfolded if_P [OF this]] show ?thesis .
qed

end
