(* ===== verification/Draft_Properties.thy ===== *)
theory Draft_Properties
  imports Draft_Pages
begin

text \<open>
  The properties of local recovery drafts: the snapshot's promises over every execution of one
  page, the keys a page touches, record and key round trips, and what holds among several pages
  that write the same draft at the same time.
\<close>

section \<open>Among several pages\<close>

text \<open>
  C1. Every call of a draft controller, with any failure of the storage and with other pages
  writing before and after its own write, keeps the page and the shared storage in agreement with
  the history of all pages: the history grows by at most one record of this page.
\<close>

theorem draft_calls_coherent:
  assumes "zod (hostParse H) U D" and "coherent h s" and "in_between h s E" and "clock_ok E s"
  shows "\<exists>h'. grows (ctl_writer s) h h' \<and> coherent h' (draft_step H E op s)"
  using assms by (rule draft_step_coherent)

theorem draft_calls_coherent_witness:
  "\<exists>h'. grows (js ''a'') [] h' \<and> coherent h' (draft_step demo_host demo_env Flush demo_page)"
  using draft_calls_coherent [OF demo_zod demo_page_coherent
      quiet_in_between [OF demo_quiet(1) demo_page_coherent] demo_page_fields(6), of Flush]
  by (simp only: demo_page_fields)

text \<open>
  C2. A save that can be made is made, and its text stays: whatever other pages write afterwards,
  this page's key holds a record that reads back with the text that was in the editor.
\<close>

theorem saved_text_kept:
  assumes "zod (hostParse H) U D" and "coherent h s" and "in_between h s E" and "clock_ok E s"
    and "write_ok E" and "storage_ok E" and "dirty s"
    and "byteLength (snap_value (snapshot s)) \<le> codeDraftMaxBytes"
  shows "fst (flush H E s) \<and> (\<exists>h' r. coherent h' (snd (flush H E s)) \<and> source r = snap_value (snapshot s)
    \<and> (\<forall>h'' st. rely (ctl_writer s) h' h'' \<and> causal (ctl_key s) h'' st \<longrightarrow>
         (\<exists>raw. map_of st (ctl_key s @ ctl_writer s) = Some raw
            \<and> read_draft (hostParse H) (ctl_key s) (ctl_key s @ ctl_writer s) raw = Some r)))"
proof -
  obtain h1 F where "meets h s E h1 F" using assms(3) by (auto simp: in_between_def)
  from flush_saves [OF assms(1,2) this assms(4-8)]
  obtain r h' where r: "rely (ctl_writer s) (h1 @ [(r, base_list s)]) h'" "coherent h' (snd (flush H E s))"
      "fst (flush H E s)" "writerId r = ctl_writer s" "source r = snap_value (snapshot s)" by metis
  have "\<exists>raw. map_of st (ctl_key s @ ctl_writer s) = Some raw
      \<and> read_draft (hostParse H) (ctl_key s) (ctl_key s @ ctl_writer s) raw = Some r"
    if "rely (ctl_writer s) h' h''" and c: "causal (ctl_key s) h'' st" for h'' st
  proof -
    have "last_of (ctl_writer s) h'' = Some r"
      using rely_last_of [OF rely_trans [OF r(1) that(1)]] r(4) by (simp add: last_of_snoc)
    then have "map_of st (ctl_key s @ ctl_writer s) = Some (JSON_text (json_of_draft r))" "owned_draft r"
      using c chain_record last_of_SomeD by (auto simp: causal_def simp del: set_map)
    then show ?thesis using read_draft_roundtrip [OF assms(1)] r(4) by metis
  qed
  then show ?thesis using r by blast
qed

theorem saved_text_kept_witness:
  "fst (flush demo_host demo_env demo_page) \<and> (\<exists>h' (r :: CodeDraftRecord).
    coherent h' (snd (flush demo_host demo_env demo_page)) \<and> source r = js ''y'')"
  using saved_text_kept [OF demo_zod demo_page_coherent
      quiet_in_between [OF demo_quiet(1) demo_page_coherent] demo_page_fields(6) demo_quiet(2,3)
      demo_page_fields(1) demo_page_size] unfolding demo_page_fields by blast

text \<open>
  C9. When a save reports saved and no other page wrote meanwhile, a page opened next, under
  whatever writer id, shows exactly that text as saved.
\<close>

theorem saved_draft_reloads:
  assumes "zod (hostParse H) U D" and "coherent h s" and "quiet E" and "clock_ok E s"
    and "dirty s" and "snap_status (snapshot (snd (flush H E s))) = Saved"
    and "storage_ok E'" and "codeDraftKey i = Some (ctl_key s)"
  shows "\<exists>t. newController H E' i starter v (storage (snd (flush H E s))) Map.empty = Some t
    \<and> snap_value (snapshot t) = snap_value (snapshot s) \<and> snap_status (snapshot t) = Saved \<and> \<not> dirty t"
proof -
  have ok: "write_ok E" "storage_ok E" "byteLength (snap_value (snapshot s)) \<le> codeDraftMaxBytes"
    using assms(5,6) by (auto simp: flush_def Let_def persist_def snap_defs split: if_splits)
  obtain r where r: "coherent (h @ [(r, base_list s)]) (snd (flush H E s))"
      "source r = snap_value (snapshot s)" "maximal (h @ [(r, base_list s)]) r"
      "\<And>q. maximal (h @ [(r, base_list s)]) q \<Longrightarrow> q = r"
    by (rule flush_saves_quiet [OF assms(1-4) ok(1,2) assms(5) ok(3)]) (use assms(6) in blast)
  let ?st = "storage (snd (flush H E s))"
  have key: "ctl_key (snd (flush H E s)) = ctl_key s"
    by (cases "can_save H E s") (auto dest!: flush_goes flush_stays simp: view_def settled_def persist_def Let_def)
  have ca: "causal (ctl_key s) (h @ [(r, base_list s)]) ?st" using r(1) key by (simp add: coherent_def)
  then have "set (heads (scanDrafts H ?st (ctl_key s))) = {r}"
    using r(3,4) causal_scan(2) [OF assms(1) ca] by auto
  then have "heads (scanDrafts H ?st (ctl_key s)) = [r]"
    by (rule singleton_set [OF causal_scan(4) [OF assms(1) ca]])
  then show ?thesis
    using causal_scan(1) [OF assms(1) ca] assms(7,8) r(2) by (simp add: newController_def Let_def adopt_def)
qed

theorem saved_draft_reloads_witness:
  "\<exists>t. newController demo_host demo_env demo_identity (js ''x'') (js ''c'')
      (storage (snd (flush demo_host demo_env demo_page))) Map.empty = Some t
    \<and> snap_value (snapshot t) = js ''y'' \<and> snap_status (snapshot t) = Saved \<and> \<not> dirty t"
  using saved_draft_reloads [OF demo_zod demo_page_coherent demo_quiet(1) demo_page_fields(6,1)
      demo_saved demo_quiet(3), of demo_identity "js ''x''" "js ''c''"]
  unfolding demo_page_fields by (simp only: demo_codeDraftKey)

text \<open>
  C8. Two branches are never merged behind the user's back: when the storage holds a draft that is
  not superseded and that this page has neither as its baseline nor in its baseline's past, a save
  ends in a conflict that offers both texts.
\<close>

theorem unseen_draft_conflicts:
  assumes "zod (hostParse H) U D" and "coherent h s" and "quiet E" and "clock_ok E s"
    and "write_ok E" and "storage_ok E" and "dirty s"
    and "byteLength (snap_value (snapshot s)) \<le> codeDraftMaxBytes"
    and q: "maximal h q" "writerId q \<noteq> ctl_writer s" "\<forall>b\<in>set (base_list s). q \<noteq> b \<and> \<not> knows h b q"
  shows "snap_status (snapshot (snd (flush H E s))) = Conflict
    \<and> q \<in> set (snap_conflicts (snapshot (snd (flush H E s))))
    \<and> (\<exists>r\<in>set (snap_conflicts (snapshot (snd (flush H E s)))).
         writerId r = ctl_writer s \<and> source r = snap_value (snapshot s))"
proof -
  obtain r where r: "coherent (h @ [(r, base_list s)]) (snd (flush H E s))" "writerId r = ctl_writer s"
      "source r = snap_value (snapshot s)" "maximal (h @ [(r, base_list s)]) r"
      "(\<exists>q. maximal (h @ [(r, base_list s)]) q \<and> q \<noteq> r) \<longrightarrow>
        snap_status (snapshot (snd (flush H E s))) = Conflict
        \<and> set (snap_conflicts (snapshot (snd (flush H E s)))) = {q. maximal (h @ [(r, base_list s)]) q}"
    by (rule flush_saves_quiet [OF assms(1-8)])
  let ?h = "h @ [(r, base_list s)]"
  have ch: "chain ?h" using r(1) by (simp add: coherent_def causal_def)
  have new: "\<not> knows ?h r q" using knows_snoc_new [OF ch] q(3) by blast
  have "\<not> knows ?h x q" if "stored ?h x" for x
  proof (cases "x = r")
    case False
    then have "stored h x" using that by (auto simp: stored_def last_of_snoc split: if_splits)
    then show ?thesis using q(1) knows_snoc_old [OF ch stored_written] by (auto simp: maximal_def)
  qed (use new in simp)
  moreover have "stored ?h q" using q(1,2) r(2) by (auto simp: maximal_def stored_def last_of_snoc)
  ultimately have "maximal ?h q" by (simp add: maximal_def)
  moreover have "q \<noteq> r" using q(2) r(2) by auto
  ultimately show ?thesis using r by blast
qed

theorem unseen_draft_conflicts_witness:
  "snap_status (snapshot (snd (flush demo_host demo_env demo_late))) = Conflict
    \<and> demo_other \<in> set (snap_conflicts (snapshot (snd (flush demo_host demo_env demo_late))))"
proof -
  have "byteLength (snap_value (snapshot demo_late)) \<le> codeDraftMaxBytes"
    using demo_size(1) demo_late_fields(2) by simp
  moreover have "writerId demo_other \<noteq> ctl_writer demo_late"
    using demo_late_fields(4) by (simp add: demo_other_def)
  moreover have "\<forall>b\<in>set (base_list demo_late). demo_other \<noteq> b \<and> \<not> knows [(demo_other, [])] b demo_other"
    using demo_late_fields(5) by simp
  ultimately show ?thesis
    using unseen_draft_conflicts [OF demo_zod demo_late_coherent demo_quiet(1) demo_late_fields(6)
        demo_quiet(2,3) demo_late_fields(1) _ demo_other_maximal] by blast
qed

text \<open>
  C10. An explicit choice ends the conflict: with no other page writing meanwhile, keeping the
  current text or any offered head leaves one head with the chosen text, and the page shows it as
  saved.
\<close>

theorem resolveConflict_converges:
  assumes "zod (hostParse H) U D" and "coherent h s" and "quiet E" and "clock_ok E s"
    and "write_ok E" and "can_join H E c s"
  shows "snap_status (snapshot (resolveConflict H E c s)) = Saved \<and> \<not> dirty (resolveConflict H E c s)
    \<and> snap_value (snapshot (resolveConflict H E c s)) =
        (case selection H c s of Some r \<Rightarrow> source r | None \<Rightarrow> snap_value (snapshot s))
    \<and> (\<exists>r. heads (scanDrafts H (storage (resolveConflict H E c s)) (ctl_key s)) = [r]
         \<and> source r = snap_value (snapshot (resolveConflict H E c s)))"
proof -
  let ?hs = "heads (scanDrafts H (storage s) (ctl_key s))" and ?t = "chosen H c s"
  have t: "coherent h ?t" "clock_ok E ?t" "ctl_key ?t = ctl_key s"
    using assms(2,4) coherent_view [OF chosen_view [of H c s]] clock_ok_view [OF chosen_view [of H c s]]
      chosen_view [of H c s] by (simp_all add: view_def)
  have hs: "set ?hs = {m. maximal h m}"
    using causal_scan(2) [OF assms(1), of "ctl_key s" h "storage s"] assms(2) by (simp add: coherent_def)
  have j: "storage_ok E" "byteLength (snap_value (snapshot ?t)) \<le> codeDraftMaxBytes"
    using assms(6) by (simp_all add: can_join_def)
  have "snap_value (snapshot ?t) = (case selection H c s of Some r \<Rightarrow> source r | None \<Rightarrow> snap_value (snapshot s))"
    by (simp add: chosen_def split: option.split)
  moreover obtain r where "source r = snap_value (snapshot ?t)"
      "heads (scanDrafts H (storage (persist_joined H E ?hs ?t)) (ctl_key ?t)) = [r]"
      "snap_status (snapshot (persist_joined H E ?hs ?t)) = Saved"
      "snap_value (snapshot (persist_joined H E ?hs ?t)) = snap_value (snapshot ?t)"
      "\<not> dirty (persist_joined H E ?hs ?t)"
    by (rule persist_joined_converges [OF assms(1) t(1) assms(3) t(2) assms(5) j hs])
  ultimately show ?thesis unfolding resolve_joins [OF assms(6)] t(3) by simp
qed

theorem resolveConflict_converges_witness:
  "snap_status (snapshot (resolveConflict demo_host demo_env (js ''current'') demo_late)) = Saved
    \<and> snap_value (snapshot (resolveConflict demo_host demo_env (js ''current'') demo_late)) = js ''y''"
proof -
  have sel: "selection demo_host (js ''current'') demo_late = None" by (simp add: selection_def)
  have "corruptKeys (scanDrafts demo_host (storage demo_late) (ctl_key demo_late)) = []"
    using causal_scan(1) [OF demo_zod] demo_late_coherent unfolding coherent_def by blast
  then have "can_join demo_host demo_env (js ''current'') demo_late"
    using sel demo_size(1) demo_late_fields(2) demo_quiet(3)
    by (simp add: can_join_def chosen_def del: js_Cons)
  from resolveConflict_converges [OF demo_zod demo_late_coherent demo_quiet(1) demo_late_fields(6)
      demo_quiet(2) this] show ?thesis
    using sel demo_late_fields(2) by simp
qed

text \<open>
  C3. The scan decides causality: in a storage that agrees with a history, no key is taken for
  corrupt, and the heads, found by comparing compacted revision lists, are exactly the stored
  records that no other stored record's writer had in hand, directly or through its parents.
\<close>

theorem scan_finds_causal_heads:
  assumes "zod (hostParse H) U D" and "causal K h st"
  shows "corruptKeys (scanDrafts H st K) = [] \<and> distinct (heads (scanDrafts H st K))
    \<and> set (heads (scanDrafts H st K)) = {r. maximal h r} \<and> (h \<noteq> [] \<longrightarrow> heads (scanDrafts H st K) \<noteq> [])"
  using causal_scan [OF assms] by blast

theorem scan_finds_causal_heads_witness:
  "set (heads (scanDrafts demo_host (storage demo_late) demo_key)) = {r. maximal [(demo_other, [])] r}"
  using scan_finds_causal_heads [OF demo_zod, of demo_key "[(demo_other, [])]" "storage demo_late"]
    demo_late_coherent demo_late_fields(3) by (simp add: coherent_def)

section \<open>One page\<close>

text \<open>
  C18. Over every sequence of calls and browser events of a page, with any failures and any writes
  of other pages: the unsaved flag is the controller's own, text without unsaved changes is the
  baseline's source or the starter code, \<open>Saved\<close> and \<open>Clean\<close> never hide unsaved changes, and while
  edits show as pending a save is scheduled.
\<close>

theorem page_snapshot_promises: "page_state H s \<Longrightarrow> draft_inv s"
  by (rule page_state_inv)

theorem page_snapshot_promises_witness: "draft_inv demo_page"
proof -
  have "page_state demo_host (draft_step demo_host demo_env (Edit (js ''y'')) demo_open)"
    by (intro page_state.call page_state.opened [OF demo_open_eq])
  then show ?thesis using page_snapshot_promises [of demo_host demo_page] by (simp add: demo_page_def)
qed

text \<open>
  C19. A page writes no key but its own: its calls leave every other key of the storage as it was,
  except that a reset the user confirmed may remove unreadable records of the same identity.
\<close>

theorem page_writes_own_key:
  assumes "quiet E" and "k \<noteq> ctl_key s @ ctl_writer s"
    and "\<not> (op = Reset \<and> startsWith k (ctl_key s) \<and> k \<in> set (corruptKeys (scanDrafts H (storage s) (ctl_key s))))"
  shows "map_of (storage (draft_step H E op s)) k = map_of (storage s) k"
  using assms corruptKeys_prefix by (intro draft_step_storage) blast+

theorem page_writes_own_key_witness:
  "map_of (storage (draft_step demo_host demo_env Flush demo_late)) (demo_key @ js ''b'') =
     Some (JSON_text (json_of_draft demo_other))"
  using page_writes_own_key [OF demo_quiet(1), of "demo_key @ js ''b''" demo_late Flush demo_host]
    demo_late_fields by (simp add: demo_late_def)

text \<open>
  Drafts of different users, problems or languages never meet: a key under one identity's
  prefix starts with no other identity's prefix.
\<close>

theorem draft_keys_isolated:
  assumes "codeDraftKey i = Some k" and "codeDraftKey j = Some k'" and "startsWith (k @ w) k'"
  shows "i = j"
  using assms by (rule codeDraftKey_prefix_inj)

theorem draft_keys_isolated_witness: "demo_identity = demo_identity \<and> startsWith (demo_key @ js ''b'') demo_key"
  using draft_keys_isolated [OF demo_codeDraftKey demo_codeDraftKey, of "js ''b''"] by simp

text \<open>
  C39. What a page writes reads back: a record the schema accepts and whose revision is its
  writer's survives \<open>JSON.stringify\<close>, the storage, \<open>JSON.parse\<close> and validation unchanged.
\<close>

theorem draft_record_roundtrip:
  assumes "zod P U D" and "owned_draft r"
  shows "read_draft P prefix (prefix @ writerId r) (JSON_text (json_of_draft r)) = Some r"
  using assms by (rule read_draft_roundtrip)

theorem draft_record_roundtrip_witness:
  "read_draft (hostParse demo_host) demo_key (demo_key @ js ''b'') (JSON_text (json_of_draft demo_other)) = Some demo_other"
  using draft_record_roundtrip [OF demo_zod, of demo_other demo_key] demo_other_fits
  by (simp add: fits_def) (simp add: demo_other_def)

text \<open>
  Compaction keeps exactly the newest mentioned revision of every writer but the current one,
  so the list is bounded by the number of writers and loses no causal information.
\<close>

theorem compactRevisions_newest:
  assumes "\<forall>r\<in>set rs. exact_rev r"
  shows "set (compactRevisions rs cw) = {r. \<exists>w. w \<noteq> cw \<and> newest rs w r}"
  using assms by (rule set_compactRevisions)

theorem compactRevisions_newest_witness:
  "mk_rev (js ''b'') 1 \<in> set (compactRevisions [mk_rev (js ''b'') 1] (js ''a''))"
proof -
  have "\<forall>r\<in>set [mk_rev (js ''b'') 1]. exact_rev r"
    using demo_regex(2) unfolding exact_rev_def safe_bound_def
    by (simp del: js_Cons) (metis one_le_numeral zero_less_one)
  moreover have "newest [mk_rev (js ''b'') 1] (js ''b'') (mk_rev (js ''b'') 1)"
    unfolding newest_def by (intro exI [of _ 1]) (simp add: mk_rev_inject del: js_Cons)
  moreover have "js ''b'' \<noteq> js ''a''" by simp
  ultimately show ?thesis using compactRevisions_newest [of "[mk_rev (js ''b'') 1]" "js ''a''"] by blast
qed

end
