(* ===== verification/Api_Client.thy ===== *)
theory Api_Client
  imports Zod_Schema
begin

text \<open>
  The HTTP client, \<open>lib/api/api-client.ts\<close> with its schemas \<open>lib/api/api-schemas.ts\<close> and the
  retry rule of \<open>app/query-client.ts\<close>. A call is a function on the client's state that ends in a
  value or in what it throws; \<open>fetch\<close>, zod's \<open>safeParse\<close>, \<open>Date.parse\<close> and the clock are the
  fields of \<open>net\<close>. The theorems say what a caller may rely on: a value was validated, its request
  id agrees with the header, and every failure is an \<open>ApiError\<close> of a kind that tells what happened.
\<close>

section \<open>Schemas\<close>

definition token_char :: "code_unit \<Rightarrow> bool" where
  "token_char c \<longleftrightarrow> is_alnum c \<or> c = 95 \<or> c = 45"

definition request_id_regex :: "jsstr \<Rightarrow> bool" where
  "request_id_regex s \<longleftrightarrow> startsWith s (js ''req_'') \<and> list_all token_char (drop 4 s)
     \<and> 16 \<le> int (length (drop 4 s)) \<and> int (length (drop 4 s)) \<le> 64"

definition code_regex :: "jsstr \<Rightarrow> bool" where
  "code_regex s \<longleftrightarrow> s \<noteq> [] \<and> is_upper (hd s) \<and> int (length (tl s)) \<le> 63
     \<and> list_all (\<lambda>c. is_upper c \<or> is_digit c \<or> c = 95) (tl s)"

definition requestIdSchema :: schema where
  "requestIdSchema = ZString [SRegex request_id_regex]"

definition cursorPaginationSchema :: schema where
  "cursorPaginationSchema = ZObject Loose
     [(js ''kind'', ZLiteral (JStr (js ''cursor''))),
      (js ''nextCursor'', ZNullable (ZString [SMin 1, SMax 2048])),
      (js ''hasMore'', ZBoolean)]"

definition pagePaginationSchema :: schema where
  "pagePaginationSchema = ZObject Loose
     [(js ''kind'', ZLiteral (JStr (js ''page''))),
      (js ''page'', ZNumber [NInt, NMin 1]),
      (js ''size'', ZNumber [NInt, NMin 1]),
      (js ''totalElements'', ZNumber [NInt, NMin 0]),
      (js ''totalPages'', ZNumber [NInt, NMin 0])]"

definition paginationSchema :: schema where
  "paginationSchema = ZDiscriminated (js ''kind'') [cursorPaginationSchema, pagePaginationSchema]"

definition apiMetaSchema :: schema where
  "apiMetaSchema = ZObject Loose
     [(js ''requestId'', requestIdSchema), (js ''pagination'', ZOptional paginationSchema)]"

definition fieldViolationSchema :: schema where
  "fieldViolationSchema = ZObject Loose
     [(js ''path'', ZString [SMin 1, SMax 512]),
      (js ''code'', ZString [SRegex code_regex]),
      (js ''message'', ZString [SMin 1, SMax 1024])]"

definition apiProblemSchema :: schema where
  "apiProblemSchema = ZObject Loose
     [(js ''type'', ZString [SMin 1]),
      (js ''title'', ZString [SMin 1, SMax 256]),
      (js ''status'', ZNumber [NInt, NMin 400, NMax 599]),
      (js ''detail'', ZOptional (ZString [SMin 1, SMax 2048])),
      (js ''instance'', ZOptional (ZString [SMin 1])),
      (js ''code'', ZString [SRegex code_regex]),
      (js ''meta'', apiMetaSchema),
      (js ''violations'', ZOptional (ZArray fieldViolationSchema (Some 100)))]"

definition apiSuccessSchema :: "schema \<Rightarrow> schema" where
  "apiSuccessSchema dataSchema = ZObject Loose [(js ''data'', dataSchema), (js ''meta'', apiMetaSchema)]"

section \<open>Errors\<close>

datatype ApiErrorKind = Http | Network | Timeout | Aborted | Contract

text \<open>The messages of the client, one constructor per literal; \<open>FromProblem\<close> is the text of a
  problem response.\<close>

datatype api_message =
    NoRequestId | WrongMediaType jsstr | BadJson | BodyNotObject | BodyNotSerializable
  | RequestAborted | RequestTimeout | NoConnection
  | BadProblem | StatusMismatch | ProblemIdMismatch | Unexpected204 | BadSuccess | SuccessIdMismatch
  | LocationMissing | Expected204 | BadUpload | UploadLocationMissing
  | FromProblem jsstr | Other nat

record ApiError =
  err_message :: api_message
  err_kind :: ApiErrorKind
  err_status :: "int option"
  err_code :: "jsstr option"
  err_requestId :: "jsstr option"
  err_problem :: "json option"
  err_retryAfterNs :: "int option"

text \<open>What can be thrown: an \<open>ApiError\<close>, or another exception with its \<open>name\<close> if it has one.\<close>

datatype thrown = Api ApiError | Exn "jsstr option"

definition plain_error :: "api_message \<Rightarrow> ApiErrorKind \<Rightarrow> ApiError" where
  "plain_error m k = \<lparr>err_message = m, err_kind = k, err_status = None, err_code = None,
     err_requestId = None, err_problem = None, err_retryAfterNs = None\<rparr>"

definition contractError :: "api_message \<Rightarrow> int option \<Rightarrow> thrown" where
  "contractError m status = Api ((plain_error m Contract)\<lparr>err_status := status\<rparr>)"

section \<open>Requests and responses\<close>

datatype ApiHttpMethod = DELETE | GET | PATCH | POST | PUT

record AbortSignal =
  aborted :: bool
  reason_name :: "jsstr option"

datatype payload = NoBody | JsonBody jsstr | FormBody "(jsstr \<times> jsstr) list"

record request =
  req_path :: jsstr
  req_method :: ApiHttpMethod
  req_headers :: "(jsstr \<times> jsstr) list"
  req_payload :: payload
  req_signal :: "AbortSignal option"

text \<open>A response: header names in lower case, the body \<open>None\<close> when reading it fails.\<close>

record response =
  resp_status :: int
  resp_headers :: "(jsstr \<times> jsstr) list"
  resp_body :: "jsstr option"

record 'w net =
  net_parse :: safe_parse
  net_fetch :: "request \<Rightarrow> 'w \<Rightarrow> (thrown + response) \<times> 'w"
  net_date :: "jsstr \<Rightarrow> int option"
  net_now :: int

record ApiRequestOptions =
  opt_method :: "ApiHttpMethod option"
  opt_body :: "json option"
  opt_signal :: "AbortSignal option"
  opt_csrfToken :: "jsstr option"
  opt_idempotencyKey :: "jsstr option"
  opt_expectedUserId :: "jsstr option"

definition no_options :: ApiRequestOptions where
  "no_options = \<lparr>opt_method = None, opt_body = None, opt_signal = None, opt_csrfToken = None,
     opt_idempotencyKey = None, opt_expectedUserId = None\<rparr>"

record ApiJsonResponse =
  res_data :: json
  res_meta :: json
  res_status :: int
  res_location :: "jsstr option"

definition resp_ok :: "response \<Rightarrow> bool" where
  "resp_ok r \<longleftrightarrow> 200 \<le> resp_status r \<and> resp_status r \<le> 299"

definition header :: "response \<Rightarrow> jsstr \<Rightarrow> jsstr option" where
  "header r k = map_of (resp_headers r) k"

definition to_lower :: "jsstr \<Rightarrow> jsstr" where
  "to_lower s = map (\<lambda>c. if is_upper c then c + 32 else c) s"

definition mediaType :: "response \<Rightarrow> jsstr option" where
  "mediaType r = map_option (\<lambda>v. to_lower (trim (hd (split_on 59 v)))) (header r (js ''content-type''))"

definition retryAfterNs :: "'w net \<Rightarrow> response \<Rightarrow> int option" where
  "retryAfterNs N r =
     (case map_option trim (header r (js ''retry-after'')) of
        None \<Rightarrow> None
      | Some value \<Rightarrow>
          if value = [] then None
          else if list_all is_digit value then Some (digits_val value * 1000000000)
          else case net_date N value of
                 None \<Rightarrow> None
               | Some retryAtMs \<Rightarrow> Some (max 0 (retryAtMs - net_now N) * 1000000))"

definition requireRequestId :: "'w net \<Rightarrow> response \<Rightarrow> (thrown, jsstr) result" where
  "requireRequestId N r =
     (case net_parse N requestIdSchema (case header r (js ''x-request-id'') of Some v \<Rightarrow> JStr v | None \<Rightarrow> JNull) of
        Some (JStr v) \<Rightarrow> Inr v
      | _ \<Rightarrow> Inl (contractError NoRequestId (Some (resp_status r))))"

definition readJson :: "response \<Rightarrow> jsstr \<Rightarrow> (thrown, json) result" where
  "readJson r expected =
     (if mediaType r \<noteq> Some expected then Inl (contractError (WrongMediaType expected) (Some (resp_status r)))
      else case resp_body r of
             None \<Rightarrow> Inl (contractError BadJson (Some (resp_status r)))
           | Some t \<Rightarrow> (case JSON_parse t of
                 None \<Rightarrow> Inl (contractError BadJson (Some (resp_status r)))
               | Some v \<Rightarrow> Inr v))"

definition failureKind :: "jsstr option \<Rightarrow> AbortSignal option \<Rightarrow> ApiErrorKind" where
  "failureKind name signal =
     (if name = Some (js ''TimeoutError'')
         \<or> (case signal of Some g \<Rightarrow> reason_name g = Some (js ''TimeoutError'') | None \<Rightarrow> False)
      then Timeout
      else if (case signal of Some g \<Rightarrow> aborted g | None \<Rightarrow> False) \<or> name = Some (js ''AbortError'')
      then Aborted else Network)"

definition failureMessage :: "ApiErrorKind \<Rightarrow> api_message" where
  "failureMessage k = (case k of Aborted \<Rightarrow> RequestAborted | Timeout \<Rightarrow> RequestTimeout | _ \<Rightarrow> NoConnection)"

section \<open>The calls\<close>

text \<open>The state a call changes: what \<open>fetch\<close> acts on, and the CSRF token of \<open>lib/api/csrf.ts\<close>.\<close>

record 'w client =
  server :: 'w
  csrfToken :: "jsstr option"

type_synonym ('w, 'a) io = "'w client \<Rightarrow> (thrown, 'a) result \<times> 'w client"

definition pure :: "(thrown, 'a) result \<Rightarrow> ('w, 'a) io" where
  "pure r c = (r, c)"

definition bind_io :: "('w, 'a) io \<Rightarrow> ('a \<Rightarrow> ('w, 'b) io) \<Rightarrow> ('w, 'b) io" where
  "bind_io m f c = (case m c of (Inl e, c') \<Rightarrow> (Inl e, c') | (Inr a, c') \<Rightarrow> f a c')"

definition catch_io :: "('w, 'a) io \<Rightarrow> (thrown \<Rightarrow> ('w, 'a) io) \<Rightarrow> ('w, 'a) io" where
  "catch_io m f c = (case m c of (Inl e, c') \<Rightarrow> f e c' | (Inr a, c') \<Rightarrow> (Inr a, c'))"

text \<open>\<open>Headers.set\<close> strips surrounding HTTP white space and throws a \<open>TypeError\<close> on a value with a
  code unit above 255, a NUL or a line break.\<close>

definition http_ws :: "code_unit \<Rightarrow> bool" where
  "http_ws c \<longleftrightarrow> c = 9 \<or> c = 10 \<or> c = 13 \<or> c = 32"

definition header_value :: "jsstr \<Rightarrow> (thrown, jsstr) result" where
  "header_value s =
     (let v = rev (dropWhile http_ws (rev (dropWhile http_ws s)))
      in if list_all (\<lambda>c. in_range 0 255 c \<and> c \<noteq> 0 \<and> c \<noteq> 10 \<and> c \<noteq> 13) v then Inr v
         else Inl (Exn (Some (js ''TypeError''))))"

definition set_header :: "jsstr \<Rightarrow> jsstr option \<Rightarrow> (jsstr \<times> jsstr) list \<Rightarrow> (thrown, (jsstr \<times> jsstr) list) result" where
  "set_header k v hs =
     (case v of None \<Rightarrow> Inr hs | Some s \<Rightarrow> bind_result (header_value s) (\<lambda>w. Inr (AList.update k w hs)))"

definition accept_header :: "(jsstr \<times> jsstr) list" where
  "accept_header = [(js ''Accept'', js ''application/json, application/problem+json'')]"

definition is_array :: "json \<Rightarrow> bool" where
  "is_array v = (case v of JArr _ \<Rightarrow> True | _ \<Rightarrow> False)"

definition json_payload :: "json option \<Rightarrow> (thrown, payload) result" where
  "json_payload b =
     (case b of
        None \<Rightarrow> Inr NoBody
      | Some v \<Rightarrow>
          if v = JNull \<or> is_array v then Inl (contractError BodyNotObject None)
          else case JSON_stringify v of
                 None \<Rightarrow> Inl (contractError BodyNotSerializable None)
               | Some t \<Rightarrow> if startsWith (trimStart t) (js ''{'') then Inr (JsonBody t)
                          else Inl (contractError BodyNotSerializable None))"

definition build_request :: "jsstr \<Rightarrow> ApiRequestOptions \<Rightarrow> (thrown, request) result" where
  "build_request path opts =
     bind_result (json_payload (opt_body opts)) (\<lambda>p.
     bind_result (set_header (js ''Content-Type'')
       (if p = NoBody then None else Some (js ''application/json'')) accept_header) (\<lambda>h0.
     bind_result (set_header (js ''X-CSRF-Token'') (opt_csrfToken opts) h0) (\<lambda>h1.
     bind_result (set_header (js ''Idempotency-Key'') (opt_idempotencyKey opts) h1) (\<lambda>h2.
     bind_result (set_header (js ''X-Expected-User-Id'') (opt_expectedUserId opts) h2) (\<lambda>h3.
       Inr \<lparr>req_path = path,
            req_method = (case opt_method opts of Some m \<Rightarrow> m | None \<Rightarrow> GET),
            req_headers = h3, req_payload = p, req_signal = opt_signal opts\<rparr>)))))"

definition fetch :: "'w net \<Rightarrow> request \<Rightarrow> ('w, response) io" where
  "fetch N q c = (case net_fetch N q (server c) of (r, w) \<Rightarrow> (r, c\<lparr>server := w\<rparr>))"

definition rethrow :: "AbortSignal option \<Rightarrow> thrown \<Rightarrow> thrown" where
  "rethrow signal e =
     (case e of Api a \<Rightarrow> Api a
      | Exn name \<Rightarrow> (let k = failureKind name signal in Api (plain_error (failureMessage k) k)))"

definition send :: "'w net \<Rightarrow> jsstr \<Rightarrow> ApiRequestOptions \<Rightarrow> ('w, response) io" where
  "send N path opts =
     bind_io (pure (build_request path opts)) (\<lambda>q.
       catch_io (fetch N q) (\<lambda>e. pure (Inl (rethrow (opt_signal opts) e))))"

definition as_text :: "json \<Rightarrow> jsstr option" where
  "as_text v = (case v of JStr s \<Rightarrow> Some s | _ \<Rightarrow> None)"

definition meta_id :: "json \<Rightarrow> jsstr option" where
  "meta_id v = as_text (jget (js ''requestId'') (jget (js ''meta'') v))"

definition throwProblem :: "'w net \<Rightarrow> response \<Rightarrow> thrown" where
  "throwProblem N r =
     (case bind_result (requireRequestId N r) (\<lambda>i.
             bind_result (readJson r (js ''application/problem+json'')) (\<lambda>body.
               case net_parse N apiProblemSchema body of
                 None \<Rightarrow> Inl (contractError BadProblem (Some (resp_status r)))
               | Some p \<Rightarrow>
                   if jget (js ''status'') p \<noteq> JNum (Fin (of_int (resp_status r)))
                   then Inl (contractError StatusMismatch (Some (resp_status r)))
                   else if meta_id p \<noteq> Some i
                   then Inl (contractError ProblemIdMismatch (Some (resp_status r)))
                   else Inr (i, p))) of
        Inl e \<Rightarrow> e
      | Inr (i, p) \<Rightarrow> Api
          \<lparr>err_message = FromProblem (case as_text (jget (js ''detail'') p) of Some d \<Rightarrow> d
                           | None \<Rightarrow> (case as_text (jget (js ''title'') p) of Some t \<Rightarrow> t | None \<Rightarrow> [])),
           err_kind = Http, err_status = Some (resp_status r),
           err_code = as_text (jget (js ''code'') p), err_requestId = Some i, err_problem = Some p,
           err_retryAfterNs = retryAfterNs N r\<rparr>)"

definition read_success :: "'w net \<Rightarrow> schema \<Rightarrow> response \<Rightarrow> (thrown, ApiJsonResponse) result" where
  "read_success N dataSchema r =
     (if resp_status r = 204 then Inl (contractError Unexpected204 (Some 204))
      else
        bind_result (requireRequestId N r) (\<lambda>i.
        bind_result (readJson r (js ''application/json'')) (\<lambda>body.
          case net_parse N (apiSuccessSchema dataSchema) body of
            None \<Rightarrow> Inl (contractError BadSuccess (Some (resp_status r)))
          | Some v \<Rightarrow>
              if meta_id v \<noteq> Some i then Inl (contractError SuccessIdMismatch (Some (resp_status r)))
              else if (resp_status r = 201 \<or> resp_status r = 202) \<and> header r (js ''location'') = None
              then Inl (contractError LocationMissing (Some (resp_status r)))
              else Inr \<lparr>res_data = jget (js ''data'') v, res_meta = jget (js ''meta'') v,
                        res_status = resp_status r, res_location = header r (js ''location'')\<rparr>)))"

definition requestJson :: "'w net \<Rightarrow> jsstr \<Rightarrow> schema \<Rightarrow> ApiRequestOptions \<Rightarrow> ('w, ApiJsonResponse) io" where
  "requestJson N path dataSchema opts =
     bind_io (send N path opts) (\<lambda>r.
       pure (if \<not> resp_ok r then Inl (throwProblem N r) else read_success N dataSchema r))"

definition requestVoid :: "'w net \<Rightarrow> jsstr \<Rightarrow> ApiRequestOptions \<Rightarrow> ('w, jsstr) io" where
  "requestVoid N path opts =
     bind_io (send N path opts) (\<lambda>r.
       pure (if \<not> resp_ok r then Inl (throwProblem N r)
             else if resp_status r \<noteq> 204 then Inl (contractError Expected204 (Some (resp_status r)))
             else requireRequestId N r))"

definition read_upload :: "'w net \<Rightarrow> schema \<Rightarrow> response \<Rightarrow> (thrown, ApiJsonResponse) result" where
  "read_upload N dataSchema r =
     bind_result (requireRequestId N r) (\<lambda>i.
     bind_result (readJson r (js ''application/json'')) (\<lambda>body.
       case net_parse N (apiSuccessSchema dataSchema) body of
         None \<Rightarrow> Inl (contractError BadUpload (Some (resp_status r)))
       | Some v \<Rightarrow>
           if meta_id v \<noteq> Some i then Inl (contractError BadUpload (Some (resp_status r)))
           else if resp_status r = 201 \<and> header r (js ''location'') = None
           then Inl (contractError UploadLocationMissing (Some (resp_status r)))
           else Inr \<lparr>res_data = jget (js ''data'') v, res_meta = jget (js ''meta'') v,
                     res_status = resp_status r, res_location = header r (js ''location'')\<rparr>))"

definition requestMultipart ::
    "'w net \<Rightarrow> jsstr \<Rightarrow> (jsstr \<times> jsstr) list \<Rightarrow> schema \<Rightarrow> ApiRequestOptions \<Rightarrow> ('w, ApiJsonResponse) io" where
  "requestMultipart N path form dataSchema opts =
     bind_io (pure (set_header (js ''X-CSRF-Token'') (opt_csrfToken opts) accept_header)) (\<lambda>hs.
     bind_io (catch_io (fetch N \<lparr>req_path = path,
                req_method = (case opt_method opts of Some m \<Rightarrow> m | None \<Rightarrow> POST),
                req_headers = hs, req_payload = FormBody form, req_signal = opt_signal opts\<rparr>)
              (\<lambda>e. pure (Inl (rethrow (opt_signal opts)
                 (case e of Api _ \<Rightarrow> Exn (Some (js ''ApiError'')) | _ \<Rightarrow> e))))) (\<lambda>r.
       pure (if \<not> resp_ok r then Inl (throwProblem N r) else read_upload N dataSchema r)))"

section \<open>Retries\<close>

definition shouldRetryQuery :: "int \<Rightarrow> thrown \<Rightarrow> bool" where
  "shouldRetryQuery failureCount e =
     (case e of
        Exn _ \<Rightarrow> False
      | Api a \<Rightarrow>
          if failureCount \<ge> 1 then False
          else if err_kind a = Network \<or> err_kind a = Timeout then True
          else err_kind a = Http \<and> (case err_status a of Some n \<Rightarrow> n \<ge> 500 | None \<Rightarrow> False))"

section \<open>What a caller may rely on\<close>

lemma bind_io_Inr:
  "fst (bind_io m f c) = Inr b \<longleftrightarrow> (\<exists>a c'. m c = (Inr a, c') \<and> fst (f a c') = Inr b)"
  by (auto simp: bind_io_def split: prod.splits sum.splits)

lemma bind_io_Inl:
  "fst (bind_io m f c) = Inl e \<longleftrightarrow> fst (m c) = Inl e \<or> (\<exists>a c'. m c = (Inr a, c') \<and> fst (f a c') = Inl e)"
  by (auto simp: bind_io_def split: prod.splits sum.splits)

lemma pure_eq [simp]: "pure r c = (r, c)"
  by (simp add: pure_def)

lemma fetch_csrf: "fetch N q c = (r, c') \<Longrightarrow> csrfToken c' = csrfToken c"
  by (auto simp: fetch_def split: prod.splits)

lemma send_Inr:
  "send N path opts c = (Inr r, c') \<longleftrightarrow> (\<exists>q. build_request path opts = Inr q \<and> fetch N q c = (Inr r, c'))"
  by (auto simp: send_def bind_io_def catch_io_def split: prod.splits sum.splits)

lemma send_csrf: "csrfToken (snd (send N path opts c)) = csrfToken c"
  by (auto simp: send_def bind_io_def catch_io_def dest: fetch_csrf split: prod.splits sum.splits)

lemma requestJson_csrf: "csrfToken (snd (requestJson N path z opts c)) = csrfToken c"
  using send_csrf [of N path opts c]
  by (auto simp: requestJson_def bind_io_def split: prod.splits sum.splits)

lemma requestVoid_csrf: "csrfToken (snd (requestVoid N path opts c)) = csrfToken c"
  using send_csrf [of N path opts c]
  by (auto simp: requestVoid_def bind_io_def split: prod.splits sum.splits)

text \<open>An \<open>ApiError\<close> whose fields say what its kind promises.\<close>

definition well_formed_error :: "ApiError \<Rightarrow> bool" where
  "well_formed_error a \<longleftrightarrow>
     (err_kind a = Http \<longrightarrow> (\<exists>n. err_status a = Some n \<and> 400 \<le> n \<and> n \<le> 599)
        \<and> (\<exists>k. err_code a = Some k \<and> code_regex k)
        \<and> (\<exists>i. err_requestId a = Some i \<and> request_id_regex i) \<and> err_problem a \<noteq> None)
   \<and> (err_kind a \<noteq> Http \<longrightarrow> err_code a = None \<and> err_requestId a = None \<and> err_problem a = None
        \<and> err_retryAfterNs a = None)
   \<and> (case err_retryAfterNs a of Some n \<Rightarrow> 0 \<le> n | None \<Rightarrow> True)"

definition clean_thrown :: "thrown \<Rightarrow> bool" where
  "clean_thrown e = (case e of Api a \<Rightarrow> well_formed_error a | Exn _ \<Rightarrow> False)"

lemma contractError_clean [simp]: "clean_thrown (contractError m n)"
  by (simp add: clean_thrown_def contractError_def plain_error_def well_formed_error_def)

lemma rethrow_clean: "clean_thrown (rethrow g (Exn name))"
  by (simp add: rethrow_def Let_def clean_thrown_def plain_error_def well_formed_error_def failureKind_def)

lemma digits_val_nonneg: "list_all is_digit s \<Longrightarrow> 0 \<le> digits_val s"
proof (induction s rule: rev_induct)
  case (snoc c s)
  then have "0 \<le> digits_val s" "is_digit c" by auto
  then show ?case by (simp add: digits_val_def digit_val_def in_range_def)
qed (simp add: digits_val_def)

lemma retryAfterNs_nonneg: "retryAfterNs N r = Some n \<Longrightarrow> 0 \<le> n"
  by (auto simp: retryAfterNs_def digits_val_nonneg split: option.splits if_splits)

context zod
begin

lemma request_id_accepted:
  "net_parse N = safeParse \<Longrightarrow> requireRequestId N r = Inr i \<Longrightarrow>
     header r (js ''x-request-id'') = Some i \<and> request_id_regex i"
  by (auto simp: requireRequestId_def requestIdSchema_def string_law split: option.splits json.splits if_splits)

lemma problem_fields:
  assumes "safeParse apiProblemSchema b = Some p"
  shows "\<exists>n. jget (js ''status'') p = JNum (Fin (of_int n)) \<and> 400 \<le> n \<and> n \<le> 599"
    and "\<exists>k. jget (js ''code'') p = JStr k \<and> code_regex k"
    and "\<exists>t. jget (js ''title'') p = JStr t \<and> t \<noteq> []"
proof -
  have get: "safeParse z (jget k b) = Some (jget k p)" if "map_of [(js ''type'', ZString [SMin 1]),
      (js ''title'', ZString [SMin 1, SMax 256]), (js ''status'', ZNumber [NInt, NMin 400, NMax 599]),
      (js ''detail'', ZOptional (ZString [SMin 1, SMax 2048])), (js ''instance'', ZOptional (ZString [SMin 1])),
      (js ''code'', ZString [SRegex code_regex]), (js ''meta'', apiMetaSchema),
      (js ''violations'', ZOptional (ZArray fieldViolationSchema (Some 100)))] k = Some z" for k z
    using object_SomeD [OF assms [unfolded apiProblemSchema_def] _ that] by simp
  show "\<exists>n. jget (js ''status'') p = JNum (Fin (of_int n)) \<and> 400 \<le> n \<and> n \<le> 599"
    using get [of "js ''status''"] by (auto dest!: int_SomeD)
  show "\<exists>k. jget (js ''code'') p = JStr k \<and> code_regex k"
    using get [of "js ''code''"] by (auto dest!: string_SomeD)
  show "\<exists>t. jget (js ''title'') p = JStr t \<and> t \<noteq> []"
    using get [of "js ''title''"] by (auto dest!: string_SomeD)
qed

lemma throwProblem_clean:
  assumes "net_parse N = safeParse"
  shows "clean_thrown (throwProblem N r)"
proof -
  have ids: "clean_thrown e" if "requireRequestId N r = Inl e" for e
    using that by (auto simp: requireRequestId_def split: option.splits json.splits)
  have body: "clean_thrown e" if "readJson r m = Inl e" for m e
    using that by (auto simp: readJson_def split: option.splits if_splits)
  show ?thesis
  proof (cases "requireRequestId N r")
    case (Inl e)
    then show ?thesis using ids by (simp add: throwProblem_def)
  next
    case i: (Inr i)
    note rid = request_id_accepted [OF assms i]
    show ?thesis
    proof (cases "readJson r (js ''application/problem+json'')")
      case (Inl e)
      then show ?thesis using body i by (simp add: throwProblem_def)
    next
      case b: (Inr b)
      show ?thesis
      proof (cases "safeParse apiProblemSchema b")
        case None
        then show ?thesis using i b assms by (simp add: throwProblem_def)
      next
        case (Some p)
        note f = problem_fields [OF Some]
        show ?thesis
          using i b Some assms rid f retryAfterNs_nonneg [of N r]
          by (auto simp: throwProblem_def clean_thrown_def well_formed_error_def as_text_def
              contractError_def plain_error_def split: option.splits)
      qed
    qed
  qed
qed

lemma success_fields:
  assumes "safeParse (apiSuccessSchema z) b = Some v"
  shows "safeParse z (jget (js ''data'') b) = Some (jget (js ''data'') v)"
  using object_SomeD [OF assms [unfolded apiSuccessSchema_def], of "js ''data''" z] by simp

lemma read_success_ok:
  assumes "net_parse N = safeParse" and "read_success N z r = Inr v"
  shows "resp_status r \<noteq> 204 \<and> res_status v = resp_status r
    \<and> (\<exists>i. header r (js ''x-request-id'') = Some i \<and> request_id_regex i
         \<and> jget (js ''requestId'') (res_meta v) = JStr i)
    \<and> (\<exists>raw. safeParse z raw = Some (res_data v))
    \<and> (resp_status r = 201 \<or> resp_status r = 202 \<longrightarrow> res_location v \<noteq> None)"
proof -
  obtain i b w where i: "requireRequestId N r = Inr i" and b: "readJson r (js ''application/json'') = Inr b"
    and w: "safeParse (apiSuccessSchema z) b = Some w" "meta_id w = Some i" "resp_status r \<noteq> 204"
      "\<not> ((resp_status r = 201 \<or> resp_status r = 202) \<and> header r (js ''location'') = None)"
      "v = \<lparr>res_data = jget (js ''data'') w, res_meta = jget (js ''meta'') w,
             res_status = resp_status r, res_location = header r (js ''location'')\<rparr>"
    using assms(2) by (auto simp: read_success_def assms(1) bind_result_Inr_iff split: if_splits option.splits)
  have "jget (js ''requestId'') (jget (js ''meta'') w) = JStr i"
    using w(2) by (auto simp: meta_id_def as_text_def split: json.splits)
  then show ?thesis
    using request_id_accepted [OF assms(1) i] success_fields [OF w(1)] w(3,4,5) by auto
qed

lemma requestJson_ok:
  assumes "net_parse N = safeParse" and "fst (requestJson N path z opts c) = Inr v"
  shows "\<exists>q r. build_request path opts = Inr q \<and> fst (net_fetch N q (server c)) = Inr r
    \<and> resp_ok r \<and> read_success N z r = Inr v"
proof -
  obtain r c' where "send N path opts c = (Inr r, c')" "resp_ok r" "read_success N z r = Inr v"
    using assms(2) by (auto simp: requestJson_def bind_io_Inr split: if_splits)
  moreover from this(1) obtain q where "build_request path opts = Inr q" "fetch N q c = (Inr r, c')"
    unfolding send_Inr by blast
  moreover from this(2) have "fst (net_fetch N q (server c)) = Inr r"
    by (cases "net_fetch N q (server c)") (simp add: fetch_def)
  ultimately show ?thesis by blast
qed

lemma read_success_clean:
  assumes "read_success N z r = Inl e"
  shows "clean_thrown e"
  using assms
  by (auto simp: read_success_def bind_result_Inl_iff requireRequestId_def readJson_def
      split: if_splits option.splits json.splits)

end

text \<open>What the headers of a request may carry, and a \<open>fetch\<close> that does not throw an \<open>ApiError\<close>
  itself.\<close>

definition header_safe :: "ApiRequestOptions \<Rightarrow> bool" where
  "header_safe opts \<longleftrightarrow> (\<forall>v\<in>set_option (opt_csrfToken opts) \<union> set_option (opt_idempotencyKey opts)
     \<union> set_option (opt_expectedUserId opts). \<exists>w. header_value v = Inr w)"

definition foreign_fetch :: "'w net \<Rightarrow> bool" where
  "foreign_fetch N \<longleftrightarrow> (\<forall>q w a. fst (net_fetch N q w) \<noteq> Inl (Api a))"

lemma set_header_Inl: "set_header k v hs = Inl e \<Longrightarrow> \<exists>s. v = Some s \<and> header_value s = Inl e"
  by (auto simp: set_header_def bind_result_Inl_iff split: option.splits)

lemma json_payload_clean: "json_payload b = Inl e \<Longrightarrow> clean_thrown e"
  by (auto simp: json_payload_def split: option.splits if_splits)

lemma content_type_header: "header_value (js ''application/json'') = Inr (js ''application/json'')"
  by code_simp

lemma build_request_clean:
  assumes "header_safe opts" and "build_request path opts = Inl e"
  shows "clean_thrown e"
  using assms content_type_header
  by (auto simp: build_request_def bind_result_Inl_iff header_safe_def simp del: js_Cons
      dest!: set_header_Inl json_payload_clean split: if_splits)

lemma send_clean:
  assumes "header_safe opts" and "foreign_fetch N" and "fst (send N path opts c) = Inl e"
  shows "clean_thrown e"
proof (cases "build_request path opts")
  case (Inl e')
  then show ?thesis using assms build_request_clean by (auto simp: send_def bind_io_def)
next
  case (Inr q)
  then obtain e' where "fst (net_fetch N q (server c)) = Inl e'" "e = rethrow (opt_signal opts) e'"
    using assms(3)
    by (auto simp: send_def bind_io_def catch_io_def fetch_def split: prod.splits sum.splits)
  then show ?thesis using assms(2) rethrow_clean by (cases e') (auto simp: foreign_fetch_def)
qed

end
