(* ===== verification/Csrf.thy ===== *)
theory Csrf
  imports Api_Client
begin

text \<open>
  \<open>lib/api/csrf.ts\<close>. The first half is a call alone, in the client's state-passing style, the way
  the other API modules use it. The second half is the module with several calls in flight: the
  token and the pending request are shared, and the steps are the points where an \<open>async\<close> function
  gives up control. An operation runs at most twice, and the second run carries a token that was
  asked for after the rejection.
\<close>

section \<open>One call\<close>

definition csrfSchema :: schema where
  "csrfSchema = ZObject Strip
     [(js ''token'', ZString [SMin 16, SMax 512]),
      (js ''headerName'', ZLiteral (JStr (js ''X-CSRF-Token'')))]"

definition data_text :: "jsstr \<Rightarrow> ApiJsonResponse \<Rightarrow> jsstr" where
  "data_text k r = (case jget k (res_data r) of JStr s \<Rightarrow> s | _ \<Rightarrow> [])"

definition clearCsrfToken :: "'w client \<Rightarrow> 'w client" where
  "clearCsrfToken c = c\<lparr>csrfToken := None\<rparr>"

definition loadCsrfToken :: "'w net \<Rightarrow> ('w, jsstr) io" where
  "loadCsrfToken N c =
     (case csrfToken c of
        Some t \<Rightarrow> (Inr t, c)
      | None \<Rightarrow>
          bind_io (requestJson N (js ''/api/auth/csrf'') csrfSchema no_options)
            (\<lambda>r c'. (Inr (data_text (js ''token'') r), c'\<lparr>csrfToken := Some (data_text (js ''token'') r)\<rparr>)) c)"

definition csrf_rejected :: "thrown \<Rightarrow> bool" where
  "csrf_rejected e = (case e of Api a \<Rightarrow> err_code a = Some (js ''CSRF_REJECTED'') | Exn _ \<Rightarrow> False)"

definition withCsrf :: "'w net \<Rightarrow> (jsstr \<Rightarrow> ('w, 'a) io) \<Rightarrow> ('w, 'a) io" where
  "withCsrf N operation =
     bind_io (loadCsrfToken N) (\<lambda>token.
       catch_io (operation token) (\<lambda>e c.
         if csrf_rejected e
         then bind_io (loadCsrfToken N) operation (clearCsrfToken c)
         else (Inl e, c)))"

section \<open>Calls in flight\<close>

text \<open>A token request: still pending, answered with a token, or failed. A call of \<open>withCsrf\<close> waits
  for request \<open>k\<close>, runs its operation with a token, or has ended; \<open>runs\<close> are the tokens its
  operation has been started with.\<close>

datatype fetch_state = Pending | Got jsstr | Failed_with thrown

datatype 'a phase = Waiting nat bool | Running jsstr bool | Ended "(thrown, 'a) result"

record 'a call =
  phase :: "'a phase"
  runs :: "(jsstr \<times> nat) list"
  rejectedAt :: "nat option"

record 'a csrf_state =
  shared_token :: "(jsstr \<times> nat) option"
  csrfRequest :: "nat option"
  fetches :: "fetch_state list"
  active :: "nat \<Rightarrow> 'a call option"

text \<open>Tokens carry the number of the request that brought them, so that theorems can speak of when
  a token was asked for; the code keeps only the text.\<close>

definition begin_load :: "'a csrf_state \<Rightarrow> nat \<times> 'a csrf_state" where
  "begin_load s =
     (case csrfRequest s of
        Some k \<Rightarrow> (k, s)
      | None \<Rightarrow> (length (fetches s),
                 s\<lparr>csrfRequest := Some (length (fetches s)), fetches := fetches s @ [Pending]\<rparr>))"

definition set_call :: "nat \<Rightarrow> 'a call \<Rightarrow> 'a csrf_state \<Rightarrow> 'a csrf_state" where
  "set_call i x s = s\<lparr>active := (active s)(i \<mapsto> x)\<rparr>"

definition clear_shared :: "'a csrf_state \<Rightarrow> 'a csrf_state" where
  "clear_shared s = s\<lparr>shared_token := None, csrfRequest := None\<rparr>"

definition start_call :: "nat \<Rightarrow> 'a csrf_state \<Rightarrow> 'a csrf_state" where
  "start_call i s =
     (case shared_token s of
        Some (t, k) \<Rightarrow> set_call i \<lparr>phase = Running t False, runs = [(t, k)], rejectedAt = None\<rparr> s
      | None \<Rightarrow> (case begin_load s of (k, s') \<Rightarrow>
          set_call i \<lparr>phase = Waiting k False, runs = [], rejectedAt = None\<rparr> s'))"

definition answer :: "nat \<Rightarrow> fetch_state \<Rightarrow> 'a csrf_state \<Rightarrow> 'a csrf_state" where
  "answer k r s =
     (let s' = s\<lparr>fetches := (fetches s)[k := r]\<rparr>
      in case r of Got t \<Rightarrow> s'\<lparr>shared_token := Some (t, k)\<rparr> | _ \<Rightarrow> s')"

text \<open>The \<open>finally\<close> of \<open>loadCsrfToken\<close> forgets the pending request, whichever it is by then.\<close>

definition resume :: "nat \<Rightarrow> nat \<Rightarrow> bool \<Rightarrow> 'a call \<Rightarrow> 'a csrf_state \<Rightarrow> 'a csrf_state" where
  "resume i k again x s =
     (let s' = s\<lparr>csrfRequest := None\<rparr>
      in case fetches s ! k of
           Got t \<Rightarrow> set_call i (x\<lparr>phase := Running t again, runs := runs x @ [(t, k)]\<rparr>) s'
         | Failed_with e \<Rightarrow> set_call i (x\<lparr>phase := Ended (Inl e)\<rparr>) s'
         | Pending \<Rightarrow> s)"

definition operation_ends :: "nat \<Rightarrow> bool \<Rightarrow> (thrown, 'a) result \<Rightarrow> 'a call \<Rightarrow> 'a csrf_state \<Rightarrow> 'a csrf_state" where
  "operation_ends i again r x s =
     (case r of
        Inl e \<Rightarrow>
          if csrf_rejected e \<and> \<not> again
          then (case begin_load (clear_shared s) of (k, s') \<Rightarrow>
                  set_call i (x\<lparr>phase := Waiting k True, rejectedAt := Some (length (fetches s))\<rparr>) s')
          else set_call i (x\<lparr>phase := Ended r\<rparr>) s
      | Inr _ \<Rightarrow> set_call i (x\<lparr>phase := Ended r\<rparr>) s)"

definition csrf_init :: "'a csrf_state" where
  "csrf_init = \<lparr>shared_token = None, csrfRequest = None, fetches = [], active = (\<lambda>_. None)\<rparr>"

inductive csrf_step :: "'a csrf_state \<Rightarrow> 'a csrf_state \<Rightarrow> bool" where
  start: "active s i = None \<Longrightarrow> csrf_step s (start_call i s)"
| answered: "k < length (fetches s) \<Longrightarrow> fetches s ! k = Pending \<Longrightarrow> r \<noteq> Pending \<Longrightarrow> csrf_step s (answer k r s)"
| resumed: "active s i = Some x \<Longrightarrow> phase x = Waiting k again \<Longrightarrow> fetches s ! k \<noteq> Pending \<Longrightarrow>
    csrf_step s (resume i k again x s)"
| finished: "active s i = Some x \<Longrightarrow> phase x = Running t again \<Longrightarrow> csrf_step s (operation_ends i again r x s)"
| cleared: "csrf_step s (clear_shared s)"

inductive csrf_reach :: "'a csrf_state \<Rightarrow> bool" where
  initial: "csrf_reach csrf_init"
| step: "csrf_reach s \<Longrightarrow> csrf_step s s' \<Longrightarrow> csrf_reach s'"

section \<open>Invariant\<close>

definition brought :: "'a csrf_state \<Rightarrow> jsstr \<times> nat \<Rightarrow> bool" where
  "brought s p \<longleftrightarrow> snd p < length (fetches s) \<and> fetches s ! snd p = Got (fst p)"

fun phase_ok :: "'a csrf_state \<Rightarrow> 'a call \<Rightarrow> 'a phase \<Rightarrow> bool" where
  "phase_ok s x (Waiting k again) \<longleftrightarrow> k < length (fetches s) \<and>
     (if again then length (runs x) = 1 \<and> (\<exists>n. rejectedAt x = Some n \<and> n \<le> k)
      else runs x = [] \<and> rejectedAt x = None)"
| "phase_ok s x (Running t again) \<longleftrightarrow>
     (if again then \<exists>p q n. runs x = [p, q] \<and> fst q = t \<and> rejectedAt x = Some n \<and> n \<le> snd q
      else (\<exists>p. runs x = [p] \<and> fst p = t) \<and> rejectedAt x = None)"
| "phase_ok s x (Ended r) \<longleftrightarrow> length (runs x) \<le> 1
     \<or> (\<exists>p q n. runs x = [p, q] \<and> rejectedAt x = Some n \<and> n \<le> snd q)"

definition csrf_inv :: "'a csrf_state \<Rightarrow> bool" where
  "csrf_inv s \<longleftrightarrow> (\<forall>p. shared_token s = Some p \<longrightarrow> brought s p)
     \<and> (\<forall>k. csrfRequest s = Some k \<longrightarrow> k < length (fetches s))
     \<and> (\<forall>i x. active s i = Some x \<longrightarrow> phase_ok s x (phase x) \<and> list_all (brought s) (runs x))"

lemma csrf_invD:
  assumes "csrf_inv s"
  shows "shared_token s = Some p \<Longrightarrow> brought s p" "csrfRequest s = Some k \<Longrightarrow> k < length (fetches s)"
    "active s i = Some x \<Longrightarrow> phase_ok s x (phase x) \<and> list_all (brought s) (runs x)"
  using assms by (simp_all add: csrf_inv_def)

text \<open>Requests are only added and answered once.\<close>

definition later :: "'a csrf_state \<Rightarrow> 'a csrf_state \<Rightarrow> bool" where
  "later s s' \<longleftrightarrow> length (fetches s) \<le> length (fetches s')
     \<and> (\<forall>k<length (fetches s). fetches s ! k \<noteq> Pending \<longrightarrow> fetches s' ! k = fetches s ! k)"

lemma brought_later: "later s s' \<Longrightarrow> brought s p \<Longrightarrow> brought s' p"
  by (auto simp: later_def brought_def)

lemma phase_ok_later: "later s s' \<Longrightarrow> phase_ok s x f \<Longrightarrow> phase_ok s' x f"
  by (cases f) (auto simp: later_def split: if_splits)

lemma calls_later:
  assumes "csrf_inv s" and "later s s'" and "active s j = Some x"
  shows "phase_ok s' x (phase x) \<and> list_all (brought s') (runs x)"
  using assms phase_ok_later [OF assms(2)] brought_later [OF assms(2)]
  by (auto simp: csrf_inv_def list_all_iff)

lemma begin_load_fields:
  assumes "begin_load s = (k, s')" and "csrf_inv s"
  shows "later s s'" "k < length (fetches s')" "csrfRequest s' = Some k" "active s' = active s"
    "shared_token s' = shared_token s" "csrfRequest s = None \<Longrightarrow> k = length (fetches s)"
  using assms by (auto simp: begin_load_def later_def nth_append csrf_inv_def split: option.splits)

lemma set_call_inv:
  assumes "csrf_inv s" and "later s s'" and "active s' = active s"
    and "\<And>p. shared_token s' = Some p \<Longrightarrow> brought s' p" and "\<And>k. csrfRequest s' = Some k \<Longrightarrow> k < length (fetches s')"
    and "phase_ok s' x (phase x)" and "list_all (brought s') (runs x)"
  shows "csrf_inv (set_call i x s')"
proof -
  have "phase_ok s' y (phase y) \<and> list_all (brought s') (runs y)" if "active s j = Some y" for j y
    using calls_later [OF assms(1,2) that] .
  moreover have "phase_ok (set_call i x s') y f = phase_ok s' y f" for y f
    by (cases f) (auto simp: set_call_def)
  moreover have "brought (set_call i x s') = brought s'"
    by (auto simp: brought_def set_call_def fun_eq_iff)
  ultimately show ?thesis
    using assms(3-7) by (auto simp: csrf_inv_def set_call_def split: if_splits)
qed

lemma later_refl [simp]: "later s s" "later s (s\<lparr>csrfRequest := r\<rparr>)" "later s (clear_shared s)"
  by (simp_all add: later_def clear_shared_def)

lemma start_inv:
  assumes "csrf_inv s" and "active s i = None"
  shows "csrf_inv (start_call i s)"
proof (cases "shared_token s")
  case None
  obtain k s' where b: "begin_load s = (k, s')" by (cases "begin_load s")
  note f = begin_load_fields [OF b assms(1)]
  show ?thesis
    using None b f by (auto simp: start_call_def intro!: set_call_inv [OF assms(1)])
next
  case (Some p)
  then have "brought s p" using assms(1) by (simp add: csrf_inv_def)
  then show ?thesis
    using Some csrf_invD(1,2) [OF assms(1)]
    by (cases p) (auto simp: start_call_def intro!: set_call_inv [OF assms(1)])
qed

lemma answer_inv:
  assumes "csrf_inv s" and "k < length (fetches s)" and "fetches s ! k = Pending" and "r \<noteq> Pending"
  shows "csrf_inv (answer k r s)"
proof -
  have l: "later s (answer k r s)"
    using assms(2-4) by (auto simp: later_def answer_def Let_def nth_list_update split: fetch_state.split)
  have "active (answer k r s) = active s" "csrfRequest (answer k r s) = csrfRequest s"
      "length (fetches (answer k r s)) = length (fetches s)"
    by (auto simp: answer_def Let_def split: fetch_state.split)
  moreover have "brought (answer k r s) p" if "shared_token (answer k r s) = Some p" for p
  proof (cases r)
    case (Got t)
    then show ?thesis using that assms(2) by (auto simp: answer_def Let_def brought_def)
  next
    case (Failed_with e)
    then have "brought s p" using that assms(1) by (simp add: answer_def Let_def csrf_inv_def)
    then show ?thesis using brought_later [OF l] by blast
  qed (use assms(4) in simp)
  ultimately show ?thesis
    using assms(1) calls_later [OF assms(1) l] by (auto simp: csrf_inv_def)
qed

lemma resume_inv:
  assumes "csrf_inv s" and "active s i = Some x" and "phase x = Waiting k again"
  shows "csrf_inv (resume i k again x s)"
proof -
  have x: "phase_ok s x (Waiting k again)" "list_all (brought s) (runs x)"
    using csrf_invD(3) [OF assms(1,2)] unfolding assms(3) by blast+
  show ?thesis
  proof (cases "fetches s ! k")
    case (Got t)
    then have "brought s (t, k)" using x(1) by (simp add: brought_def)
    moreover have "brought (s\<lparr>csrfRequest := None\<rparr>) = brought s" by (auto simp: brought_def fun_eq_iff)
    ultimately show ?thesis
      using Got x csrf_invD(1) [OF assms(1)]
      by (auto simp: resume_def Let_def length_Suc_conv intro!: set_call_inv [OF assms(1)] split: if_splits)
  next
    case (Failed_with e)
    have "brought (s\<lparr>csrfRequest := None\<rparr>) = brought s" by (auto simp: brought_def fun_eq_iff)
    then show ?thesis
      using Failed_with x csrf_invD(1) [OF assms(1)]
      by (auto simp: resume_def Let_def intro!: set_call_inv [OF assms(1)] split: if_splits)
  qed (use assms(1) in \<open>simp add: resume_def Let_def\<close>)
qed

lemma operation_ends_inv:
  assumes "csrf_inv s" and "active s i = Some x" and "phase x = Running t again"
  shows "csrf_inv (operation_ends i again r x s)"
proof -
  have x: "phase_ok s x (Running t again)" "list_all (brought s) (runs x)"
    using csrf_invD(3) [OF assms(1,2)] unfolding assms(3) by blast+
  have ended: "csrf_inv (set_call i (x\<lparr>phase := Ended r\<rparr>) s)"
    using x csrf_invD(1,2) [OF assms(1)] by (auto intro!: set_call_inv [OF assms(1)] split: if_splits)
  have ci: "csrf_inv (clear_shared s)"
    using assms(1) phase_ok_later [OF later_refl(3) [of s]] brought_later [OF later_refl(3) [of s]]
    by (auto simp: csrf_inv_def clear_shared_def list_all_iff)
  obtain k s' where b: "begin_load (clear_shared s) = (k, s')" by (cases "begin_load (clear_shared s)")
  note f = begin_load_fields [OF b ci]
  have k: "k = length (fetches s)" using f(6) by (simp add: clear_shared_def)
  have l: "later s s'" using f(1) by (simp add: later_def clear_shared_def)
  have "csrf_inv (set_call i (x\<lparr>phase := Waiting k True, rejectedAt := Some (length (fetches s))\<rparr>) s')"
    if "\<not> again"
    using x that f k brought_later [OF l]
    by (intro set_call_inv [OF assms(1) l]) (auto simp: clear_shared_def list_all_iff)
  with ended b show ?thesis by (auto simp: operation_ends_def split: sum.split)
qed

theorem csrf_reach_inv: "csrf_reach s \<Longrightarrow> csrf_inv s"
proof (induction rule: csrf_reach.induct)
  case initial
  show ?case by (simp add: csrf_inv_def csrf_init_def)
next
  case (step s s')
  from step.hyps(2) step.IH show ?case
  proof (cases rule: csrf_step.cases)
    case cleared
    then show ?thesis
      using step.IH phase_ok_later [OF later_refl(3) [of s]] brought_later [OF later_refl(3) [of s]]
      by (auto simp: csrf_inv_def clear_shared_def list_all_iff)
  qed (use step.IH in \<open>auto intro: start_inv answer_inv resume_inv operation_ends_inv\<close>)
qed

end
