(* ===== verification/Api_Calls.thy ===== *)
theory Api_Calls
  imports Csrf
begin

text \<open>
  How the API modules use the client: \<open>(await requestJson(...)).data\<close>, alone or under \<open>withCsrf\<close>.
  The locale states what they rely on, that a value a request returns was accepted by the schema it
  was asked with, and draws the consequences once; the client's \<open>requestJson\<close> provides it wherever
  zod behaves as documented.
\<close>

definition fetch_data :: "'w net \<Rightarrow> jsstr \<Rightarrow> schema \<Rightarrow> ApiRequestOptions \<Rightarrow> ('w, json) io" where
  "fetch_data N path z opts = bind_io (requestJson N path z opts) (\<lambda>r. pure (Inr (res_data r)))"

definition post_data :: "'w net \<Rightarrow> ApiHttpMethod \<Rightarrow> jsstr \<Rightarrow> schema \<Rightarrow> json \<Rightarrow> ('w, json) io" where
  "post_data N method path z body =
     withCsrf N (\<lambda>token. fetch_data N path z
       (no_options\<lparr>opt_method := Some method, opt_body := Some body, opt_csrfToken := Some token\<rparr>))"

definition read_data :: "'w net \<Rightarrow> jsstr \<Rightarrow> schema \<Rightarrow> AbortSignal option \<Rightarrow> ('w, json) io" where
  "read_data N path z signal = fetch_data N path z (no_options\<lparr>opt_signal := signal\<rparr>)"

lemma withCsrf_value:
  assumes "fst (withCsrf N f c) = Inr v"
  shows "\<exists>t c'. fst (f t c') = Inr v"
proof -
  obtain t c1 where t: "loadCsrfToken N c = (Inr t, c1)"
    "fst (catch_io (f t) (\<lambda>e c. if csrf_rejected e
         then bind_io (loadCsrfToken N) f (clearCsrfToken c) else (Inl e, c)) c1) = Inr v"
    using assms by (auto simp: withCsrf_def bind_io_Inr)
  obtain r c2 where f: "f t c1 = (r, c2)" by (cases "f t c1")
  show ?thesis
  proof (cases r)
    case (Inr a)
    then have "fst (f t c1) = Inr v" using t(2) f by (simp add: catch_io_def)
    then show ?thesis by blast
  next
    case (Inl e)
    then have "fst (bind_io (loadCsrfToken N) f (clearCsrfToken c2)) = Inr v"
      using t(2) f by (simp add: catch_io_def split: if_splits)
    then show ?thesis by (auto simp: bind_io_Inr)
  qed
qed

section \<open>The interface\<close>

locale json_transport =
  fixes accepts :: safe_parse
    and ask :: "jsstr \<Rightarrow> schema \<Rightarrow> ApiRequestOptions \<Rightarrow> ('w, ApiJsonResponse) io"
  assumes validated: "fst (ask path z opts c) = Inr r \<Longrightarrow> \<exists>raw. accepts z raw = Some (res_data r)"
    and located: "fst (ask path z opts c) = Inr r \<Longrightarrow> res_status r \<in> {201, 202} \<Longrightarrow> res_location r \<noteq> None"
    and token_kept: "csrfToken (snd (ask path z opts c)) = csrfToken c"
begin

lemma data_validated:
  "fst (bind_io (ask path z opts) (\<lambda>r. pure (Inr (res_data r))) c) = Inr v \<Longrightarrow> \<exists>raw. accepts z raw = Some v"
  unfolding bind_io_Inr using validated by (metis fst_conv Inr_inject pure_eq)

lemma csrf_data_validated:
  "fst (withCsrf N (\<lambda>t. bind_io (ask (path t) z (opts t)) (\<lambda>r. pure (Inr (res_data r)))) c) = Inr v \<Longrightarrow>
     \<exists>raw. accepts z raw = Some v"
  by (drule withCsrf_value, elim exE) (rule data_validated)

end

text \<open>A client over a \<open>safeParse\<close> that behaves as documented.\<close>

locale zod_net = zod +
  fixes N :: "'w net"
  assumes parses: "net_parse N = safeParse"

sublocale zod_net \<subseteq> rj: json_transport safeParse "requestJson N"
proof
  fix path z opts c r
  assume "fst (requestJson N path z opts c) = Inr r"
  then obtain resp where "read_success N z resp = Inr r" using requestJson_ok [OF parses] by blast
  from read_success_ok [OF parses this]
  show "\<exists>raw. safeParse z raw = Some (res_data r)"
    and "res_status r \<in> {201, 202} \<Longrightarrow> res_location r \<noteq> None" by auto
qed (rule requestJson_csrf)

interpretation dn: zod_net "zod_parse U D" U D "N\<lparr>net_parse := zod_parse U D\<rparr>" for U D and N :: "'w net"
  by unfold_locales simp

context zod_net
begin

lemma request_validated: "fst (requestJson N path z opts c) = Inr r \<Longrightarrow> \<exists>raw. safeParse z raw = Some (res_data r)"
  by (rule rj.validated)

lemma fetch_data_validated: "fst (fetch_data N path z opts c) = Inr v \<Longrightarrow> \<exists>raw. safeParse z raw = Some v"
  unfolding fetch_data_def by (rule rj.data_validated)

lemma read_data_validated: "fst (read_data N path z g c) = Inr v \<Longrightarrow> \<exists>raw. safeParse z raw = Some v"
  unfolding read_data_def by (rule fetch_data_validated)

lemma post_data_validated: "fst (post_data N m path z b c) = Inr v \<Longrightarrow> \<exists>raw. safeParse z raw = Some v"
  unfolding post_data_def by (drule withCsrf_value, elim exE) (rule fetch_data_validated)

end

end
