(* ===== verification/Js_Url.thy ===== *)
theory Js_Url
  imports Js_Encoding
begin

text \<open>
  The parts of the URL standard the client uses: the path, query and fragment of a reference that
  starts with one slash, parsed by \<open>new URL(reference, origin)\<close> against an http or https origin,
  and \<open>URLSearchParams\<close> as a serialiser.
\<close>

section \<open>Percent encoding\<close>

definition percent_byte :: "int \<Rightarrow> jsstr" where
  "percent_byte b = [37, hex_upper (b div 16), hex_upper (b mod 16)]"

text \<open>The percent-encode sets on ASCII; every other code point is always encoded.\<close>

definition in_fragment_set :: "int \<Rightarrow> bool" where
  "in_fragment_set b \<longleftrightarrow> b \<le> 31 \<or> b > 126 \<or> b = 32 \<or> b = 34 \<or> b = 60 \<or> b = 62 \<or> b = 96"

definition in_query_set :: "int \<Rightarrow> bool" where
  "in_query_set b \<longleftrightarrow> b \<le> 31 \<or> b > 126 \<or> b = 32 \<or> b = 34 \<or> b = 35 \<or> b = 60 \<or> b = 62 \<or> b = 39"

definition in_path_set :: "int \<Rightarrow> bool" where
  "in_path_set b \<longleftrightarrow> b \<le> 31 \<or> b > 126 \<or> b = 32 \<or> b = 34 \<or> b = 35 \<or> b = 60 \<or> b = 62
     \<or> b = 63 \<or> b = 94 \<or> b = 96 \<or> b = 123 \<or> b = 125"

definition percent_encode :: "(int \<Rightarrow> bool) \<Rightarrow> jsstr \<Rightarrow> jsstr" where
  "percent_encode reserved s = concat (map (\<lambda>b. if reserved b then percent_byte b else [of_int b]) (utf8 s))"

section \<open>References that start with one slash\<close>

definition lower_ascii :: "jsstr \<Rightarrow> jsstr" where
  "lower_ascii s = map (\<lambda>c. if is_upper c then c + 32 else c) s"

definition single_dot :: "jsstr \<Rightarrow> bool" where
  "single_dot s \<longleftrightarrow> lower_ascii s \<in> {js ''.'', js ''%2e''}"

definition double_dot :: "jsstr \<Rightarrow> bool" where
  "double_dot s \<longleftrightarrow> lower_ascii s \<in> {js ''..'', js ''.%2e'', js ''%2e.'', js ''%2e%2e''}"

fun path_loop :: "jsstr list \<Rightarrow> jsstr list \<Rightarrow> jsstr list" where
  "path_loop acc [] = acc"
| "path_loop acc [seg] =
     (if double_dot seg then butlast acc @ [[]]
      else if single_dot seg then acc @ [[]]
      else acc @ [percent_encode in_path_set seg])"
| "path_loop acc (seg # segs) =
     (if double_dot seg then path_loop (butlast acc) segs
      else if single_dot seg then path_loop acc segs
      else path_loop (acc @ [percent_encode in_path_set seg]) segs)"

record url =
  pathname :: jsstr
  search :: jsstr
  url_hash :: jsstr

definition before :: "code_unit \<Rightarrow> jsstr \<Rightarrow> jsstr" where
  "before d s = takeWhile (\<lambda>c. c \<noteq> d) s"

definition after :: "code_unit \<Rightarrow> jsstr \<Rightarrow> jsstr option" where
  "after d s = (case dropWhile (\<lambda>c. c \<noteq> d) s of [] \<Rightarrow> None | _ # r \<Rightarrow> Some r)"

definition prefixed :: "code_unit \<Rightarrow> jsstr option \<Rightarrow> jsstr" where
  "prefixed d v = (case v of None \<Rightarrow> [] | Some [] \<Rightarrow> [] | Some s \<Rightarrow> d # s)"

text \<open>The parser first strips surrounding C0 controls and spaces. The references it is used on
  start with one slash and hold no backslash and no control character, so the authority and the
  scheme are the origin's.\<close>

definition strip_c0_space :: "jsstr \<Rightarrow> jsstr" where
  "strip_c0_space s =
     rev (dropWhile (in_range 0 32) (rev (dropWhile (in_range 0 32) s)))"

definition parse_reference :: "jsstr \<Rightarrow> url" where
  "parse_reference value =
     (let s = strip_c0_space value;
          main = before 35 s;
          path = before 63 main
      in \<lparr>pathname = 47 # join [47] (path_loop [] (split_on 47 (tl path))),
          search = prefixed 63 (map_option (percent_encode in_query_set) (after 63 main)),
          url_hash = prefixed 35 (map_option (percent_encode in_fragment_set) (after 35 s))\<rparr>)"

section \<open>Query strings\<close>

definition form_plain :: "int \<Rightarrow> bool" where
  "form_plain b \<longleftrightarrow> b = 42 \<or> b = 45 \<or> b = 46 \<or> b = 95 \<or> (48 \<le> b \<and> b \<le> 57) \<or> (65 \<le> b \<and> b \<le> 90)
     \<or> (97 \<le> b \<and> b \<le> 122)"

definition form_byte :: "int \<Rightarrow> jsstr" where
  "form_byte b = (if b = 32 then [43] else if form_plain b then [of_int b] else percent_byte b)"

definition form_encode :: "jsstr \<Rightarrow> jsstr" where
  "form_encode s = concat (map form_byte (utf8 s))"

definition params_text :: "(jsstr \<times> jsstr) list \<Rightarrow> jsstr" where
  "params_text ps = join [38] (map (\<lambda>(k, v). form_encode k @ 61 # form_encode v) ps)"

text \<open>Reading an encoded query back, as a form decoder does.\<close>

fun form_read :: "jsstr \<Rightarrow> (int \<times> jsstr) option" where
  "form_read (c # r) =
     (if c = 43 then Some (32, r)
      else if c = 37 then (case r of h # l # r' \<Rightarrow> Some (16 * hex_upper_val h + hex_upper_val l, r') | _ \<Rightarrow> None)
      else Some (uint c, r))"
| "form_read [] = None"

lemma of_int_cu_eq:
  "0 \<le> b \<Longrightarrow> b < 65536 \<Longrightarrow> 0 \<le> k \<Longrightarrow> k < 65536 \<Longrightarrow> (of_int b :: code_unit) = of_int k \<longleftrightarrow> b = k"
  by (metis uint_of_int_cu)

lemma of_int_cu_numeral:
  "0 \<le> b \<Longrightarrow> b < 65536 \<Longrightarrow> numeral n < (65536 :: int) \<Longrightarrow> (of_int b :: code_unit) = numeral n \<longleftrightarrow> b = numeral n"
  using of_int_cu_eq [of b "numeral n"] by simp

lemma form_read_byte: "0 \<le> b \<and> b < 256 \<Longrightarrow> form_read (form_byte b @ r) = Some (b, r)"
proof -
  assume b: "0 \<le> b \<and> b < 256"
  show ?thesis
  proof (cases "form_plain b")
    case True
    then have "b \<noteq> 43" "b \<noteq> 37" "b \<noteq> 32" by (auto simp: form_plain_def)
    then show ?thesis using True b by (simp add: form_byte_def of_int_cu_numeral uint_of_int_cu)
  next
    case False
    have "b div 16 < 16" and "0 \<le> b div 16" using b by linarith+
    with False show ?thesis by (simp add: form_byte_def percent_byte_def)
  qed
qed

lemma form_byte_nonempty: "form_byte b \<noteq> []"
  by (simp add: form_byte_def percent_byte_def)

lemma form_encode_inj:
  assumes "isWellFormed s" and "isWellFormed t" and "form_encode s = form_encode t"
  shows "s = t"
proof -
  have "utf8 s = utf8 t"
    using form_read_byte form_byte_nonempty utf8_bound utf8_bound assms(3) [unfolded form_encode_def]
    by (rule concat_map_decodable_inj)
  with assms(1,2) show ?thesis by (rule utf8_inj)
qed

lemma hex_upper_range: "0 \<le> d \<Longrightarrow> d < 16 \<Longrightarrow> in_range 48 57 (hex_upper d) \<or> in_range 65 70 (hex_upper d)"
  by (auto simp: in_range_def uint_hex_upper)

lemma form_byte_chars:
  assumes "0 \<le> b" "b < 256"
  shows "38 \<notin> set (form_byte b) \<and> 61 \<notin> set (form_byte b)"
proof -
  have d: "0 \<le> b div 16" "b div 16 < 16" "0 \<le> b mod 16" "b mod 16 < 16" using assms by auto
  have hex: "hex_upper k \<noteq> 38 \<and> hex_upper k \<noteq> 61" if "0 \<le> k" "k < 16" for k
    using hex_upper_range [OF that] by (auto simp: in_range_def)
  have "form_plain b \<Longrightarrow> (of_int b :: code_unit) \<noteq> 38 \<and> (of_int b :: code_unit) \<noteq> 61"
    using assms by (auto simp: form_plain_def of_int_cu_numeral)
  then show ?thesis using hex [OF d(1,2)] hex [OF d(3,4)] by (auto simp: form_byte_def percent_byte_def)
qed

lemma form_encode_chars: "38 \<notin> set (form_encode s)" "61 \<notin> set (form_encode s)"
  using utf8_bound [of s] form_byte_chars by (auto simp: form_encode_def list_all_iff)

lemma split_on_pair: "61 \<notin> set a \<Longrightarrow> 61 \<notin> set b \<Longrightarrow> split_on 61 (a @ 61 # b) = [a, b]"
  by (simp add: split_on_append split_on_no_sep)

lemma params_pairs:
  assumes "ps \<noteq> []"
  shows "map (split_on 61) (split_on 38 (params_text ps)) = map (\<lambda>(k, v). [form_encode k, form_encode v]) ps"
proof -
  have "split_on 38 (params_text ps) = map (\<lambda>(k, v). form_encode k @ 61 # form_encode v) ps"
    unfolding params_text_def using assms form_encode_chars by (intro split_on_join) auto
  then show ?thesis by (auto simp: split_on_pair form_encode_chars)
qed

text \<open>A query string determines its parameters: no value can add or overwrite another.\<close>

lemma params_text_inj:
  assumes "list_all (\<lambda>(k, v). isWellFormed k \<and> isWellFormed v) ps"
    and "list_all (\<lambda>(k, v). isWellFormed k \<and> isWellFormed v) qs"
    and "ps \<noteq> []" and "qs \<noteq> []" and "params_text ps = params_text qs"
  shows "ps = qs"
proof -
  have "map (\<lambda>(k, v). [form_encode k, form_encode v]) ps = map (\<lambda>(k, v). [form_encode k, form_encode v]) qs"
    using params_pairs [OF assms(3)] params_pairs [OF assms(4)] assms(5) by simp
  with assms(1,2) show ?thesis
  proof (induction ps arbitrary: qs)
    case (Cons p ps)
    then obtain q qs' where "qs = q # qs'" by (cases qs) auto
    with Cons show ?case using form_encode_inj by (cases p; cases q) auto
  qed simp
qed

end
