(* ===== verification/Languages.thy ===== *)
theory Languages
  imports Zod_Schema
begin

text \<open>
  Rules about languages and verdicts: \<open>features/languages/language.ts\<close>,
  \<open>features/custom-runs/sample-check.ts\<close> and \<open>features/admin-languages/lib/prefix.ts\<close>.
\<close>

section \<open>Language ids\<close>

definition language_regex :: "jsstr \<Rightarrow> bool" where
  "language_regex s \<longleftrightarrow> s \<noteq> [] \<and> is_lower (hd s) \<and> int (length (tl s)) \<le> 31
     \<and> list_all (\<lambda>c. is_lower c \<or> is_digit c \<or> c = 45) (tl s)"

definition languageIdSchema :: schema where
  "languageIdSchema = ZString [SRegex language_regex]"

text \<open>A read of a property of a plain object literal: an own property, a property every object
  inherits from \<open>Object.prototype\<close> (a function or the prototype, in any case not a syntax name), or
  \<open>undefined\<close>.\<close>

datatype EditorSyntax = Cpp | Plain | InheritedMember

definition prototype_members :: "jsstr list" where
  "prototype_members = map js [''constructor'', ''toString'', ''toLocaleString'', ''valueOf'',
     ''hasOwnProperty'', ''isPrototypeOf'', ''propertyIsEnumerable'', ''__proto__'',
     ''__defineGetter__'', ''__defineSetter__'', ''__lookupGetter__'', ''__lookupSetter__'']"

definition syntaxByLanguage :: "jsstr \<Rightarrow> EditorSyntax option" where
  "syntaxByLanguage k =
     (if k = js ''c'' \<or> k = js ''cpp'' then Some Cpp
      else if k \<in> set prototype_members then Some InheritedMember else None)"

definition editorSyntax :: "jsstr option \<Rightarrow> EditorSyntax" where
  "editorSyntax languageId =
     (case languageId of
        None \<Rightarrow> Plain
      | Some k \<Rightarrow> if k = [] then Plain
                 else (case syntaxByLanguage k of Some v \<Rightarrow> v | None \<Rightarrow> Plain))"

record LanguageOption =
  lang_id :: jsstr
  displayName :: jsstr
  starter :: jsstr

definition problemLanguage :: "LanguageOption list \<Rightarrow> LanguageOption option" where
  "problemLanguage allowed = (case allowed of l # _ \<Rightarrow> Some l | [] \<Rightarrow> None)"

definition languageName :: "LanguageOption list \<Rightarrow> jsstr \<Rightarrow> jsstr" where
  "languageName allowed languageId =
     (case find (\<lambda>l. lang_id l = languageId) allowed of Some l \<Rightarrow> displayName l | None \<Rightarrow> languageId)"

section \<open>Verdicts of a trial run\<close>

datatype verdict = AC | WA | PE | CE | RE | TLE | MLE | OLE | SE

datatype run_status =
    COMPLETED | COMPILE_ERROR | RUNTIME_ERROR | TIME_LIMIT_EXCEEDED | MEMORY_LIMIT_EXCEEDED
  | OUTPUT_LIMIT_EXCEEDED

datatype CaseVerdict = Verdict verdict | RAN | UNCHECKED

record run_output =
  out_text :: jsstr
  capturedBytes :: int
  truncated :: bool

record CustomRunData =
  run_problemId :: jsstr
  run_status :: run_status
  stdout :: "run_output option"
  stderr :: "run_output option"
  compileDiagnostic :: "jsstr option"
  run_cpuNs :: "int option"
  run_memoryBytes :: "int option"
  limit_cpuNs :: int
  limit_memoryBytes :: int

text \<open>\<open>text.split(/\s+/).filter(Boolean)\<close> and the comparison word by word.\<close>

definition tokens :: "jsstr \<Rightarrow> jsstr list" where
  "tokens s = filter (\<lambda>w. w \<noteq> []) (split_ws s)"

definition sameTokens :: "jsstr \<Rightarrow> jsstr \<Rightarrow> bool" where
  "sameTokens actual expected =
     (let got = tokens actual; want = tokens expected
      in length got = length want \<and> list_all (\<lambda>(a, b). a = b) (zip got want))"

definition caseVerdict :: "CustomRunData \<Rightarrow> jsstr option \<Rightarrow> CaseVerdict" where
  "caseVerdict v expected =
     (case run_status v of
        COMPILE_ERROR \<Rightarrow> Verdict CE
      | RUNTIME_ERROR \<Rightarrow> Verdict RE
      | TIME_LIMIT_EXCEEDED \<Rightarrow> Verdict TLE
      | MEMORY_LIMIT_EXCEEDED \<Rightarrow> Verdict MLE
      | OUTPUT_LIMIT_EXCEEDED \<Rightarrow> Verdict OLE
      | COMPLETED \<Rightarrow>
          (case expected of
             None \<Rightarrow> RAN
           | Some want \<Rightarrow>
               if (case stdout v of Some r \<Rightarrow> truncated r | None \<Rightarrow> False) then UNCHECKED
               else if sameTokens (case stdout v of Some r \<Rightarrow> out_text r | None \<Rightarrow> []) want
               then Verdict AC else Verdict WA))"

section \<open>Prefixes\<close>

definition prefixLineCount :: "jsstr \<Rightarrow> int" where
  "prefixLineCount prefix = int (length (split_on 10 prefix)) - 1"

section \<open>Facts\<close>

lemma prefixLineCount_breaks: "prefixLineCount s = int (length (filter (\<lambda>c. c = 10) s))"
proof -
  have "length (split_on d s) = Suc (length (filter (\<lambda>c. c = d) s))" for d
    by (induction s) (auto split: list.splits)
  then show ?thesis by (simp add: prefixLineCount_def)
qed

lemma sameTokens_iff: "sameTokens a b \<longleftrightarrow> tokens a = tokens b"
  by (auto simp: sameTokens_def Let_def list_eq_iff_nth_eq list_all_length)

text \<open>The words of a text, read off one code unit at a time.\<close>

fun words_of :: "jsstr \<Rightarrow> jsstr \<Rightarrow> jsstr list" where
  "words_of w [] = (if w = [] then [] else [w])"
| "words_of w (c # s) =
     (if is_ws c then (if w = [] then words_of [] s else w # words_of [] s) else words_of (w @ [c]) s)"

lemma words_of_skip: "words_of [] (dropWhile is_ws s) = words_of [] s"
  by (induction s) auto

lemma words_of_run:
  "words_of w s = words_of (w @ takeWhile (\<lambda>c. \<not> is_ws c) s) (dropWhile (\<lambda>c. \<not> is_ws c) s)"
  by (induction s arbitrary: w) auto

lemma tokens_words: "tokens s = words_of [] s"
proof (induction s rule: split_ws.induct)
  case (1 s)
  let ?a = "takeWhile (\<lambda>c. \<not> is_ws c) s" and ?r = "dropWhile (\<lambda>c. \<not> is_ws c) s"
  show ?case
  proof (cases "?r = []")
    case True
    have "words_of [] s = words_of ?a ?r" using words_of_run [of "[]" s] by simp
    also have "\<dots> = (if ?a = [] then [] else [?a])" unfolding True by simp
    finally show ?thesis using True by (simp add: tokens_def split_ws.simps [of s] Let_def)
  next
    case False
    have w: "is_ws (hd ?r)" using hd_dropWhile [OF False] by simp
    obtain c r where cr: "?r = c # r" using False by (cases ?r) auto
    have "words_of [] s = words_of ?a ?r" using words_of_run [of "[]" s] by simp
    also have "\<dots> = (if ?a = [] then [] else [?a]) @ words_of [] (dropWhile is_ws ?r)"
      using cr w words_of_skip [of r] by simp
    also have "words_of [] (dropWhile is_ws ?r) = tokens (dropWhile is_ws ?r)"
      using 1 False by (simp add: Let_def)
    finally show ?thesis using False by (auto simp: tokens_def split_ws.simps [of s] Let_def)
  qed
qed

lemma words_of_append: "is_ws c \<Longrightarrow> words_of w (a @ c # b) = words_of w a @ words_of [] b"
  by (induction a arbitrary: w) auto

text \<open>
  A sample passes exactly when its program ran to completion with its whole output and printed
  the expected words: the comparison sees the words between white space and nothing else, so
  neither the amount nor the kind of white space between, before or after words matters.
\<close>

lemma sample_passes_iff_same_words:
  "(caseVerdict v (Some want) = Verdict AC \<longleftrightarrow>
      run_status v = COMPLETED \<and> (\<forall>r. stdout v = Some r \<longrightarrow> \<not> truncated r)
      \<and> words_of [] (case stdout v of Some r \<Rightarrow> out_text r | None \<Rightarrow> []) = words_of [] want)
   \<and> (\<forall>a b c d. is_ws c \<and> is_ws d \<longrightarrow> sameTokens (a @ c # b) (a @ c # d # b) \<and> sameTokens (c # a) a \<and> sameTokens (a @ [c]) a)"
  by (auto simp: caseVerdict_def sameTokens_iff tokens_words words_of_append split: run_status.splits option.splits)

text \<open>The class \<open>\s\<close> has more characters than the ASCII white space at which the judge splits: a no-break
  space between two words is a separator here and a part of the word there.\<close>

lemma no_break_space_splits: "sameTokens [49, 160, 50] (js ''1 2'')"
  by code_simp

text \<open>
  The syntax of a language id is looked up in a plain object, so an id that names a member
  every object inherits gets that member instead of a syntax: \<open>constructor\<close> is a valid language id.
\<close>

theorem editor_syntax_inherits:
  "language_regex (js ''constructor'') \<and> editorSyntax (Some (js ''constructor'')) = InheritedMember
   \<and> (\<forall>k. k \<notin> set prototype_members \<longrightarrow> editorSyntax (Some k) = (if k = js ''c'' \<or> k = js ''cpp'' then Cpp else Plain))"
proof (intro conjI)
  show "language_regex (js ''constructor'')" by code_simp
  show "editorSyntax (Some (js ''constructor'')) = InheritedMember" by code_simp
qed (auto simp: editorSyntax_def syntaxByLanguage_def)

theorem editor_syntax_inherits_witness: "editorSyntax (Some (js ''rust'')) = Plain"
proof -
  have "js ''rust'' \<notin> set prototype_members" by code_simp
  then have "editorSyntax (Some (js ''rust'')) = (if js ''rust'' = js ''c'' \<or> js ''rust'' = js ''cpp'' then Cpp else Plain)"
    using editor_syntax_inherits by blast
  then show ?thesis by simp
qed

end
