(* ===== verification/Problems_Api.thy ===== *)
theory Problems_Api
  imports Api_Calls Js_Url Languages
begin

text \<open>
  \<open>features/problems/api/problems-api.ts\<close>: the schemas of problems, test data, calibrations and
  publish checks, the query string of the list and the calls of the problem list and the problem
  administration.
\<close>

section \<open>Schemas\<close>

definition date :: schema where
  "date = ZString [SMin 1]"

definition uuid :: schema where
  "uuid = ZString [SUuid]"

definition zstr :: schema where
  "zstr = ZString []"

definition integer :: schema where
  "integer = ZNumber [NInt]"

definition enum :: "string list \<Rightarrow> schema" where
  "enum ks = ZEnum (map js ks)"

definition sampleSchema :: schema where
  "sampleSchema = ZObject Strip
     [(js ''ordinal'', ZNumber [NInt, NMin 1]), (js ''input'', zstr), (js ''output'', zstr),
      (js ''explanationMarkdown'', ZNullable zstr)]"

definition languageSummarySchema :: schema where
  "languageSummarySchema = ZObject Strip [(js ''id'', zstr), (js ''displayName'', zstr)]"

definition difficulty :: schema where
  "difficulty = enum [''UNRATED'', ''EASY'', ''MEDIUM'', ''HARD'']"

definition problemSummarySchema :: schema where
  "problemSummarySchema = ZObject Strip
     [(js ''problemId'', uuid), (js ''slug'', zstr), (js ''title'', zstr), (js ''difficulty'', difficulty),
      (js ''tags'', ZArray zstr None), (js ''codeMode'', enum [''ACM'', ''CORE'']),
      (js ''allowedLanguages'', ZArray languageSummarySchema None)]"

definition problemDetailSchema :: schema where
  "problemDetailSchema = ZObject Strip
     [(js ''problemId'', uuid), (js ''slug'', zstr), (js ''codeMode'', enum [''ACM'', ''CORE'']),
      (js ''title'', zstr), (js ''difficulty'', difficulty), (js ''tags'', ZArray zstr None),
      (js ''statementMarkdown'', zstr), (js ''inputDescriptionMarkdown'', zstr),
      (js ''outputDescriptionMarkdown'', zstr), (js ''constraintsMarkdown'', ZNullable zstr),
      (js ''hintMarkdown'', ZNullable zstr), (js ''samples'', ZArray sampleSchema None),
      (js ''allowedLanguages'', ZArray (ZObject Strip
         [(js ''id'', zstr), (js ''displayName'', zstr), (js ''starterCode'', zstr)]) None)]"

definition sha256_regex :: "jsstr \<Rightarrow> bool" where
  "sha256_regex s \<longleftrightarrow> int (length s) = 64 \<and> list_all (\<lambda>c. is_digit c \<or> in_range 97 102 c) s"

definition testDataSchema :: schema where
  "testDataSchema = ZObject Loose
     [(js ''digest'', ZString [SRegex sha256_regex]), (js ''testcaseCount'', integer),
      (js ''totalBytes'', integer), (js ''updatedAt'', date),
      (js ''manifest'', ZObject Loose
         [(js ''testcaseCount'', integer), (js ''totalBytes'', integer),
          (js ''files'', ZArray (ZObject Loose
             [(js ''name'', zstr), (js ''sizeBytes'', integer), (js ''sha256'', zstr)]) None)])]"

definition adminSummarySchema :: schema where
  "adminSummarySchema = ZObject Loose
     [(js ''id'', uuid), (js ''slug'', zstr), (js ''title'', zstr),
      (js ''visibility'', enum [''PRIVATE'', ''PUBLIC'']), (js ''status'', enum [''ACTIVE'', ''ARCHIVED'']),
      (js ''difficulty'', difficulty), (js ''hasTestData'', ZBoolean), (js ''updatedAt'', date),
      (js ''publishedAt'', ZNullable date), (js ''rowVersion'', integer)]"

text \<open>\<open>nullish().transform((value) => value ?? null)\<close>.\<close>

definition or_null :: "json \<Rightarrow> json" where
  "or_null v = (case v of JUndef \<Rightarrow> JNull | _ \<Rightarrow> v)"

definition nullish_text :: schema where
  "nullish_text = ZTransform (ZOptional (ZNullable zstr)) or_null"

definition adminProblemSchema :: schema where
  "adminProblemSchema = ZObject Loose
     [(js ''id'', uuid), (js ''slug'', zstr), (js ''visibility'', enum [''PRIVATE'', ''PUBLIC'']),
      (js ''status'', enum [''ACTIVE'', ''ARCHIVED'']), (js ''codeMode'', enum [''ACM'', ''CORE'']),
      (js ''title'', zstr), (js ''statementMarkdown'', zstr), (js ''inputDescriptionMarkdown'', zstr),
      (js ''outputDescriptionMarkdown'', zstr), (js ''constraintsMarkdown'', ZNullable zstr),
      (js ''hintMarkdown'', ZNullable zstr), (js ''difficulty'', difficulty),
      (js ''tags'', ZArray zstr None), (js ''samples'', ZArray sampleSchema None),
      (js ''allowedLanguages'', ZTuple [ZObject Loose
         [(js ''id'', languageIdSchema), (js ''displayName'', ZString [SMin 1]), (js ''starterCode'', zstr),
          (js ''judgeTemplate'', nullish_text), (js ''solutionPrefix'', nullish_text)]]),
      (js ''testData'', ZNullable testDataSchema), (js ''createdAt'', date), (js ''updatedAt'', date),
      (js ''publishedAt'', ZNullable date), (js ''rowVersion'', integer)]"

definition calibrationSchema :: schema where
  "calibrationSchema = ZObject Loose
     [(js ''id'', uuid), (js ''problemId'', uuid), (js ''languageId'', zstr),
      (js ''status'', enum [''DRAFT'', ''RUNNING'', ''VALID'', ''FAILED'', ''SUPERSEDED'']),
      (js ''cpuNs'', ZNullable integer), (js ''memoryBytes'', ZNullable integer),
      (js ''clockNs'', ZNullable integer), (js ''testDataDigest'', zstr),
      (js ''benchmarkSummary'', ZNullable (ZObject Loose
         [(js ''sourceSha256'', zstr),
          (js ''verdict'', enum [''AC'', ''WA'', ''TLE'', ''MLE'', ''RE'', ''CE'', ''SE'']),
          (js ''maxCpuNs'', ZNullable integer), (js ''maxMemoryBytes'', ZNullable integer),
          (js ''maxClockNs'', ZNullable integer)])),
      (js ''errorMessage'', ZNullable zstr), (js ''createdAt'', date), (js ''updatedAt'', date),
      (js ''rowVersion'', integer)]"

definition publishCheckSchema :: schema where
  "publishCheckSchema = ZObject Loose
     [(js ''ready'', ZBoolean),
      (js ''checks'', ZArray (ZObject Loose
         [(js ''code'', zstr), (js ''passed'', ZBoolean), (js ''message'', zstr)]) None)]"

definition itemsOf :: "schema \<Rightarrow> schema" where
  "itemsOf z = ZObject Loose [(js ''items'', ZArray z None)]"

section \<open>Query strings\<close>

datatype query_value = QUndefined | QText jsstr | QNumber int | QList "jsstr list"

text \<open>\<open>query\<close>: the entries of the search object in their order; lists repeat the key, empty texts
  and undefined values are left out. The keys of an object are distinct, so \<open>set\<close> appends.\<close>

definition query_pairs :: "(jsstr \<times> query_value) list \<Rightarrow> (jsstr \<times> jsstr) list" where
  "query_pairs entries = concat (map (\<lambda>(k, v).
     case v of
       QList items \<Rightarrow> map (Pair k) items
     | QText s \<Rightarrow> if s = [] then [] else [(k, s)]
     | QNumber n \<Rightarrow> [(k, int_text n)]
     | QUndefined \<Rightarrow> []) entries)"

definition query :: "(jsstr \<times> query_value) list \<Rightarrow> jsstr" where
  "query entries = params_text (query_pairs entries)"

section \<open>Calls\<close>

record paged =
  paged_items :: json
  paged_pagination :: json

definition plain_exception :: thrown where
  "plain_exception = Exn (Some (js ''Error''))"

definition pagination_kind :: "ApiJsonResponse \<Rightarrow> json" where
  "pagination_kind r = jget (js ''kind'') (jget (js ''pagination'') (res_meta r))"

definition require_page :: "string \<Rightarrow> ApiJsonResponse \<Rightarrow> (thrown, paged) result" where
  "require_page kind r =
     (if pagination_kind r \<noteq> JStr (js kind) then Inl plain_exception
      else Inr \<lparr>paged_items = jget (js ''items'') (res_data r),
                paged_pagination = jget (js ''pagination'') (res_meta r)\<rparr>)"

definition listProblems :: "'w net \<Rightarrow> (jsstr \<times> query_value) list \<Rightarrow> AbortSignal option \<Rightarrow> ('w, paged) io" where
  "listProblems N searchEntries signal =
     bind_io (requestJson N (js ''/api/problems?'' @ query searchEntries) (itemsOf problemSummarySchema)
       (no_options\<lparr>opt_signal := signal\<rparr>))
     (\<lambda>r. pure (require_page ''cursor'' r))"

definition getProblem :: "'w net \<Rightarrow> jsstr \<Rightarrow> AbortSignal option \<Rightarrow> ('w, json) io" where
  "getProblem N slug = read_data N (js ''/api/problems/'' @ slug) problemDetailSchema"

datatype ProblemStatusFilter = AllStatuses | OnlyActive | OnlyArchived

definition listAdminProblems ::
    "'w net \<Rightarrow> jsstr \<Rightarrow> ProblemStatusFilter \<Rightarrow> int \<Rightarrow> AbortSignal option \<Rightarrow> ('w, paged) io" where
  "listAdminProblems N q status page signal =
     bind_io (requestJson N (js ''/api/admin/problems?'' @ query
         [(js ''q'', QText q),
          (js ''status'', case status of AllStatuses \<Rightarrow> QUndefined | OnlyActive \<Rightarrow> QText (js ''ACTIVE'') | OnlyArchived \<Rightarrow> QText (js ''ARCHIVED'')),
          (js ''page'', QNumber page), (js ''size'', QNumber 20)])
       (itemsOf adminSummarySchema) (no_options\<lparr>opt_signal := signal\<rparr>))
     (\<lambda>r. pure (require_page ''page'' r))"

definition admin_path :: "jsstr \<Rightarrow> string \<Rightarrow> jsstr" where
  "admin_path problemId path = js ''/api/admin/problems/'' @ problemId @ js path"

definition createProblem :: "'w net \<Rightarrow> json \<Rightarrow> ('w, json) io" where
  "createProblem N = post_data N POST (js ''/api/admin/problems'') adminProblemSchema"

definition getAdminProblem :: "'w net \<Rightarrow> jsstr \<Rightarrow> AbortSignal option \<Rightarrow> ('w, json) io" where
  "getAdminProblem N problemId = read_data N (admin_path problemId '''') adminProblemSchema"

definition updateProblem :: "'w net \<Rightarrow> jsstr \<Rightarrow> json \<Rightarrow> ('w, json) io" where
  "updateProblem N problemId = post_data N PATCH (admin_path problemId '''') adminProblemSchema"

definition problemRequest :: "'w net \<Rightarrow> jsstr \<Rightarrow> string \<Rightarrow> schema \<Rightarrow> ApiHttpMethod \<Rightarrow> json \<Rightarrow> ('w, json) io" where
  "problemRequest N problemId path z method payload = post_data N method (admin_path problemId path) z payload"

definition getTestData :: "'w net \<Rightarrow> jsstr \<Rightarrow> AbortSignal option \<Rightarrow> ('w, json) io" where
  "getTestData N problemId = read_data N (admin_path problemId ''/test-data'') testDataSchema"

definition replaceTestData :: "'w net \<Rightarrow> jsstr \<Rightarrow> jsstr \<Rightarrow> AbortSignal option \<Rightarrow> ('w, json) io" where
  "replaceTestData N problemId file signal =
     withCsrf N (\<lambda>token.
       bind_io (requestMultipart N (admin_path problemId ''/test-data'') [(js ''file'', file)] testDataSchema
         (no_options\<lparr>opt_method := Some PUT, opt_csrfToken := Some token, opt_signal := signal\<rparr>))
       (\<lambda>r. pure (Inr (res_data r))))"

definition calibrate :: "'w net \<Rightarrow> jsstr \<Rightarrow> json \<Rightarrow> ('w, json) io" where
  "calibrate N problemId = problemRequest N problemId ''/calibration'' calibrationSchema POST"

definition getPublishCheck :: "'w net \<Rightarrow> jsstr \<Rightarrow> AbortSignal option \<Rightarrow> ('w, json) io" where
  "getPublishCheck N problemId = read_data N (admin_path problemId ''/publish-check'') publishCheckSchema"

definition row_version :: "int \<Rightarrow> json" where
  "row_version n = JObj [(js ''rowVersion'', JNum (Fin (of_int n)))]"

definition publish :: "'w net \<Rightarrow> jsstr \<Rightarrow> int \<Rightarrow> ('w, json) io" where
  "publish N problemId n = problemRequest N problemId ''/publish'' adminProblemSchema POST (row_version n)"

definition unpublish :: "'w net \<Rightarrow> jsstr \<Rightarrow> int \<Rightarrow> ('w, json) io" where
  "unpublish N problemId n = problemRequest N problemId ''/unpublish'' adminProblemSchema POST (row_version n)"

definition archiveProblem :: "'w net \<Rightarrow> jsstr \<Rightarrow> int \<Rightarrow> ('w, json) io" where
  "archiveProblem N problemId n = problemRequest N problemId ''/archive'' adminProblemSchema POST (row_version n)"

definition deleteProblem :: "'w net \<Rightarrow> jsstr \<Rightarrow> int \<Rightarrow> ('w, jsstr) io" where
  "deleteProblem N problemId n =
     withCsrf N (\<lambda>token. requestVoid N (js ''/api/admin/problems/'' @ problemId @ js ''?rowVersion='' @ int_text n)
       (no_options\<lparr>opt_method := Some DELETE, opt_csrfToken := Some token\<rparr>))"

section \<open>Facts\<close>

context zod_net
begin

lemma paged_validated:
  assumes "fst (bind_io (requestJson N path (itemsOf z) opts) (\<lambda>r. pure (require_page k r)) c) = Inr p"
  shows "\<exists>items. paged_items p = JArr items \<and> (\<forall>x\<in>set items. \<exists>raw. safeParse z raw = Some x)
    \<and> jget (js ''kind'') (paged_pagination p) = JStr (js k)"
proof -
  obtain r c' where r: "requestJson N path (itemsOf z) opts c = (Inr r, c')" and p: "require_page k r = Inr p"
    using assms by (auto simp: bind_io_Inr)
  obtain raw where raw: "safeParse (itemsOf z) raw = Some (res_data r)"
    using rj.validated [of path "itemsOf z" opts c r] r by auto
  have "safeParse (ZArray z None) (jget (js ''items'') raw) = Some (jget (js ''items'') (res_data r))"
    using object_SomeD [OF raw [unfolded itemsOf_def], of "js ''items''"] by simp
  then obtain items where items: "jget (js ''items'') (res_data r) = JArr items"
      "\<And>x. x \<in> set items \<Longrightarrow> \<exists>raw. safeParse z raw = Some x"
    by (rule array_elems) blast
  then show ?thesis
    using p by (auto simp: require_page_def pagination_kind_def split: if_splits)
qed

end

end
