(* ===== verification/Submissions_Api.thy ===== *)
theory Submissions_Api
  imports Problems_Api
begin

text \<open>
  Submissions and trial runs: \<open>features/submissions/submissions-api.ts\<close>, \<open>submission-recovery.ts\<close>,
  \<open>submission-history-api.ts\<close> and \<open>features/custom-runs/custom-run-api.ts\<close>. The history reads are
  bound to one account: they check the session before and after, and refuse what does not belong to
  the problem they asked for.
\<close>

section \<open>Submissions\<close>

definition verdictNames :: "string list" where
  "verdictNames = [''AC'', ''WA'', ''PE'', ''CE'', ''RE'', ''TLE'', ''MLE'', ''OLE'', ''SE'']"

definition natural :: schema where
  "natural = ZNumber [NInt, NMin 0]"

definition done_has_verdict :: "json \<Rightarrow> bool" where
  "done_has_verdict v \<longleftrightarrow> jget (js ''status'') v \<noteq> JStr (js ''DONE'') \<or> jget (js ''verdict'') v \<noteq> JUndef"

definition drop_undefined :: "json \<Rightarrow> json" where
  "drop_undefined v = (case v of JObj ms \<Rightarrow> JObj (filter (\<lambda>(k, x). x \<noteq> JUndef) ms) | _ \<Rightarrow> v)"

definition submissionFields :: "(jsstr \<times> schema) list" where
  "submissionFields =
     [(js ''id'', uuid), (js ''problemId'', uuid), (js ''problemTitle'', zstr),
      (js ''languageId'', languageIdSchema), (js ''status'', enum [''PENDING'', ''JUDGING'', ''DONE'']),
      (js ''createdAt'', ZString [SDatetime False]), (js ''verdict'', ZOptional (enum verdictNames)),
      (js ''cpuNs'', ZOptional natural), (js ''memoryBytes'', ZOptional natural),
      (js ''passedTestcaseCount'', ZOptional natural), (js ''executedTestcaseCount'', ZOptional natural),
      (js ''testcaseCount'', ZOptional (ZNumber [NInt, NPositive])),
      (js ''message'', ZOptional (ZString [SMax 8192])), (js ''finishedAt'', ZOptional (ZString [SDatetime False]))]"

definition submissionSchema :: schema where
  "submissionSchema = ZTransform (ZRefine (ZObject Strip submissionFields) done_has_verdict) drop_undefined"

text \<open>The signal of \<open>AbortSignal.timeout\<close> fires inside \<open>fetch\<close>, which then rejects; \<open>late\<close> is the
  signal as the call sees it when it does.\<close>

definition createSubmission :: "'w net \<Rightarrow> AbortSignal \<Rightarrow> jsstr \<Rightarrow> json \<Rightarrow> jsstr \<Rightarrow> ('w, json) io" where
  "createSubmission N late key body expectedUserId =
     withCsrf N (\<lambda>token. fetch_data N (js ''/api/submissions'') submissionSchema
       (no_options\<lparr>opt_method := Some POST, opt_body := Some body, opt_idempotencyKey := Some key,
          opt_expectedUserId := Some expectedUserId, opt_csrfToken := Some token,
          opt_signal := Some late\<rparr>))"

text \<open>A path with an encoded component; a lone surrogate makes \<open>encodeURIComponent\<close> throw.\<close>

definition encoded_path :: "string \<Rightarrow> jsstr \<Rightarrow> string \<Rightarrow> (thrown, jsstr) result" where
  "encoded_path a part b =
     (case encodeURIComponent part of
        Some e \<Rightarrow> Inr (js a @ e @ js b) | None \<Rightarrow> Inl (Exn (Some (js ''URIError''))))"

definition getSubmission :: "'w net \<Rightarrow> jsstr \<Rightarrow> AbortSignal \<Rightarrow> ('w, json) io" where
  "getSubmission N i signal =
     bind_io (pure (encoded_path ''/api/submissions/'' i '''')) (\<lambda>path. read_data N path submissionSchema (Some signal))"

definition findSubmission :: "'w net \<Rightarrow> jsstr \<Rightarrow> AbortSignal \<Rightarrow> ('w, json) io" where
  "findSubmission N key signal =
     bind_io (pure (encoded_path ''/api/submission-requests/'' key '''')) (\<lambda>path.
       read_data N path submissionSchema (Some signal))"

section \<open>Recovery records\<close>

definition sourceLimit :: int where
  "sourceLimit = 262144"

definition fits_bytes :: "int \<Rightarrow> json \<Rightarrow> bool" where
  "fits_bytes limit v = (case v of JStr s \<Rightarrow> byteLength s \<le> limit | _ \<Rightarrow> False)"

definition recoverySchema :: schema where
  "recoverySchema = ZObject Strip
     [(js ''key'', uuid),
      (js ''body'', ZObject Strip
         [(js ''problemId'', uuid), (js ''languageId'', languageIdSchema),
          (js ''source'', ZRefine zstr (fits_bytes sourceLimit))]),
      (js ''submissionId'', ZOptional uuid)]"

definition recoveryKey :: "jsstr \<Rightarrow> jsstr \<Rightarrow> jsstr" where
  "recoveryKey userId problemId =
     js ''cherry-oj.submission.v2:'' @ userId @ [58] @ problemId @ js '':cpp''"

text \<open>\<open>loadRecovery\<close>: nothing stored, a record, or an exception (of \<open>JSON.parse\<close> or its own).\<close>

definition loadRecovery :: "safe_parse \<Rightarrow> jsstr option \<Rightarrow> (thrown, json option) result" where
  "loadRecovery P stored =
     (case stored of
        None \<Rightarrow> Inr None
      | Some raw \<Rightarrow>
          if raw = [] then Inr None
          else case JSON_parse raw of
                 None \<Rightarrow> Inl (Exn (Some (js ''SyntaxError'')))
               | Some v \<Rightarrow> (case P recoverySchema v of
                     None \<Rightarrow> Inl plain_exception | Some r \<Rightarrow> Inr (Some r)))"

section \<open>History\<close>

definition historySearchSchema :: schema where
  "historySearchSchema = ZObject Strip
     [(js ''submissionId'', ZCatch (ZOptional uuid) JUndef),
      (js ''tab'', ZCatch (ZOptional (enum [''statement'', ''submissions''])) JUndef),
      (js ''historyPage'', ZCatch (ZOptional (ZCoerceNumber [NInt, NMin 1, NMax 2147483647])) JUndef),
      (js ''historyVerdict'', ZCatch (ZOptional (enum verdictNames)) JUndef),
      (js ''historySubmissionId'', ZCatch (ZOptional uuid) JUndef)]"

definition sourceSchema :: schema where
  "sourceSchema = ZObject Strip
     [(js ''submissionId'', uuid), (js ''problemId'', uuid), (js ''languageId'', languageIdSchema),
      (js ''source'', ZRefine (ZString [SMax 262144]) (fits_bytes 262144))]"

definition isPrivateAccessError :: "thrown \<Rightarrow> bool" where
  "isPrivateAccessError e =
     (case e of
        Exn _ \<Rightarrow> False
      | Api a \<Rightarrow> (case err_status a of Some n \<Rightarrow> n | None \<Rightarrow> 0) \<in> {401, 403, 404}
          \<or> err_code a = Some (js ''SESSION_CHANGED''))"

definition sessionChanged :: thrown where
  "sessionChanged = Api ((plain_error (Other 0) Aborted)\<lparr>err_code := Some (js ''SESSION_CHANGED'')\<rparr>)"

definition session_is :: "json option \<Rightarrow> jsstr \<Rightarrow> bool" where
  "session_is session userId =
     (case session of
        None \<Rightarrow> False
      | Some v \<Rightarrow>
          jget (js ''authenticated'') v = JBool True
          \<and> jget (js ''id'') (jget (js ''user'') v) = JStr userId
          \<and> jget (js ''status'') (jget (js ''user'') v) = JStr (js ''ACTIVE'')
          \<and> jget (js ''passwordChangeRequired'') (jget (js ''user'') v) \<noteq> JBool True)"

text \<open>\<open>withHistoryIdentity\<close>: \<open>s0\<close> and \<open>s1\<close> are the cached session when the read starts and
  when it ends. Besides the outcome it tells whether the read was made and whether the session
  query is invalidated.\<close>

record 'a guarded =
  outcome :: "(thrown, 'a) result"
  was_read :: bool
  invalidates :: bool

definition withHistoryIdentity ::
    "json option \<Rightarrow> json option \<Rightarrow> jsstr \<Rightarrow> (thrown, 'a) result \<Rightarrow> 'a guarded" where
  "withHistoryIdentity s0 s1 userId got =
     (if \<not> session_is s0 userId
      then \<lparr>outcome = Inl sessionChanged, was_read = False, invalidates = False\<rparr>
      else
        let r = (case got of Inl e \<Rightarrow> Inl e
                 | Inr v \<Rightarrow> if session_is s1 userId then Inr v else Inl sessionChanged)
        in \<lparr>outcome = r, was_read = True,
            invalidates = (case r of
                Inl e \<Rightarrow> isPrivateAccessError e
                  \<and> \<not> (case e of Api a \<Rightarrow> err_status a = Some 404 | Exn _ \<Rightarrow> False)
              | Inr _ \<Rightarrow> False)\<rparr>)"

record HistorySearch =
  historyPage :: "int option"
  historyVerdict :: "jsstr option"

definition page_of :: "HistorySearch \<Rightarrow> int" where
  "page_of h = (case historyPage h of Some n \<Rightarrow> n | None \<Rightarrow> 1)"

definition submissions_query :: "jsstr \<Rightarrow> HistorySearch \<Rightarrow> jsstr" where
  "submissions_query problemId h = params_text
     ([(js ''problemId'', problemId), (js ''page'', int_text (page_of h)), (js ''size'', js ''20'')]
      @ (case historyVerdict h of Some v \<Rightarrow> if v = [] then [] else [(js ''verdict'', v)] | None \<Rightarrow> []))"

definition history_mismatch :: thrown where
  "history_mismatch = Api (plain_error (Other 1) Contract)"

definition json_items :: "json \<Rightarrow> json list" where
  "json_items v = (case v of JArr vs \<Rightarrow> vs | _ \<Rightarrow> [])"

definition check_history :: "jsstr \<Rightarrow> HistorySearch \<Rightarrow> ApiJsonResponse \<Rightarrow> (thrown, paged) result" where
  "check_history problemId h r =
     (let p = jget (js ''pagination'') (res_meta r) in
      if jget (js ''kind'') p \<noteq> JStr (js ''page'')
         \<or> jget (js ''page'') p \<noteq> JNum (Fin (of_int (page_of h)))
         \<or> jget (js ''size'') p \<noteq> JNum (Fin 20)
         \<or> list_ex (\<lambda>row. jget (js ''problemId'') row \<noteq> JStr problemId) (json_items (res_data r))
      then Inl history_mismatch
      else Inr \<lparr>paged_items = res_data r, paged_pagination = p\<rparr>)"

definition listProblemSubmissions ::
    "'w net \<Rightarrow> jsstr \<Rightarrow> jsstr \<Rightarrow> HistorySearch \<Rightarrow> AbortSignal \<Rightarrow> ('w, paged) io" where
  "listProblemSubmissions N userId problemId h signal =
     bind_io (requestJson N (js ''/api/submissions?'' @ submissions_query problemId h)
       (ZArray submissionSchema (Some 20))
       (no_options\<lparr>opt_signal := Some signal, opt_expectedUserId := Some userId\<rparr>))
     (\<lambda>r. pure (check_history problemId h r))"

definition foreign_source :: thrown where
  "foreign_source = Api ((plain_error (Other 2) Contract)\<lparr>err_status := Some 404\<rparr>)"

definition getHistorySource ::
    "'w net \<Rightarrow> jsstr \<Rightarrow> jsstr \<Rightarrow> jsstr \<Rightarrow> AbortSignal \<Rightarrow> ('w, json) io" where
  "getHistorySource N userId problemId i signal =
     bind_io (pure (encoded_path ''/api/submissions/'' i ''/source'')) (\<lambda>path.
     bind_io (fetch_data N path sourceSchema
       (no_options\<lparr>opt_signal := Some signal, opt_expectedUserId := Some userId\<rparr>)) (\<lambda>data.
       pure (if jget (js ''submissionId'') data \<noteq> JStr i \<or> jget (js ''problemId'') data \<noteq> JStr problemId
             then Inl foreign_source else Inr data)))"

section \<open>Trial runs\<close>

definition output_ok :: "json \<Rightarrow> bool" where
  "output_ok v = (case (jget (js ''capturedBytes'') v, jget (js ''text'') v) of
     (JNum (Fin n), JStr s) \<Rightarrow> of_int (byteLength s) \<le> n | _ \<Rightarrow> False)"

definition outputSchema :: schema where
  "outputSchema = ZRefine (ZObject Strip
     [(js ''text'', ZRefine zstr (fits_bytes 16384)), (js ''capturedBytes'', natural),
      (js ''truncated'', ZBoolean)]) output_ok"

definition absent :: "string \<Rightarrow> json \<Rightarrow> bool" where
  "absent k v \<longleftrightarrow> jget (js k) v = JUndef"

definition run_shape :: "json \<Rightarrow> bool" where
  "run_shape v =
     (if jget (js ''status'') v = JStr (js ''COMPILE_ERROR'')
      then \<not> absent ''compileDiagnostic'' v \<and> absent ''stdout'' v \<and> absent ''stderr'' v
        \<and> absent ''cpuNs'' v \<and> absent ''memoryBytes'' v
      else \<not> absent ''stdout'' v \<and> \<not> absent ''stderr'' v \<and> \<not> absent ''cpuNs'' v
        \<and> \<not> absent ''memoryBytes'' v \<and> absent ''compileDiagnostic'' v)"

definition runSchema :: schema where
  "runSchema = ZTransform (ZRefine (ZObject Strip
     [(js ''problemId'', uuid), (js ''languageId'', languageIdSchema),
      (js ''status'', enum [''COMPLETED'', ''COMPILE_ERROR'', ''RUNTIME_ERROR'', ''TIME_LIMIT_EXCEEDED'',
         ''MEMORY_LIMIT_EXCEEDED'', ''OUTPUT_LIMIT_EXCEEDED'']),
      (js ''cpuNs'', ZOptional natural), (js ''memoryBytes'', ZOptional natural),
      (js ''stdout'', ZOptional outputSchema), (js ''stderr'', ZOptional outputSchema),
      (js ''compileDiagnostic'', ZOptional (ZRefine zstr (fits_bytes 8192))),
      (js ''effectiveLimits'', ZObject Strip
         [(js ''cpuNs'', natural), (js ''memoryBytes'', natural), (js ''clockNs'', natural)])])
     run_shape) drop_undefined"

definition wrong_problem :: thrown where
  "wrong_problem = Api (plain_error (Other 3) Contract)"

text \<open>The token is asked for on its own, not through \<open>withCsrf\<close>: a run is never repeated.\<close>

definition createCustomRun :: "'w net \<Rightarrow> json \<Rightarrow> jsstr \<Rightarrow> AbortSignal \<Rightarrow> ('w, json) io" where
  "createCustomRun N body userId signal =
     bind_io (requestJson N (js ''/api/auth/csrf'') csrfSchema (no_options\<lparr>opt_signal := Some signal\<rparr>)) (\<lambda>csrf.
     bind_io (fetch_data N (js ''/api/custom-runs'') runSchema
       (no_options\<lparr>opt_method := Some POST, opt_body := Some body, opt_expectedUserId := Some userId,
          opt_csrfToken := Some (data_text (js ''token'') csrf), opt_signal := Some signal\<rparr>)) (\<lambda>data.
       pure (if jget (js ''problemId'') data \<noteq> jget (js ''problemId'') body then Inl wrong_problem else Inr data)))"

end
