(* ===== verification/Admin_Api.thy ===== *)
theory Admin_Api
  imports Problems_Api
begin

text \<open>
  The calls of the administration: \<open>features/admin-users/api/admin-users-api.ts\<close>,
  \<open>features/admin-judging/api/judge-nodes-api.ts\<close> and
  \<open>features/admin-languages/api/admin-languages-api.ts\<close>.
\<close>

definition userSchema :: schema where
  "userSchema = ZObject Strip
     [(js ''id'', uuid), (js ''username'', zstr), (js ''role'', enum [''USER'', ''ADMIN'']),
      (js ''status'', enum [''ACTIVE'', ''DISABLED'']), (js ''passwordChangeRequired'', ZBoolean),
      (js ''createdAt'', ZString [SDatetime False]), (js ''updatedAt'', ZString [SDatetime False]),
      (js ''rowVersion'', ZNumber [NInt, NMin 0])]"

definition userListSchema :: schema where
  "userListSchema = ZObject Strip [(js ''items'', ZArray userSchema (Some 100))]"

definition temporary_password :: schema where
  "temporary_password = ZString [SMin 12, SMax 128]"

definition createdUserSchema :: schema where
  "createdUserSchema = ZObject Strip [(js ''user'', userSchema), (js ''temporaryPassword'', temporary_password)]"

definition resetPasswordSchema :: schema where
  "resetPasswordSchema = ZObject Strip [(js ''temporaryPassword'', temporary_password)]"

definition listUsers :: "'w net \<Rightarrow> int \<Rightarrow> int \<Rightarrow> AbortSignal option \<Rightarrow> ('w, paged) io" where
  "listUsers N page sz signal =
     bind_io (requestJson N (js ''/api/admin/users?page='' @ int_text page @ js ''&size='' @ int_text sz)
       userListSchema (no_options\<lparr>opt_signal := signal\<rparr>))
     (\<lambda>r. pure (require_page ''page'' r))"

definition createUser :: "'w net \<Rightarrow> json \<Rightarrow> ('w, json) io" where
  "createUser N = post_data N POST (js ''/api/admin/users'') createdUserSchema"

definition updateUserStatus :: "'w net \<Rightarrow> jsstr \<Rightarrow> json \<Rightarrow> ('w, json) io" where
  "updateUserStatus N userId = post_data N PATCH (js ''/api/admin/users/'' @ userId @ js ''/status'') userSchema"

definition resetUserPassword :: "'w net \<Rightarrow> jsstr \<Rightarrow> json \<Rightarrow> ('w, json) io" where
  "resetUserPassword N userId =
     post_data N POST (js ''/api/admin/users/'' @ userId @ js ''/password-reset'') resetPasswordSchema"

definition node_regex :: "jsstr \<Rightarrow> bool" where
  "node_regex s \<longleftrightarrow> s \<noteq> [] \<and> is_alnum (hd s) \<and> int (length (tl s)) \<le> 63
     \<and> list_all (\<lambda>c. is_alnum c \<or> c = 46 \<or> c = 95 \<or> c = 45) (tl s)"

definition judgeNodeSchema :: schema where
  "judgeNodeSchema = ZObject Strip
     [(js ''nodeId'', ZString [SRegex node_regex]), (js ''languages'', ZArray zstr (Some 32)),
      (js ''online'', ZBoolean), (js ''lastSeenAt'', ZString [SDatetime True])]"

definition judgeNodeListSchema :: schema where
  "judgeNodeListSchema = ZObject Strip [(js ''items'', ZArray judgeNodeSchema (Some 1000))]"

definition listJudgeNodes :: "'w net \<Rightarrow> AbortSignal option \<Rightarrow> ('w, json) io" where
  "listJudgeNodes N signal =
     bind_io (read_data N (js ''/api/admin/judging/judge-nodes'') judgeNodeListSchema signal)
       (\<lambda>v. pure (Inr (jget (js ''items'') v)))"

definition languageSchema :: schema where
  "languageSchema = ZObject Strip
     [(js ''id'', ZString [SRegex language_regex]), (js ''displayName'', ZString [SMax 64]),
      (js ''solutionPrefix'', ZString [SMin 1, SMax 65536]), (js ''updatedAt'', ZString [SMin 1])]"

definition languageListSchema :: schema where
  "languageListSchema = ZObject Strip [(js ''items'', ZArray languageSchema (Some 100))]"

definition listLanguageSettings :: "'w net \<Rightarrow> AbortSignal option \<Rightarrow> ('w, json) io" where
  "listLanguageSettings N signal =
     bind_io (read_data N (js ''/api/admin/languages'') languageListSchema signal)
       (\<lambda>v. pure (Inr (jget (js ''items'') v)))"

definition updateLanguageSetting :: "'w net \<Rightarrow> jsstr \<Rightarrow> json \<Rightarrow> ('w, json) io" where
  "updateLanguageSetting N languageId =
     post_data N PUT (js ''/api/admin/languages/'' @ languageId) languageSchema"

end
