(* ===== verification/Auth.thy ===== *)
theory Auth
  imports Api_Calls Js_Url
begin

text \<open>
  Sign-in: \<open>features/auth/api/auth-api.ts\<close> (the session and its four calls), the texts of
  \<open>auth-error-message.ts\<close>, the return path of \<open>safe-return-path.ts\<close> and the route guards of
  \<open>route-guards.ts\<close>. The session query of TanStack Query is what the guards are given.
\<close>

section \<open>Accounts and sessions\<close>

definition username_regex :: "jsstr \<Rightarrow> bool" where
  "username_regex s \<longleftrightarrow> s \<noteq> [] \<and> is_alnum (hd s) \<and> 2 \<le> int (length (tl s)) \<and> int (length (tl s)) \<le> 63
     \<and> list_all (\<lambda>c. is_alnum c \<or> c = 46 \<or> c = 95 \<or> c = 45) (tl s)"

definition userAccountSchema :: schema where
  "userAccountSchema = ZObject Strip
     [(js ''id'', ZString [SUuid]),
      (js ''username'', ZString [SRegex username_regex]),
      (js ''role'', ZEnum [js ''USER'', js ''ADMIN'']),
      (js ''status'', ZEnum [js ''ACTIVE'', js ''DISABLED'']),
      (js ''passwordChangeRequired'', ZBoolean),
      (js ''createdAt'', ZString [SDatetime False]),
      (js ''updatedAt'', ZString [SDatetime False]),
      (js ''rowVersion'', ZNumber [NInt, NMin 0])]"

definition authenticatedSessionSchema :: schema where
  "authenticatedSessionSchema = ZObject Strip
     [(js ''authenticated'', ZLiteral (JBool True)), (js ''user'', userAccountSchema)]"

definition authSessionSchema :: schema where
  "authSessionSchema = ZDiscriminated (js ''authenticated'')
     [ZObject Strip [(js ''authenticated'', ZLiteral (JBool False))], authenticatedSessionSchema]"

definition anonymous :: json where
  "anonymous = JObj [(js ''authenticated'', JBool False)]"

definition session_authenticated :: "json \<Rightarrow> bool" where
  "session_authenticated v \<longleftrightarrow> jget (js ''authenticated'') v = JBool True"

definition session_user :: "json \<Rightarrow> json" where
  "session_user v = jget (js ''user'') v"

definition with_status :: "int \<Rightarrow> thrown \<Rightarrow> bool" where
  "with_status n e = (case e of Api a \<Rightarrow> err_status a = Some n | Exn _ \<Rightarrow> False)"

definition getSession :: "'w net \<Rightarrow> AbortSignal option \<Rightarrow> ('w, json) io" where
  "getSession N signal =
     catch_io (fetch_data N (js ''/api/auth/session'') authSessionSchema (no_options\<lparr>opt_signal := signal\<rparr>))
       (\<lambda>e c. if with_status 401 e then (Inr anonymous, clearCsrfToken c) else (Inl e, c))"

definition login :: "'w net \<Rightarrow> json \<Rightarrow> ('w, json) io" where
  "login N request =
     withCsrf N (\<lambda>token. fetch_data N (js ''/api/auth/login'') authenticatedSessionSchema
       (no_options\<lparr>opt_method := Some POST, opt_body := Some request, opt_csrfToken := Some token\<rparr>))"

definition logout :: "'w net \<Rightarrow> ('w, unit) io" where
  "logout N =
     bind_io (withCsrf N (\<lambda>token. requestVoid N (js ''/api/auth/logout'')
       (no_options\<lparr>opt_method := Some POST, opt_csrfToken := Some token\<rparr>)))
     (\<lambda>_ c. (Inr (), clearCsrfToken c))"

definition changePassword :: "'w net \<Rightarrow> json \<Rightarrow> ('w, unit) io" where
  "changePassword N request =
     bind_io (withCsrf N (\<lambda>token. requestVoid N (js ''/api/auth/password/change'')
       (no_options\<lparr>opt_method := Some POST, opt_body := Some request, opt_csrfToken := Some token\<rparr>)))
     (\<lambda>_ c. (Inr (), clearCsrfToken c))"

section \<open>Texts\<close>

datatype auth_text =
    NotCompleted | BadCredentials | RateLimitedFor int | RateLimited | SessionExpired | NotAllowed
  | IdentityUnavailable | CheckInput | NameTaken | CheckNetwork

definition authErrorMessage :: "thrown \<Rightarrow> auth_text" where
  "authErrorMessage e =
     (case e of
        Exn _ \<Rightarrow> NotCompleted
      | Api a \<Rightarrow>
          let is = (\<lambda>k. err_code a = Some (js k)) in
          if is ''AUTHENTICATION_FAILED'' then BadCredentials
          else if is ''RATE_LIMITED'' then
            (case err_retryAfterNs a of
               Some n \<Rightarrow> RateLimitedFor ((n + 999999999) div 1000000000)
             | None \<Rightarrow> RateLimited)
          else if is ''UNAUTHENTICATED'' then SessionExpired
          else if is ''FORBIDDEN'' then NotAllowed
          else if is ''SERVICE_UNAVAILABLE'' \<or> is ''GATEWAY_TIMEOUT'' then IdentityUnavailable
          else if is ''VALIDATION_FAILED'' then CheckInput
          else if is ''USER_NAME_CONFLICT'' \<or> is ''USERNAME_CONFLICT'' then NameTaken
          else if err_kind a = Network \<or> err_kind a = Timeout then CheckNetwork
          else NotCompleted)"

section \<open>The return path\<close>

definition has_control :: "jsstr \<Rightarrow> bool" where
  "has_control s \<longleftrightarrow> list_ex (\<lambda>c. in_range 0 31 c \<or> c = 127) s"

definition href :: "url \<Rightarrow> jsstr" where
  "href u = pathname u @ search u @ url_hash u"

text \<open>The parsed URL of a reference that passes the first two checks has the page's own origin.\<close>

definition safeReturnPath :: "json \<Rightarrow> jsstr \<Rightarrow> jsstr" where
  "safeReturnPath value fallback =
     (case value of
        JStr s \<Rightarrow>
          if \<not> startsWith s (js ''/'') \<or> startsWith s (js ''//'') then fallback
          else if 92 \<in> set s \<or> has_control s then fallback
          else let u = parse_reference s in
               if \<not> startsWith (pathname u) (js ''/'') then fallback else href u
      | _ \<Rightarrow> fallback)"

section \<open>Route guards\<close>

datatype redirect = ToLogin jsstr | ToPassword | ToForbidden

definition requireUser :: "json \<Rightarrow> jsstr \<Rightarrow> (redirect, json) result" where
  "requireUser session returnTo =
     (if \<not> session_authenticated session then Inl (ToLogin (safeReturnPath (JStr returnTo) (js ''/'')))
      else if jget (js ''passwordChangeRequired'') (session_user session) = JBool True
           \<and> returnTo \<noteq> js ''/account/password'' then Inl ToPassword
      else Inr (session_user session))"

definition requireAdmin :: "json \<Rightarrow> jsstr \<Rightarrow> (redirect, json) result" where
  "requireAdmin session returnTo =
     bind_result (requireUser session returnTo) (\<lambda>user.
       if jget (js ''role'') user \<noteq> JStr (js ''ADMIN'') then Inl ToForbidden else Inr user)"

section \<open>What the guards and the session promise\<close>

lemma path_loop_plain:
  assumes "segs \<noteq> []" and "\<forall>g\<in>set segs. \<not> single_dot g \<and> \<not> double_dot g"
  shows "path_loop acc segs = acc @ map (percent_encode in_path_set) segs"
  using assms by (induction acc segs rule: path_loop.induct) auto

lemma hd_code_points: "s \<noteq> [] \<Longrightarrow> hd s \<noteq> 47 \<Longrightarrow> code_points s \<noteq> [] \<and> hd (code_points s) \<noteq> 47"
proof (induction s rule: code_points.induct)
  case (2 c)
  then have "uint c \<noteq> 47" by (metis of_int_numeral of_int_uint_cu list.sel(1))
  then show ?case by (simp add: unit_point_def)
next
  case (3 c d s)
  then have "uint c \<noteq> 47" by (metis of_int_numeral of_int_uint_cu list.sel(1))
  then show ?case by (auto simp: unit_point_def pair_point_def in_range_def)
qed simp

lemma hd_utf8:
  assumes "s \<noteq> []" and "hd s \<noteq> 47"
  shows "utf8 s \<noteq> [] \<and> hd (utf8 s) \<noteq> 47"
proof -
  obtain p ps where p: "code_points s = p # ps" "p \<noteq> 47" "0 \<le> p"
    using hd_code_points [OF assms] code_points_bound [of s] by (cases "code_points s") auto
  then show ?thesis by (auto simp: utf8_def utf8_bytes_def)
qed

lemma percent_encode_starts:
  assumes "s \<noteq> []" and "hd s \<noteq> 47"
  shows "percent_encode in_path_set s \<noteq> [] \<and> hd (percent_encode in_path_set s) \<noteq> 47"
proof -
  obtain b bs where b: "utf8 s = b # bs" "b \<noteq> 47" "0 \<le> b" "b < 256"
    using hd_utf8 [OF assms] utf8_bound [of s] by (cases "utf8 s") auto
  then show ?thesis by (simp add: percent_encode_def percent_byte_def of_int_cu_numeral)
qed

definition path_of :: "jsstr \<Rightarrow> jsstr" where
  "path_of s = tl (before 63 (before 35 (strip_c0_space s)))"

definition dotless :: "jsstr \<Rightarrow> bool" where
  "dotless s \<longleftrightarrow> list_all (\<lambda>g. \<not> single_dot g \<and> \<not> double_dot g) (split_on 47 (path_of s))"

lemma dropWhile_id: "s \<noteq> [] \<Longrightarrow> \<not> P (hd s) \<Longrightarrow> dropWhile P s = s"
  by (cases s) auto

lemma strip_slash:
  obtains p where "strip_c0_space (47 # s) = 47 # p" and "\<exists>q. s = p @ q"
proof -
  have "dropWhile (in_range 0 32) (47 # s) = 47 # s" by (simp add: in_range_def)
  moreover have "\<exists>p. rev (dropWhile (in_range 0 32) (rev (47 # s))) = 47 # p \<and> (\<exists>q. s = p @ q)"
  proof (induction s rule: rev_induct)
    case Nil
    then show ?case by (simp add: in_range_def)
  next
    case (snoc c s)
    then show ?case by (cases "in_range 0 32 c") auto
  qed
  ultimately show thesis using that by (auto simp: strip_c0_space_def)
qed

lemma hd_split_on: "q \<noteq> [] \<Longrightarrow> hd q \<noteq> d \<Longrightarrow> hd (split_on d q) \<noteq> [] \<and> hd (hd (split_on d q)) = hd q"
  by (cases q) (auto split: list.splits)

lemma prefixed_start: "d \<noteq> 47 \<Longrightarrow> \<not> startsWith (prefixed d v @ t) [47] \<or> prefixed d v = []"
  by (auto simp: prefixed_def startsWith_def split: option.splits list.splits)

lemma safe_reference:
  assumes "s \<noteq> []" "hd s = 47" "\<not> startsWith s (js ''//'')" and "dotless s"
  shows "\<exists>t. href (parse_reference s) = 47 # t \<and> \<not> startsWith t [47]"
proof -
  obtain s' where s: "s = 47 # s'" using assms(1,2) by (cases s) auto
  obtain p where p: "strip_c0_space s = 47 # p" "\<exists>q. s' = p @ q" using strip_slash [of s'] s by metis
  let ?q = "path_of s" and ?u = "parse_reference s"
  have path: "before 63 (before 35 (strip_c0_space s)) = 47 # ?q" by (simp add: path_of_def p(1) before_def)
  have hq: "hd ?q \<noteq> 47" if "?q \<noteq> []"
  proof -
    have "?q = takeWhile (\<lambda>c. c \<noteq> 63) (takeWhile (\<lambda>c. c \<noteq> 35) p)" by (simp add: path_of_def p(1) before_def)
    then have "p \<noteq> []" "hd ?q = hd p" using that by (cases p; auto split: if_splits)+
    then have "hd s' = hd ?q" "s' \<noteq> []" using p(2) by auto
    then show ?thesis using assms(3) s by (cases s') (auto simp: startsWith_def)
  qed
  have "path_loop [] (split_on 47 ?q) = map (percent_encode in_path_set) (split_on 47 ?q)"
    using assms(4) by (subst path_loop_plain) (auto simp: dotless_def list_all_iff)
  then have pn: "pathname ?u = 47 # join [47] (map (percent_encode in_path_set) (split_on 47 ?q))"
    by (simp add: parse_reference_def Let_def path)
  obtain g gs where g: "split_on 47 ?q = g # gs" by (cases "split_on 47 ?q") auto
  show ?thesis
  proof (cases "?q = []")
    case True
    then have "href ?u = 47 # search ?u @ url_hash ?u" by (simp add: href_def pn percent_encode_def utf8_def)
    moreover have "\<not> startsWith (search ?u @ url_hash ?u) [47]"
      by (auto simp: parse_reference_def Let_def prefixed_def startsWith_def split: option.splits list.splits)
    ultimately show ?thesis by blast
  next
    case False
    then have "g \<noteq> []" "hd g \<noteq> 47" using hd_split_on [OF False hq [OF False]] hq [OF False] g by auto
    then obtain e es where "percent_encode in_path_set g = e # es" "e \<noteq> 47"
      using percent_encode_starts by (cases "percent_encode in_path_set g") force+
    then show ?thesis by (cases gs) (auto simp: href_def pn g startsWith_def)
  qed
qed

lemma startsWith_slash: "startsWith s (js ''/'') \<longleftrightarrow> s \<noteq> [] \<and> hd s = 47"
  by (cases s) (auto simp: startsWith_def)

lemma safeReturnPath_cases:
  obtains (kept) s where "v = JStr s" "s \<noteq> []" "hd s = 47" "\<not> startsWith s (js ''//'')" "92 \<notin> set s"
      "\<not> has_control s" "safeReturnPath v fallback = href (parse_reference s)"
    | (refused) "safeReturnPath v fallback = fallback"
proof (cases v)
  case (JStr s)
  have pn: "startsWith (pathname (parse_reference s)) (js ''/'')"
    by (simp add: parse_reference_def Let_def startsWith_def)
  show thesis
  proof (cases "startsWith s (js ''/'') \<and> \<not> startsWith s (js ''//'') \<and> 92 \<notin> set s \<and> \<not> has_control s")
    case True
    then have "s \<noteq> []" "hd s = 47" using startsWith_slash by blast+
    moreover have "safeReturnPath v fallback = href (parse_reference s)"
      using True pn JStr by (simp add: safeReturnPath_def Let_def del: js_Cons)
    ultimately show thesis using kept [OF JStr] True by blast
  next
    case False
    then have "safeReturnPath v fallback = fallback"
      using JStr by (auto simp: safeReturnPath_def Let_def simp del: js_Cons)
    then show thesis by (rule refused)
  qed
qed (use refused in \<open>auto simp: safeReturnPath_def\<close>)

section \<open>Properties\<close>

text \<open>
  A return path never leaves the site: the result is the fallback or one slash followed by
  something that is not a slash, whenever the path of the target has no dot segments.
\<close>

theorem return_path_stays_on_site:
  assumes "v = JStr s" and "dotless s"
  shows "safeReturnPath v fallback = fallback
    \<or> (\<exists>t. safeReturnPath v fallback = 47 # t \<and> \<not> startsWith t [47])"
proof (cases rule: safeReturnPath_cases [of v fallback])
  case (kept r)
  then show ?thesis using safe_reference [of s] assms by auto
qed simp

theorem return_path_stays_on_site_witness:
  "safeReturnPath (JStr (js ''/a'')) [] = [] \<or> (\<exists>t. safeReturnPath (JStr (js ''/a'')) [] = 47 # t \<and> \<not> startsWith t [47])"
  by (rule return_path_stays_on_site [OF refl]) code_simp

text \<open>
  Dot segments defeat the check on the leading slashes: the target \<open>/.//evil.com\<close> passes it, and
  the path of the parsed URL is \<open>//evil.com\<close>, a reference to another host.
\<close>

theorem return_path_dot_segment: "safeReturnPath (JStr (js ''/.//evil.com'')) (js ''/'') = js ''//evil.com''"
  by code_simp

text \<open>
  C24. The guards let nobody pass whom the session does not entitle: a page for users is reached
  with an authenticated session only, and with a pending password change only the password page;
  a page for administrators only with the role ADMIN.
\<close>

theorem guards_admit_entitled:
  "(requireUser session to = Inr u \<longrightarrow> session_authenticated session \<and> u = session_user session
      \<and> (jget (js ''passwordChangeRequired'') u = JBool True \<longrightarrow> to = js ''/account/password''))
   \<and> (requireAdmin session to = Inr u \<longrightarrow> requireUser session to = Inr u
      \<and> jget (js ''role'') u = JStr (js ''ADMIN''))
   \<and> (requireAdmin session to = Inl r \<longleftrightarrow> requireUser session to = Inl r
      \<or> (\<exists>w. requireUser session to = Inr w \<and> jget (js ''role'') w \<noteq> JStr (js ''ADMIN'') \<and> r = ToForbidden))"
  by (auto simp: requireAdmin_def requireUser_def bind_result_Inr_iff bind_result_Inl_iff simp del: js_Cons
      split: if_splits)

theorem guards_admit_entitled_witness:
  "requireAdmin anonymous (js ''/admin'') = Inl (ToLogin (js ''/admin''))"
proof -
  have "requireUser anonymous (js ''/admin'') = Inl (ToLogin (js ''/admin''))" by code_simp
  then show ?thesis
    using guards_admit_entitled [of anonymous "js ''/admin''" JNull "ToLogin (js ''/admin'')"] by blast
qed

end
