(* ===== verification/Api_Properties.thy ===== *)
theory Api_Properties
  imports Submissions_Api Admin_Api Auth
begin

text \<open>
  Properties of the API layer: validated data at every endpoint, error values, the life of a CSRF
  token with calls in flight, which requests a call makes, and the account checks of the history.
\<close>

section \<open>Which requests a call makes\<close>

text \<open>A network that also keeps the list of requests made.\<close>

definition logged :: "'w net \<Rightarrow> (request list \<times> 'w) net" where
  "logged N = \<lparr>net_parse = net_parse N,
     net_fetch = (\<lambda>q (log, w). case net_fetch N q w of (r, w') \<Rightarrow> (r, (log @ [q], w'))),
     net_date = net_date N, net_now = net_now N\<rparr>"

abbreviation log_of :: "(request list \<times> 'w) client \<Rightarrow> request list" where
  "log_of c \<equiv> fst (server c)"

lemma fetch_log: "log_of (snd (fetch (logged N) q c)) = log_of c @ [q]"
  by (auto simp: fetch_def logged_def split: prod.splits)

lemma send_log:
  "log_of (snd (send (logged N) path opts c)) =
     log_of c @ (case build_request path opts of Inr q \<Rightarrow> [q] | Inl _ \<Rightarrow> [])"
proof (cases "build_request path opts")
  case (Inr q)
  obtain r c' where f: "fetch (logged N) q c = (r, c')" by (cases "fetch (logged N) q c")
  then have "log_of c' = log_of c @ [q]" using fetch_log [of N q c] by simp
  then show ?thesis using Inr f by (cases r) (simp_all add: send_def bind_io_def catch_io_def)
qed (simp add: send_def bind_io_def)

lemma requestJson_log:
  "log_of (snd (requestJson (logged N) path z opts c)) =
     log_of c @ (case build_request path opts of Inr q \<Rightarrow> [q] | Inl _ \<Rightarrow> [])"
  using send_log [of N path opts c]
  by (cases "send (logged N) path opts c"; cases "fst (send (logged N) path opts c)")
    (auto simp: requestJson_def bind_io_def)

lemma fetch_data_log:
  "log_of (snd (fetch_data (logged N) path z opts c)) =
     log_of c @ (case build_request path opts of Inr q \<Rightarrow> [q] | Inl _ \<Rightarrow> [])"
  using requestJson_log [of N path z opts c]
  by (cases "requestJson (logged N) path z opts c"; cases "fst (requestJson (logged N) path z opts c)")
    (auto simp: fetch_data_def bind_io_def)

definition csrf_request :: request where
  "csrf_request = \<lparr>req_path = js ''/api/auth/csrf'', req_method = GET, req_headers = accept_header,
     req_payload = NoBody, req_signal = None\<rparr>"

lemma csrf_request_built: "build_request (js ''/api/auth/csrf'') no_options = Inr csrf_request"
  by (simp add: build_request_def json_payload_def set_header_def no_options_def csrf_request_def)

lemma loadCsrfToken_log:
  "\<exists>l. log_of (snd (loadCsrfToken (logged N) c)) = log_of c @ l \<and> set l \<subseteq> {csrf_request}"
proof (cases "csrfToken c")
  case None
  obtain r c' where q: "requestJson (logged N) (js ''/api/auth/csrf'') csrfSchema no_options c = (r, c')"
    by (cases "requestJson (logged N) (js ''/api/auth/csrf'') csrfSchema no_options c")
  then have "log_of c' = log_of c @ [csrf_request]"
    using requestJson_log [of N "js ''/api/auth/csrf''" csrfSchema no_options c] csrf_request_built by simp
  then show ?thesis using None q by (cases r) (auto simp: loadCsrfToken_def bind_io_def)
qed (auto simp: loadCsrfToken_def)

text \<open>What an operation under \<open>withCsrf\<close> adds to the log: token requests, and its own request at
  most twice.\<close>

lemma withCsrf_log:
  assumes op: "\<And>t c. \<exists>l. log_of (snd (f t c)) = log_of c @ l \<and> length l \<le> 1 \<and> list_all Q l"
  shows "\<exists>l. log_of (snd (withCsrf (logged N) f c)) = log_of c @ l
    \<and> list_all (\<lambda>q. q = csrf_request \<or> Q q) l \<and> length (filter (\<lambda>q. q \<noteq> csrf_request) l) \<le> 2"
proof -
  have quiet: "list_all (\<lambda>q. q = csrf_request \<or> Q q) l \<and> filter (\<lambda>q. q \<noteq> csrf_request) l = []"
    if "set l \<subseteq> {csrf_request}" for l
    using that by (auto simp: list_all_iff filter_empty_conv)
  have once: "list_all (\<lambda>q. q = csrf_request \<or> Q q) l \<and> length (filter (\<lambda>q. q \<noteq> csrf_request) l) \<le> 1"
    if "length l \<le> 1" "list_all Q l" for l
    using that le_trans [OF length_filter_le that(1)] by (auto simp: list_all_iff)
  obtain r1 c1 l1 where l1: "loadCsrfToken (logged N) c = (r1, c1)" "log_of c1 = log_of c @ l1" "set l1 \<subseteq> {csrf_request}"
    using loadCsrfToken_log [of N c] by (cases "loadCsrfToken (logged N) c") auto
  show ?thesis
  proof (cases r1)
    case (Inl e)
    then show ?thesis using l1 quiet [OF l1(3)] by (simp add: withCsrf_def bind_io_def)
  next
    case (Inr t)
    obtain r2 c2 l2 where l2: "f t c1 = (r2, c2)" "log_of c2 = log_of c1 @ l2" "length l2 \<le> 1" "list_all Q l2"
      using op [of t c1] by (cases "f t c1") auto
    obtain r3 c3 l3 where l3: "loadCsrfToken (logged N) (clearCsrfToken c2) = (r3, c3)" "log_of c3 = log_of c2 @ l3"
        "set l3 \<subseteq> {csrf_request}"
      using loadCsrfToken_log [of N "clearCsrfToken c2"]
      by (cases "loadCsrfToken (logged N) (clearCsrfToken c2)") (auto simp: clearCsrfToken_def)
    consider (kept) "withCsrf (logged N) f c = (r2, c2)"
      | (failed) e where "r3 = Inl e" "withCsrf (logged N) f c = (Inl e, c3)"
      | (again) t' where "r3 = Inr t'" "withCsrf (logged N) f c = f t' c3"
    proof -
      have "withCsrf (logged N) f c = (r2, c2)
        \<or> withCsrf (logged N) f c = bind_io (loadCsrfToken (logged N)) f (clearCsrfToken c2)"
        using l1(1) l2(1) Inr by (cases r2) (simp_all add: withCsrf_def bind_io_def catch_io_def)
      then show thesis
        using l3(1) kept failed again by (cases r3) (auto simp: bind_io_def)
    qed
    then show ?thesis
    proof cases
      case kept
      then show ?thesis
        using l1 l2 quiet [OF l1(3)] once [OF l2(3,4)] by (intro exI [of _ "l1 @ l2"]) auto
    next
      case failed
      then show ?thesis
        using l1 l2 l3 quiet [OF l1(3)] quiet [OF l3(3)] once [OF l2(3,4)]
        by (intro exI [of _ "l1 @ l2 @ l3"]) auto
    next
      case again
      obtain l4 where l4: "log_of (snd (f t' c3)) = log_of c3 @ l4" "length l4 \<le> 1" "list_all Q l4"
        using op by blast
      then show ?thesis
        using again l1 l2 l3 quiet [OF l1(3)] quiet [OF l3(3)] once [OF l2(3,4)] once [OF l4(2,3)]
        by (intro exI [of _ "l1 @ l2 @ l3 @ l4"]) auto
    qed
  qed
qed

lemma one_request: "length (case r of Inr q \<Rightarrow> [q] | Inl e \<Rightarrow> []) \<le> 1"
  by (cases r) auto

text \<open>The request of a submission.\<close>

definition submission_request :: "jsstr \<Rightarrow> json \<Rightarrow> request \<Rightarrow> bool" where
  "submission_request key body q \<longleftrightarrow> req_path q = js ''/api/submissions'' \<and> req_method q = POST
     \<and> map_of (req_headers q) (js ''Idempotency-Key'') = Some key \<and> req_payload q = JsonBody (JSON_text body)"

lemma submission_request_built:
  assumes "header_value key = Inr key" and "body = JObj ms"
    and "build_request (js ''/api/submissions'') (no_options\<lparr>opt_method := Some POST, opt_body := Some body,
      opt_idempotencyKey := Some key, opt_expectedUserId := Some u, opt_csrfToken := Some t, opt_signal := g\<rparr>) = Inr q"
  shows "submission_request key body q"
  using assms(3) unfolding build_request_def
  by (auto simp: bind_result_Inr_iff json_payload_def set_header_def no_options_def submission_request_def
      assms(1,2) is_array_def JSON_stringify_def update_conv' split: if_splits)

text \<open>
  A submission is made at most twice, and both times with the same idempotency key and the same
  body: whatever the server answers, submitting adds to the requests made only token requests and
  at most two POSTs that the server can recognise as one.
\<close>

theorem submission_attempts_identical:
  assumes "header_value key = Inr key" and "body = JObj ms"
  shows "\<exists>l. log_of (snd (createSubmission (logged N) g key body u c)) = log_of c @ l
    \<and> list_all (\<lambda>q. q = csrf_request \<or> submission_request key body q) l
    \<and> length (filter (\<lambda>q. q \<noteq> csrf_request) l) \<le> 2"
  unfolding createSubmission_def
proof (rule withCsrf_log)
  fix t and c' :: "(request list \<times> 'a) client"
  let ?o = "no_options\<lparr>opt_method := Some POST, opt_body := Some body, opt_idempotencyKey := Some key,
    opt_expectedUserId := Some u, opt_csrfToken := Some t, opt_signal := Some g\<rparr>"
  let ?l = "case build_request (js ''/api/submissions'') ?o of Inr q \<Rightarrow> [q] | Inl _ \<Rightarrow> []"
  have "list_all (submission_request key body) ?l"
    using submission_request_built [OF assms, where u = u and t = t and g = "Some g"] by (auto split: sum.split)
  then show "\<exists>l. log_of (snd (fetch_data (logged N) (js ''/api/submissions'') submissionSchema ?o c')) = log_of c' @ l
    \<and> length l \<le> 1 \<and> list_all (submission_request key body) l"
    using fetch_data_log [of N "js ''/api/submissions''" submissionSchema ?o c'] one_request by blast
qed

definition offline :: "unit net" where
  "offline = \<lparr>net_parse = zod_parse (\<lambda>_. True) (\<lambda>_ _. True), net_fetch = (\<lambda>q w. (Inl (Exn None), w)),
     net_date = (\<lambda>_. None), net_now = 0\<rparr>"

definition no_signal :: AbortSignal where
  "no_signal = \<lparr>aborted = False, reason_name = None\<rparr>"

theorem submission_attempts_identical_witness:
  "\<exists>l. log_of (snd (createSubmission (logged offline) no_signal (js ''k1'') (JObj []) (js ''u'')
        \<lparr>server = ([], ()), csrfToken = Some (js ''t'')\<rparr>)) = [] @ l
    \<and> list_all (\<lambda>q. q = csrf_request \<or> submission_request (js ''k1'') (JObj []) q) l
    \<and> length (filter (\<lambda>q. q \<noteq> csrf_request) l) \<le> 2"
proof -
  have "header_value (js ''k1'') = Inr (js ''k1'')" by code_simp
  from submission_attempts_identical [OF this refl, where N = offline and g = no_signal and u = "js ''u''"
      and c = "\<lparr>server = ([], ()), csrfToken = Some (js ''t'')\<rparr>"]
  show ?thesis by simp
qed

text \<open>
  A trial run is posted at most once: the call makes one token request of its own, then at most
  one POST, and repeats neither, whatever the server answers.
\<close>

theorem custom_run_posted_once:
  "\<exists>l. log_of (snd (createCustomRun (logged N) body u g c)) = log_of c @ l
     \<and> map req_method l \<in> {[], [GET], [GET, POST]}
     \<and> (\<forall>q\<in>set l. req_path q = (if req_method q = POST then js ''/api/custom-runs'' else js ''/api/auth/csrf''))"
proof -
  let ?o = "no_options\<lparr>opt_signal := Some g\<rparr>"
  let ?q = "csrf_request\<lparr>req_signal := Some g\<rparr>"
  have b: "build_request (js ''/api/auth/csrf'') ?o = Inr ?q"
    by (simp add: build_request_def json_payload_def set_header_def no_options_def csrf_request_def)
  obtain r c1 where r: "requestJson (logged N) (js ''/api/auth/csrf'') csrfSchema ?o c = (r, c1)"
    by (cases "requestJson (logged N) (js ''/api/auth/csrf'') csrfSchema ?o c")
  then have c1: "log_of c1 = log_of c @ [?q]"
    using requestJson_log [of N "js ''/api/auth/csrf''" csrfSchema ?o c] b by simp
  have get: "req_method ?q = GET" "req_path ?q = js ''/api/auth/csrf''" by (simp_all add: csrf_request_def)
  show ?thesis
  proof (cases r)
    case (Inl e)
    then show ?thesis using r c1 get by (intro exI [of _ "[?q]"]) (simp add: createCustomRun_def bind_io_def)
  next
    case (Inr csrf)
    let ?p = "no_options\<lparr>opt_method := Some POST, opt_body := Some body, opt_expectedUserId := Some u,
      opt_csrfToken := Some (data_text (js ''token'') csrf), opt_signal := Some g\<rparr>"
    let ?l = "case build_request (js ''/api/custom-runs'') ?p of Inr q \<Rightarrow> [q] | Inl _ \<Rightarrow> []"
    obtain d c2 where d: "fetch_data (logged N) (js ''/api/custom-runs'') runSchema ?p c1 = (d, c2)"
      by (cases "fetch_data (logged N) (js ''/api/custom-runs'') runSchema ?p c1")
    then have "log_of c2 = log_of c1 @ ?l"
      using fetch_data_log [of N "js ''/api/custom-runs''" runSchema ?p c1] by simp
    moreover have "req_method q = POST \<and> req_path q = js ''/api/custom-runs''"
      if "build_request (js ''/api/custom-runs'') ?p = Inr q" for q
      using that by (auto simp: build_request_def bind_result_Inr_iff)
    ultimately show ?thesis
      using r c1 get d Inr
      by (intro exI [of _ "?q # ?l"])
        (cases d; auto simp: createCustomRun_def bind_io_def simp del: js_Cons split: sum.split if_splits)
  qed
qed

theorem custom_run_posted_once_witness:
  "\<exists>l. log_of (snd (createCustomRun (logged offline) (JObj []) (js ''u'') no_signal
        \<lparr>server = ([], ()), csrfToken = None\<rparr>)) = [] @ l \<and> map req_method l \<in> {[], [GET], [GET, POST]}"
  using custom_run_posted_once [of offline "JObj []" "js ''u''" no_signal "\<lparr>server = ([], ()), csrfToken = None\<rparr>"]
  by auto

section \<open>Values and errors of a request\<close>

text \<open>
  C38. What a caller of \<open>requestJson\<close> may rely on, when zod behaves as documented and the headers
  hold legal values. A value comes from a success response whose body the schema accepted and whose
  request id is the one of the header; 201 and 202 bring a location. A failure is an \<open>ApiError\<close>
  whose status, code and request id are present exactly when the server sent a problem.
\<close>

theorem request_json_contract:
  assumes "zod P U D" and "net_parse N = P" and "header_safe opts" and "foreign_fetch N"
  shows "case fst (requestJson N path z opts c) of
      Inr v \<Rightarrow> (\<exists>q r i. build_request path opts = Inr q \<and> fst (net_fetch N q (server c)) = Inr r
          \<and> resp_ok r \<and> res_status v = resp_status r \<and> resp_status r \<noteq> 204
          \<and> header r (js ''x-request-id'') = Some i \<and> jget (js ''requestId'') (res_meta v) = JStr i
          \<and> (res_status v \<in> {201, 202} \<longrightarrow> res_location v \<noteq> None))
        \<and> (\<exists>raw. P z raw = Some (res_data v))
    | Inl e \<Rightarrow> clean_thrown e"
proof (cases "fst (requestJson N path z opts c)")
  case (Inr v)
  obtain q r where q: "build_request path opts = Inr q" "fst (net_fetch N q (server c)) = Inr r" "resp_ok r"
      "read_success N z r = Inr v"
    using zod.requestJson_ok [OF assms(1,2) Inr] by blast
  with zod.read_success_ok [OF assms(1,2) q(4)] Inr show ?thesis by auto
next
  case (Inl e)
  then have "clean_thrown e"
    using send_clean [OF assms(3,4)] zod.throwProblem_clean [OF assms(1,2)] zod.read_success_clean [OF assms(1)]
    by (auto simp: requestJson_def bind_io_Inl split: if_splits)
  then show ?thesis using Inl by simp
qed

lemma small_int_simps: "small_int (Fin 0)" "small_int (Fin 1)" "small_int (Fin 20)"
proof -
  show "small_int (Fin 0)" unfolding small_int_def by (intro exI [of _ 0]) (simp add: safe_bound_def)
  show "small_int (Fin 1)" unfolding small_int_def by (intro exI [of _ 1]) (simp add: safe_bound_def)
  show "small_int (Fin 20)" unfolding small_int_def by (intro exI [of _ 20]) (simp add: safe_bound_def)
qed

text \<open>A server that answers every request with the same body.\<close>

definition served_body :: "json \<Rightarrow> (jsstr \<times> json) list \<Rightarrow> json" where
  "served_body d extra = JObj [(js ''data'', d),
     (js ''meta'', JObj ((js ''requestId'', JStr (js ''req_0123456789abcdef'')) # extra))]"

definition served :: "json \<Rightarrow> (jsstr \<times> json) list \<Rightarrow> response" where
  "served d extra = \<lparr>resp_status = 200,
     resp_headers = [(js ''x-request-id'', js ''req_0123456789abcdef''), (js ''content-type'', js ''application/json'')],
     resp_body = Some (JSON_text (served_body d extra))\<rparr>"

definition serving :: "json \<Rightarrow> (jsstr \<times> json) list \<Rightarrow> unit net" where
  "serving d extra = offline\<lparr>net_fetch := (\<lambda>q w. (Inr (served d extra), w))\<rparr>"

abbreviation any_parse :: safe_parse where
  "any_parse \<equiv> zod_parse (\<lambda>_. True) (\<lambda>_ _. True)"

lemma serving_parses: "net_parse (serving d p) = any_parse"
  by (simp add: serving_def offline_def)

lemma served_json:
  assumes "printable (served_body d extra)"
  shows "readJson (served d extra) (js ''application/json'') = Inr (served_body d extra)"
proof -
  have "header (served d extra) (js ''content-type'') = Some (js ''application/json'')"
    by (simp add: header_def served_def)
  moreover have "to_lower (trim (hd (split_on 59 (js ''application/json'')))) = js ''application/json''" by code_simp
  ultimately have "mediaType (served d extra) = Some (js ''application/json'')"
    by (simp only: mediaType_def option.map)
  then show ?thesis using JSON_roundtrip [OF assms] by (simp add: readJson_def served_def)
qed

lemma served_id: "requireRequestId (serving d extra) (served d extra) = Inr (js ''req_0123456789abcdef'')"
proof -
  have "header (served d extra) (js ''x-request-id'') = Some (js ''req_0123456789abcdef'')"
    by (simp add: header_def served_def)
  moreover have "any_parse requestIdSchema (JStr (js ''req_0123456789abcdef'')) = Some (JStr (js ''req_0123456789abcdef''))"
    by code_simp
  ultimately show ?thesis by (simp add: requireRequestId_def serving_parses del: js_Cons)
qed

text \<open>What the requests of such a server return.\<close>

lemma serving_result:
  assumes "printable (served_body d extra)" and "any_parse (apiSuccessSchema z) (served_body d extra) = Some v"
    and "meta_id v = Some (js ''req_0123456789abcdef'')" and "build_request path opts = Inr q"
  shows "requestJson (serving d extra) path z opts c = (Inr \<lparr>res_data = jget (js ''data'') v,
     res_meta = jget (js ''meta'') v, res_status = 200, res_location = None\<rparr>, c)"
proof -
  have "fetch (serving d extra) q c = (Inr (served d extra), c)" by (simp add: fetch_def serving_def)
  moreover have "read_success (serving d extra) z (served d extra) = Inr \<lparr>res_data = jget (js ''data'') v,
     res_meta = jget (js ''meta'') v, res_status = 200, res_location = None\<rparr>"
    using assms(1-3) served_json served_id
    by (simp add: read_success_def serving_parses) (simp add: served_def header_def)
  ultimately show ?thesis
    using assms(4) by (simp add: requestJson_def send_def bind_io_def catch_io_def resp_ok_def) (simp add: served_def)
qed

abbreviation at_rest :: "unit client" where
  "at_rest \<equiv> \<lparr>server = (), csrfToken = None\<rparr>"

theorem request_json_contract_witness:
  "\<exists>v. fst (requestJson (serving anonymous []) (js ''/api/auth/session'') authSessionSchema no_options at_rest) = Inr v
     \<and> (\<exists>raw. zod_parse (\<lambda>_. True) (\<lambda>_ _. True) authSessionSchema raw = Some (res_data v))"
proof -
  let ?r = "requestJson (serving anonymous []) (js ''/api/auth/session'') authSessionSchema no_options at_rest"
  have p: "printable (served_body anonymous [])" by (simp add: served_body_def anonymous_def)
  have v: "any_parse (apiSuccessSchema authSessionSchema) (served_body anonymous []) = Some (served_body anonymous [])"
    "meta_id (served_body anonymous []) = Some (js ''req_0123456789abcdef'')" by code_simp+
  have q: "build_request (js ''/api/auth/session'') no_options = Inr (csrf_request\<lparr>req_path := js ''/api/auth/session''\<rparr>)"
    by code_simp
  note run = serving_result [OF p v q, of at_rest]
  have f: "foreign_fetch (serving anonymous [])" by (simp add: serving_def foreign_fetch_def)
  have h: "header_safe no_options" by (simp add: header_safe_def no_options_def)
  show ?thesis
    using request_json_contract [OF zp.zod_axioms serving_parses h f, where path = "js ''/api/auth/session''" and z = authSessionSchema
        and c = at_rest] run
    by (cases "fst ?r") auto
qed

section \<open>Endpoints\<close>

text \<open>
  The reads of the problem pages hand the pages only data their schemas accepted: a list has the
  kind of pagination the page needs and every item of it was accepted, and a single problem, the
  test data, the publish check and a submission were accepted as a whole.
\<close>

theorem page_reads_validated:
  assumes "zod P U D" and "net_parse N = P"
  shows "(fst (listProblems N se g c) = Inr p \<longrightarrow> (\<exists>items. paged_items p = JArr items
            \<and> (\<forall>x\<in>set items. \<exists>raw. P problemSummarySchema raw = Some x)
            \<and> jget (js ''kind'') (paged_pagination p) = JStr (js ''cursor'')))
    \<and> (fst (listAdminProblems N q st n g c) = Inr p \<longrightarrow> (\<exists>items. paged_items p = JArr items
            \<and> (\<forall>x\<in>set items. \<exists>raw. P adminSummarySchema raw = Some x)
            \<and> jget (js ''kind'') (paged_pagination p) = JStr (js ''page'')))
    \<and> (fst (getProblem N slug g c) = Inr v \<longrightarrow> (\<exists>raw. P problemDetailSchema raw = Some v))
    \<and> (fst (getAdminProblem N i g c) = Inr v \<longrightarrow> (\<exists>raw. P adminProblemSchema raw = Some v))
    \<and> (fst (getTestData N i g c) = Inr v \<longrightarrow> (\<exists>raw. P testDataSchema raw = Some v))
    \<and> (fst (getPublishCheck N i g c) = Inr v \<longrightarrow> (\<exists>raw. P publishCheckSchema raw = Some v))"
proof -
  have z: "zod_net P U D N" using assms by (simp add: zod_net_def zod_net_axioms_def)
  show ?thesis
    unfolding listProblems_def listAdminProblems_def getProblem_def getAdminProblem_def getTestData_def
      getPublishCheck_def
    by (intro conjI impI zod_net.paged_validated [OF z] zod_net.read_data_validated [OF z]) assumption+
qed

definition cursor_end :: "(jsstr \<times> json) list" where
  "cursor_end = [(js ''pagination'',
     JObj [(js ''kind'', JStr (js ''cursor'')), (js ''nextCursor'', JNull), (js ''hasMore'', JBool False)])]"

definition no_items :: json where
  "no_items = JObj [(js ''items'', JArr [])]"

theorem page_reads_validated_witness:
  "\<exists>p items. fst (listProblems (serving no_items cursor_end) [] None at_rest) = Inr p \<and> paged_items p = JArr items
     \<and> jget (js ''kind'') (paged_pagination p) = JStr (js ''cursor'')"
proof -
  have pr: "printable (served_body no_items cursor_end)"
    by (simp add: served_body_def no_items_def cursor_end_def)
  have v: "any_parse (apiSuccessSchema (itemsOf problemSummarySchema)) (served_body no_items cursor_end)
      = Some (served_body no_items cursor_end)"
    "meta_id (served_body no_items cursor_end) = Some (js ''req_0123456789abcdef'')" by code_simp+
  have q: "build_request (js ''/api/problems?'' @ query []) (no_options\<lparr>opt_signal := None\<rparr>)
      = Inr (csrf_request\<lparr>req_path := js ''/api/problems?''\<rparr>)" by code_simp
  have "jget (js ''kind'') (jget (js ''pagination'') (jget (js ''meta'') (served_body no_items cursor_end))) = JStr (js ''cursor'')"
    by code_simp
  then obtain p where p: "fst (listProblems (serving no_items cursor_end) [] None at_rest) = Inr p"
    using serving_result [OF pr v q, of at_rest]
    by (simp add: listProblems_def bind_io_def require_page_def pagination_kind_def)
  with page_reads_validated [OF zp.zod_axioms serving_parses [of no_items cursor_end],
      where se = "[]" and g = None and c = at_rest and p = p]
  show ?thesis by blast
qed

text \<open>
  Two searches that send the same query string ask for the same thing: the string determines
  the parameters, whatever the values contain.
\<close>

theorem query_determines_parameters:
  assumes "\<forall>(k, v) \<in> set (query_pairs a) \<union> set (query_pairs b). isWellFormed k \<and> isWellFormed v"
    and "query_pairs a \<noteq> []" and "query_pairs b \<noteq> []" and "query a = query b"
  shows "query_pairs a = query_pairs b"
  using assms by (intro params_text_inj) (auto simp: query_def list_all_iff)

theorem query_determines_parameters_witness:
  "query [(js ''q'', QText (js ''a&b=c''))] \<noteq> query [(js ''q'', QText (js ''a'')), (js ''b'', QText (js ''c''))]"
proof
  assume e: "query [(js ''q'', QText (js ''a&b=c''))] = query [(js ''q'', QText (js ''a'')), (js ''b'', QText (js ''c''))]"
  have "query_pairs [(js ''q'', QText (js ''a&b=c''))] = query_pairs [(js ''q'', QText (js ''a'')), (js ''b'', QText (js ''c''))]"
    by (rule query_determines_parameters [OF _ _ _ e]) code_simp+
  moreover have "(query_pairs [(js ''q'', QText (js ''a&b=c''))] = query_pairs [(js ''q'', QText (js ''a'')), (js ''b'', QText (js ''c''))]) = False"
    by code_simp
  ultimately show False by simp
qed

section \<open>The history of a problem\<close>

text \<open>
  A page of the history shows only what it asked for: the rows all belong to the problem, they
  were accepted by the submission schema, there are at most twenty, and the pagination is for the
  page asked for. A source that is shown belongs to the submission and the problem asked for and
  has at most 262144 bytes.
\<close>

theorem history_belongs_to_problem:
  assumes "zod P U D" and "net_parse N = P"
  shows "(fst (listProblemSubmissions N u pid h g c) = Inr p \<longrightarrow>
      (\<exists>rows. paged_items p = JArr rows \<and> length rows \<le> 20
        \<and> (\<forall>row\<in>set rows. jget (js ''problemId'') row = JStr pid \<and> (\<exists>raw. P submissionSchema raw = Some row))
        \<and> jget (js ''page'') (paged_pagination p) = JNum (Fin (of_int (page_of h)))))
    \<and> (fst (getHistorySource N u pid i g c) = Inr v \<longrightarrow>
        jget (js ''submissionId'') v = JStr i \<and> jget (js ''problemId'') v = JStr pid
        \<and> (\<exists>s. jget (js ''source'') v = JStr s \<and> byteLength s \<le> 262144))"
proof (intro conjI impI)
  have z: "zod_net P U D N" using assms by (simp add: zod_net_def zod_net_axioms_def)
  assume "fst (listProblemSubmissions N u pid h g c) = Inr p"
  then obtain path opts r c' where r: "requestJson N path (ZArray submissionSchema (Some 20)) opts c = (Inr r, c')"
      "check_history pid h r = Inr p"
    by (auto simp: listProblemSubmissions_def bind_io_Inr)
  obtain raw where raw: "P (ZArray submissionSchema (Some 20)) raw = Some (res_data r)"
    using zod_net.request_validated [OF z, of path "ZArray submissionSchema (Some 20)" opts c r] r(1) by auto
  obtain rows where rows: "res_data r = JArr rows"
      and each: "\<And>x. x \<in> set rows \<Longrightarrow> \<exists>raw. P submissionSchema raw = Some x"
    by (rule zod.array_elems [OF assms(1) raw]) blast
  moreover have "length rows \<le> 20" using zod.array_bound [OF assms(1) raw] rows by simp
  ultimately show "\<exists>rows. paged_items p = JArr rows \<and> length rows \<le> 20
      \<and> (\<forall>row\<in>set rows. jget (js ''problemId'') row = JStr pid \<and> (\<exists>raw. P submissionSchema raw = Some row))
      \<and> jget (js ''page'') (paged_pagination p) = JNum (Fin (of_int (page_of h)))"
    using r(2) by (auto simp: check_history_def Let_def json_items_def list_ex_iff simp del: js_Cons split: if_splits)
next
  assume "fst (getHistorySource N u pid i g c) = Inr v"
  then obtain path c' opts where v: "fetch_data N path sourceSchema opts c = (Inr v, c')"
      "jget (js ''submissionId'') v = JStr i" "jget (js ''problemId'') v = JStr pid"
    by (auto simp: getHistorySource_def bind_io_Inr simp del: js_Cons split: if_splits)
  have z: "zod_net P U D N" using assms by (simp add: zod_net_def zod_net_axioms_def)
  obtain raw where "P sourceSchema raw = Some v" using zod_net.fetch_data_validated [OF z, of path sourceSchema opts c v] v(1) by auto
  from zod.object_SomeD [OF assms(1) this [unfolded sourceSchema_def], of "js ''source''"]
  have "P (ZRefine (ZString [SMax 262144]) (fits_bytes 262144)) (jget (js ''source'') raw) = Some (jget (js ''source'') v)"
    by simp
  then have "fits_bytes 262144 (jget (js ''source'') v)"
    by (auto simp: zod.refine_law [OF assms(1)] split: option.splits if_splits)
  then show "jget (js ''submissionId'') v = JStr i" "jget (js ''problemId'') v = JStr pid"
    "\<exists>s. jget (js ''source'') v = JStr s \<and> byteLength s \<le> 262144"
    using v by (auto simp: fits_bytes_def split: json.splits)
qed

definition first_page :: "(jsstr \<times> json) list" where
  "first_page = [(js ''pagination'', JObj [(js ''kind'', JStr (js ''page'')), (js ''page'', JNum (Fin 1)),
     (js ''size'', JNum (Fin 20)), (js ''totalElements'', JNum (Fin 0)), (js ''totalPages'', JNum (Fin 0))])]"

theorem history_belongs_to_problem_witness:
  "\<exists>p rows. fst (listProblemSubmissions (serving (JArr []) first_page) (js ''u'') (js ''p'')
        \<lparr>historyPage = None, historyVerdict = None\<rparr> no_signal at_rest) = Inr p
     \<and> paged_items p = JArr rows \<and> length rows \<le> 20"
proof -
  let ?h = "\<lparr>historyPage = None, historyVerdict = None\<rparr>" and ?b = "served_body (JArr []) first_page"
  let ?o = "no_options\<lparr>opt_signal := Some no_signal, opt_expectedUserId := Some (js ''u'')\<rparr>"
  have pr: "printable ?b" by (simp add: served_body_def first_page_def small_int_simps)
  have v: "any_parse (apiSuccessSchema (ZArray submissionSchema (Some 20))) ?b = Some ?b"
    "meta_id ?b = Some (js ''req_0123456789abcdef'')" by code_simp+
  have "isl (build_request (js ''/api/submissions?'' @ submissions_query (js ''p'') ?h) ?o) = False"
    by (simp add: build_request_def json_payload_def no_options_def set_header_def) code_simp
  then obtain q where q: "build_request (js ''/api/submissions?'' @ submissions_query (js ''p'') ?h) ?o = Inr q"
    by (cases "build_request (js ''/api/submissions?'' @ submissions_query (js ''p'') ?h) ?o") auto
  have "isl (check_history (js ''p'') ?h \<lparr>res_data = jget (js ''data'') ?b, res_meta = jget (js ''meta'') ?b,
      res_status = 200, res_location = None\<rparr>) = False" by code_simp
  then obtain p where "check_history (js ''p'') ?h \<lparr>res_data = jget (js ''data'') ?b, res_meta = jget (js ''meta'') ?b,
      res_status = 200, res_location = None\<rparr> = Inr p" by (metis isl_def sum.exhaust)
  then have "fst (listProblemSubmissions (serving (JArr []) first_page) (js ''u'') (js ''p'')
        ?h no_signal at_rest) = Inr p"
    using serving_result [OF pr v q, of at_rest]
    by (simp add: listProblemSubmissions_def bind_io_def del: js_Cons)
  with history_belongs_to_problem [OF zp.zod_axioms serving_parses [of "JArr []" first_page], where u = "js ''u''"
      and pid = "js ''p''" and p = p and h = ?h and g = no_signal and c = at_rest]
  show ?thesis by blast
qed

text \<open>
  Nothing private is shown to another account: a guarded history read returns a value only
  when the session belonged to the account both when the read started and when it ended, and makes
  no request at all when it did not at the start. A session that ends meanwhile turns the value
  into the error that also drops the cached session.
\<close>

lemma history_identity_guard:
  "(outcome (withHistoryIdentity s0 s1 u got) = Inr v \<longleftrightarrow>
      got = Inr v \<and> session_is s0 u \<and> session_is s1 u)
   \<and> (was_read (withHistoryIdentity s0 s1 u got) \<longleftrightarrow> session_is s0 u)
   \<and> (session_is s0 u \<and> got = Inr v \<and> \<not> session_is s1 u \<longrightarrow>
        outcome (withHistoryIdentity s0 s1 u got) = Inl sessionChanged
        \<and> invalidates (withHistoryIdentity s0 s1 u got))"
  by (cases got) (auto simp: withHistoryIdentity_def Let_def sessionChanged_def isPrivateAccessError_def plain_error_def)

section \<open>Tokens with calls in flight\<close>

text \<open>
  C7. Whatever calls overlap and whichever answers arrive late: an operation is started at most
  twice, each time with a token that a request of the module brought, and the token of the second
  start was asked for after the first was rejected.
\<close>

theorem csrf_operation_runs:
  assumes "csrf_reach s" and "active s i = Some x"
  shows "length (runs x) \<le> 2 \<and> (\<forall>(t, k)\<in>set (runs x). k < length (fetches s) \<and> fetches s ! k = Got t)
    \<and> (\<forall>p q. runs x = [p, q] \<longrightarrow> (\<exists>n. rejectedAt x = Some n \<and> n \<le> snd q))"
proof -
  have x: "phase_ok s x (phase x)" "list_all (brought s) (runs x)"
    using csrf_invD(3) [OF csrf_reach_inv [OF assms(1)] assms(2)] by auto
  have "length (runs x) \<le> 2 \<and> (\<forall>p q. runs x = [p, q] \<longrightarrow> (\<exists>n. rejectedAt x = Some n \<and> n \<le> snd q))"
    using x(1) by (cases "phase x") (auto split: if_splits)
  then show ?thesis using x(2) by (auto simp: list_all_iff brought_def)
qed

theorem csrf_operation_runs_witness:
  "length (runs (the (active (start_call 0 (csrf_init :: unit csrf_state)) 0))) \<le> 2"
proof -
  let ?s = "start_call 0 (csrf_init :: unit csrf_state)"
  have "csrf_reach ?s" by (rule csrf_reach.step [OF csrf_reach.initial csrf_step.start]) (simp add: csrf_init_def)
  moreover have "active ?s 0 = Some \<lparr>phase = Waiting 0 False, runs = [], rejectedAt = None\<rparr>"
    by (simp add: start_call_def csrf_init_def begin_load_def set_call_def)
  ultimately show ?thesis using csrf_operation_runs [of ?s 0] by auto
qed

end
