(* ===== verification/Theme.thy ===== *)
theory Theme
  imports Js_Json
begin

text \<open>
  The colour theme of a page: \<open>lib/theme/theme-runtime.ts\<close>, the registry
  \<open>generated/design-system/themes.ts\<close> and the switcher \<open>app/shells/theme-switcher.tsx\<close>. A page
  holds the attributes of its root element, the snapshot it shows to React and its listeners; the
  storage is shared with other pages and every access to it may fail. The theorems say that page and
  attributes always agree on a registered theme, that a remembered choice survives a reload, that an
  open page follows the storage, and that the switcher visits every theme.
\<close>

section \<open>The registry\<close>

datatype ThemeColorScheme = Dark | Light

record ThemeDefinition =
  theme_id :: jsstr
  theme_label :: jsstr
  colorScheme :: ThemeColorScheme
  theme_file :: jsstr
  theme_version :: int

definition themeRegistry :: "ThemeDefinition list" where
  "themeRegistry =
     [\<lparr>theme_id = js ''cherry-black'', theme_label = js ''Cherry Black'', colorScheme = Dark,
       theme_file = js ''themes/cherry-black.css'', theme_version = 2\<rparr>,
      \<lparr>theme_id = js ''pure-white'', theme_label = js ''Pure White'', colorScheme = Light,
       theme_file = js ''themes/pure-white.css'', theme_version = 2\<rparr>]"

definition themeSelectorAttribute :: jsstr where
  "themeSelectorAttribute = js ''data-theme''"

definition colorSchemeAttribute :: jsstr where
  "colorSchemeAttribute = js ''data-color-scheme''"

definition defaultThemeId :: jsstr where
  "defaultThemeId = js ''cherry-black''"

definition fallbackThemeId :: jsstr where
  "fallbackThemeId = js ''cherry-black''"

definition themeStorageKey :: jsstr where
  "themeStorageKey = js ''cherry-oj.theme''"

definition scheme_text :: "ThemeColorScheme \<Rightarrow> jsstr" where
  "scheme_text s = (case s of Dark \<Rightarrow> js ''dark'' | Light \<Rightarrow> js ''light'')"

section \<open>Values and definitions\<close>

definition isThemeId :: "json \<Rightarrow> bool" where
  "isThemeId v = (case v of JStr s \<Rightarrow> list_ex (\<lambda>t. theme_id t = s) themeRegistry | _ \<Rightarrow> False)"

definition resolveTheme :: "json \<Rightarrow> jsstr" where
  "resolveTheme v =
     (case v of
        JNull \<Rightarrow> defaultThemeId
      | JUndef \<Rightarrow> defaultThemeId
      | JStr s \<Rightarrow> if trim s = [] then defaultThemeId else if isThemeId (JStr s) then s else fallbackThemeId
      | _ \<Rightarrow> fallbackThemeId)"

text \<open>The error is the text of the exception, without its prefix.\<close>

definition getThemeDefinition :: "jsstr \<Rightarrow> (jsstr, ThemeDefinition) result" where
  "getThemeDefinition i = (case find (\<lambda>t. theme_id t = i) themeRegistry of Some d \<Rightarrow> Inr d | None \<Rightarrow> Inl i)"

record ThemeSnapshot =
  themeId :: jsstr
  snap_scheme :: ThemeColorScheme

type_synonym attributes = "jsstr \<rightharpoonup> jsstr"

definition applyTheme :: "attributes \<Rightarrow> jsstr \<Rightarrow> (jsstr, ThemeSnapshot \<times> attributes) result" where
  "applyTheme attrs i =
     bind_result (getThemeDefinition i) (\<lambda>d.
       Inr (\<lparr>themeId = theme_id d, snap_scheme = colorScheme d\<rparr>,
            attrs(themeSelectorAttribute \<mapsto> theme_id d, colorSchemeAttribute \<mapsto> scheme_text (colorScheme d))))"

section \<open>Storage\<close>

text \<open>What the browser lets the page do at the moment of a call.\<close>

record store_access =
  no_storage :: bool
  get_throws :: bool
  set_throws :: bool
  remove_throws :: bool

type_synonym store = "jsstr \<rightharpoonup> jsstr"

definition removeStoredTheme :: "store_access \<Rightarrow> store \<Rightarrow> store" where
  "removeStoredTheme a st = (if no_storage a \<or> remove_throws a then st else st(themeStorageKey := None))"

datatype stored_status = Missing | Valid | Invalid | Unavailable

record StoredThemeRead =
  stored_id :: jsstr
  stored_status :: stored_status

definition readStoredTheme :: "store_access \<Rightarrow> store \<Rightarrow> StoredThemeRead \<times> store" where
  "readStoredTheme a st =
     (if no_storage a \<or> get_throws a then (\<lparr>stored_id = fallbackThemeId, stored_status = Unavailable\<rparr>, st)
      else case st themeStorageKey of
             None \<Rightarrow> (\<lparr>stored_id = defaultThemeId, stored_status = Missing\<rparr>, st)
           | Some v \<Rightarrow>
               if isThemeId (JStr v) then (\<lparr>stored_id = v, stored_status = Valid\<rparr>, st)
               else (\<lparr>stored_id = resolveTheme (JStr v), stored_status = Invalid\<rparr>, removeStoredTheme a st))"

definition persistTheme :: "store_access \<Rightarrow> jsstr \<Rightarrow> store \<Rightarrow> bool \<times> store" where
  "persistTheme a i st =
     (if no_storage a \<or> set_throws a then (False, st) else (True, st(themeStorageKey \<mapsto> i)))"

section \<open>The controller\<close>

text \<open>\<open>theme_listeners\<close> is a set kept in the order of insertion, \<open>theme_calls\<close> the notifications made so far;
  \<open>stopListening\<close> names the cleanup that is current, \<open>starts\<close> counts the cleanups made.\<close>

record theme_page =
  root_attrs :: attributes
  theme_snapshot :: ThemeSnapshot
  stopListening :: "nat option"
  starts :: nat
  theme_listeners :: "nat list"
  theme_calls :: "nat list"

definition createThemeController ::
    "store_access \<Rightarrow> attributes \<Rightarrow> store \<Rightarrow> (jsstr, theme_page) result \<times> store" where
  "createThemeController a attrs st =
     (case readStoredTheme a st of (stored, st') \<Rightarrow>
        let rootTheme = attrs themeSelectorAttribute;
            initialTheme = (case rootTheme of
               Some i \<Rightarrow> if isThemeId (JStr i) then i else stored_id stored
             | None \<Rightarrow> stored_id stored)
        in (bind_result (applyTheme attrs initialTheme) (\<lambda>(s, attrs').
              Inr \<lparr>root_attrs = attrs', theme_snapshot = s, stopListening = None, starts = 0, theme_listeners = [], theme_calls = []\<rparr>), st'))"

definition commit :: "jsstr \<Rightarrow> theme_page \<Rightarrow> (jsstr, theme_page) result" where
  "commit i p =
     bind_result (applyTheme (root_attrs p) i) (\<lambda>(s, attrs).
       Inr (if themeId (theme_snapshot p) = themeId s \<and> snap_scheme (theme_snapshot p) = snap_scheme s
            then p\<lparr>root_attrs := attrs\<rparr>
            else p\<lparr>root_attrs := attrs, theme_snapshot := s, theme_calls := theme_calls p @ theme_listeners p\<rparr>))"

datatype storage_area = AreaUndefined | AreaNull | AreaOwn | AreaOther

record storage_event =
  event_key :: "jsstr option"
  newValue :: "jsstr option"
  storageArea :: storage_area

definition value_json :: "jsstr option \<Rightarrow> json" where
  "value_json v = (case v of None \<Rightarrow> JNull | Some s \<Rightarrow> JStr s)"

definition own_area :: "store_access \<Rightarrow> storage_area" where
  "own_area a = (if no_storage a then AreaNull else AreaOwn)"

definition handleStorage ::
    "store_access \<Rightarrow> storage_event \<Rightarrow> theme_page \<Rightarrow> store \<Rightarrow> (jsstr, theme_page) result \<times> store" where
  "handleStorage a e p st =
     (if event_key e \<noteq> None \<and> event_key e \<noteq> Some themeStorageKey then (Inr p, st)
      else if storageArea e \<noteq> AreaUndefined \<and> storageArea e \<noteq> own_area a then (Inr p, st)
      else
        let nextTheme = (if event_key e = None then defaultThemeId else resolveTheme (value_json (newValue e)));
            st' = (if event_key e = Some themeStorageKey \<and> newValue e \<noteq> None \<and> \<not> isThemeId (value_json (newValue e))
                   then removeStoredTheme a st else st)
        in (commit nextTheme p, st'))"

record ThemeSetResult =
  set_id :: jsstr
  persisted :: bool

definition setTheme ::
    "store_access \<Rightarrow> json \<Rightarrow> theme_page \<Rightarrow> store \<Rightarrow> (jsstr, ThemeSetResult \<times> theme_page) result \<times> store" where
  "setTheme a v p st =
     (let resolvedTheme = resolveTheme v
      in case commit resolvedTheme p of
           Inl e \<Rightarrow> (Inl e, st)
         | Inr p' \<Rightarrow> (case persistTheme a resolvedTheme st of (ok, st') \<Rightarrow>
             (Inr (\<lparr>set_id = resolvedTheme, persisted = ok\<rparr>, p'), st')))"

definition start :: "theme_page \<Rightarrow> nat \<times> theme_page" where
  "start p =
     (case stopListening p of
        Some k \<Rightarrow> (k, p)
      | None \<Rightarrow> (starts p, p\<lparr>stopListening := Some (starts p), starts := starts p + 1\<rparr>))"

definition cleanup :: "nat \<Rightarrow> theme_page \<Rightarrow> theme_page" where
  "cleanup k p = (if stopListening p \<noteq> Some k then p else p\<lparr>stopListening := None\<rparr>)"

definition theme_subscribe :: "nat \<Rightarrow> theme_page \<Rightarrow> theme_page" where
  "theme_subscribe l p = p\<lparr>theme_listeners := (if l \<in> set (theme_listeners p) then theme_listeners p else theme_listeners p @ [l])\<rparr>"

definition theme_unsubscribe :: "nat \<Rightarrow> theme_page \<Rightarrow> theme_page" where
  "theme_unsubscribe l p = p\<lparr>theme_listeners := filter (\<lambda>m. m \<noteq> l) (theme_listeners p)\<rparr>"

text \<open>\<open>document\<close> and \<open>window\<close> are there, or the constructor throws.\<close>

definition createBrowserThemeController ::
    "bool \<Rightarrow> store_access \<Rightarrow> attributes \<Rightarrow> store \<Rightarrow> (jsstr, theme_page) result \<times> store" where
  "createBrowserThemeController browser a attrs st =
     (if browser then createThemeController a attrs st else (Inl [], st))"

section \<open>The switcher\<close>

definition findIndex :: "('a \<Rightarrow> bool) \<Rightarrow> 'a list \<Rightarrow> int" where
  "findIndex P xs = (if list_ex P xs then int (length (takeWhile (\<lambda>x. \<not> P x) xs)) else -1)"

definition getNextTheme :: "ThemeDefinition list \<Rightarrow> jsstr \<Rightarrow> ThemeDefinition option" where
  "getNextTheme registry i =
     (if length registry \<le> 1 then None
      else let currentIndex = findIndex (\<lambda>t. theme_id t = i) registry;
               nextIndex = (if currentIndex < 0 then 0 else nat ((currentIndex + 1) mod int (length registry)))
           in if nextIndex < length registry then Some (registry ! nextIndex) else None)"

datatype switcher_text = OnlyTheme jsstr | SwitchTo jsstr | Silent | Switched jsstr | SwitchedNotKept jsstr

record switcher =
  switch_label :: switcher_text
  target_icon :: ThemeColorScheme
  switch_disabled :: bool

definition ThemeSwitcherView :: "jsstr \<Rightarrow> (jsstr, switcher) result" where
  "ThemeSwitcherView i =
     bind_result (getThemeDefinition i) (\<lambda>currentTheme.
       let nextTheme = getNextTheme themeRegistry i;
           targetTheme = (case nextTheme of Some t \<Rightarrow> t | None \<Rightarrow> currentTheme)
       in Inr \<lparr>switch_label = (if nextTheme = None then OnlyTheme (theme_label currentTheme) else SwitchTo (theme_label targetTheme)),
               target_icon = colorScheme targetTheme, switch_disabled = (nextTheme = None)\<rparr>)"

definition switchTheme ::
    "store_access \<Rightarrow> switcher_text \<Rightarrow> theme_page \<Rightarrow> store \<Rightarrow> (jsstr, switcher_text \<times> theme_page) result \<times> store" where
  "switchTheme a announcement p st =
     (case getNextTheme themeRegistry (themeId (theme_snapshot p)) of
        None \<Rightarrow> (Inr (announcement, p), st)
      | Some t \<Rightarrow> (case setTheme a (JStr (theme_id t)) p st of
            (Inl e, st') \<Rightarrow> (Inl e, st')
          | (Inr (r, p'), st') \<Rightarrow>
              (Inr (if persisted r then Switched (theme_label t) else SwitchedNotKept (theme_label t), p'), st')))"

section \<open>Executions of a page\<close>

text \<open>A page with the storage it shares: its own theme_calls, storage events while it listens, and what
  other pages do to the storage.\<close>

inductive theme_step :: "theme_page \<times> store \<Rightarrow> theme_page \<times> store \<Rightarrow> bool" where
  choose: "setTheme a v p st = (Inr (r, p'), st') \<Longrightarrow> theme_step (p, st) (p', st')"
| event: "stopListening p \<noteq> None \<Longrightarrow> handleStorage a e p st = (Inr p', st') \<Longrightarrow> theme_step (p, st) (p', st')"
| started: "start p = (k, p') \<Longrightarrow> theme_step (p, st) (p', st)"
| stopped: "theme_step (p, st) (cleanup k p, st)"
| subscribed: "theme_step (p, st) (theme_subscribe l p, st)"
| unsubscribed: "theme_step (p, st) (theme_unsubscribe l p, st)"
| elsewhere: "theme_step (p, st) (p, st')"

inductive theme_reach :: "theme_page \<times> store \<Rightarrow> bool" where
  opened: "createThemeController a attrs st = (Inr p, st') \<Longrightarrow> theme_reach (p, st')"
| step: "theme_reach s \<Longrightarrow> theme_step s s' \<Longrightarrow> theme_reach s'"

section \<open>Facts\<close>

lemma registered: "isThemeId (JStr i) \<longleftrightarrow> i \<in> {js ''cherry-black'', js ''pure-white''}"
  by (auto simp: isThemeId_def themeRegistry_def simp del: js_Cons)

lemma resolve_registered: "isThemeId (JStr (resolveTheme v))"
  unfolding registered
  by (cases v) (auto simp: resolveTheme_def registered defaultThemeId_def fallbackThemeId_def simp del: js_Cons)

lemma trim_theme: "isThemeId (JStr s) \<Longrightarrow> trim s \<noteq> []"
proof -
  have "trim (js ''cherry-black'') = [] \<longleftrightarrow> False" "trim (js ''pure-white'') = [] \<longleftrightarrow> False" by code_simp+
  then show "isThemeId (JStr s) \<Longrightarrow> trim s \<noteq> []" unfolding registered by auto
qed

lemma resolve_id: "isThemeId (JStr s) \<Longrightarrow> resolveTheme (JStr s) = s"
  by (simp add: resolveTheme_def trim_theme)

lemma getThemeDefinition_ok:
  "isThemeId (JStr i) \<Longrightarrow> \<exists>d\<in>set themeRegistry. getThemeDefinition i = Inr d \<and> theme_id d = i"
proof -
  assume "isThemeId (JStr i)"
  then have "\<exists>t\<in>set themeRegistry. theme_id t = i" by (simp add: isThemeId_def list_ex_iff)
  then obtain d where "find (\<lambda>t. theme_id t = i) themeRegistry = Some d"
    by (cases "find (\<lambda>t. theme_id t = i) themeRegistry") (auto simp: find_None_iff)
  moreover from this have "d \<in> set themeRegistry" "theme_id d = i" by (auto simp: find_Some_iff)
  ultimately show ?thesis by (auto simp: getThemeDefinition_def)
qed

definition agrees :: "theme_page \<Rightarrow> bool" where
  "agrees p \<longleftrightarrow> (\<exists>d\<in>set themeRegistry. theme_snapshot p = \<lparr>themeId = theme_id d, snap_scheme = colorScheme d\<rparr>
     \<and> root_attrs p themeSelectorAttribute = Some (theme_id d)
     \<and> root_attrs p colorSchemeAttribute = Some (scheme_text (colorScheme d)))"

lemma attributes_differ: "themeSelectorAttribute \<noteq> colorSchemeAttribute"
  by (simp add: themeSelectorAttribute_def colorSchemeAttribute_def)

lemma snapshot_by_id:
  "d \<in> set themeRegistry \<Longrightarrow> d' \<in> set themeRegistry \<Longrightarrow> theme_id d = theme_id d' \<Longrightarrow> d = d'"
proof -
  have "js ''cherry-black'' \<noteq> js ''pure-white''" by code_simp
  then show "d \<in> set themeRegistry \<Longrightarrow> d' \<in> set themeRegistry \<Longrightarrow> theme_id d = theme_id d' \<Longrightarrow> d = d'"
    by (auto simp: themeRegistry_def simp del: js_Cons)
qed

lemma commit_ok:
  assumes "isThemeId (JStr i)"
  shows "\<exists>p'. commit i p = Inr p' \<and> agrees p' \<and> (agrees p \<longrightarrow> themeId (theme_snapshot p') = i)"
proof -
  obtain d where d: "d \<in> set themeRegistry" "getThemeDefinition i = Inr d" "theme_id d = i"
    using getThemeDefinition_ok [OF assms] by blast
  have "agrees (p\<lparr>root_attrs := (root_attrs p)(themeSelectorAttribute \<mapsto> theme_id d, colorSchemeAttribute \<mapsto> scheme_text (colorScheme d))\<rparr>)"
    if "themeId (theme_snapshot p) = theme_id d" "snap_scheme (theme_snapshot p) = colorScheme d"
    using that d(1) attributes_differ unfolding agrees_def
    by (intro bexI [of _ d]) (auto intro: ThemeSnapshot.equality)
  moreover have "agrees (p\<lparr>root_attrs := (root_attrs p)(themeSelectorAttribute \<mapsto> theme_id d, colorSchemeAttribute \<mapsto> scheme_text (colorScheme d)),
      theme_snapshot := \<lparr>themeId = theme_id d, snap_scheme = colorScheme d\<rparr>, theme_calls := c\<rparr>)" for c
    using d(1) attributes_differ unfolding agrees_def by (intro bexI [of _ d]) auto
  ultimately show ?thesis
    using d by (auto simp: commit_def applyTheme_def)
qed

lemma setTheme_ok:
  "\<exists>r p' st'. setTheme a v p st = (Inr (r, p'), st') \<and> agrees p'"
  using commit_ok [OF resolve_registered, of v p]
  by (auto simp: setTheme_def Let_def split: prod.split)

lemma handleStorage_ok:
  "agrees p \<Longrightarrow> \<exists>p' st'. handleStorage a e p st = (Inr p', st') \<and> agrees p'"
proof -
  have "isThemeId (JStr (if event_key e = None then defaultThemeId else resolveTheme (value_json (newValue e))))"
    using resolve_registered by (simp add: registered defaultThemeId_def del: js_Cons)
  then show "agrees p \<Longrightarrow> \<exists>p' st'. handleStorage a e p st = (Inr p', st') \<and> agrees p'"
    using commit_ok [of _ p] by (fastforce simp: handleStorage_def Let_def)
qed

lemma create_ok:
  "\<exists>p. fst (createThemeController a attrs st) = Inr p \<and> agrees p
     \<and> (attrs themeSelectorAttribute = None \<longrightarrow> themeId (theme_snapshot p) = stored_id (fst (readStoredTheme a st)))"
proof -
  define i where "i = (case attrs themeSelectorAttribute of
      Some i \<Rightarrow> if isThemeId (JStr i) then i else stored_id (fst (readStoredTheme a st))
    | None \<Rightarrow> stored_id (fst (readStoredTheme a st)))"
  have "isThemeId (JStr (stored_id (fst (readStoredTheme a st))))"
    using resolve_registered
    by (auto simp: readStoredTheme_def registered defaultThemeId_def fallbackThemeId_def simp del: js_Cons split: option.split)
  then have "isThemeId (JStr i)" by (auto simp: i_def split: option.split)
  then obtain d where d: "d \<in> set themeRegistry" "getThemeDefinition i = Inr d" "theme_id d = i"
    using getThemeDefinition_ok by blast
  then have "fst (createThemeController a attrs st) = Inr \<lparr>root_attrs = attrs(themeSelectorAttribute \<mapsto> theme_id d,
      colorSchemeAttribute \<mapsto> scheme_text (colorScheme d)),
      theme_snapshot = \<lparr>themeId = theme_id d, snap_scheme = colorScheme d\<rparr>, stopListening = None, starts = 0, theme_listeners = [], theme_calls = []\<rparr>"
    by (simp add: createThemeController_def applyTheme_def case_prod_beta Let_def flip: i_def)
  moreover have "attrs themeSelectorAttribute = None \<longrightarrow> theme_id d = stored_id (fst (readStoredTheme a st))"
    using d(3) by (simp add: i_def)
  ultimately show ?thesis using d(1) attributes_differ by (auto simp: agrees_def)
qed

lemmas page_updates = start_def cleanup_def theme_subscribe_def theme_unsubscribe_def agrees_def

section \<open>Properties\<close>

text \<open>
  At every moment of a page's life, whatever the storage refuses and whatever other pages or the
  user write, the root element and the snapshot agree on one registered theme and its colour scheme,
  and the next choice or storage event finds its theme and does not throw.
\<close>

lemma theme_page_coherent:
  assumes "theme_reach s"
  shows "(\<exists>d\<in>set themeRegistry. theme_snapshot (fst s) = \<lparr>themeId = theme_id d, snap_scheme = colorScheme d\<rparr>
      \<and> root_attrs (fst s) themeSelectorAttribute = Some (theme_id d)
      \<and> root_attrs (fst s) colorSchemeAttribute = Some (scheme_text (colorScheme d)))
    \<and> (\<exists>r. fst (setTheme a v (fst s) (snd s)) = Inr r) \<and> (\<exists>p. fst (handleStorage a e (fst s) (snd s)) = Inr p)"
proof -
  have "agrees (fst s)" using assms
  proof (induction rule: theme_reach.induct)
    case (opened a attrs st p st')
    then show ?case using create_ok [of a attrs st] by auto
  next
    case (step s s')
    from step.hyps(2) show ?case
    proof (cases rule: theme_step.cases)
      case (choose a v p st r p' st')
      then show ?thesis using setTheme_ok [of a v p st] by auto
    next
      case (event p a e st p' st')
      then show ?thesis using step.IH handleStorage_ok [of p a e st] by auto
    qed (use step.IH in \<open>auto simp: page_updates split: option.splits\<close>)
  qed
  then show ?thesis
    using setTheme_ok [of a v "fst s" "snd s"] handleStorage_ok [of "fst s" a e "snd s"]
    unfolding agrees_def by force
qed

definition open_access :: store_access where
  "open_access = \<lparr>no_storage = False, get_throws = False, set_throws = False, remove_throws = False\<rparr>"

text \<open>
  A choice the page reports as remembered is the theme a page opened next shows, and the page
  that made the choice shows it at once, remembered or not.
\<close>

theorem theme_choice_reloads:
  assumes "agrees p" and "setTheme a v p st = (Inr (r, p'), st')"
    and "persisted r" and "\<not> no_storage b" and "\<not> get_throws b"
  shows "themeId (theme_snapshot p') = resolveTheme v
    \<and> (\<exists>q. fst (createThemeController b Map.empty st') = Inr q \<and> themeId (theme_snapshot q) = resolveTheme v)"
proof -
  obtain p1 where p1: "commit (resolveTheme v) p = Inr p1" "themeId (theme_snapshot p1) = resolveTheme v"
    using commit_ok [OF resolve_registered] assms(1) by blast
  then have st': "st' = st(themeStorageKey \<mapsto> resolveTheme v)" and p': "p' = p1"
    using assms(2,3) by (auto simp: setTheme_def Let_def persistTheme_def split: if_splits)
  have "stored_id (fst (readStoredTheme b st')) = resolveTheme v"
    using resolve_registered [of v] assms(4,5) by (simp add: readStoredTheme_def st')
  then show ?thesis using create_ok [of b Map.empty st'] p1(2) p' by auto
qed

theorem theme_choice_reloads_witness:
  "\<exists>q st'. fst (createThemeController open_access Map.empty st') = Inr q \<and> themeId (theme_snapshot q) = js ''pure-white''"
proof -
  obtain p where p: "agrees p" using create_ok by blast
  obtain r p' st' where s: "setTheme open_access (JStr (js ''pure-white'')) p Map.empty = (Inr (r, p'), st')"
    using setTheme_ok by blast
  have "persisted r"
    using s by (auto simp: setTheme_def Let_def persistTheme_def open_access_def split: sum.splits)
  moreover have "resolveTheme (JStr (js ''pure-white'')) = js ''pure-white''"
    by (rule resolve_id) (simp add: registered del: js_Cons)
  ultimately show ?thesis
    using theme_choice_reloads [OF p s, of open_access] by (auto simp: open_access_def simp del: js_Cons)
qed

text \<open>
  A page follows the storage: after it has handled an event that says what the storage now holds
  under the theme's key, or that the storage was cleared, it shows the theme that a page opened now
  would show, and an unreadable value is gone from the storage when it can be removed.
\<close>

theorem theme_follows_storage:
  assumes "agrees p" and "handleStorage a e p st = (Inr p', st')"
    and "event_key e = Some themeStorageKey \<and> newValue e = st themeStorageKey \<or> event_key e = None \<and> st = Map.empty"
    and "storageArea e = own_area a" and "\<not> no_storage b" and "\<not> get_throws b"
  shows "themeId (theme_snapshot p') = stored_id (fst (readStoredTheme b st))
    \<and> (stored_status (fst (readStoredTheme b st)) = Invalid \<and> \<not> no_storage a \<and> \<not> remove_throws a \<longrightarrow>
        st' themeStorageKey = None)"
proof (cases "event_key e")
  case None
  then have "commit defaultThemeId p = Inr p'" "st = Map.empty"
    using assms(2-4) by (auto simp: handleStorage_def Let_def)
  moreover have "isThemeId (JStr defaultThemeId)" by (simp add: registered defaultThemeId_def del: js_Cons)
  ultimately show ?thesis
    using commit_ok [of defaultThemeId p] assms(1,5,6) by (auto simp: readStoredTheme_def)
next
  case (Some k)
  then have e: "event_key e = Some themeStorageKey" "newValue e = st themeStorageKey" using assms(3) by auto
  then have c: "commit (resolveTheme (value_json (st themeStorageKey))) p = Inr p'"
    and st': "st' = (if st themeStorageKey \<noteq> None \<and> \<not> isThemeId (value_json (st themeStorageKey)) then removeStoredTheme a st else st)"
    using assms(2,4) by (auto simp: handleStorage_def Let_def)
  have "themeId (theme_snapshot p') = resolveTheme (value_json (st themeStorageKey))"
    using commit_ok [OF resolve_registered, of "value_json (st themeStorageKey)" p] c assms(1) by auto
  moreover have "stored_id (fst (readStoredTheme b st)) = resolveTheme (value_json (st themeStorageKey))"
    using assms(5,6) trim_theme
    by (auto simp: readStoredTheme_def value_json_def resolveTheme_def split: option.split)
  moreover have "st' themeStorageKey = None"
    if "stored_status (fst (readStoredTheme b st)) = Invalid" "\<not> no_storage a" "\<not> remove_throws a"
    using that st' assms(5,6)
    by (auto simp: readStoredTheme_def removeStoredTheme_def value_json_def split: option.splits if_splits)
  ultimately show ?thesis by simp
qed

theorem theme_follows_storage_witness:
  "\<exists>p p' st'. handleStorage open_access
        \<lparr>event_key = Some themeStorageKey, newValue = Some (js ''sepia''), storageArea = AreaOwn\<rparr>
        p [themeStorageKey \<mapsto> js ''sepia''] = (Inr p', st')
      \<and> themeId (theme_snapshot p') = stored_id (fst (readStoredTheme open_access [themeStorageKey \<mapsto> js ''sepia'']))"
proof -
  let ?st = "[themeStorageKey \<mapsto> js ''sepia'']"
  let ?e = "\<lparr>event_key = Some themeStorageKey, newValue = Some (js ''sepia''), storageArea = AreaOwn\<rparr>"
  obtain p where p: "agrees p" using create_ok by blast
  obtain p' st' where h: "handleStorage open_access ?e p ?st = (Inr p', st')"
    using handleStorage_ok [OF p] by blast
  then have "themeId (theme_snapshot p') = stored_id (fst (readStoredTheme open_access ?st))"
    using theme_follows_storage [OF p h, of open_access]
    by (simp add: open_access_def own_area_def del: js_Cons)
  with h show ?thesis by blast
qed

text \<open>
  The switcher visits every theme: pressing it steps to the next entry of the registry and from
  the last back to the first, so that as many presses as there are themes come back to the start.
\<close>

theorem switcher_cycles:
  assumes "distinct (map theme_id registry)" and "1 < length registry" and "k < length registry"
  shows "getNextTheme registry (theme_id (registry ! k)) = Some (registry ! (Suc k mod length registry))
    \<and> ((\<lambda>t. the (getNextTheme registry (theme_id t))) ^^ n) (registry ! k) = registry ! ((k + n) mod length registry)"
proof -
  have at: "getNextTheme registry (theme_id (registry ! j)) = Some (registry ! (Suc j mod length registry))"
    if j: "j < length registry" for j
  proof -
    have "takeWhile (\<lambda>t. theme_id t \<noteq> theme_id (registry ! j)) registry = take j registry"
      using j assms(1)
      by (intro takeWhile_eq_take_P_nth) (auto simp: distinct_conv_nth)
    then have "findIndex (\<lambda>t. theme_id t = theme_id (registry ! j)) registry = int j"
      using j by (auto simp: findIndex_def list_ex_iff)
    moreover have "nat ((int j + 1) mod int (length registry)) = Suc j mod length registry"
      by (metis nat_int of_nat_Suc zmod_int add.commute)
    moreover have "Suc j mod length registry < length registry"
      using assms(3) by (intro mod_less_divisor) linarith
    ultimately show ?thesis using assms(2) by (simp add: getNextTheme_def Let_def)
  qed
  have "((\<lambda>t. the (getNextTheme registry (theme_id t))) ^^ n) (registry ! k) = registry ! ((k + n) mod length registry)"
  proof (induction n)
    case (Suc n)
    have "(k + n) mod length registry < length registry" using assms(3) by (intro mod_less_divisor) linarith
    from at [OF this] show ?case using Suc by (simp add: mod_Suc_eq)
  qed (use assms(3) in simp)
  then show ?thesis using at [OF assms(3)] by blast
qed

theorem switcher_cycles_witness:
  "getNextTheme themeRegistry (theme_id (themeRegistry ! 1)) = Some (themeRegistry ! 0)"
proof -
  have "distinct (map theme_id themeRegistry)" "1 < length themeRegistry" "length themeRegistry = 2"
    by (simp_all add: themeRegistry_def)
  then show ?thesis using switcher_cycles [of themeRegistry 1 0] by simp
qed

end
