(* ===== verification/Submission_Panel.thy ===== *)
theory Submission_Panel
  imports Submissions_Api Code_Draft
begin

text \<open>
  The submit button and its result, \<open>features/submissions/submission-panel.tsx\<close>, and the keyboard
  shortcut \<open>lib/use-mod-enter.ts\<close>. A panel is a state with one operation per handler: \<open>send\<close>, the
  callbacks of the mutation, the answers of the result query. The mutation and the query belong to
  the query library; what the panel sees of them (the request in flight, the last data and error per
  key) is part of its state. The panel promises that a request is stored before it is posted, that
  one key is never posted with two bodies, and that at most one request is in flight.
\<close>

section \<open>Data\<close>

datatype SubmissionStatus = PENDING | JUDGING | DONE

record SubmissionData =
  sub_id :: jsstr
  sub_problemId :: jsstr
  sub_languageId :: jsstr
  sub_status :: SubmissionStatus
  sub_createdAt :: jsstr
  sub_verdict :: "verdict option"
  sub_cpuNs :: "int option"
  sub_memoryBytes :: "int option"
  sub_passed :: "int option"
  sub_executed :: "int option"
  sub_testcases :: "int option"
  sub_message :: "jsstr option"

definition verdict_texts :: "(jsstr \<times> verdict) list" where
  "verdict_texts = zip (map js verdictNames) [AC, WA, PE, CE, RE, TLE, MLE, OLE, SE]"

definition optional :: "(json \<Rightarrow> 'a) \<Rightarrow> json \<Rightarrow> 'a option" where
  "optional f v = (if v = JUndef then None else Some (f v))"

text \<open>The typed view of a value \<open>submissionSchema\<close> accepted.\<close>

definition submission_of :: "json \<Rightarrow> SubmissionData" where
  "submission_of v =
     \<lparr>sub_id = as_str (jget (js ''id'') v), sub_problemId = as_str (jget (js ''problemId'') v),
      sub_languageId = as_str (jget (js ''languageId'') v),
      sub_status = (let s = as_str (jget (js ''status'') v) in
        if s = js ''PENDING'' then PENDING else if s = js ''JUDGING'' then JUDGING else DONE),
      sub_createdAt = as_str (jget (js ''createdAt'') v),
      sub_verdict = map_of verdict_texts (as_str (jget (js ''verdict'') v)),
      sub_cpuNs = optional as_int (jget (js ''cpuNs'') v),
      sub_memoryBytes = optional as_int (jget (js ''memoryBytes'') v),
      sub_passed = optional as_int (jget (js ''passedTestcaseCount'') v),
      sub_executed = optional as_int (jget (js ''executedTestcaseCount'') v),
      sub_testcases = optional as_int (jget (js ''testcaseCount'') v),
      sub_message = optional as_str (jget (js ''message'') v)\<rparr>"

record SubmissionRecovery =
  rec_key :: jsstr
  rec_problemId :: jsstr
  rec_languageId :: jsstr
  rec_source :: jsstr
  rec_submissionId :: "jsstr option"

definition json_of_body :: "SubmissionRecovery \<Rightarrow> json" where
  "json_of_body r = JObj [(js ''problemId'', JStr (rec_problemId r)), (js ''languageId'', JStr (rec_languageId r)),
     (js ''source'', JStr (rec_source r))]"

definition json_of_recovery :: "SubmissionRecovery \<Rightarrow> json" where
  "json_of_recovery r = JObj ([(js ''key'', JStr (rec_key r)), (js ''body'', json_of_body r)]
     @ (case rec_submissionId r of None \<Rightarrow> [] | Some i \<Rightarrow> [(js ''submissionId'', JStr i)]))"

definition recovery_of :: "json \<Rightarrow> SubmissionRecovery" where
  "recovery_of v =
     (let b = jget (js ''body'') v in
      \<lparr>rec_key = as_str (jget (js ''key'') v), rec_problemId = as_str (jget (js ''problemId'') b),
       rec_languageId = as_str (jget (js ''languageId'') b), rec_source = as_str (jget (js ''source'') b),
       rec_submissionId = optional as_str (jget (js ''submissionId'') v)\<rparr>)"

definition same_request :: "SubmissionRecovery \<Rightarrow> SubmissionRecovery \<Rightarrow> bool" where
  "same_request r r' \<longleftrightarrow> rec_key r = rec_key r' \<and> json_of_body r = json_of_body r'"

section \<open>State\<close>

datatype panel_notice = NoNotice | NoticeUnreadable | NoticeNotKept | NoticeNotSent | NoticeError thrown "jsstr option"

text \<open>What the query library tells of the result query: the key it answered for, data and error of
  the last answers, whether a request is out, the failures in a row.\<close>

record query_result =
  q_key :: "jsstr option"
  q_data :: "SubmissionData option"
  q_error :: "thrown option"
  q_fetching :: bool
  q_failures :: nat

record panel_props =
  prop_userId :: jsstr
  prop_problemId :: jsstr
  prop_languages :: "LanguageOption list"
  prop_source :: jsstr
  prop_disabled :: bool

record panel =
  stored :: "jsstr option"
  initial_error :: bool
  recovery :: "SubmissionRecovery option"
  notice :: panel_notice
  locked :: bool
  alive :: bool
  submissionParam :: "jsstr option"
  pending :: "SubmissionRecovery option"
  query_result :: query_result
  posts :: "SubmissionRecovery list"
  startCalls :: nat
  invalidated :: nat

definition no_result :: query_result where
  "no_result = \<lparr>q_key = None, q_data = None, q_error = None, q_fetching = False, q_failures = 0\<rparr>"

definition open_panel :: "safe_parse \<Rightarrow> bool \<Rightarrow> jsstr option \<Rightarrow> jsstr option \<Rightarrow> panel" where
  "open_panel P readable st param =
     (let initial = (if readable then loadRecovery P st else Inl plain_exception)
      in \<lparr>stored = st, initial_error = isl initial,
          recovery = (case initial of Inr r \<Rightarrow> map_option recovery_of r | Inl _ \<Rightarrow> None),
          notice = (if isl initial then NoticeUnreadable else NoNotice),
          locked = False, alive = True, submissionParam = param, pending = None,
          query_result = no_result, posts = [], startCalls = 0, invalidated = 0\<rparr>)"

section \<open>Derived values\<close>

definition truthy :: "jsstr option \<Rightarrow> bool" where
  "truthy v \<longleftrightarrow> v \<noteq> None \<and> v \<noteq> Some []"

definition or_else :: "'a option \<Rightarrow> 'a option \<Rightarrow> 'a option" where
  "or_else a b = (case a of None \<Rightarrow> b | Some _ \<Rightarrow> a)"

definition requestKey :: "panel \<Rightarrow> jsstr option" where
  "requestKey s = map_option rec_key (recovery s)"

definition shown_id :: "panel \<Rightarrow> jsstr option" where
  "shown_id s = or_else (submissionParam s) (Option.bind (recovery s) rec_submissionId)"

definition result_key :: "panel \<Rightarrow> jsstr option" where
  "result_key s = or_else (shown_id s) (requestKey s)"

definition current :: "(query_result \<Rightarrow> 'a option) \<Rightarrow> panel \<Rightarrow> 'a option" where
  "current f s = (if q_key (query_result s) = result_key s then f (query_result s) else None)"

definition shown :: "panel \<Rightarrow> SubmissionData option" where
  "shown s = current q_data s"

definition result_error :: "panel \<Rightarrow> thrown option" where
  "result_error s = current q_error s"

definition isPending :: "panel \<Rightarrow> bool" where
  "isPending s \<longleftrightarrow> pending s \<noteq> None"

definition error_status :: "int list \<Rightarrow> thrown \<Rightarrow> bool" where
  "error_status codes e = (case e of Api a \<Rightarrow> (case err_status a of Some n \<Rightarrow> n | None \<Rightarrow> 0) \<in> set codes | Exn _ \<Rightarrow> False)"

definition is_404 :: "thrown option \<Rightarrow> bool" where
  "is_404 e = (case e of Some (Api a) \<Rightarrow> err_status a = Some 404 | _ \<Rightarrow> False)"

definition unknown :: "panel \<Rightarrow> bool" where
  "unknown s = (case recovery s of Some r \<Rightarrow> shown s = None \<and> \<not> truthy (rec_submissionId r) | None \<Rightarrow> False)"

definition notAccepted :: "panel \<Rightarrow> bool" where
  "notAccepted s \<longleftrightarrow> unknown s \<and> \<not> isPending s \<and> is_404 (result_error s)"

definition busy :: "panel \<Rightarrow> bool" where
  "busy s \<longleftrightarrow> isPending s \<or> (case shown s of Some v \<Rightarrow> sub_status v \<noteq> DONE | None \<Rightarrow> False)"

definition invalidSource :: "panel_props \<Rightarrow> bool" where
  "invalidSource ps \<longleftrightarrow> trim (prop_source ps) = [] \<or> byteLength (prop_source ps) > 262144"

definition query_enabled :: "panel_props \<Rightarrow> panel \<Rightarrow> bool" where
  "query_enabled ps s \<longleftrightarrow> \<not> prop_disabled ps \<and> \<not> isPending s \<and> (truthy (shown_id s) \<or> truthy (requestKey s))"

definition submitDisabled :: "panel_props \<Rightarrow> panel \<Rightarrow> bool" where
  "submitDisabled ps s \<longleftrightarrow> prop_disabled ps \<or> busy s \<or> (unknown s \<and> \<not> notAccepted s) \<or> invalidSource ps \<or> initial_error s"

section \<open>The requests\<close>

definition mutationFn :: "'w net \<Rightarrow> AbortSignal \<Rightarrow> jsstr \<Rightarrow> SubmissionRecovery \<Rightarrow> ('w, json) io" where
  "mutationFn N late uid r = createSubmission N late (rec_key r) (json_of_body r) uid"

definition queryFn :: "'w net \<Rightarrow> panel_props \<Rightarrow> panel \<Rightarrow> AbortSignal \<Rightarrow> ('w, SubmissionData) io" where
  "queryFn N ps s signal =
     bind_io (if truthy (shown_id s) then getSubmission N (the (shown_id s)) signal
              else findSubmission N (case requestKey s of Some k \<Rightarrow> k | None \<Rightarrow> []) signal)
       (\<lambda>v. pure (if jget (js ''problemId'') v \<noteq> JStr (prop_problemId ps) then Inl plain_exception
                  else Inr (submission_of v)))"

definition refetchInterval :: "query_result \<Rightarrow> int option" where
  "refetchInterval q =
     (if (case q_data q of Some v \<Rightarrow> sub_status v = DONE | None \<Rightarrow> False) then None
      else if (case q_error q of Some e \<Rightarrow> error_status [401, 403, 404] e | None \<Rightarrow> False) then None
      else Some (min 15000 (2000 * 2 ^ min (q_failures q) 3)))"

section \<open>Handlers\<close>

text \<open>What the storage allows while a handler runs, and the key \<open>crypto.randomUUID\<close> would give.\<close>

record panel_env =
  set_ok :: bool
  remove_ok :: bool
  newSubmissionKey :: jsstr

definition save :: "SubmissionRecovery \<Rightarrow> panel \<Rightarrow> panel" where
  "save r s = s\<lparr>stored := Some (JSON_text (json_of_recovery r)), recovery := Some r\<rparr>"

definition new_request :: "panel_env \<Rightarrow> panel_props \<Rightarrow> LanguageOption \<Rightarrow> SubmissionRecovery" where
  "new_request E ps language = \<lparr>rec_key = newSubmissionKey E, rec_problemId = prop_problemId ps,
     rec_languageId = lang_id language, rec_source = prop_source ps, rec_submissionId = None\<rparr>"

definition send_next :: "panel_env \<Rightarrow> SubmissionRecovery \<Rightarrow> panel \<Rightarrow> panel" where
  "send_next E r s =
     (if \<not> set_ok E then s\<lparr>locked := False, notice := NoticeNotSent\<rparr>
      else (save r (s\<lparr>locked := True\<rparr>))\<lparr>notice := NoNotice, submissionParam := None,
             startCalls := startCalls s + 1, pending := Some r, posts := posts s @ [r]\<rparr>)"

definition send_request :: "panel_env \<Rightarrow> panel_props \<Rightarrow> SubmissionRecovery option \<Rightarrow> panel \<Rightarrow> panel" where
  "send_request E ps original s =
     (case problemLanguage (prop_languages ps) of
        None \<Rightarrow> s
      | Some language \<Rightarrow>
          if locked s \<or> prop_disabled ps then s
          else case original of
                 Some r \<Rightarrow> send_next E r s
               | None \<Rightarrow>
                   (case (if notAccepted s then recovery s else None) of
                      None \<Rightarrow> send_next E (new_request E ps language) s
                    | Some r \<Rightarrow>
                        if rec_source r = prop_source ps then send_next E r s
                        else send_next E (new_request E ps language)
                          (if remove_ok E then s\<lparr>stored := None\<rparr> else s)))"

definition onSuccess :: "panel_env \<Rightarrow> SubmissionData \<Rightarrow> SubmissionRecovery \<Rightarrow> panel \<Rightarrow> panel" where
  "onSuccess E v original s =
     (if \<not> alive s then s
      else (let s1 = s\<lparr>invalidated := invalidated s + 1\<rparr>;
                s2 = (if set_ok E then save (original\<lparr>rec_submissionId := Some (sub_id v)\<rparr>) s1
                      else s1\<lparr>notice := NoticeNotKept\<rparr>)
            in s2\<lparr>submissionParam := Some (sub_id v)\<rparr>))"

definition error_id :: "thrown \<Rightarrow> jsstr option" where
  "error_id e = (case e of Api a \<Rightarrow> if truthy (err_requestId a) then err_requestId a else None | Exn _ \<Rightarrow> None)"

definition onError :: "panel_env \<Rightarrow> thrown \<Rightarrow> panel \<Rightarrow> panel" where
  "onError E e s =
     (if \<not> alive s then s
      else (let s1 = (if error_status [400, 403, 404, 413, 422] e \<and> remove_ok E
                      then s\<lparr>stored := None, recovery := None\<rparr> else s)
            in s1\<lparr>notice := NoticeError e (error_id e)\<rparr>))"

definition onSettled :: "panel \<Rightarrow> panel" where
  "onSettled s = s\<lparr>locked := False, pending := None\<rparr>"

text \<open>The end of the mutation in flight, and an answer of the result query for a key.\<close>

definition mutation_ends :: "panel_env \<Rightarrow> thrown + SubmissionData \<Rightarrow> panel \<Rightarrow> panel" where
  "mutation_ends E r s =
     (case pending s of
        None \<Rightarrow> s
      | Some original \<Rightarrow> onSettled (case r of Inr v \<Rightarrow> onSuccess E v original s | Inl e \<Rightarrow> onError E e s))"

definition query_answers :: "jsstr option \<Rightarrow> thrown + SubmissionData \<Rightarrow> panel \<Rightarrow> panel" where
  "query_answers k r s =
     (let q = query_result s; kept = (if q_key q = k then q else no_result\<lparr>q_key := k\<rparr>)
      in s\<lparr>query_result := (case r of
             Inr v \<Rightarrow> kept\<lparr>q_data := Some v, q_error := None, q_fetching := False, q_failures := 0\<rparr>
           | Inl e \<Rightarrow> kept\<lparr>q_error := Some e, q_fetching := False, q_failures := q_failures kept + 1\<rparr>)\<rparr>)"

text \<open>The effect that puts the id of the result into the address.\<close>

definition show_in_address :: "panel \<Rightarrow> panel" where
  "show_in_address s =
     (case shown s of
        None \<Rightarrow> s
      | Some v \<Rightarrow> if submissionParam s = Some (sub_id v) then s else s\<lparr>submissionParam := Some (sub_id v)\<rparr>)"

section \<open>The shortcut\<close>

record key_event =
  ev_enter :: bool
  isComposing :: bool
  altKey :: bool
  metaKey :: bool
  ctrlKey :: bool
  shiftKey :: bool
  in_dialog :: bool

text \<open>\<open>useModEnter\<close>: whether the event is taken (and then kept from everyone else).\<close>

definition useModEnter :: "bool \<Rightarrow> key_event \<Rightarrow> bool" where
  "useModEnter shift e \<longleftrightarrow> \<not> (\<not> ev_enter e \<or> isComposing e \<or> altKey e \<or> \<not> (metaKey e \<or> ctrlKey e) \<or> shiftKey e \<noteq> shift)
     \<and> \<not> in_dialog e"

definition on_shortcut :: "panel_env \<Rightarrow> panel_props \<Rightarrow> key_event \<Rightarrow> panel \<Rightarrow> panel" where
  "on_shortcut E ps e s = (if useModEnter True e \<and> \<not> submitDisabled ps s then send_request E ps None s else s)"

section \<open>What the panel shows\<close>

datatype tone = Secondary | Success | Danger

datatype result_head = HeadVerdict verdict | HeadProgress int int | HeadJudging | HeadWaiting

text \<open>\<open>SubmissionResult\<close>: the head line, the counters and the message; CPU time in ms and memory in
  KiB are quotients of Numbers.\<close>

record result_view =
  head_tone :: tone
  head_text :: result_head
  passed_of :: "(int \<times> int) option"
  cpu_ms :: "number option"
  memory_kib :: "number option"
  diagnostic :: "jsstr option"

definition both :: "'a option \<Rightarrow> 'b option \<Rightarrow> ('a \<times> 'b) option" where
  "both a b = (case (a, b) of (Some x, Some y) \<Rightarrow> Some (x, y) | _ \<Rightarrow> None)"

definition SubmissionResult :: "SubmissionData \<Rightarrow> result_view" where
  "SubmissionResult v =
     \<lparr>head_tone = (if sub_status v \<noteq> DONE then Secondary else if sub_verdict v = Some AC then Success else Danger),
      head_text =
        (case (if sub_status v = DONE then sub_verdict v else None) of
           Some d \<Rightarrow> HeadVerdict d
         | None \<Rightarrow>
             if sub_status v = JUDGING
             then (case both (sub_executed v) (sub_testcases v) of Some (n, m) \<Rightarrow> HeadProgress n m | None \<Rightarrow> HeadJudging)
             else HeadWaiting),
      passed_of = both (sub_passed v) (sub_testcases v),
      cpu_ms = map_option (\<lambda>n. num_div (Fin (of_int n)) (Fin 1000000)) (sub_cpuNs v),
      memory_kib = map_option (\<lambda>n. num_div (Fin (of_int n)) (Fin 1024)) (sub_memoryBytes v),
      diagnostic = (if truthy (sub_message v) \<and> (sub_verdict v = Some CE \<or> sub_verdict v = Some SE)
                    then sub_message v else None)\<rparr>"

datatype query_text = NotYours | NotAccepted | ErrorText thrown

definition queryError :: "panel \<Rightarrow> query_text option" where
  "queryError s =
     (if is_404 (result_error s) then Some (if truthy (shown_id s) then NotYours else NotAccepted)
      else map_option ErrorText (result_error s))"

datatype panel_line =
    LinePaused | LineSourceInvalid | LineNotice panel_notice | LineQuery query_text | LineConfirming
  | LineResult result_view | LineIdle

definition waiting_for :: "panel \<Rightarrow> bool" where
  "waiting_for s \<longleftrightarrow> truthy (shown_id s) \<or> truthy (requestKey s)"

definition idle :: "panel_props \<Rightarrow> panel \<Rightarrow> bool" where
  "idle ps s \<longleftrightarrow> shown s = None \<and> \<not> waiting_for s \<and> notice s = NoNotice \<and> \<not> isPending s \<and> \<not> prop_disabled ps"

definition panel_lines :: "panel_props \<Rightarrow> panel \<Rightarrow> panel_line list" where
  "panel_lines ps s =
     (if prop_disabled ps then [LinePaused] else [])
     @ (if invalidSource ps then [LineSourceInvalid] else [])
     @ (if notice s \<noteq> NoNotice then [LineNotice (notice s)] else [])
     @ (case queryError s of Some t \<Rightarrow> if isPending s then [] else [LineQuery t] | None \<Rightarrow> [])
     @ (if shown s = None \<and> waiting_for s \<and> q_fetching (query_result s) then [LineConfirming] else [])
     @ (case shown s of Some v \<Rightarrow> [LineResult (SubmissionResult v)] | None \<Rightarrow> [])
     @ (if idle ps s \<and> \<not> invalidSource ps then [LineIdle] else [])"

text \<open>Buttons: absent, or present and disabled or not.\<close>

record panel_view =
  view_lines :: "panel_line list"
  confirm_button :: "bool option"
  retry_button :: "bool option"
  submit_disabled :: bool
  submitting :: bool
  run_unavailable :: bool

definition renderPanel :: "bool \<Rightarrow> panel_props \<Rightarrow> panel \<Rightarrow> panel_view" where
  "renderPanel has_run_control ps s =
     (let offered = (unknown s \<or> result_error s \<noteq> None) \<and> \<not> prop_disabled ps \<and> \<not> isPending s in
      \<lparr>view_lines = panel_lines ps s,
       confirm_button = (if offered then Some (q_fetching (query_result s) \<or> isPending s) else None),
       retry_button = (if offered \<and> unknown s \<and> is_404 (result_error s) \<and> recovery s \<noteq> None then Some (isPending s) else None),
       submit_disabled = submitDisabled ps s, submitting = isPending s,
       run_unavailable = (\<not> has_run_control)\<rparr>)"

section \<open>Executions\<close>

datatype panel_op =
    ClickSubmit panel_props | Shortcut panel_props key_event | ClickRetry panel_props
  | MutationEnds "thrown + SubmissionData" | QueryAnswers "jsstr option" "thrown + SubmissionData"
  | AddressEffect | OpenAddress "jsstr option" | Unmount | Elsewhere "jsstr option"

definition apply_op :: "panel_env \<Rightarrow> panel_op \<Rightarrow> panel \<Rightarrow> panel" where
  "apply_op E op s =
     (case op of
        ClickSubmit ps \<Rightarrow> if submitDisabled ps s then s else send_request E ps None s
      | Shortcut ps e \<Rightarrow> on_shortcut E ps e s
      | ClickRetry ps \<Rightarrow> if retry_button (renderPanel True ps s) = Some False then send_request E ps (recovery s) s else s
      | MutationEnds r \<Rightarrow> mutation_ends E r s
      | QueryAnswers k r \<Rightarrow> query_answers k r s
      | AddressEffect \<Rightarrow> show_in_address s
      | OpenAddress p \<Rightarrow> s\<lparr>submissionParam := p\<rparr>
      | Unmount \<Rightarrow> s\<lparr>alive := False\<rparr>
      | Elsewhere st \<Rightarrow> s\<lparr>stored := st\<rparr>)"

text \<open>Keys are random: a new key is none of those this panel has seen.\<close>

definition fresh_key :: "panel_env \<Rightarrow> panel \<Rightarrow> bool" where
  "fresh_key E s \<longleftrightarrow> newSubmissionKey E \<notin> rec_key ` (set (posts s) \<union> set_option (recovery s))"

inductive panel_reach :: "safe_parse \<Rightarrow> panel \<Rightarrow> bool" for P where
  opened: "panel_reach P (open_panel P readable st param)"
| step: "panel_reach P s \<Longrightarrow> fresh_key E s \<Longrightarrow> panel_reach P (apply_op E op s)"

section \<open>Facts\<close>

text \<open>The requests a panel has in hand.\<close>

definition in_hand :: "panel \<Rightarrow> SubmissionRecovery set" where
  "in_hand s = set (posts s) \<union> set_option (recovery s)"

definition one_body :: "SubmissionRecovery set \<Rightarrow> bool" where
  "one_body K \<longleftrightarrow> (\<forall>r\<in>K. \<forall>r'\<in>K. rec_key r = rec_key r' \<longrightarrow> json_of_body r = json_of_body r')"

definition panel_inv :: "panel \<Rightarrow> bool" where
  "panel_inv s \<longleftrightarrow> (locked s \<longleftrightarrow> pending s \<noteq> None) \<and> set_option (pending s) \<subseteq> set (posts s) \<and> one_body (in_hand s)"

lemma one_body_mono: "one_body K \<Longrightarrow> K' \<subseteq> K \<Longrightarrow> one_body K'"
  by (auto simp: one_body_def)

lemma one_body_insert:
  assumes "one_body K" and "rec_key r \<notin> rec_key ` K \<or> (\<exists>r'\<in>K. same_request r r')"
  shows "one_body (insert r K)"
proof -
  have "json_of_body r = json_of_body x" if x: "x \<in> K" "rec_key x = rec_key r" for x
  proof -
    have "rec_key r \<in> rec_key ` K" using x by (metis imageI)
    then obtain r' where "r' \<in> K" "same_request r r'" using assms(2) by blast
    then show ?thesis using assms(1) x unfolding one_body_def same_request_def by metis
  qed
  then have "json_of_body a = json_of_body b" if "a \<in> insert r K" "b \<in> insert r K" "rec_key a = rec_key b" for a b
    using that assms(1) unfolding one_body_def by (metis insertE)
  then show ?thesis unfolding one_body_def by blast
qed

lemma same_request_refl [simp]: "same_request r r"
  by (simp add: same_request_def)

lemma send_next_inv:
  assumes "panel_inv s" and "\<not> locked s"
    and "rec_key r \<notin> rec_key ` in_hand s \<or> r \<in> in_hand s"
  shows "panel_inv (send_next E r s)"
proof (cases "set_ok E")
  case True
  have "one_body (insert r (in_hand s))"
    using assms(1,3) by (intro one_body_insert) (auto simp: panel_inv_def intro: bexI [of _ r])
  moreover have "in_hand (send_next E r s) \<subseteq> insert r (in_hand s)"
    using True by (auto simp: in_hand_def send_next_def save_def)
  ultimately have "one_body (in_hand (send_next E r s))" by (rule one_body_mono)
  then show ?thesis using True by (simp add: panel_inv_def send_next_def save_def)
next
  case False
  then show ?thesis using assms(1,2) by (simp add: panel_inv_def send_next_def in_hand_def)
qed

lemma in_hand_stored [simp]: "in_hand (s\<lparr>stored := v\<rparr>) = in_hand s"
  by (simp add: in_hand_def)

lemma panel_inv_stored [simp]: "panel_inv (s\<lparr>stored := v\<rparr>) = panel_inv s"
  by (simp add: panel_inv_def)

lemma send_request_inv:
  assumes "panel_inv s" and "fresh_key E s" and "original = None \<or> original = recovery s"
  shows "panel_inv (send_request E ps original s)"
proof (cases "locked s \<or> prop_disabled ps")
  case False
  have new: "rec_key (new_request E ps l) \<notin> rec_key ` in_hand s" for l
    using assms(2) by (auto simp: fresh_key_def in_hand_def new_request_def)
  have old: "r \<in> in_hand s" if "recovery s = Some r" for r
    using that by (simp add: in_hand_def)
  show ?thesis
    using False assms new old send_next_inv [of s] send_next_inv [of "s\<lparr>stored := None\<rparr>"]
    by (auto simp: send_request_def split: option.splits if_splits)
qed (use assms(1) in \<open>auto simp: send_request_def split: option.split\<close>)

lemma mutation_ends_inv:
  assumes "panel_inv s"
  shows "panel_inv (mutation_ends E r s)"
proof (cases "pending s")
  case (Some original)
  then have o: "original \<in> in_hand s" using assms by (auto simp: panel_inv_def in_hand_def)
  have "one_body (insert (original\<lparr>rec_submissionId := i\<rparr>) (in_hand s))" for i
    using assms o by (intro one_body_insert) (auto simp: panel_inv_def same_request_def json_of_body_def)
  then have "one_body (in_hand (onSuccess E v original s))" for v
    by (rule one_body_mono) (auto simp: in_hand_def onSuccess_def save_def Let_def)
  moreover have "one_body (in_hand (onError E e s))" for e
    by (rule one_body_mono [of "in_hand s"]) (use assms in \<open>auto simp: panel_inv_def in_hand_def onError_def Let_def\<close>)
  ultimately show ?thesis
    using Some by (auto simp: mutation_ends_def onSettled_def panel_inv_def in_hand_def split: sum.split)
qed (use assms in \<open>simp add: mutation_ends_def\<close>)

lemma apply_op_inv:
  assumes "panel_inv s" and "fresh_key E s"
  shows "panel_inv (apply_op E op s)"
proof -
  have quiet: "panel_inv s'" if "locked s' = locked s" "pending s' = pending s" "posts s' = posts s" "recovery s' = recovery s" for s'
    using that assms(1) by (simp add: panel_inv_def in_hand_def)
  show ?thesis
    using send_request_inv [OF assms] mutation_ends_inv [OF assms(1)] assms(1)
    by (cases op)
      (auto simp: apply_op_def on_shortcut_def query_answers_def show_in_address_def Let_def intro!: quiet
        split: option.split sum.split)
qed

lemma panel_reach_inv: "panel_reach P s \<Longrightarrow> panel_inv s"
proof (induction rule: panel_reach.induct)
  case (opened readable st param)
  show ?case by (auto simp: panel_inv_def open_panel_def in_hand_def one_body_def Let_def split: sum.splits option.splits)
qed (rule apply_op_inv)

section \<open>Properties\<close>

text \<open>
  C4. Over every execution of a panel, with any order of clicks, shortcuts, answers and failing
  storage: requests that were posted under one idempotency key all had the same body, so a retry
  never carries edited code; the request a retry would post has the body its key was first posted
  with; and the panel is locked exactly while one request is in flight.
\<close>

theorem posted_key_one_body:
  assumes "panel_reach P s"
  shows "(\<forall>r\<in>set (posts s) \<union> set_option (recovery s). \<forall>r'\<in>set (posts s). rec_key r = rec_key r' \<longrightarrow> json_of_body r = json_of_body r')
    \<and> (locked s \<longleftrightarrow> pending s \<noteq> None)"
  using panel_reach_inv [OF assms] unfolding panel_inv_def one_body_def in_hand_def by blast

definition sample_props :: panel_props where
  "sample_props = \<lparr>prop_userId = js ''u'', prop_problemId = js ''p'',
     prop_languages = [\<lparr>lang_id = js ''cpp'', displayName = js ''C++'', starter = []\<rparr>],
     prop_source = js ''int main(){}'', prop_disabled = False\<rparr>"

definition sample_env :: panel_env where
  "sample_env = \<lparr>set_ok = True, remove_ok = True, newSubmissionKey = js ''k''\<rparr>"

abbreviation sample_panel :: panel where
  "sample_panel \<equiv> open_panel (zod_parse (\<lambda>_. True) (\<lambda>_ _. True)) True None None"

lemma sample_fresh: "fresh_key sample_env sample_panel"
  by (simp add: fresh_key_def open_panel_def loadRecovery_def)

theorem posted_key_one_body_witness:
  "locked (apply_op sample_env (ClickSubmit sample_props) sample_panel)
     \<and> pending (apply_op sample_env (ClickSubmit sample_props) sample_panel) \<noteq> None"
proof -
  have "panel_reach (zod_parse (\<lambda>_. True) (\<lambda>_ _. True)) (apply_op sample_env (ClickSubmit sample_props) sample_panel)"
    by (rule panel_reach.step [OF panel_reach.opened sample_fresh])
  moreover have "submitDisabled sample_props sample_panel = False" by code_simp
  then have "locked (apply_op sample_env (ClickSubmit sample_props) sample_panel)"
    by (simp add: apply_op_def send_request_def send_next_def save_def sample_props_def sample_env_def
        problemLanguage_def open_panel_def loadRecovery_def Let_def)
  ultimately show ?thesis using posted_key_one_body by blast
qed

text \<open>The records the recovery schema accepts.\<close>

definition storable :: "(jsstr \<Rightarrow> bool) \<Rightarrow> SubmissionRecovery \<Rightarrow> bool" where
  "storable U r \<longleftrightarrow> U (rec_key r) \<and> U (rec_problemId r) \<and> language_regex (rec_languageId r)
     \<and> byteLength (rec_source r) \<le> sourceLimit \<and> (case rec_submissionId r of Some i \<Rightarrow> U i | None \<Rightarrow> True)"

lemma recovery_of_json [simp]: "recovery_of (json_of_recovery r) = r"
  by (cases r) (auto simp: recovery_of_def json_of_recovery_def json_of_body_def jget_JObj as_str_def optional_def
      Let_def split: option.splits)

lemma printable_recovery: "printable (json_of_recovery r)"
  by (auto simp: json_of_recovery_def json_of_body_def split: option.splits)

lemma recovery_accepts:
  assumes "zod P U D" and "storable U r"
  shows "P recoverySchema (json_of_recovery r) = Some (json_of_recovery r)"
  using assms(2)
  by (auto simp: recoverySchema_def json_of_recovery_def json_of_body_def zod.laws [OF assms(1)] jget_JObj
      object_result_def storable_def uuid_def zstr_def languageIdSchema_def fits_bytes_def split: option.splits)

lemma recovery_reloads:
  assumes "zod P U D" and "storable U r"
  shows "recovery (open_panel P True (Some (JSON_text (json_of_recovery r))) param) = Some r"
proof -
  have "JSON_text (json_of_recovery r) \<noteq> []" by (simp add: json_of_recovery_def)
  then have "loadRecovery P (Some (JSON_text (json_of_recovery r))) = Inr (Some (json_of_recovery r))"
    using recovery_accepts [OF assms] JSON_roundtrip [OF printable_recovery] by (simp add: loadRecovery_def)
  then show ?thesis by (simp add: open_panel_def Let_def)
qed

lemma send_posts:
  assumes "posts (send_request E ps original s) \<noteq> posts s"
  shows "\<exists>r. posts (send_request E ps original s) = posts s @ [r] \<and> pending (send_request E ps original s) = Some r
    \<and> stored (send_request E ps original s) = Some (JSON_text (json_of_recovery r))
    \<and> recovery (send_request E ps original s) = Some r"
  using assms by (auto simp: send_request_def send_next_def save_def split: option.splits if_splits)

text \<open>
  C12. Whenever \<open>send\<close> posts, it posts one request, this request has just been stored, and a page
  opened afterwards reads exactly this request back, so that asking for it or posting it again uses
  the same key and the same body.
\<close>

theorem request_stored_before_post:
  assumes "zod P U D" and "posts (send_request E ps original s) \<noteq> posts s"
  shows "\<exists>r. posts (send_request E ps original s) = posts s @ [r]
    \<and> stored (send_request E ps original s) = Some (JSON_text (json_of_recovery r))
    \<and> (storable U r \<longrightarrow> recovery (open_panel P True (stored (send_request E ps original s)) param) = Some r)"
  using send_posts [OF assms(2)] recovery_reloads [OF assms(1), of _ param] by auto

theorem request_stored_before_post_witness:
  "\<exists>r. posts (send_request sample_env sample_props None sample_panel) = [r]
     \<and> recovery (open_panel (zod_parse (\<lambda>_. True) (\<lambda>_ _. True)) True
         (stored (send_request sample_env sample_props None sample_panel)) None) = Some r"
proof -
  have p: "posts (send_request sample_env sample_props None sample_panel) = [\<lparr>rec_key = js ''k'', rec_problemId = js ''p'',
      rec_languageId = js ''cpp'', rec_source = js ''int main(){}'', rec_submissionId = None\<rparr>]"
    by (simp add: send_request_def send_next_def save_def sample_props_def sample_env_def new_request_def
        problemLanguage_def open_panel_def loadRecovery_def Let_def notAccepted_def unknown_def del: js_Cons)
  have e: "posts sample_panel = []" by (simp add: open_panel_def Let_def)
  have st: "storable (\<lambda>_. True) \<lparr>rec_key = js ''k'', rec_problemId = js ''p'', rec_languageId = js ''cpp'',
      rec_source = js ''int main(){}'', rec_submissionId = None\<rparr>" by code_simp
  show ?thesis
    using request_stored_before_post [OF zp.zod_axioms [of "\<lambda>_. True" "\<lambda>_ _. True"], where E = sample_env and ps = sample_props and original = None
      and s = sample_panel and param = None] p e st
    by auto
qed

text \<open>
  C21. An enabled submit button posts what the user sees: when nothing is in flight, the problem has
  a language and the storage accepts the record, a click posts exactly one request, its source is
  the text of the editor, and the panel is busy with it. When the storage refuses, nothing is posted
  and the panel says so.
\<close>

theorem submit_posts_shown_source:
  assumes "\<not> submitDisabled ps s" and "\<not> locked s" and "prop_languages ps \<noteq> []"
  shows "(set_ok E \<longrightarrow> (\<exists>r. posts (send_request E ps None s) = posts s @ [r] \<and> rec_source r = prop_source ps
        \<and> pending (send_request E ps None s) = Some r \<and> submitDisabled ps (send_request E ps None s)))
    \<and> (\<not> set_ok E \<longrightarrow> posts (send_request E ps None s) = posts s \<and> notice (send_request E ps None s) = NoticeNotSent)"
proof -
  obtain l where "problemLanguage (prop_languages ps) = Some l"
    using assms(3) by (cases "prop_languages ps") (auto simp: problemLanguage_def)
  then show ?thesis
    using assms(1,2)
    by (auto simp: send_request_def send_next_def save_def new_request_def submitDisabled_def busy_def isPending_def
        split: option.splits)
qed

theorem submit_posts_shown_source_witness:
  "\<exists>r. posts (send_request sample_env sample_props None sample_panel) = [r] \<and> rec_source r = js ''int main(){}''"
proof -
  have "submitDisabled sample_props sample_panel = False" by code_simp
  then show ?thesis
    using submit_posts_shown_source [of sample_props sample_panel sample_env]
    by (auto simp: open_panel_def Let_def sample_props_def sample_env_def simp del: js_Cons)
qed

text \<open>
  What ends the doubt about the request of a key: an answer of the result query for the key that gives a
  submission or says there is none, and a submission opened in the address.
\<close>

definition settles :: "jsstr \<Rightarrow> panel_op \<Rightarrow> bool" where
  "settles key op =
     (case op of
        QueryAnswers k r \<Rightarrow> k = Some key \<and> (case r of Inr v \<Rightarrow> True | Inl e \<Rightarrow> is_404 (Some e))
      | OpenAddress p \<Rightarrow> p \<noteq> None
      | _ \<Rightarrow> False)"

definition panel_run :: "(panel_env \<times> panel_op) list \<Rightarrow> panel \<Rightarrow> panel" where
  "panel_run ops s = fold (\<lambda>(E, op). apply_op E op) ops s"

text \<open>The panel waits for the outcome of \<open>r\<close>: nothing in flight, nothing known of its key.\<close>

definition in_doubt :: "SubmissionRecovery \<Rightarrow> panel \<Rightarrow> bool" where
  "in_doubt r s \<longleftrightarrow> pending s = None \<and> recovery s = Some r \<and> rec_submissionId r = None \<and> submissionParam s = None
     \<and> (q_key (query_result s) = Some (rec_key r) \<longrightarrow> q_data (query_result s) = None \<and> \<not> is_404 (q_error (query_result s)))"

lemma in_doubt_known:
  assumes "in_doubt r s"
  shows "unknown s" and "\<not> notAccepted s" and "shown s = None" and "\<not> is_404 (result_error s)"
  using assms
  by (auto simp: in_doubt_def unknown_def notAccepted_def shown_def result_error_def current_def result_key_def shown_id_def
      requestKey_def or_else_def truthy_def is_404_def)

lemma in_doubt_disabled: "in_doubt r s \<Longrightarrow> submitDisabled ps s"
  by (simp add: submitDisabled_def in_doubt_known)

lemma in_doubt_step:
  assumes "in_doubt r s" and "\<not> settles (rec_key r) op"
  shows "in_doubt r (apply_op E op s) \<and> posts (apply_op E op s) = posts s
    \<and> ((\<forall>st. op \<noteq> Elsewhere st) \<longrightarrow> stored (apply_op E op s) = stored s)"
proof (cases op)
  case (MutationEnds x)
  then show ?thesis using assms(1) by (simp add: apply_op_def mutation_ends_def in_doubt_def)
next
  case (QueryAnswers k x)
  then show ?thesis using assms
    by (auto simp: apply_op_def query_answers_def in_doubt_def settles_def no_result_def is_404_def Let_def split: sum.splits)
next
  case (OpenAddress q)
  then show ?thesis using assms by (simp add: apply_op_def in_doubt_def settles_def)
qed (use assms(1) in_doubt_known [OF assms(1)] in_doubt_disabled [OF assms(1)] in
  \<open>simp_all add: apply_op_def on_shortcut_def renderPanel_def show_in_address_def in_doubt_def Let_def\<close>)

lemma in_doubt_run:
  assumes "in_doubt r s" and "\<forall>(E, op)\<in>set ops. \<not> settles (rec_key r) op"
  shows "in_doubt r (panel_run ops s) \<and> posts (panel_run ops s) = posts s
    \<and> ((\<forall>(E, op)\<in>set ops. \<forall>st. op \<noteq> Elsewhere st) \<longrightarrow> stored (panel_run ops s) = stored s)"
  using assms
proof (induction ops arbitrary: s)
  case (Cons x ops)
  obtain E op where x: "x = (E, op)" by fastforce
  have "in_doubt r (apply_op E op s) \<and> posts (apply_op E op s) = posts s
    \<and> ((\<forall>st. op \<noteq> Elsewhere st) \<longrightarrow> stored (apply_op E op s) = stored s)"
    using in_doubt_step [OF Cons.prems(1)] Cons.prems(2) unfolding x by simp
  moreover have "panel_run (x # ops) s = panel_run ops (apply_op E op s)" by (simp add: panel_run_def x)
  ultimately show ?case using Cons.IH [of "apply_op E op s"] Cons.prems(2) unfolding x by simp
qed (simp add: panel_run_def)

text \<open>
  C20. A request of unknown outcome is not given up. When the request in flight ends with an error that is not
  one of the definite rejections (or the storage does not let go of the record), then after any further
  operations, with any storage, the recovery record is still there, nothing more was posted, the submit button
  is disabled, and the stored text is the same unless another page has written it: as long as the server has
  not answered the query for this key, with a submission or with 404, and no other submission was opened in the
  address. After a definite rejection the record is gone and no request is in doubt. (The server has not already
  denied this key before the request was sent again: then its denial stands until the next answer.)
\<close>

theorem unknown_outcome_kept:
  assumes "alive s" and "pending s = Some r" and "recovery s = Some r" and "rec_submissionId r = None"
    and "submissionParam s = None"
    and "q_key (query_result s) = Some (rec_key r) \<longrightarrow> q_data (query_result s) = None \<and> \<not> is_404 (q_error (query_result s))"
    and "\<forall>(E', op)\<in>set ops. \<not> settles (rec_key r) op"
    and "s1 = mutation_ends E (Inl e) s" and "s2 = panel_run ops s1"
  shows "if error_status [400, 403, 404, 413, 422] e \<and> remove_ok E
    then recovery s1 = None \<and> stored s1 = None \<and> \<not> unknown s1
    else recovery s2 = Some r \<and> posts s2 = posts s \<and> submitDisabled ps s2
      \<and> ((\<forall>(E', op)\<in>set ops. \<forall>st. op \<noteq> Elsewhere st) \<longrightarrow> stored s2 = stored s)"
proof (cases "error_status [400, 403, 404, 413, 422] e \<and> remove_ok E")
  case True
  then show ?thesis using assms(1,2,8) by (simp add: mutation_ends_def onSettled_def onError_def unknown_def Let_def)
next
  case False
  then have doubt: "in_doubt r s1" and same: "posts s1 = posts s \<and> stored s1 = stored s"
    using assms(1-6,8) by (simp_all add: mutation_ends_def onSettled_def onError_def in_doubt_def Let_def del: not_all de_Morgan_conj)
  note after = in_doubt_run [OF doubt assms(7), folded assms(9)]
  then have "recovery s2 = Some r" and "submitDisabled ps s2" using in_doubt_disabled [of r s2] by (auto simp: in_doubt_def)
  then show ?thesis using False after same by auto
qed

text \<open>
  Opening a submission in the address ends the doubt without an answer: once the opened one is shown, the button
  is enabled for a source that is in order, and the next click replaces the stored record, whose outcome is then
  never asked for.
\<close>

lemma opened_submission_unlocks:
  assumes "in_doubt r s" and "sub_status v = DONE" and "\<not> prop_disabled ps" and "\<not> invalidSource ps" and "\<not> initial_error s"
    and "s' = panel_run [(E, OpenAddress (Some i)), (E, QueryAnswers (Some i) (Inr v))] s"
  shows "recovery s' = Some r \<and> \<not> submitDisabled ps s'"
  using assms
  by (simp add: panel_run_def apply_op_def query_answers_def in_doubt_def submitDisabled_def busy_def isPending_def unknown_def
      shown_def current_def result_key_def shown_id_def or_else_def Let_def)

theorem unknown_outcome_kept_witness:
  "posts (panel_run [(sample_env, ClickSubmit sample_props), (sample_env, QueryAnswers (Some (js ''k'')) (Inl (Exn None))),
        (sample_env, ClickRetry sample_props)]
      (mutation_ends sample_env (Inl (Exn None)) (send_request sample_env sample_props None sample_panel)))
    = posts (send_request sample_env sample_props None sample_panel)"
proof -
  let ?s = "send_request sample_env sample_props None sample_panel"
  have e: "posts ?s \<noteq> posts sample_panel" "alive ?s" "submissionParam ?s = None" "q_key (query_result ?s) = None"
    by (simp_all add: send_request_def send_next_def save_def sample_props_def sample_env_def
        problemLanguage_def open_panel_def loadRecovery_def Let_def notAccepted_def unknown_def no_result_def del: js_Cons)
  obtain r where r: "pending ?s = Some r" "recovery ?s = Some r" using send_posts [OF e(1)] by blast
  moreover have "rec_submissionId r = None"
    using r by (auto simp: send_request_def send_next_def save_def sample_props_def sample_env_def new_request_def
        problemLanguage_def open_panel_def loadRecovery_def Let_def notAccepted_def unknown_def simp del: js_Cons)
  moreover have "\<forall>(E', op)\<in>set [(sample_env, ClickSubmit sample_props), (sample_env, QueryAnswers (Some (js ''k'')) (Inl (Exn None))),
        (sample_env, ClickRetry sample_props)]. \<not> settles (rec_key r) op"
    by (simp add: settles_def is_404_def)
  ultimately show ?thesis
    using unknown_outcome_kept [OF e(2) r _ e(3) _ _ refl refl, where e = "Exn None" and E = sample_env and ps = sample_props] e(4)
    by (simp add: error_status_def)
qed

text \<open>
  Polling is bounded and stops: the next poll comes after two to fifteen seconds, later the more
  polls have failed, and there is none once the submission is done or the server has answered 401,
  403 or 404.
\<close>

theorem polling_bounds:
  "(refetchInterval q = None \<longleftrightarrow> (\<exists>v. q_data q = Some v \<and> sub_status v = DONE)
      \<or> (\<exists>e. q_error q = Some e \<and> error_status [401, 403, 404] e))
   \<and> (\<forall>n. refetchInterval q = Some n \<longrightarrow> 2000 \<le> n \<and> n \<le> 15000)
   \<and> (\<forall>n m. refetchInterval q = Some n \<and> refetchInterval (q\<lparr>q_failures := q_failures q + k\<rparr>) = Some m \<longrightarrow> n \<le> m)"
proof -
  define x y where "x = (2::int) ^ min (q_failures q) 3" and "y = (2::int) ^ min (q_failures q + k) 3"
  have x: "1 \<le> x" "x \<le> y"
    unfolding x_def y_def by (simp, rule power_increasing) auto
  let ?stop = "(case q_data q of Some v \<Rightarrow> sub_status v = DONE | None \<Rightarrow> False)
    \<or> (case q_error q of Some e \<Rightarrow> error_status [401, 403, 404] e | None \<Rightarrow> False)"
  have "refetchInterval q = (if ?stop then None else Some (min 15000 (2000 * x)))"
    "refetchInterval (q\<lparr>q_failures := q_failures q + k\<rparr>) = (if ?stop then None else Some (min 15000 (2000 * y)))"
    by (simp_all add: refetchInterval_def x_def y_def)
  moreover have "?stop \<longleftrightarrow> (\<exists>v. q_data q = Some v \<and> sub_status v = DONE)
      \<or> (\<exists>e. q_error q = Some e \<and> error_status [401, 403, 404] e)"
    by (auto split: option.split)
  moreover have "2000 \<le> min 15000 (2000 * x)" "min 15000 (2000 * x) \<le> min 15000 (2000 * y)"
    using x by (auto simp: min_def)
  ultimately show ?thesis by (cases ?stop) auto
qed

theorem polling_bounds_witness: "refetchInterval no_result = Some 2000"
proof -
  obtain n where n: "refetchInterval no_result = Some n" using polling_bounds [of no_result 0]
    by (cases "refetchInterval no_result") (auto simp: no_result_def)
  then have "n = 2000" by (simp add: refetchInterval_def no_result_def)
  with n show ?thesis by simp
qed

end
