(* ===== verification/Custom_Run.thy ===== *)
theory Custom_Run
  imports Submission_Panel
begin

text \<open>
  Trial runs in the workbench, \<open>features/custom-runs/custom-run-workbench.tsx\<close>. A run sends one
  request per case and waits for each answer; meanwhile the user may edit, the page may be disabled
  (which gives up the run) and a new run may start. The asynchronous function is a thread that stops
  at its \<open>await\<close>; the state has every thread still waiting, also those the page has given up. The
  theorems say that what is shown always comes from the attempt shown with it.
\<close>

section \<open>Data\<close>

record RunCase =
  case_key :: jsstr
  case_ordinal :: "int option"
  case_input :: jsstr
  expected :: "jsstr option"

record Outcome =
  out_value :: CustomRunData
  out_verdict :: CaseVerdict

record Attempt =
  att_source :: jsstr
  att_custom :: jsstr
  att_cases :: "RunCase list"
  att_started :: int
  att_language :: jsstr

definition CUSTOM :: jsstr where
  "CUSTOM = js ''custom''"

definition failed :: "CaseVerdict \<Rightarrow> bool" where
  "failed v \<longleftrightarrow> v \<noteq> Verdict AC \<and> v \<noteq> RAN \<and> v \<noteq> UNCHECKED"

record sample =
  ordinal :: int
  sample_input :: jsstr
  sample_output :: jsstr

definition sample_case :: "sample \<Rightarrow> RunCase" where
  "sample_case x = \<lparr>case_key = js ''sample-'' @ int_text (ordinal x), case_ordinal = Some (ordinal x),
     case_input = sample_input x, expected = Some (sample_output x)\<rparr>"

section \<open>State\<close>

datatype run_tab = InputTab | RunTab | SubmissionTab

datatype run_error = NoRunError | Unconfirmed | RetryIn api_message int | RunFailed thrown

text \<open>A waiting thread: its number, the cases still to run (the first is in flight), what it was
  started with and the first case that failed so far.\<close>

record run_thread =
  t_seq :: nat
  t_todo :: "RunCase list"
  t_attempt :: Attempt
  t_language :: jsstr
  firstFailure :: "jsstr option"

record sent_run =
  sent_source :: jsstr
  sent_input :: jsstr
  sent_language :: jsstr

record workbench =
  tab :: run_tab
  custom :: jsstr
  caseKey :: jsstr
  replaceCustom :: "jsstr option"
  attempt :: "Attempt option"
  outcomes :: "(jsstr \<times> Outcome) list"
  resultKey :: jsstr
  run_error :: run_error
  run_busy :: bool
  active_run :: "nat option"
  run_seq :: nat
  wasDisabled :: bool
  threads :: "run_thread list"
  sent :: "sent_run list"
  answered :: "(sent_run \<times> CustomRunData) list"
  sessionChecks :: nat

record run_props =
  rp_samples :: "sample list"
  rp_languages :: "LanguageOption list"
  rp_source :: jsstr
  rp_time :: int

definition run_samples :: "run_props \<Rightarrow> RunCase list" where
  "run_samples ps = map sample_case (rp_samples ps)"

definition open_workbench :: "run_props \<Rightarrow> bool \<Rightarrow> jsstr option \<Rightarrow> (thrown, json option) result \<Rightarrow> workbench" where
  "open_workbench ps disabled param stored_recovery =
     \<lparr>tab = (if truthy param then SubmissionTab
             else case stored_recovery of Inr None \<Rightarrow> InputTab | _ \<Rightarrow> SubmissionTab),
      custom = [], caseKey = (case run_samples ps of c # _ \<Rightarrow> case_key c | [] \<Rightarrow> CUSTOM), replaceCustom = None,
      attempt = None, outcomes = [], resultKey = [], run_error = NoRunError, run_busy = False,
      active_run = None, run_seq = 0, wasDisabled = disabled, threads = [], sent = [], answered = [],
      sessionChecks = 0\<rparr>"

section \<open>Disabling\<close>

definition invalidate :: "workbench \<Rightarrow> workbench" where
  "invalidate s = s\<lparr>run_seq := run_seq s + 1, active_run := None\<rparr>"

definition set_disabled :: "bool \<Rightarrow> workbench \<Rightarrow> workbench" where
  "set_disabled d s =
     (if d = wasDisabled s then s
      else let s1 = s\<lparr>wasDisabled := d\<rparr>;
               s2 = (if d then s1\<lparr>run_busy := False, attempt := None, outcomes := [], run_error := NoRunError,
                                 replaceCustom := None\<rparr> else s1)
           in if d then invalidate (invalidate s2) else invalidate s2)"

section \<open>The run\<close>

definition inputLarge :: "workbench \<Rightarrow> bool" where
  "inputLarge s \<longleftrightarrow> byteLength (custom s) > 65536"

definition run_invalidSource :: "run_props \<Rightarrow> bool" where
  "run_invalidSource ps \<longleftrightarrow> trim (rp_source ps) = [] \<or> byteLength (rp_source ps) > 262144"

definition own_case :: "workbench \<Rightarrow> RunCase" where
  "own_case s = \<lparr>case_key = CUSTOM, case_ordinal = None, case_input = custom s, expected = None\<rparr>"

definition runCases :: "run_props \<Rightarrow> workbench \<Rightarrow> RunCase list" where
  "runCases ps s = (if custom s \<noteq> [] \<or> run_samples ps = [] then run_samples ps @ [own_case s] else run_samples ps)"

definition request_of :: "run_thread \<Rightarrow> RunCase \<Rightarrow> sent_run" where
  "request_of t c = \<lparr>sent_source = att_source (t_attempt t), sent_input = case_input c, sent_language = t_language t\<rparr>"

text \<open>The loop up to its next \<open>await\<close>: the request of the next case goes out, or the run is over.\<close>

definition finish :: "run_thread \<Rightarrow> workbench \<Rightarrow> workbench" where
  "finish t s = (if t_seq t = run_seq s then s\<lparr>active_run := None, run_busy := False\<rparr> else s)"

definition continue :: "run_thread \<Rightarrow> workbench \<Rightarrow> workbench" where
  "continue t s =
     (case t_todo t of
        [] \<Rightarrow> finish t (case firstFailure t of Some k \<Rightarrow> if k = [] then s else s\<lparr>resultKey := k\<rparr> | None \<Rightarrow> s)
      | c # _ \<Rightarrow> s\<lparr>threads := threads s @ [t], sent := sent s @ [request_of t c]\<rparr>)"

definition run :: "run_props \<Rightarrow> bool \<Rightarrow> workbench \<Rightarrow> workbench" where
  "run ps sameUser s =
     (case problemLanguage (rp_languages ps) of
        None \<Rightarrow> s
      | Some language \<Rightarrow>
          if active_run s \<noteq> None \<or> wasDisabled s \<or> inputLarge s \<or> run_invalidSource ps \<or> \<not> sameUser then s
          else
            let cases = runCases ps s;
                a = \<lparr>att_source = rp_source ps, att_custom = custom s, att_cases = cases, att_started = rp_time ps,
                     att_language = displayName language\<rparr>;
                t = \<lparr>t_seq = run_seq s + 1, t_todo = cases, t_attempt = a, t_language = lang_id language, firstFailure = None\<rparr>
            in continue t (s\<lparr>active_run := Some (run_seq s + 1), run_seq := run_seq s + 1, attempt := Some a,
                 outcomes := [], resultKey := (case cases of c # _ \<Rightarrow> case_key c | [] \<Rightarrow> CUSTOM),
                 run_error := NoRunError, run_busy := True, tab := RunTab\<rparr>))"

definition run_failure :: "thrown \<Rightarrow> run_error" where
  "run_failure e =
     (case e of
        Api a \<Rightarrow>
          if err_kind a \<in> {Network, Timeout, Aborted} then Unconfirmed
          else (case err_retryAfterNs a of
                  Some n \<Rightarrow> RetryIn (err_message a) ((n + 999999999) div 1000000000)
                | None \<Rightarrow> RunFailed e)
      | Exn _ \<Rightarrow> RunFailed e)"

definition session_lost :: "thrown \<Rightarrow> bool" where
  "session_lost e =
     (case e of Api a \<Rightarrow> error_status [401, 403] e \<or> err_code a = Some (js ''SESSION_CHANGED'') | Exn _ \<Rightarrow> False)"

definition set_outcome :: "jsstr \<Rightarrow> Outcome \<Rightarrow> workbench \<Rightarrow> workbench" where
  "set_outcome k x s = s\<lparr>outcomes := AList.update k x (outcomes s)\<rparr>"

text \<open>The answer to the request of thread \<open>i\<close>.\<close>

definition run_answers :: "nat \<Rightarrow> bool \<Rightarrow> thrown + CustomRunData \<Rightarrow> workbench \<Rightarrow> workbench" where
  "run_answers i sameUser r s0 =
     (let t = threads s0 ! i; s = s0\<lparr>threads := take i (threads s0) @ drop (i + 1) (threads s0)\<rparr> in
      case t_todo t of
        [] \<Rightarrow> s
      | c # cs \<Rightarrow>
          (case r of
             Inl e \<Rightarrow>
               finish t (if t_seq t = run_seq s \<and> sameUser
                         then s\<lparr>run_error := run_failure e,
                                sessionChecks := sessionChecks s + (if session_lost e then 1 else 0)\<rparr>
                         else s)
           | Inr v \<Rightarrow>
               let s1 = s\<lparr>answered := answered s @ [(request_of t c, v)]\<rparr> in
               if t_seq t \<noteq> run_seq s \<or> \<not> sameUser then finish t s1
               else let d = caseVerdict v (expected c);
                        f = (if failed d \<and> firstFailure t = None then Some (case_key c) else firstFailure t)
                    in continue (t\<lparr>t_todo := (if d = Verdict CE then [] else cs), firstFailure := f\<rparr>)
                         (set_outcome (case_key c) \<lparr>out_value = v, out_verdict = d\<rparr> s1)))"

section \<open>The other handlers\<close>

definition writeCustom :: "jsstr \<Rightarrow> workbench \<Rightarrow> workbench" where
  "writeCustom v s =
     (if wasDisabled s then s
      else if custom s \<noteq> [] \<and> custom s \<noteq> v then s\<lparr>replaceCustom := Some v\<rparr>
      else s\<lparr>custom := v, caseKey := CUSTOM\<rparr>)"

definition confirmReplace :: "workbench \<Rightarrow> workbench" where
  "confirmReplace s =
     (case replaceCustom s of
        Some v \<Rightarrow> if wasDisabled s then s\<lparr>replaceCustom := None\<rparr>
                  else s\<lparr>custom := v, caseKey := CUSTOM, replaceCustom := None\<rparr>
      | None \<Rightarrow> s)"

definition runDisabled :: "run_props \<Rightarrow> workbench \<Rightarrow> bool" where
  "runDisabled ps s \<longleftrightarrow> wasDisabled s \<or> run_busy s \<or> inputLarge s \<or> run_invalidSource ps"

datatype run_help = HelpDisabled | HelpSource | HelpInput | HelpRun

definition run_help :: "run_props \<Rightarrow> workbench \<Rightarrow> run_help" where
  "run_help ps s = (if wasDisabled s then HelpDisabled else if run_invalidSource ps then HelpSource
     else if inputLarge s then HelpInput else HelpRun)"

datatype run_op =
    Run run_props bool | RunKey run_props bool key_event | Answer nat bool "thrown + CustomRunData" | Disable bool
  | EditCustom jsstr | WriteCustom jsstr | ConfirmReplace | CancelReplace | ChooseCase jsstr | ChooseTab run_tab
  | ChooseResult jsstr | SubmissionStarts

definition run_step :: "run_op \<Rightarrow> workbench \<Rightarrow> workbench" where
  "run_step op s =
     (case op of
        Run ps same \<Rightarrow> if runDisabled ps s then s else run ps same s
      | RunKey ps same e \<Rightarrow> if useModEnter False e \<and> \<not> runDisabled ps s then run ps same s else s
      | Answer i same r \<Rightarrow> if i < length (threads s) then run_answers i same r s else s
      | Disable d \<Rightarrow> set_disabled d s
      | EditCustom v \<Rightarrow> if wasDisabled s then s else s\<lparr>custom := v\<rparr>
      | WriteCustom v \<Rightarrow> writeCustom v s
      | ConfirmReplace \<Rightarrow> confirmReplace s
      | CancelReplace \<Rightarrow> s\<lparr>replaceCustom := None\<rparr>
      | ChooseCase k \<Rightarrow> s\<lparr>caseKey := k\<rparr>
      | ChooseTab x \<Rightarrow> s\<lparr>tab := x\<rparr>
      | ChooseResult k \<Rightarrow> s\<lparr>resultKey := k\<rparr>
      | SubmissionStarts \<Rightarrow> s\<lparr>tab := SubmissionTab\<rparr>)"

section \<open>The report\<close>

datatype run_summary = SumCompile | SumRunning int int | SumVerdict CaseVerdict | SumAllPassed | SumPassed int int

datatype run_tone = ToneNeutral | ToneDanger | ToneSuccess | ToneForeground

record report =
  rep_summary :: "run_summary option"
  rep_tone :: run_tone
  rep_stale :: bool
  rep_compile :: "jsstr option"
  rep_current :: "RunCase option"

definition outcome_of :: "(jsstr \<times> Outcome) list \<Rightarrow> RunCase \<Rightarrow> Outcome option" where
  "outcome_of os c = map_of os (case_key c)"

definition checked_cases :: "Attempt \<Rightarrow> RunCase list" where
  "checked_cases a = filter (\<lambda>c. expected c \<noteq> None) (att_cases a)"

definition passed_cases :: "Attempt \<Rightarrow> (jsstr \<times> Outcome) list \<Rightarrow> RunCase list" where
  "passed_cases a os = filter (\<lambda>c. map_option out_verdict (outcome_of os c) = Some (Verdict AC)) (checked_cases a)"

definition done_cases :: "Attempt \<Rightarrow> (jsstr \<times> Outcome) list \<Rightarrow> RunCase list" where
  "done_cases a os = filter (\<lambda>c. outcome_of os c \<noteq> None) (att_cases a)"

definition compile_outcome :: "(jsstr \<times> Outcome) list \<Rightarrow> Outcome option" where
  "compile_outcome os = find (\<lambda>x. out_verdict x = Verdict CE) (map snd os)"

definition report_summary :: "Attempt \<Rightarrow> (jsstr \<times> Outcome) list \<Rightarrow> bool \<Rightarrow> run_summary option" where
  "report_summary a os busyNow =
     (let n = int (length (att_cases a)); finished = int (length (done_cases a os));
          checked = int (length (checked_cases a)); passed = int (length (passed_cases a os)) in
      if compile_outcome os \<noteq> None then Some SumCompile
      else if busyNow then Some (SumRunning (min (finished + 1) n) n)
      else if finished < n then None
      else if checked = 0
      then Some (SumVerdict (case att_cases a of
              c # _ \<Rightarrow> (case outcome_of os c of Some x \<Rightarrow> out_verdict x | None \<Rightarrow> RAN) | [] \<Rightarrow> RAN))
      else if passed = checked then Some SumAllPassed else Some (SumPassed passed checked))"

definition RunReport :: "Attempt \<Rightarrow> (jsstr \<times> Outcome) list \<Rightarrow> bool \<Rightarrow> jsstr \<Rightarrow> bool \<Rightarrow> report" where
  "RunReport a os busyNow selected stale =
     (let compile = compile_outcome os in
      \<lparr>rep_summary = report_summary a os busyNow,
       rep_tone =
         (if busyNow then ToneNeutral
          else if compile \<noteq> None \<or> list_ex (\<lambda>x. failed (out_verdict x)) (map snd os)
                  \<or> length (passed_cases a os) < length (checked_cases a) then ToneDanger
          else if checked_cases a \<noteq> [] then ToneSuccess else ToneForeground),
       rep_stale = stale,
       rep_compile = map_option (\<lambda>x. case compileDiagnostic (out_value x) of Some d \<Rightarrow> d | None \<Rightarrow> []) compile,
       rep_current = (case find (\<lambda>c. case_key c = selected) (att_cases a) of
           Some c \<Rightarrow> Some c
         | None \<Rightarrow> (case att_cases a of c # _ \<Rightarrow> Some c | [] \<Rightarrow> None))\<rparr>)"

record output_view =
  ov_text :: jsstr
  ov_truncated :: bool

record case_view =
  cv_failed :: bool
  cv_verdict :: CaseVerdict
  cv_usage :: "(number \<times> number) option"
  cv_limits :: "number \<times> number"
  cv_input :: output_view
  cv_output :: output_view
  cv_expected :: "output_view option"
  cv_stderr :: "output_view option"

definition of_output :: "run_output option \<Rightarrow> output_view" where
  "of_output x = (case x of
     Some r \<Rightarrow> \<lparr>ov_text = out_text r, ov_truncated = truncated r\<rparr> | None \<Rightarrow> \<lparr>ov_text = [], ov_truncated = False\<rparr>)"

definition ratio :: "int \<Rightarrow> int \<Rightarrow> number" where
  "ratio a b = num_div (Fin (of_int a)) (Fin (of_int b))"

text \<open>\<open>CaseResult\<close>: nothing but a note while the case has no outcome.\<close>

definition CaseResult :: "RunCase \<Rightarrow> Outcome option \<Rightarrow> case_view option" where
  "CaseResult c x =
     map_option (\<lambda>out. let v = out_value out in
       \<lparr>cv_failed = failed (out_verdict out), cv_verdict = out_verdict out,
        cv_usage = map_option (\<lambda>(n, m). (ratio n 1000000, ratio m 1024)) (both (run_cpuNs v) (run_memoryBytes v)),
        cv_limits = (ratio (limit_cpuNs v) 1000000, ratio (limit_memoryBytes v) 1048576),
        cv_input = \<lparr>ov_text = case_input c, ov_truncated = False\<rparr>,
        cv_output = of_output (stdout v),
        cv_expected = map_option (\<lambda>w. \<lparr>ov_text = w, ov_truncated = False\<rparr>) (expected c),
        cv_stderr = map_option (\<lambda>r. of_output (Some r)) (stderr v)\<rparr>) x"

text \<open>The pills of the cases: selected, and a dot once there is an outcome.\<close>

record pill =
  pill_key :: jsstr
  pill_selected :: bool
  pill_dot :: "run_tone option"

definition report_pills :: "Attempt \<Rightarrow> (jsstr \<times> Outcome) list \<Rightarrow> jsstr option \<Rightarrow> pill list" where
  "report_pills a os shownKey =
     (if length (att_cases a) > 1
      then map (\<lambda>c. \<lparr>pill_key = case_key c, pill_selected = (shownKey = Some (case_key c)),
             pill_dot = map_option (\<lambda>x. if failed (out_verdict x) then ToneDanger
               else if out_verdict x = Verdict AC then ToneSuccess else ToneNeutral) (outcome_of os c)\<rparr>) (att_cases a)
      else [])"

text \<open>The tab of the inputs: a sample read-only with a copy button, or the custom input with a button
  that clears it; and the question before the custom input is replaced.\<close>

record input_view =
  iv_pills :: "pill list"
  iv_text :: jsstr
  iv_readonly :: bool
  iv_button_disabled :: bool

definition input_tab :: "run_props \<Rightarrow> workbench \<Rightarrow> input_view" where
  "input_tab ps s =
     (let pills = map (\<lambda>k. \<lparr>pill_key = k, pill_selected = (caseKey s = k), pill_dot = None\<rparr>)
        (map case_key (run_samples ps) @ [CUSTOM])
      in case find (\<lambda>c. case_key c = caseKey s) (run_samples ps) of
           Some c \<Rightarrow> \<lparr>iv_pills = pills, iv_text = case_input c, iv_readonly = True, iv_button_disabled = wasDisabled s\<rparr>
         | None \<Rightarrow> \<lparr>iv_pills = pills, iv_text = custom s, iv_readonly = wasDisabled s,
                    iv_button_disabled = (wasDisabled s \<or> custom s = [])\<rparr>)"

datatype replace_dialog = NoDialog | AskClear | AskReplace

definition replace_dialog :: "workbench \<Rightarrow> replace_dialog" where
  "replace_dialog s =
     (case replaceCustom s of
        None \<Rightarrow> NoDialog
      | Some v \<Rightarrow> if wasDisabled s then NoDialog else if v = [] then AskClear else AskReplace)"

definition run_button :: "run_props \<Rightarrow> workbench \<Rightarrow> bool \<times> bool" where
  "run_button ps s = (runDisabled ps s, run_busy s \<and> \<not> wasDisabled s)"

text \<open>The tab of the run: hidden, a hint, or the report.\<close>

datatype run_panel = RunHidden | RunHint | RunShown report

definition run_panel :: "run_props \<Rightarrow> workbench \<Rightarrow> run_panel" where
  "run_panel ps s =
     (if wasDisabled s then RunHidden
      else case attempt s of
             None \<Rightarrow> RunHint
           | Some a \<Rightarrow> RunShown (RunReport a (outcomes s) (run_busy s) (resultKey s)
               (rp_source ps \<noteq> att_source a \<or> custom s \<noteq> att_custom a)))"

section \<open>Executions\<close>

text \<open>The samples of a problem have distinct numbers.\<close>

definition op_ok :: "run_op \<Rightarrow> bool" where
  "op_ok op = (case op of
     Run ps _ \<Rightarrow> distinct (map ordinal (rp_samples ps)) | RunKey ps _ _ \<Rightarrow> distinct (map ordinal (rp_samples ps)) | _ \<Rightarrow> True)"

inductive run_reach :: "workbench \<Rightarrow> bool" where
  opened: "run_reach (open_workbench ps disabled param stored_recovery)"
| step: "run_reach s \<Longrightarrow> op_ok op \<Longrightarrow> run_reach (run_step op s)"

section \<open>Facts\<close>

lemma int_text_inject: "int_text m = int_text n \<Longrightarrow> m = n"
proof -
  have hd: "hd (dec_text k) \<noteq> 45" if "0 \<le> k" for k
    using dec_text_hd [OF that] by (auto simp: in_range_def)
  have ne: "dec_text k \<noteq> []" if "0 \<le> k" for k using int_text_nonempty [of k] that by (simp add: int_text_def)
  show "int_text m = int_text n \<Longrightarrow> m = n"
    using hd [of m] hd [of n] dec_text_inject [of m n] dec_text_inject [of "- m" "- n"]
    by (auto simp: int_text_def dest: arg_cong [where f = hd] split: if_splits)
qed

lemma run_cases_distinct:
  assumes "distinct (map ordinal (rp_samples ps))"
  shows "distinct (map case_key (runCases ps s))"
proof -
  have "inj (\<lambda>x. js ''sample-'' @ int_text x)" by (auto simp: inj_def dest: int_text_inject)
  then have "distinct (map (\<lambda>x. js ''sample-'' @ int_text x) (map ordinal (rp_samples ps)))"
    using assms by (subst distinct_map) (auto intro: inj_on_subset)
  then have "distinct (map case_key (run_samples ps))"
    by (simp add: run_samples_def sample_case_def comp_def del: js_Cons)
  moreover have "CUSTOM \<notin> set (map case_key (run_samples ps))"
    by (auto simp: run_samples_def sample_case_def CUSTOM_def)
  ultimately show ?thesis by (auto simp: runCases_def own_case_def)
qed

text \<open>What an outcome rests on, and how far the current attempt has come.\<close>

definition genuine :: "workbench \<Rightarrow> bool" where
  "genuine s \<longleftrightarrow> (\<forall>(k, x)\<in>set (outcomes s). \<exists>a c l. attempt s = Some a \<and> c \<in> set (att_cases a) \<and> case_key c = k
     \<and> out_verdict x = caseVerdict (out_value x) (expected c)
     \<and> (\<lparr>sent_source = att_source a, sent_input = case_input c, sent_language = l\<rparr>, out_value x) \<in> set (answered s))"

definition in_order :: "workbench \<Rightarrow> bool" where
  "in_order s = (case attempt s of None \<Rightarrow> outcomes s = []
     | Some a \<Rightarrow> distinct (map case_key (att_cases a))
         \<and> (\<exists>n. map fst (outcomes s) = map case_key (take n (att_cases a)))
         \<and> list_all (\<lambda>(k, x). out_verdict x \<noteq> Verdict CE) (butlast (outcomes s)))"

definition current_ok :: "workbench \<Rightarrow> run_thread \<Rightarrow> bool" where
  "current_ok s t \<longleftrightarrow> (t_seq t = run_seq s \<longrightarrow> attempt s = Some (t_attempt t)
     \<and> (t_todo t \<noteq> [] \<longrightarrow> (\<exists>ran. att_cases (t_attempt t) = ran @ t_todo t \<and> map fst (outcomes s) = map case_key ran
         \<and> list_all (\<lambda>(k, x). out_verdict x \<noteq> Verdict CE) (outcomes s))))"

definition core :: "run_thread list \<Rightarrow> workbench \<Rightarrow> bool" where
  "core L s \<longleftrightarrow> distinct (map t_seq L) \<and> (\<forall>t\<in>set L. t_seq t \<le> run_seq s \<and> current_ok s t)
     \<and> (\<forall>c. active_run s = Some c \<longrightarrow> c = run_seq s \<and> run_seq s \<in> t_seq ` set L)
     \<and> (active_run s = None \<longrightarrow> run_seq s \<notin> t_seq ` set L)
     \<and> (run_busy s \<longleftrightarrow> active_run s \<noteq> None) \<and> (wasDisabled s \<longrightarrow> active_run s = None)
     \<and> genuine s \<and> in_order s"

definition run_inv :: "workbench \<Rightarrow> bool" where
  "run_inv s \<longleftrightarrow> core (threads s) s \<and> (\<forall>t\<in>set (threads s). t_todo t \<noteq> [])"

lemmas core_defs = core_def genuine_def in_order_def current_ok_def

lemma core_cong:
  assumes "core L s" and "attempt s' = attempt s" "outcomes s' = outcomes s" "run_seq s' = run_seq s"
    "active_run s' = active_run s" "run_busy s' = run_busy s" "wasDisabled s' = wasDisabled s"
    "set (answered s) \<subseteq> set (answered s')"
  shows "core L s'"
proof -
  have "genuine s'"
    using assms(1,8) unfolding core_def genuine_def assms(2,3) by fast
  then show ?thesis
    using assms(1) unfolding core_def in_order_def current_ok_def assms(2-7) by blast
qed

lemma core_perm: "core (t # L) s \<Longrightarrow> core (L @ [t]) s"
  by (auto simp: core_def)

lemma finish_core:
  assumes "core (t # threads s) s"
  shows "core (threads s) (finish t s)"
proof (cases "t_seq t = run_seq s")
  case True
  moreover have "t_seq t \<notin> t_seq ` set (threads s)" using assms by (simp add: core_def)
  ultimately have "\<forall>u\<in>set (threads s). t_seq u \<noteq> run_seq s" by (metis imageI)
  then show ?thesis using True assms by (auto simp: core_defs finish_def split: option.splits)
next
  case False
  then show ?thesis using assms by (auto simp: core_defs finish_def)
qed

lemma continue_inv:
  assumes "core (t # threads s) s" and "\<forall>u\<in>set (threads s). t_todo u \<noteq> []"
  shows "run_inv (continue t s)"
proof (cases "t_todo t")
  case Nil
  define s1 where "s1 = (case firstFailure t of Some k \<Rightarrow> if k = [] then s else s\<lparr>resultKey := k\<rparr> | None \<Rightarrow> s)"
  have "core (t # threads s) s1" "threads s1 = threads s"
    using assms(1) by (auto simp: s1_def intro: core_cong split: option.split)
  then have "core (threads s1) (finish t s1)" using finish_core [of t s1] by simp
  moreover have "continue t s = finish t s1" "threads (finish t s1) = threads s1"
    using Nil by (auto simp: continue_def s1_def finish_def)
  ultimately show ?thesis using assms(2) \<open>threads s1 = threads s\<close> by (simp add: run_inv_def)
next
  case (Cons c cs)
  have "core (threads s @ [t]) (continue t s)"
    by (rule core_cong [OF core_perm [OF assms(1)]]) (simp_all add: continue_def Cons)
  then show ?thesis using Cons assms(2) by (auto simp: run_inv_def continue_def)
qed

lemma run_start_inv:
  assumes "run_inv s" and "distinct (map ordinal (rp_samples ps))"
  shows "run_inv (run ps same s)"
proof (cases "problemLanguage (rp_languages ps) = None \<or> active_run s \<noteq> None \<or> wasDisabled s \<or> inputLarge s \<or> run_invalidSource ps \<or> \<not> same")
  case True
  then have "run ps same s = s" by (auto simp: run_def split: option.split)
  then show ?thesis using assms(1) by simp
next
  case False
  then obtain language where l: "problemLanguage (rp_languages ps) = Some language" by auto
  define a where "a = \<lparr>att_source = rp_source ps, att_custom = custom s, att_cases = runCases ps s, att_started = rp_time ps,
    att_language = displayName language\<rparr>"
  define t where "t = \<lparr>t_seq = run_seq s + 1, t_todo = runCases ps s, t_attempt = a, t_language = lang_id language, firstFailure = None\<rparr>"
  define s1 where "s1 = s\<lparr>active_run := Some (run_seq s + 1), run_seq := run_seq s + 1, attempt := Some a,
    outcomes := [], resultKey := (case runCases ps s of c # _ \<Rightarrow> case_key c | [] \<Rightarrow> CUSTOM),
    run_error := NoRunError, run_busy := True, tab := RunTab\<rparr>"
  have le: "\<forall>u\<in>set (threads s). t_seq u \<le> run_seq s" "distinct (map t_seq (threads s))"
    using assms(1) by (auto simp: run_inv_def core_def)
  then have "t_seq t \<notin> t_seq ` set (threads s)" by (fastforce simp: t_def)
  moreover have "current_ok s1 t" by (simp add: current_ok_def t_def s1_def a_def)
  moreover have "current_ok s1 u" if "u \<in> set (threads s)" for u
    using le(1) that by (fastforce simp: current_ok_def s1_def)
  moreover have "genuine s1" "in_order s1"
    using run_cases_distinct [OF assms(2)] by (simp_all add: genuine_def in_order_def s1_def a_def)
  ultimately have "core (t # threads s) s1"
    using le False unfolding core_def by (fastforce simp: s1_def t_def)
  moreover have "threads s1 = threads s" by (simp add: s1_def)
  ultimately have "run_inv (continue t s1)"
    using assms(1) by (intro continue_inv) (simp_all add: run_inv_def)
  moreover have "run ps same s = continue t s1"
    using False l by (simp add: run_def Let_def t_def s1_def a_def)
  ultimately show ?thesis by simp
qed

lemma butlast_update:
  "k \<notin> fst ` set xs \<Longrightarrow> AList.update k x xs = xs @ [(k, x)]"
  by (induction xs) auto

text \<open>A new outcome of the current thread extends the prefix by one.\<close>

lemma outcome_core:
  assumes "core (t # threads s) s" and "t_seq t = run_seq s" and "t_todo t = c # cs"
    and "d = caseVerdict v (expected c)" and "s1 = s\<lparr>answered := answered s @ [(request_of t c, v)]\<rparr>"
  shows "core (t\<lparr>t_todo := (if d = Verdict CE then [] else cs), firstFailure := f\<rparr> # threads s)
    (set_outcome (case_key c) \<lparr>out_value = v, out_verdict = d\<rparr> s1)"
proof -
  let ?s = "set_outcome (case_key c) \<lparr>out_value = v, out_verdict = d\<rparr> s1"
  let ?t = "t\<lparr>t_todo := (if d = Verdict CE then [] else cs), firstFailure := f\<rparr>"
  have a: "attempt s = Some (t_attempt t)" using assms(1,2) by (simp add: core_def current_ok_def)
  obtain ran where ran: "att_cases (t_attempt t) = ran @ c # cs" "map fst (outcomes s) = map case_key ran"
      "list_all (\<lambda>(k, x). out_verdict x \<noteq> Verdict CE) (outcomes s)"
    using assms(1-3) by (auto simp: core_def current_ok_def)
  have dist: "distinct (map case_key (att_cases (t_attempt t)))"
    using assms(1) a by (simp add: core_def in_order_def)
  have "case_key c \<notin> set (map case_key ran)" using dist ran(1) by auto
  then have "case_key c \<notin> set (map fst (outcomes s))" using ran(2) by simp
  then have out: "outcomes ?s = outcomes s @ [(case_key c, \<lparr>out_value = v, out_verdict = d\<rparr>)]"
    by (simp add: set_outcome_def assms(5) butlast_update)
  have "genuine ?s"
  proof -
    have "core (t # threads s) s1" by (rule core_cong [OF assms(1)]) (auto simp: assms(5))
    then have "genuine s1" by (simp add: core_def)
    moreover have "(\<lparr>sent_source = att_source (t_attempt t), sent_input = case_input c, sent_language = t_language t\<rparr>, v) \<in> set (answered s1)"
      by (simp add: assms(5) request_of_def)
    ultimately show ?thesis
      using a ran(1) assms(4) unfolding genuine_def out
      by (fastforce simp: set_outcome_def assms(5))
  qed
  moreover have "in_order ?s"
  proof -
    have "map fst (outcomes ?s) = map case_key (take (length ran + 1) (att_cases (t_attempt t)))"
      using ran out by simp
    then show ?thesis using a dist ran(3) out
      unfolding in_order_def by (auto simp: set_outcome_def assms(5))
  qed
  moreover have "current_ok ?s ?t"
    using a ran out unfolding current_ok_def
    by (auto simp: set_outcome_def assms(5) intro!: exI [of _ "ran @ [c]"])
  moreover have "current_ok ?s u" if "u \<in> set (threads s)" for u
  proof -
    have "t_seq u \<noteq> run_seq s" using that assms(1,2) by (auto simp: core_def image_iff)
    then show ?thesis by (simp add: current_ok_def set_outcome_def assms(5))
  qed
  moreover have "run_seq ?s = run_seq s" "active_run ?s = active_run s" "run_busy ?s = run_busy s" "wasDisabled ?s = wasDisabled s"
    by (simp_all add: set_outcome_def assms(5))
  ultimately show ?thesis using assms(1,2) by (simp add: core_def)
qed

lemma core_subset: "core L s \<Longrightarrow> distinct (map t_seq L') \<Longrightarrow> set L' = set L \<Longrightarrow> core L' s"
  unfolding core_def by metis

lemma run_answers_inv:
  assumes "run_inv s0" and "i < length (threads s0)"
  shows "run_inv (run_answers i same r s0)"
proof -
  define t where "t = threads s0 ! i"
  define s where "s = s0\<lparr>threads := take i (threads s0) @ drop (i + 1) (threads s0)\<rparr>"
  have split: "threads s0 = take i (threads s0) @ t # drop (i + 1) (threads s0)"
    using assms(2) by (simp add: t_def id_take_nth_drop)
  have dist: "distinct (map t_seq (t # threads s))"
  proof -
    have "distinct (map t_seq (take i (threads s0) @ t # drop (i + 1) (threads s0)))"
      using assms(1) split by (metis core_def run_inv_def)
    then show ?thesis by (auto simp: s_def)
  qed
  have sets: "set (t # threads s) = set (threads s0)"
  proof -
    have "set (threads s0) = set (take i (threads s0) @ t # drop (i + 1) (threads s0))" using split by metis
    then show ?thesis by (simp add: s_def)
  qed
  have todo: "\<forall>u\<in>set (threads s). t_todo u \<noteq> []" "t_todo t \<noteq> []"
    using assms(1) sets by (auto simp: run_inv_def)
  have "core (t # threads s) s0"
    by (rule core_subset [OF _ dist sets]) (use assms(1) in \<open>simp add: run_inv_def\<close>)
  then have c: "core (t # threads s) s" by (rule core_cong) (simp_all add: s_def)
  have ended: "run_inv (finish t s')"
    if "core (t # threads s) s'" "threads s' = threads s" for s'
    using finish_core [of t s'] that todo(1) by (auto simp: run_inv_def finish_def split: if_splits)
  obtain k ks where k: "t_todo t = k # ks" using todo(2) by (cases "t_todo t") auto
  show ?thesis
  proof (cases r)
    case (Inl e)
    have "run_inv (finish t (if t_seq t = run_seq s \<and> same then s\<lparr>run_error := run_failure e,
        sessionChecks := sessionChecks s + (if session_lost e then 1 else 0)\<rparr> else s))"
      by (rule ended) (use c in \<open>auto intro: core_cong\<close>)
    then show ?thesis
      unfolding run_answers_def Let_def t_def [symmetric] s_def [symmetric] k Inl list.case sum.case .
  next
    case (Inr v)
    define s1 where "s1 = s\<lparr>answered := answered s @ [(request_of t k, v)]\<rparr>"
    have fin: "run_inv (finish t s1)" by (rule ended) (use c in \<open>auto simp: s1_def intro: core_cong\<close>)
    define d where "d = caseVerdict v (expected k)"
    define t' where "t' = t\<lparr>t_todo := (if d = Verdict CE then [] else ks),
      firstFailure := (if failed d \<and> firstFailure t = None then Some (case_key k) else firstFailure t)\<rparr>"
    have "run_inv (continue t' (set_outcome (case_key k) \<lparr>out_value = v, out_verdict = d\<rparr> s1))" if "t_seq t = run_seq s"
      using outcome_core [OF c that k d_def s1_def] todo(1)
      by (intro continue_inv) (simp_all add: t'_def set_outcome_def s1_def)
    then show ?thesis
      using fin
      unfolding run_answers_def Let_def t_def [symmetric] s_def [symmetric] k Inr list.case sum.case
        s1_def [symmetric] d_def [symmetric] t'_def [symmetric]
      by (cases "t_seq t \<noteq> run_seq s \<or> \<not> same") simp_all
  qed
qed

lemma set_disabled_inv:
  assumes "run_inv s"
  shows "run_inv (set_disabled d s)"
proof -
  have "core (threads s) (set_disabled d s)"
  proof (cases "d = wasDisabled s")
    case False
    have le: "\<forall>u\<in>set (threads s). t_seq u \<le> run_seq s" using assms by (simp add: run_inv_def core_def)
    have "run_busy s = False" if "\<not> d" using assms False that by (auto simp: run_inv_def core_def)
    moreover have "run_seq s < run_seq (set_disabled d s)" "active_run (set_disabled d s) = None"
      using False by (auto simp: set_disabled_def invalidate_def Let_def)
    moreover from this le have "run_seq (set_disabled d s) \<notin> t_seq ` set (threads s)"
        "\<forall>u\<in>set (threads s). current_ok (set_disabled d s) u \<and> t_seq u \<le> run_seq (set_disabled d s)"
      by (fastforce simp: current_ok_def)+
    moreover have eqs: "attempt (set_disabled d s) = (if d then None else attempt s)"
        "outcomes (set_disabled d s) = (if d then [] else outcomes s)" "answered (set_disabled d s) = answered s"
      using False by (simp_all add: set_disabled_def invalidate_def Let_def)
    have "genuine (set_disabled d s)" "in_order (set_disabled d s)"
      using assms unfolding run_inv_def core_def genuine_def in_order_def eqs by (cases d; simp)+
    ultimately show ?thesis
      using assms False by (auto simp: run_inv_def core_def set_disabled_def invalidate_def Let_def)
  qed (use assms in \<open>simp add: run_inv_def set_disabled_def\<close>)
  moreover have "threads (set_disabled d s) = threads s"
    by (simp add: set_disabled_def invalidate_def Let_def)
  ultimately show ?thesis using assms by (simp add: run_inv_def)
qed

lemma filter_key_count:
  "distinct (map f xs) \<Longrightarrow> length (filter (\<lambda>x. f x = a) xs) = (if a \<in> f ` set xs then 1 else 0)"
  by (induction xs) (auto simp: filter_empty_conv)

lemma run_step_inv:
  assumes "run_inv s" and "op_ok op"
  shows "run_inv (run_step op s)"
proof -
  have quiet: "run_inv s'" if "threads s' = threads s" "attempt s' = attempt s" "outcomes s' = outcomes s" "run_seq s' = run_seq s"
    "active_run s' = active_run s" "run_busy s' = run_busy s" "wasDisabled s' = wasDisabled s" "answered s' = answered s" for s'
    using assms(1) core_cong [of "threads s" s s'] that by (simp add: run_inv_def)
  show ?thesis
  proof (cases op)
    case (Run ps same)
    then show ?thesis using assms run_start_inv by (auto simp: run_step_def op_ok_def)
  next
    case (RunKey ps same e)
    then show ?thesis using assms run_start_inv by (auto simp: run_step_def op_ok_def)
  next
    case (Answer i same r)
    then show ?thesis using assms(1) run_answers_inv by (simp add: run_step_def)
  next
    case (Disable d)
    then show ?thesis using assms(1) set_disabled_inv by (simp add: run_step_def)
  qed (use assms(1) in \<open>auto simp: run_step_def writeCustom_def confirmReplace_def intro!: quiet split: option.split\<close>)
qed

lemma run_reach_inv: "run_reach s \<Longrightarrow> run_inv s"
proof (induction rule: run_reach.induct)
  case (opened ps disabled param stored_recovery)
  show ?case by (simp add: run_inv_def core_defs open_workbench_def)
qed (rule run_step_inv)

section \<open>Properties\<close>

text \<open>A run of one sample, answered with the expected output.\<close>

definition demo_props :: run_props where
  "demo_props = \<lparr>rp_samples = [\<lparr>ordinal = 1, sample_input = js ''1'', sample_output = js ''2''\<rparr>],
     rp_languages = [\<lparr>lang_id = js ''cpp'', displayName = js ''C'', starter = []\<rparr>], rp_source = js ''x'', rp_time = 0\<rparr>"

definition demo_value :: CustomRunData where
  "demo_value = \<lparr>run_problemId = js ''p'', run_status = COMPLETED,
     stdout = Some \<lparr>out_text = js ''2'', capturedBytes = 1, truncated = False\<rparr>, stderr = None, compileDiagnostic = None,
     run_cpuNs = Some 1, run_memoryBytes = Some 1, limit_cpuNs = 1, limit_memoryBytes = 1\<rparr>"

definition demo_run :: workbench where
  "demo_run = run_step (Answer 0 True (Inr demo_value))
     (run_step (Run demo_props True) (open_workbench demo_props False None (Inr None)))"

lemma demo_reach: "run_reach demo_run"
  unfolding demo_run_def
  by (intro run_reach.step run_reach.opened) (simp_all add: op_ok_def demo_props_def)

text \<open>
  C5. Every result on the screen belongs to the attempt on the screen: an outcome shown for a case
  is the server's answer to the source of this attempt with the input of this case, and its verdict
  is the one for the case's expected output. Answers to runs that were given up never appear,
  however late they come.
\<close>

theorem run_outcomes_genuine:
  assumes "run_reach s" and "(k, x) \<in> set (outcomes s)"
  shows "\<exists>a c l. attempt s = Some a \<and> c \<in> set (att_cases a) \<and> case_key c = k
     \<and> out_verdict x = caseVerdict (out_value x) (expected c)
     \<and> (\<lparr>sent_source = att_source a, sent_input = case_input c, sent_language = l\<rparr>, out_value x) \<in> set (answered s)"
  using run_reach_inv [OF assms(1)] assms(2) unfolding run_inv_def core_def genuine_def by blast

theorem run_outcomes_genuine_witness:
  "\<exists>a l. attempt demo_run = Some a \<and>
     (\<lparr>sent_source = att_source a, sent_input = js ''1'', sent_language = l\<rparr>, demo_value) \<in> set (answered demo_run)"
proof -
  have o: "outcomes demo_run = [(js ''sample-1'', \<lparr>out_value = demo_value, out_verdict = Verdict AC\<rparr>)]" by code_simp
  have a: "map_option (map case_input \<circ> att_cases) (attempt demo_run) = Some [js ''1'']" by code_simp
  show ?thesis
    using run_outcomes_genuine [OF demo_reach, of "js ''sample-1''" "\<lparr>out_value = demo_value, out_verdict = Verdict AC\<rparr>"] o a
    by (auto simp del: js_Cons)
qed

text \<open>
  C13. The cases of an attempt run one after the other, in their order: the outcomes are those of
  a prefix of the cases, only the last can be a compile error, and while the page is busy exactly
  one current request is waiting. Pressing run meanwhile sends nothing.
\<close>

theorem run_in_order:
  assumes "run_reach s"
  shows "(\<forall>a. attempt s = Some a \<longrightarrow> (\<exists>n. map fst (outcomes s) = map case_key (take n (att_cases a)))
        \<and> (\<forall>(k, x)\<in>set (butlast (outcomes s)). out_verdict x \<noteq> Verdict CE))
    \<and> length (filter (\<lambda>t. t_seq t = run_seq s) (threads s)) = (if run_busy s then 1 else 0)
    \<and> (run_busy s \<longrightarrow> run ps same s = s)"
proof -
  have c: "core (threads s) s" using run_reach_inv [OF assms] by (simp add: run_inv_def)
  have "run_busy s \<longleftrightarrow> run_seq s \<in> t_seq ` set (threads s)"
    using c unfolding core_def by (cases "active_run s") auto
  then have "length (filter (\<lambda>t. t_seq t = run_seq s) (threads s)) = (if run_busy s then 1 else 0)"
    using c filter_key_count [of t_seq "threads s" "run_seq s"] by (simp add: core_def)
  moreover have "run_busy s \<longrightarrow> run ps same s = s"
    using c by (auto simp: core_def run_def split: option.split)
  moreover have "(\<exists>n. map fst (outcomes s) = map case_key (take n (att_cases a)))
      \<and> (\<forall>(k, x)\<in>set (butlast (outcomes s)). out_verdict x \<noteq> Verdict CE)" if "attempt s = Some a" for a
    using c that by (simp add: core_def in_order_def list_all_iff)
  ultimately show ?thesis by blast
qed

theorem run_in_order_witness:
  "\<exists>n. map fst (outcomes demo_run) = map case_key (take n (att_cases (the (attempt demo_run))))"
proof -
  have "(attempt demo_run = None) = False" by code_simp
  then show ?thesis using run_in_order [OF demo_reach] by auto
qed

text \<open>
  C15. "All samples passed" is the truth: when the report of a finished run says so, the server ran
  the source of this attempt on the input of every sample, each time to completion and with its whole
  output, and the output had the expected words.
\<close>

theorem all_passed_is_true:
  assumes "run_reach s" and "attempt s = Some a" and "report_summary a (outcomes s) (run_busy s) = Some SumAllPassed"
    and "c \<in> set (att_cases a)" and "expected c = Some want"
  shows "\<exists>l v. (\<lparr>sent_source = att_source a, sent_input = case_input c, sent_language = l\<rparr>, v) \<in> set (answered s)
    \<and> run_status v = COMPLETED \<and> (\<forall>r. stdout v = Some r \<longrightarrow> \<not> truncated r)
    \<and> tokens (case stdout v of Some r \<Rightarrow> out_text r | None \<Rightarrow> []) = tokens want"
proof -
  have "length (passed_cases a (outcomes s)) = length (checked_cases a)"
    using assms(3) by (auto simp: report_summary_def Let_def split: if_splits)
  then have "passed_cases a (outcomes s) = checked_cases a"
    unfolding passed_cases_def by (metis filter_id_conv length_filter_less less_irrefl)
  moreover have "c \<in> set (checked_cases a)" using assms(4,5) by (simp add: checked_cases_def)
  ultimately obtain x where x: "(case_key c, x) \<in> set (outcomes s)" "out_verdict x = Verdict AC"
    by (auto simp: passed_cases_def outcome_of_def filter_id_conv dest!: map_of_SomeD)
  obtain a' c' l where g: "attempt s = Some a'" "c' \<in> set (att_cases a')" "case_key c' = case_key c"
      "out_verdict x = caseVerdict (out_value x) (expected c')"
      "(\<lparr>sent_source = att_source a', sent_input = case_input c', sent_language = l\<rparr>, out_value x) \<in> set (answered s)"
    using run_reach_inv [OF assms(1)] x(1) unfolding run_inv_def core_def genuine_def by blast
  have "distinct (map case_key (att_cases a))"
    using run_reach_inv [OF assms(1)] assms(2) by (simp add: run_inv_def core_def in_order_def)
  then have "c' = c"
    using g(1-3) assms(2,4) by (metis distinct_map inj_onD option.inject)
  with g x(2) assms(2,5) have v: "caseVerdict (out_value x) (Some want) = Verdict AC" "a' = a" by auto
  from v(1) have "run_status (out_value x) = COMPLETED \<and> (\<forall>r. stdout (out_value x) = Some r \<longrightarrow> \<not> truncated r)
    \<and> tokens (case stdout (out_value x) of Some r \<Rightarrow> out_text r | None \<Rightarrow> []) = tokens want"
    by (auto simp: caseVerdict_def sameTokens_iff split: run_status.splits if_splits option.splits)
  with g(5) v(2) \<open>c' = c\<close> show ?thesis by blast
qed

theorem all_passed_is_true_witness:
  "\<exists>l v. (\<lparr>sent_source = js ''x'', sent_input = js ''1'', sent_language = l\<rparr>, v) \<in> set (answered demo_run)
     \<and> run_status v = COMPLETED \<and> tokens (case stdout v of Some r \<Rightarrow> out_text r | None \<Rightarrow> []) = tokens (js ''2'')"
proof -
  define a where "a = the (attempt demo_run)"
  have e: "(attempt demo_run = None) = False" by code_simp
  then have at: "attempt demo_run = Some a" by (auto simp: a_def)
  have r: "report_summary (the (attempt demo_run)) (outcomes demo_run) (run_busy demo_run) = Some SumAllPassed" by code_simp
  have c: "att_cases (the (attempt demo_run)) = [sample_case \<lparr>ordinal = 1, sample_input = js ''1'', sample_output = js ''2''\<rparr>]"
    "att_source (the (attempt demo_run)) = js ''x''" by code_simp+
  have "expected (sample_case \<lparr>ordinal = 1, sample_input = js ''1'', sample_output = js ''2''\<rparr>) = Some (js ''2'')"
    "case_input (sample_case \<lparr>ordinal = 1, sample_input = js ''1'', sample_output = js ''2''\<rparr>) = js ''1''"
    by (simp_all add: sample_case_def)
  then show ?thesis
    using all_passed_is_true [OF demo_reach at, of "sample_case \<lparr>ordinal = 1, sample_input = js ''1'', sample_output = js ''2''\<rparr>"
        "js ''2''"] r c unfolding a_def by (auto simp del: js_Cons)
qed

section \<open>Every run ends\<close>

text \<open>The requests that may still go out: the cases of every thread that waits. \<open>drain\<close> lets the
  answers come, each to any of the waiting threads.\<close>

definition remaining :: "workbench \<Rightarrow> nat" where
  "remaining s = sum_list (map (length \<circ> t_todo) (threads s))"

fun drain :: "(nat \<times> bool \<times> (thrown + CustomRunData)) list \<Rightarrow> workbench \<Rightarrow> workbench" where
  "drain [] s = s"
| "drain ((i, same, r) # as) s = drain as (run_step (Answer (i mod length (threads s)) same r) s)"

lemma finish_threads [simp]: "threads (finish t s) = threads s" "sent (finish t s) = sent s"
  by (simp_all add: finish_def)

lemma continue_remaining:
  "remaining (continue t s) = remaining s + length (t_todo t)"
  "length (sent (continue t s)) \<le> length (sent s) + (if t_todo t = [] then 0 else 1)"
  by (auto simp: continue_def remaining_def split: list.split option.split)

lemma remaining_cong [simp]:
  "remaining (s\<lparr>run_error := e, sessionChecks := n\<rparr>) = remaining s" "remaining (s\<lparr>answered := w\<rparr>) = remaining s"
  "remaining (set_outcome k x s) = remaining s" "remaining (finish t s) = remaining s"
  by (simp_all add: remaining_def set_outcome_def)

lemma answer_decreases:
  assumes "t_todo (threads s ! i) \<noteq> []" and "i < length (threads s)"
  shows "remaining (run_answers i same r s) < remaining s
    \<and> length (sent (run_answers i same r s)) + remaining (run_answers i same r s) \<le> length (sent s) + remaining s"
proof -
  define t where "t = threads s ! i"
  define s' where "s' = s\<lparr>threads := take i (threads s) @ drop (i + 1) (threads s)\<rparr>"
  obtain c cs where c: "t_todo t = c # cs" using assms(1) by (cases "t_todo t") (auto simp: t_def)
  have "remaining s = sum_list (map (length \<circ> t_todo) (take i (threads s) @ t # drop (Suc i) (threads s)))"
    using assms(2) by (simp add: t_def remaining_def id_take_nth_drop [symmetric])
  then have r: "remaining s = Suc (length cs) + remaining s'" by (simp add: s'_def remaining_def c)
  have same_sent: "sent s' = sent s" by (simp add: s'_def)
  show ?thesis
  proof (cases r)
    case (Inl e)
    then show ?thesis using r same_sent
      unfolding run_answers_def Let_def t_def [symmetric] s'_def [symmetric] c by simp
  next
    case (Inr v)
    let ?t = "t\<lparr>t_todo := (if caseVerdict v (expected c) = Verdict CE then [] else cs),
        firstFailure := (if failed (caseVerdict v (expected c)) \<and> firstFailure t = None then Some (case_key c) else firstFailure t)\<rparr>"
    let ?s = "set_outcome (case_key c) \<lparr>out_value = v, out_verdict = caseVerdict v (expected c)\<rparr>
        (s'\<lparr>answered := answered s' @ [(request_of t c, v)]\<rparr>)"
    have "sent ?s = sent s" by (simp add: set_outcome_def same_sent)
    then show ?thesis using r same_sent continue_remaining [of ?t ?s]
      unfolding run_answers_def Let_def t_def [symmetric] s'_def [symmetric] c Inr
      by (auto split: if_splits)
  qed
qed

lemma step_drains:
  assumes "run_inv s" and "threads s \<noteq> []"
  shows "remaining (run_step (Answer (i mod length (threads s)) same r) s) < remaining s
    \<and> length (sent (run_step (Answer (i mod length (threads s)) same r) s))
        + remaining (run_step (Answer (i mod length (threads s)) same r) s) \<le> length (sent s) + remaining s"
proof -
  have "i mod length (threads s) < length (threads s)" using assms(2) by simp
  then show ?thesis using answer_decreases assms(1) by (simp add: run_step_def run_inv_def)
qed

lemma no_thread_no_run: "run_inv s \<Longrightarrow> threads s = [] \<Longrightarrow> \<not> run_busy s \<and> active_run s = None"
  unfolding run_inv_def core_def by (cases "active_run s") auto

lemma remaining_0: "run_inv s \<Longrightarrow> remaining s = 0 \<longleftrightarrow> threads s = []"
  by (auto simp: remaining_def run_inv_def)

lemma drain_settles:
  "run_inv s \<Longrightarrow> remaining s \<le> length as \<Longrightarrow> threads (drain as s) = [] \<and> run_inv (drain as s)
     \<and> length (sent (drain as s)) \<le> length (sent s) + remaining s"
proof (induction as s rule: drain.induct)
  case (1 s)
  then show ?case by (simp add: remaining_0)
next
  case (2 i same r as s)
  let ?s = "run_step (Answer (i mod length (threads s)) same r) s"
  have inv: "run_inv ?s" by (rule run_step_inv [OF "2.prems"(1)]) (simp add: op_ok_def)
  have "remaining ?s \<le> length as \<and> length (sent ?s) + remaining ?s \<le> length (sent s) + remaining s"
  proof (cases "threads s = []")
    case True
    then show ?thesis by (simp add: run_step_def remaining_def)
  next
    case False
    then show ?thesis using step_drains [OF "2.prems"(1) False, of i same r] "2.prems"(2) by simp
  qed
  then show ?case using "2.IH" [OF inv] by simp
qed

lemma run_remaining: "remaining (run ps same s) \<le> remaining s + length (runCases ps s)"
proof -
  have "remaining (s\<lparr>active_run := Some n, run_seq := m, attempt := a, outcomes := [], resultKey := k,
      run_error := NoRunError, run_busy := True, tab := RunTab\<rparr>) = remaining s" for n m a k
    by (simp add: remaining_def)
  then show ?thesis by (simp add: run_def continue_remaining Let_def split: option.split)
qed

text \<open>
  C14. Every run comes to an end: whatever the answers are, in whatever order the waiting requests are
  answered and whatever was given up before, after at most as many answers as there are cases left
  nothing waits any more and the page accepts a new run; no more requests than that were sent. A new
  run adds at most one request for each of its cases.
\<close>

theorem run_terminates:
  assumes "run_reach s" and "remaining s \<le> length as"
  shows "threads (drain as s) = [] \<and> \<not> run_busy (drain as s) \<and> active_run (drain as s) = None
    \<and> length (sent (drain as s)) \<le> length (sent s) + remaining s
    \<and> remaining (run ps same s) \<le> remaining s + length (runCases ps s)"
  using drain_settles [OF run_reach_inv [OF assms(1)] assms(2)] no_thread_no_run run_remaining by blast

definition demo_started :: workbench where
  "demo_started = run_step (Run demo_props True) (open_workbench demo_props False None (Inr None))"

theorem run_terminates_witness:
  "run_busy demo_started \<and> \<not> run_busy (drain [(7, True, Inr demo_value)] demo_started)"
proof -
  have "run_reach demo_started"
    unfolding demo_started_def by (intro run_reach.step run_reach.opened) (simp_all add: op_ok_def demo_props_def)
  moreover have "remaining demo_started = 1" "run_busy demo_started = True" by code_simp+
  ultimately show ?thesis using run_terminates [of demo_started "[(7, True, Inr demo_value)]"] by simp
qed

end
