(* ===== verification/Problem_Editor.thy ===== *)
theory Problem_Editor
  imports Submission_Panel
begin

text \<open>
  The problem editor of the administration: \<open>features/problems/components/admin-problem-workbench.tsx\<close>
  with its dialogs \<open>problem-workbench-dialogs.tsx\<close> and the sample list \<open>problem-sample-list.tsx\<close>.
  The state is the problem as the query cache has it, the form, what was last saved, and the actions
  in flight; every handler is an operation on it. The form library's \<open>handleSubmit\<close> runs \<open>onSubmit\<close>
  unless one is still running, and \<open>onSubmit\<close> waits for its save: it runs while the save is pending. The one
  place that forgets a pending save, \<open>reloadLatest\<close>, resets the form first, which ends the form's own
  submission; \<open>markChanged\<close> forgets a save only when none is pending.
\<close>

section \<open>Samples\<close>

record EditableProblemSample =
  es_input :: jsstr
  es_output :: jsstr
  es_explanation :: jsstr

definition emptySample :: EditableProblemSample where
  "emptySample = \<lparr>es_input = [], es_output = [], es_explanation = []\<rparr>"

text \<open>The operations of the list; an index out of range changes nothing.\<close>

definition update_sample :: "nat \<Rightarrow> (EditableProblemSample \<Rightarrow> EditableProblemSample) \<Rightarrow> EditableProblemSample list \<Rightarrow> EditableProblemSample list" where
  "update_sample i f xs = (if i < length xs then xs[i := f (xs ! i)] else xs)"

definition move_sample :: "nat \<Rightarrow> int \<Rightarrow> EditableProblemSample list \<Rightarrow> EditableProblemSample list" where
  "move_sample i offset xs =
     (let target = int i + offset in
      if i < length xs \<and> 0 \<le> target \<and> target < int (length xs)
      then (xs[i := xs ! nat target])[nat target := xs ! i] else xs)"

definition duplicate_sample :: "nat \<Rightarrow> EditableProblemSample list \<Rightarrow> EditableProblemSample list" where
  "duplicate_sample i xs = (if i < length xs then take (i + 1) xs @ [xs ! i] @ drop (i + 1) xs else xs)"

definition remove_sample :: "nat \<Rightarrow> EditableProblemSample list \<Rightarrow> EditableProblemSample list" where
  "remove_sample i xs = take i xs @ drop (i + 1) xs"

definition add_sample :: "EditableProblemSample list \<Rightarrow> EditableProblemSample list" where
  "add_sample xs = xs @ [emptySample]"

record sample_buttons =
  up_disabled :: bool
  down_disabled :: bool

definition SampleBlock :: "nat \<Rightarrow> nat \<Rightarrow> bool \<Rightarrow> sample_buttons option" where
  "SampleBlock index n disabled =
     (if disabled then None else Some \<lparr>up_disabled = (index = 0), down_disabled = (int index = int n - 1)\<rparr>)"

section \<open>The problem and the form\<close>

datatype difficulty_level = UNRATED | EASY | MEDIUM | HARD

record ProblemSample =
  ps_ordinal :: int
  ps_input :: jsstr
  ps_output :: jsstr
  ps_explanation :: "jsstr option"

record TestData =
  td_digest :: jsstr
  td_count :: int
  td_bytes :: int

record AdminProblem =
  ap_id :: jsstr
  ap_slug :: jsstr
  ap_public :: bool
  ap_active :: bool
  ap_core :: bool
  ap_title :: jsstr
  ap_statement :: jsstr
  ap_inputDescription :: jsstr
  ap_outputDescription :: jsstr
  ap_constraints :: "jsstr option"
  ap_hint :: "jsstr option"
  ap_difficulty :: difficulty_level
  ap_tags :: "jsstr list"
  ap_samples :: "ProblemSample list"
  ap_language :: LanguageOption
  ap_judgeTemplate :: "jsstr option"
  ap_solutionPrefix :: "jsstr option"
  ap_testData :: "TestData option"
  ap_published :: bool
  ap_rowVersion :: int

record WorkbenchValues =
  wv_title :: jsstr
  wv_statement :: jsstr
  wv_inputDescription :: jsstr
  wv_outputDescription :: jsstr
  wv_constraints :: jsstr
  wv_hint :: jsstr
  wv_difficulty :: difficulty_level
  wv_tags :: "jsstr list"
  wv_samples :: "EditableProblemSample list"
  wv_starterCode :: jsstr
  wv_judgeTemplate :: jsstr

definition or_empty :: "jsstr option \<Rightarrow> jsstr" where
  "or_empty v = (case v of Some s \<Rightarrow> s | None \<Rightarrow> [])"

definition toFormValues :: "AdminProblem \<Rightarrow> WorkbenchValues" where
  "toFormValues p =
     \<lparr>wv_title = ap_title p, wv_statement = ap_statement p, wv_inputDescription = ap_inputDescription p,
      wv_outputDescription = ap_outputDescription p, wv_constraints = or_empty (ap_constraints p),
      wv_hint = or_empty (ap_hint p), wv_difficulty = ap_difficulty p, wv_tags = ap_tags p,
      wv_samples = map (\<lambda>x. \<lparr>es_input = ps_input x, es_output = ps_output x, es_explanation = or_empty (ps_explanation x)\<rparr>) (ap_samples p),
      wv_starterCode = starter (ap_language p), wv_judgeTemplate = or_empty (ap_judgeTemplate p)\<rparr>"

text \<open>\<open>text.trim() || null\<close>.\<close>

definition trim_or_null :: "jsstr \<Rightarrow> jsstr option" where
  "trim_or_null s = (if trim s = [] then None else Some (trim s))"

definition toProblemSamples :: "EditableProblemSample list \<Rightarrow> ProblemSample list" where
  "toProblemSamples xs = map (\<lambda>(i, x). \<lparr>ps_ordinal = int i + 1, ps_input = es_input x, ps_output = es_output x,
     ps_explanation = trim_or_null (es_explanation x)\<rparr>) (enumerate 0 xs)"

text \<open>\<open>JSON.stringify\<close> of the form values, and the comparison by it.\<close>

definition difficulty_name :: "difficulty_level \<Rightarrow> jsstr" where
  "difficulty_name d = (case d of UNRATED \<Rightarrow> js ''UNRATED'' | EASY \<Rightarrow> js ''EASY'' | MEDIUM \<Rightarrow> js ''MEDIUM'' | HARD \<Rightarrow> js ''HARD'')"

definition sample_json :: "EditableProblemSample \<Rightarrow> json" where
  "sample_json x = JObj [(js ''input'', JStr (es_input x)), (js ''output'', JStr (es_output x)),
     (js ''explanationMarkdown'', JStr (es_explanation x))]"

definition values_json :: "WorkbenchValues \<Rightarrow> json" where
  "values_json v = JObj
     [(js ''title'', JStr (wv_title v)), (js ''statementMarkdown'', JStr (wv_statement v)),
      (js ''inputDescriptionMarkdown'', JStr (wv_inputDescription v)),
      (js ''outputDescriptionMarkdown'', JStr (wv_outputDescription v)),
      (js ''constraintsMarkdown'', JStr (wv_constraints v)), (js ''hintMarkdown'', JStr (wv_hint v)),
      (js ''difficulty'', JStr (difficulty_name (wv_difficulty v))), (js ''tags'', JArr (map JStr (wv_tags v))),
      (js ''samples'', JArr (map sample_json (wv_samples v))), (js ''starterCode'', JStr (wv_starterCode v)),
      (js ''judgeTemplate'', JStr (wv_judgeTemplate v))]"

definition sameWorkbenchValues :: "WorkbenchValues \<Rightarrow> WorkbenchValues \<Rightarrow> bool" where
  "sameWorkbenchValues a b \<longleftrightarrow> JSON_text (values_json a) = JSON_text (values_json b)"

text \<open>The title is one line: a run of white space with a line break in it becomes a space.\<close>

function fold_title :: "jsstr \<Rightarrow> jsstr" where
  "fold_title [] = []"
| "fold_title (c # s) =
     (if is_ws c
      then let run = takeWhile is_ws (c # s)
           in (if 10 \<in> set run then [32] else run) @ fold_title (dropWhile is_ws s)
      else c # fold_title s)"
  by pat_completeness auto
termination
  by (relation "measure length") (auto simp: le_imp_less_Suc length_dropWhile_le)

section \<open>Units\<close>

text \<open>\<open>None\<close> in the result of \<open>secondsToNanoseconds\<close> is \<open>null\<close>, the empty optional limit.\<close>

datatype limit_error = BadTime | BadMemory | CpuMissing

definition safe_limit :: "number \<Rightarrow> bool" where
  "safe_limit x \<longleftrightarrow> isFinite x \<and> isSafeInteger x \<and> (case x of Fin q \<Rightarrow> q > 0 | _ \<Rightarrow> False)"

definition secondsToNanoseconds :: "jsstr \<Rightarrow> bool \<Rightarrow> (limit_error, number option) result" where
  "secondsToNanoseconds v opt =
     (if opt \<and> trim v = [] then Inr None
      else let converted = num_mult (Number_of v) (Fin 1000000000)
           in if safe_limit converted then Inr (Some converted) else Inl BadTime)"

definition mebibytesToBytes :: "jsstr \<Rightarrow> (limit_error, number) result" where
  "mebibytesToBytes v =
     (let converted = num_mult (Number_of v) (Fin 1048576)
      in if safe_limit converted then Inr converted else Inl BadMemory)"

definition nanosecondsToSeconds :: "int option \<Rightarrow> jsstr option" where
  "nanosecondsToSeconds v = map_option (\<lambda>n. number_text (num_div (Fin (of_int n)) (Fin 1000000000))) v"

definition bytesToMebibytes :: "int option \<Rightarrow> jsstr option" where
  "bytesToMebibytes v = map_option (\<lambda>n. number_text (num_div (Fin (of_int n)) (Fin 1048576))) v"

text \<open>\<open>toFixed(1)\<close> of a quotient by a power of two, which is exact: the nearest tenth, a half upwards.\<close>

definition toFixed1 :: "int \<Rightarrow> int \<Rightarrow> jsstr" where
  "toFixed1 n d = (let t = (20 * n + d) div (2 * d) in int_text (t div 10) @ [46] @ int_text (t mod 10))"

definition formatBytes :: "int option \<Rightarrow> jsstr option" where
  "formatBytes v =
     map_option (\<lambda>n.
       if n < 1024 then int_text n @ js '' B''
       else if n < 1024 * 1024 then toFixed1 n 1024 @ js '' KiB''
       else toFixed1 n (1024 * 1024) @ js '' MiB'') v"

text \<open>\<open>apiErrorMessage\<close>: the detail of the problem, else the message, with the request id behind it.\<close>

datatype error_text = ErrDetail jsstr "jsstr option" | ErrMessage thrown "jsstr option"

definition apiErrorMessage :: "thrown \<Rightarrow> error_text" where
  "apiErrorMessage e =
     (case e of
        Exn _ \<Rightarrow> ErrMessage e None
      | Api a \<Rightarrow> (case Option.bind (err_problem a) (\<lambda>p. as_text (jget (js ''detail'') p)) of
            Some d \<Rightarrow> ErrDetail d (error_id e) | None \<Rightarrow> ErrMessage e (error_id e)))"

section \<open>Saving\<close>

record UpdateProblemRequest =
  up_slug :: jsstr
  up_title :: jsstr
  up_statement :: jsstr
  up_inputDescription :: jsstr
  up_outputDescription :: jsstr
  up_constraints :: "jsstr option"
  up_hint :: "jsstr option"
  up_difficulty :: difficulty_level
  up_tags :: "jsstr list"
  up_samples :: "ProblemSample list"
  up_starterCode :: jsstr
  up_judgeTemplate :: "jsstr option"
  up_rowVersion :: int

text \<open>\<open>[...new Set(xs)]\<close> keeps the first of equal elements.\<close>

definition unique :: "'a list \<Rightarrow> 'a list" where
  "unique xs = rev (remdups (rev xs))"

definition update_request :: "AdminProblem \<Rightarrow> WorkbenchValues \<Rightarrow> UpdateProblemRequest" where
  "update_request p v =
     \<lparr>up_slug = ap_slug p, up_title = trim (wv_title v), up_statement = wv_statement v,
      up_inputDescription = wv_inputDescription v, up_outputDescription = wv_outputDescription v,
      up_constraints = trim_or_null (wv_constraints v), up_hint = trim_or_null (wv_hint v),
      up_difficulty = wv_difficulty v, up_tags = unique (filter (\<lambda>t. t \<noteq> []) (map trim (wv_tags v))),
      up_samples = toProblemSamples (wv_samples v), up_starterCode = wv_starterCode v,
      up_judgeTemplate = (if ap_core p \<and> trim (wv_judgeTemplate v) \<noteq> [] then Some (wv_judgeTemplate v) else None),
      up_rowVersion = ap_rowVersion p\<rparr>"

definition null_or :: "jsstr option \<Rightarrow> json" where
  "null_or v = (case v of Some s \<Rightarrow> JStr s | None \<Rightarrow> JNull)"

definition request_json :: "UpdateProblemRequest \<Rightarrow> json" where
  "request_json r = JObj
     ([(js ''slug'', JStr (up_slug r)), (js ''title'', JStr (up_title r)), (js ''statementMarkdown'', JStr (up_statement r)),
       (js ''inputDescriptionMarkdown'', JStr (up_inputDescription r)),
       (js ''outputDescriptionMarkdown'', JStr (up_outputDescription r)),
       (js ''constraintsMarkdown'', null_or (up_constraints r)), (js ''hintMarkdown'', null_or (up_hint r)),
       (js ''difficulty'', JStr (difficulty_name (up_difficulty r))), (js ''tags'', JArr (map JStr (up_tags r))),
       (js ''samples'', JArr (map (\<lambda>x. JObj [(js ''ordinal'', JNum (Fin (of_int (ps_ordinal x)))), (js ''input'', JStr (ps_input x)),
          (js ''output'', JStr (ps_output x)), (js ''explanationMarkdown'', null_or (ps_explanation x))]) (up_samples r))),
       (js ''starterCode'', JStr (up_starterCode r))]
      @ (case up_judgeTemplate r of Some t \<Rightarrow> [(js ''judgeTemplate'', JStr t)] | None \<Rightarrow> [])
      @ [(js ''rowVersion'', JNum (Fin (of_int (up_rowVersion r))))])"

definition save_mutationFn :: "'w net \<Rightarrow> AdminProblem \<Rightarrow> WorkbenchValues \<Rightarrow> ('w, json) io" where
  "save_mutationFn N p v = updateProblem N (ap_id p) (request_json (update_request p v))"

section \<open>The editor's state\<close>

text \<open>
  \<open>save_state\<close> is the mutation the page watches; a reset makes the page forget a mutation, whose
  request and callbacks go on: \<open>inflight\<close> has the saves that are not answered yet. A save that was
  answered is pending until its \<open>onSuccess\<close> has refreshed the lists.
\<close>

datatype save_state = SaveIdle | SavePending nat | SaveFailed thrown

datatype upload_text = Uploading | Uploaded int | UploadCancelled | UploadFailed error_text

datatype ProblemWorkbenchPanel = TestDataPanel | CalibrationPanel | PublishPanel

datatype confirm_question = AskArchive | AskDelete

record CalibrationLimits =
  cpuSeconds :: jsstr
  memoryMib :: jsstr
  clockSeconds :: jsstr

record check_item =
  check_code :: jsstr
  check_passed :: bool
  check_message :: jsstr

record PublishCheck =
  check_ready :: bool
  check_items :: "check_item list"

datatype calibration_status = CalDraft | CalRunning | CalValid | CalFailed | CalSuperseded

record calibration_result =
  cal_status :: calibration_status
  cal_cpuNs :: "int option"
  cal_memoryBytes :: "int option"
  cal_clockNs :: "int option"

record calibration_request =
  cr_cpuNs :: number
  cr_memoryBytes :: number
  cr_clockNs :: "number option"
  cr_source :: jsstr

datatype calibration_state = CalIdle | CalPending | CalDone calibration_status | CalBadLimit limit_error | CalError thrown

text \<open>What the editor has asked of the server so far.\<close>

datatype editor_call =
    CallSave nat UpdateProblemRequest | CallUpload jsstr | CallCalibrate calibration_request
  | CallPublish int | CallUnpublish int | CallArchive int | CallDelete int

datatype mutation_state = MutIdle | MutPending | MutError thrown

record editor =
  problem :: AdminProblem
  formValues :: WorkbenchValues
  savedValues :: WorkbenchValues
  save_state :: save_state
  inflight :: "(nat \<times> WorkbenchValues) list"
  saveCount :: nat
  reloading :: nat
  savedDriver :: jsstr
  driverChanged :: bool
  lastSavedAt :: "int option"
  referenceSource :: jsstr
  limits :: CalibrationLimits
  uploadState :: "upload_text option"
  uploading :: bool
  calibration :: calibration_state
  check :: "PublishCheck option"
  check_failed :: "thrown option"
  publishing :: mutation_state
  unpublishing :: mutation_state
  edit_panel :: "ProblemWorkbenchPanel option"
  confirming :: "confirm_question option"
  confirm_loading :: bool
  confirm_error :: "error_text option"
  ed_calls :: "editor_call list"

definition open_editor :: "AdminProblem \<Rightarrow> ProblemWorkbenchPanel option \<Rightarrow> editor" where
  "open_editor p panel0 =
     \<lparr>problem = p, formValues = toFormValues p, savedValues = toFormValues p, save_state = SaveIdle,
      inflight = [], saveCount = 0, reloading = 0,
      savedDriver = or_empty (ap_judgeTemplate p), driverChanged = False, lastSavedAt = None, referenceSource = [],
      limits = \<lparr>cpuSeconds = js ''1'', memoryMib = js ''256'', clockSeconds = []\<rparr>, uploadState = None,
      uploading = False, calibration = CalIdle, check = None, check_failed = None, publishing = MutIdle,
      unpublishing = MutIdle, edit_panel = panel0, confirming = None, confirm_loading = False,
      confirm_error = None, ed_calls = []\<rparr>"

text \<open>The lines of the prefix, which ends with a line break.\<close>

definition prefixLines :: "jsstr option \<Rightarrow> int" where
  "prefixLines pre = (case pre of None \<Rightarrow> 0 | Some s \<Rightarrow> if s = [] then 0 else int (length (split_on 10 s)) - 1)"

definition editable :: "editor \<Rightarrow> bool" where
  "editable e = ap_active (problem e)"

definition autosave :: "editor \<Rightarrow> bool" where
  "autosave e \<longleftrightarrow> editable e \<and> \<not> ap_public (problem e)"

definition isDirty :: "editor \<Rightarrow> bool" where
  "isDirty e \<longleftrightarrow> \<not> sameWorkbenchValues (formValues e) (savedValues e)"

definition titleMissing :: "editor \<Rightarrow> bool" where
  "titleMissing e \<longleftrightarrow> trim (wv_title (formValues e)) = []"

definition save_pending :: "editor \<Rightarrow> bool" where
  "save_pending e = (case save_state e of SavePending _ \<Rightarrow> True | _ \<Rightarrow> False)"

definition save_failed :: "editor \<Rightarrow> bool" where
  "save_failed e = (case save_state e of SaveFailed _ \<Rightarrow> True | _ \<Rightarrow> False)"

definition hasUnsavedContent :: "editor \<Rightarrow> bool" where
  "hasUnsavedContent e \<longleftrightarrow> isDirty e \<or> trim (referenceSource e) \<noteq> []"

text \<open>\<open>shouldBlockFn\<close>: leaving for another page with something unsaved; the question names what is lost.\<close>

definition shouldBlock :: "jsstr \<Rightarrow> jsstr \<Rightarrow> editor \<Rightarrow> bool" where
  "shouldBlock from_path to_path e \<longleftrightarrow> from_path \<noteq> to_path \<and> hasUnsavedContent e"

datatype leave_warning = UnsavedChanges | SourceInMemory

definition leave_question :: "editor \<Rightarrow> leave_warning list" where
  "leave_question e = (if isDirty e then [UnsavedChanges] else []) @ (if trim (referenceSource e) \<noteq> [] then [SourceInMemory] else [])"

definition call :: "editor_call \<Rightarrow> editor \<Rightarrow> editor" where
  "call c e = e\<lparr>ed_calls := ed_calls e @ [c]\<rparr>"

definition markChanged :: "editor \<Rightarrow> editor" where
  "markChanged e = (if save_pending e then e else e\<lparr>save_state := SaveIdle\<rparr>)"

definition edit :: "(WorkbenchValues \<Rightarrow> WorkbenchValues) \<Rightarrow> editor \<Rightarrow> editor" where
  "edit f e = (if editable e then markChanged (e\<lparr>formValues := f (formValues e)\<rparr>) else e)"

definition handleSubmit :: "editor \<Rightarrow> editor" where
  "handleSubmit e =
     (if save_pending e \<or> titleMissing e then e
      else call (CallSave (saveCount e) (update_request (problem e) (formValues e)))
        (e\<lparr>save_state := SavePending (saveCount e), inflight := inflight e @ [(saveCount e, formValues e)],
           saveCount := saveCount e + 1\<rparr>))"

definition autosave_armed :: "editor \<Rightarrow> bool" where
  "autosave_armed e \<longleftrightarrow> autosave e \<and> isDirty e \<and> \<not> titleMissing e \<and> \<not> save_pending e \<and> \<not> save_failed e"

record save_key =
  sk_s :: bool
  sk_mod :: bool
  sk_composing :: bool

definition onSaveKey :: "save_key \<Rightarrow> editor \<Rightarrow> editor" where
  "onSaveKey k e =
     (if editable e \<and> isDirty e \<and> \<not> save_pending e \<and> sk_mod k \<and> sk_s k \<and> \<not> sk_composing k then handleSubmit e else e)"

definition save_onSuccess :: "nat \<Rightarrow> AdminProblem \<Rightarrow> int \<Rightarrow> editor \<Rightarrow> editor" where
  "save_onSuccess n saved time e =
     (case map_of (inflight e) n of
        Some submitted \<Rightarrow>
          let driver = wv_judgeTemplate submitted in
          e\<lparr>problem := saved, inflight := filter (\<lambda>x. fst x \<noteq> n) (inflight e),
            driverChanged := (driverChanged e \<or> (ap_core (problem e) \<and> trim driver \<noteq> [] \<and> driver \<noteq> savedDriver e)),
            savedDriver := driver, savedValues := submitted, lastSavedAt := Some time\<rparr>
      | None \<Rightarrow> e)"

definition save_settles :: "nat \<Rightarrow> editor \<Rightarrow> editor" where
  "save_settles n e =
     (if save_state e = SavePending n \<and> map_of (inflight e) n = None then e\<lparr>save_state := SaveIdle\<rparr> else e)"

definition save_onError :: "nat \<Rightarrow> thrown \<Rightarrow> editor \<Rightarrow> editor" where
  "save_onError n err e =
     (if map_of (inflight e) n = None then e
      else e\<lparr>inflight := filter (\<lambda>x. fst x \<noteq> n) (inflight e),
             save_state := (if save_state e = SavePending n then SaveFailed err else save_state e)\<rparr>)"

text \<open>A conflict: status 409, or a code that mentions one.\<close>

definition conflict :: "editor \<Rightarrow> bool" where
  "conflict e =
     (case save_state e of
        SaveFailed (Api a) \<Rightarrow> err_status a = Some 409
          \<or> (case err_code a of Some c \<Rightarrow> includes_str c (js ''CONFLICT'') | None \<Rightarrow> False)
      | _ \<Rightarrow> False)"

definition reloadLatest :: "AdminProblem \<Rightarrow> editor \<Rightarrow> editor" where
  "reloadLatest latest e =
     e\<lparr>problem := latest, formValues := toFormValues latest, savedValues := toFormValues latest, save_state := SaveIdle\<rparr>"

text \<open>The block under the title after a failed save.\<close>

datatype save_error_block = NoBlock | ConflictBlock | FailedBlock error_text

definition save_error :: "editor \<Rightarrow> save_error_block" where
  "save_error e = (case save_state e of
     SaveFailed err \<Rightarrow> if conflict e then ConflictBlock else FailedBlock (apiErrorMessage err) | _ \<Rightarrow> NoBlock)"

definition saveButton :: "editor \<Rightarrow> bool option" where
  "saveButton e = (if autosave e \<or> \<not> editable e then None else Some (isDirty e \<and> \<not> titleMissing e \<and> \<not> save_pending e))"

datatype title_note = NoteArchived | NotePublic | NoNote

definition title_notes :: "editor \<Rightarrow> bool \<times> title_note" where
  "title_notes e = (titleMissing e \<and> editable e,
     if \<not> editable e then NoteArchived else if ap_public (problem e) then NotePublic else NoNote)"

datatype driver_action = FillSkeleton | SuggestCalibration | NoDriverAction

definition CPP_DRIVER_SKELETON :: jsstr where
  "CPP_DRIVER_SKELETON = js ''#include \"solution.cpp\"'' @ [10, 10] @ js ''int main() {'' @ [10] @ js ''    // ''
     @ [35835, 20837, 25968, 25454, 65292, 35843, 29992] @ js '' Solution '' @ [30340, 26041, 27861, 65292, 36755, 20986, 32467, 26524]
     @ [10, 125, 10]"

definition driver_actions :: "editor \<Rightarrow> driver_action option" where
  "driver_actions e =
     (if \<not> ap_core (problem e) then None
      else Some (if editable e \<and> trim (wv_judgeTemplate (formValues e)) = [] then FillSkeleton
                 else if driverChanged e then SuggestCalibration else NoDriverAction))"

section \<open>The other actions\<close>

datatype blocked_reason = Archived | SavingFirst | SaveFirst | NoTestData | NoNode jsstr

definition nodeUnavailable :: "editor \<Rightarrow> check_item option" where
  "nodeUnavailable e = Option.bind (check e) (\<lambda>c.
     find (\<lambda>i. check_code i = js ''ONLINE_JUDGE_NODE'' \<and> \<not> check_passed i) (check_items c))"

definition calibrationReady :: "editor \<Rightarrow> bool" where
  "calibrationReady e = (case check e of
     Some c \<Rightarrow> list_ex (\<lambda>i. check_code i = js ''CALIBRATION'' \<and> check_passed i) (check_items c) | None \<Rightarrow> False)"

definition passedChecks :: "editor \<Rightarrow> int \<times> int" where
  "passedChecks e = (case check e of
     Some c \<Rightarrow> (int (length (filter check_passed (check_items c))), int (length (check_items c))) | None \<Rightarrow> (0, 0))"

definition unsavedReason :: "editor \<Rightarrow> blocked_reason option" where
  "unsavedReason e =
     (if \<not> editable e then Some Archived
      else if isDirty e then Some (if autosave e then SavingFirst else SaveFirst) else None)"

definition calibrationBlocked :: "editor \<Rightarrow> blocked_reason option" where
  "calibrationBlocked e =
     (case unsavedReason e of
        Some r \<Rightarrow> Some r
      | None \<Rightarrow>
          if ap_testData (problem e) = None then Some NoTestData
          else map_option (\<lambda>i. NoNode (check_message i)) (nodeUnavailable e))"

text \<open>\<open>TestDataDialog\<close>: choosing or dropping a file uploads it unless the dialog is blocked.\<close>

definition testDataDisabled :: "editor \<Rightarrow> bool" where
  "testDataDisabled e \<longleftrightarrow> unsavedReason e \<noteq> None \<or> uploading e"

definition onUpload :: "jsstr option \<Rightarrow> editor \<Rightarrow> editor" where
  "onUpload file e =
     (case file of
        None \<Rightarrow> e
      | Some f \<Rightarrow> if testDataDisabled e then e
                  else call (CallUpload f) (e\<lparr>uploadState := Some Uploading, uploading := True\<rparr>))"

definition is_aborted :: "thrown \<Rightarrow> bool" where
  "is_aborted err = (case err of Api a \<Rightarrow> err_kind a = Aborted | Exn _ \<Rightarrow> False)"

definition upload_ends :: "thrown + int \<Rightarrow> editor \<Rightarrow> editor" where
  "upload_ends r e =
     e\<lparr>uploading := False,
       uploadState := Some (case r of
          Inr n \<Rightarrow> Uploaded n
        | Inl err \<Rightarrow> if is_aborted err then UploadCancelled else UploadFailed (apiErrorMessage err))\<rparr>"

record test_data_view =
  tv_summary :: "(int \<times> jsstr option \<times> jsstr) option"
  tv_disabled :: bool
  tv_blocked :: "blocked_reason option"
  tv_progress :: bool
  tv_state :: "upload_text option"
  tv_cancel :: bool

definition TestDataDialog :: "editor \<Rightarrow> test_data_view option" where
  "TestDataDialog e =
     (if edit_panel e \<noteq> Some TestDataPanel then None
      else Some \<lparr>tv_summary = map_option (\<lambda>d. (td_count d, formatBytes (Some (td_bytes d)), td_digest d)) (ap_testData (problem e)),
        tv_disabled = testDataDisabled e, tv_blocked = unsavedReason e, tv_progress = uploading e,
        tv_state = uploadState e, tv_cancel = uploading e\<rparr>)"

definition calibration_mutationFn :: "editor \<Rightarrow> (limit_error, calibration_request) result" where
  "calibration_mutationFn e =
     bind_result (secondsToNanoseconds (cpuSeconds (limits e)) False) (\<lambda>cpu.
     bind_result (secondsToNanoseconds (clockSeconds (limits e)) True) (\<lambda>clock.
       case cpu of
         None \<Rightarrow> Inl CpuMissing
       | Some c \<Rightarrow> bind_result (mebibytesToBytes (memoryMib (limits e))) (\<lambda>mem.
           Inr \<lparr>cr_cpuNs = c, cr_memoryBytes = mem, cr_clockNs = clock, cr_source = referenceSource e\<rparr>)))"

definition calibrateDisabled :: "editor \<Rightarrow> bool" where
  "calibrateDisabled e \<longleftrightarrow> calibrationBlocked e \<noteq> None \<or> trim (referenceSource e) = []"

definition runCalibration :: "editor \<Rightarrow> editor" where
  "runCalibration e =
     (if calibrateDisabled e \<or> calibration e = CalPending then e
      else case calibration_mutationFn e of
             Inl err \<Rightarrow> e\<lparr>calibration := CalBadLimit err\<rparr>
           | Inr r \<Rightarrow> call (CallCalibrate r) (e\<lparr>calibration := CalPending\<rparr>))"

definition calibration_onSuccess :: "calibration_result \<Rightarrow> editor \<Rightarrow> editor" where
  "calibration_onSuccess r e =
     e\<lparr>calibration := CalDone (cal_status r),
       limits := \<lparr>cpuSeconds = (case nanosecondsToSeconds (cal_cpuNs r) of Some s \<Rightarrow> s | None \<Rightarrow> cpuSeconds (limits e)),
                  memoryMib = (case bytesToMebibytes (cal_memoryBytes r) of Some s \<Rightarrow> s | None \<Rightarrow> memoryMib (limits e)),
                  clockSeconds = or_empty (nanosecondsToSeconds (cal_clockNs r))\<rparr>,
       referenceSource := [],
       driverChanged := (driverChanged e \<and> cal_status r \<noteq> CalValid)\<rparr>"

definition calibration_ends :: "thrown + calibration_result \<Rightarrow> editor \<Rightarrow> editor" where
  "calibration_ends r e =
     (if calibration e \<noteq> CalPending then e
      else case r of Inr c \<Rightarrow> calibration_onSuccess c e | Inl err \<Rightarrow> e\<lparr>calibration := CalError err\<rparr>)"

datatype calibration_message = ResultMessage calibration_status | LimitMessage limit_error | FailureMessage error_text

definition calibration_text :: "calibration_state \<Rightarrow> calibration_message option" where
  "calibration_text c = (case c of
     CalDone st \<Rightarrow> Some (ResultMessage st) | CalBadLimit l \<Rightarrow> Some (LimitMessage l)
   | CalError err \<Rightarrow> Some (FailureMessage (apiErrorMessage err)) | _ \<Rightarrow> None)"

record calibration_view =
  cv_limits :: CalibrationLimits
  cv_source :: jsstr
  cv_readOnly :: bool
  cv_blocked :: "blocked_reason option"
  cv_message :: "calibration_message option"
  cv_running :: bool
  cv_disabled :: bool

definition CalibrationDialog :: "editor \<Rightarrow> calibration_view option" where
  "CalibrationDialog e =
     (if edit_panel e \<noteq> Some CalibrationPanel then None
      else Some \<lparr>cv_limits = limits e, cv_source = referenceSource e, cv_readOnly = (\<not> editable e),
        cv_blocked = calibrationBlocked e, cv_message = calibration_text (calibration e),
        cv_running = (calibration e = CalPending), cv_disabled = calibrateDisabled e\<rparr>)"

text \<open>\<open>PublishDialog\<close>: one of two buttons, by visibility.\<close>

definition acting :: "editor \<Rightarrow> bool" where
  "acting e \<longleftrightarrow> publishing e = MutPending \<or> unpublishing e = MutPending"

definition publishDisabled :: "editor \<Rightarrow> bool" where
  "publishDisabled e \<longleftrightarrow> unsavedReason e \<noteq> None
     \<or> (\<not> ap_public (problem e) \<and> \<not> (case check e of Some c \<Rightarrow> check_ready c | None \<Rightarrow> False))"

definition onPublishButton :: "editor \<Rightarrow> editor" where
  "onPublishButton e =
     (if publishDisabled e \<or> acting e then e
      else if ap_public (problem e)
           then call (CallUnpublish (ap_rowVersion (problem e))) (e\<lparr>unpublishing := MutPending\<rparr>)
           else call (CallPublish (ap_rowVersion (problem e))) (e\<lparr>publishing := MutPending\<rparr>))"

definition publishing_ends :: "thrown option \<Rightarrow> editor \<Rightarrow> editor" where
  "publishing_ends r e = (if publishing e \<noteq> MutPending then e else
     case r of Some err \<Rightarrow> e\<lparr>publishing := MutError err\<rparr> | None \<Rightarrow> e\<lparr>publishing := MutIdle, edit_panel := None\<rparr>)"

definition unpublishing_ends :: "thrown option \<Rightarrow> editor \<Rightarrow> editor" where
  "unpublishing_ends r e = (if unpublishing e \<noteq> MutPending then e else
     case r of Some err \<Rightarrow> e\<lparr>unpublishing := MutError err\<rparr> | None \<Rightarrow> e\<lparr>unpublishing := MutIdle, edit_panel := None\<rparr>)"

definition actionError :: "editor \<Rightarrow> error_text option" where
  "actionError e = (case publishing e of
     MutError err \<Rightarrow> Some (apiErrorMessage err)
   | _ \<Rightarrow> (case unpublishing e of MutError err \<Rightarrow> Some (apiErrorMessage err) | _ \<Rightarrow> None))"

record publish_view =
  pv_public :: bool
  pv_pending :: bool
  pv_checks :: "(jsstr \<times> bool) list"
  pv_checkError :: "error_text option"
  pv_blocked :: "blocked_reason option"
  pv_actionError :: "error_text option"
  pv_acting :: bool
  pv_disabled :: bool

definition PublishDialog :: "editor \<Rightarrow> publish_view option" where
  "PublishDialog e =
     (if edit_panel e \<noteq> Some PublishPanel then None
      else Some \<lparr>pv_public = ap_public (problem e), pv_pending = (check e = None \<and> check_failed e = None),
        pv_checks = (case check e of Some c \<Rightarrow> map (\<lambda>i. (check_message i, \<not> check_passed i)) (check_items c) | None \<Rightarrow> []),
        pv_checkError = map_option apiErrorMessage (check_failed e), pv_blocked = unsavedReason e,
        pv_actionError = actionError e, pv_acting = acting e, pv_disabled = publishDisabled e\<rparr>)"

definition archiveDisabled :: "editor \<Rightarrow> bool" where
  "archiveDisabled e \<longleftrightarrow> hasUnsavedContent e \<or> \<not> editable e \<or> ap_public (problem e)"

definition deleteDisabled :: "editor \<Rightarrow> bool" where
  "deleteDisabled e \<longleftrightarrow> hasUnsavedContent e \<or> ap_published (problem e)"

definition onMenu :: "confirm_question \<Rightarrow> editor \<Rightarrow> editor" where
  "onMenu q e = (if (case q of AskArchive \<Rightarrow> archiveDisabled e | AskDelete \<Rightarrow> deleteDisabled e) then e
     else e\<lparr>confirming := Some q\<rparr>)"

text \<open>\<open>ConfirmationDialog\<close>: the button is off and the dialog stays while the action runs.\<close>

definition onConfirm :: "editor \<Rightarrow> editor" where
  "onConfirm e =
     (case confirming e of
        None \<Rightarrow> e
      | Some q \<Rightarrow> if confirm_loading e then e
          else call (case q of AskArchive \<Rightarrow> CallArchive (ap_rowVersion (problem e)) | AskDelete \<Rightarrow> CallDelete (ap_rowVersion (problem e)))
            (e\<lparr>confirm_loading := True, confirm_error := None\<rparr>))"

definition confirm_ends :: "thrown option \<Rightarrow> editor \<Rightarrow> editor" where
  "confirm_ends r e =
     (if \<not> confirm_loading e then e
      else case r of
          Some err \<Rightarrow> e\<lparr>confirm_loading := False, confirm_error := Some (apiErrorMessage err)\<rparr>
        | None \<Rightarrow> e\<lparr>confirm_loading := False, confirming := None\<rparr>)"

definition confirm_close :: "editor \<Rightarrow> editor" where
  "confirm_close e = (if confirm_loading e then e else e\<lparr>confirming := None, confirm_error := None\<rparr>)"

text \<open>\<open>resolveCheck\<close>: where a failed check is put right.\<close>

datatype section_name = SamplesSection | StarterSection | ContentSection

definition resolveCheck :: "jsstr \<Rightarrow> ProblemWorkbenchPanel + section_name" where
  "resolveCheck code =
     (if code = js ''TEST_DATA'' then Inl TestDataPanel
      else if code = js ''CALIBRATION'' \<or> code = js ''ONLINE_JUDGE_NODE'' then Inl CalibrationPanel
      else if code = js ''SAMPLES'' then Inr SamplesSection
      else if code = js ''LANGUAGE'' then Inr StarterSection else Inr ContentSection)"

datatype save_text = Saving | SaveError | TitleBlank | Unsaved | SavedAt int | WillSave | NoSaveText

definition SaveStatus :: "editor \<Rightarrow> save_text" where
  "SaveStatus e =
     (if save_pending e then Saving else if save_failed e then SaveError
      else if isDirty e \<and> titleMissing e then TitleBlank
      else if isDirty e then (if autosave e then Saving else Unsaved)
      else case lastSavedAt e of Some t \<Rightarrow> SavedAt t | None \<Rightarrow> if autosave e then WillSave else NoSaveText)"

text \<open>The buttons of the property panel about judging and publication.\<close>

datatype node_text = NodeOffline | NodeOnline | NodeChecking

datatype publish_text = PubChecking | PubSettings | PubReady | PubProgress int int

record property_panel =
  pp_testData :: "(int \<times> jsstr option) option"
  pp_calibrated :: bool
  pp_node :: node_text
  pp_publish :: publish_text

definition property_buttons :: "editor \<Rightarrow> property_panel" where
  "property_buttons e =
     \<lparr>pp_testData = map_option (\<lambda>d. (td_count d, formatBytes (Some (td_bytes d)))) (ap_testData (problem e)),
      pp_calibrated = calibrationReady e,
      pp_node = (if nodeUnavailable e \<noteq> None then NodeOffline else if check e \<noteq> None then NodeOnline else NodeChecking),
      pp_publish = (case check e of
          None \<Rightarrow> PubChecking
        | Some c \<Rightarrow> if ap_public (problem e) then PubSettings else if check_ready c then PubReady
                    else PubProgress (fst (passedChecks e)) (snd (passedChecks e)))\<rparr>"

section \<open>Executions\<close>

datatype sample_edit =
    SetInput nat jsstr | SetOutput nat jsstr | SetExplanation nat jsstr | MoveSample nat int | DuplicateSample nat
  | RemoveSample nat | AddSample

definition ProblemSampleList :: "sample_edit \<Rightarrow> EditableProblemSample list \<Rightarrow> EditableProblemSample list" where
  "ProblemSampleList c xs =
     (case c of
        SetInput i s \<Rightarrow> update_sample i (\<lambda>x. x\<lparr>es_input := s\<rparr>) xs
      | SetOutput i s \<Rightarrow> update_sample i (\<lambda>x. x\<lparr>es_output := s\<rparr>) xs
      | SetExplanation i s \<Rightarrow> update_sample i (\<lambda>x. x\<lparr>es_explanation := s\<rparr>) xs
      | MoveSample i d \<Rightarrow> move_sample i d xs
      | DuplicateSample i \<Rightarrow> duplicate_sample i xs
      | RemoveSample i \<Rightarrow> remove_sample i xs
      | AddSample \<Rightarrow> add_sample xs)"

datatype field_edit =
    Title jsstr | Statement jsstr | InputDescription jsstr | OutputDescription jsstr | Constraints jsstr | Hint jsstr
  | Difficulty difficulty_level | Tags "jsstr list" | Samples sample_edit | StarterCode jsstr | JudgeTemplate jsstr | Skeleton

definition handleChange :: "field_edit \<Rightarrow> WorkbenchValues \<Rightarrow> WorkbenchValues" where
  "handleChange c v =
     (case c of
        Title s \<Rightarrow> v\<lparr>wv_title := fold_title s\<rparr>
      | Statement s \<Rightarrow> v\<lparr>wv_statement := s\<rparr>
      | InputDescription s \<Rightarrow> v\<lparr>wv_inputDescription := s\<rparr>
      | OutputDescription s \<Rightarrow> v\<lparr>wv_outputDescription := s\<rparr>
      | Constraints s \<Rightarrow> v\<lparr>wv_constraints := s\<rparr>
      | Hint s \<Rightarrow> v\<lparr>wv_hint := s\<rparr>
      | Difficulty d \<Rightarrow> v\<lparr>wv_difficulty := d\<rparr>
      | Tags ts \<Rightarrow> v\<lparr>wv_tags := ts\<rparr>
      | Samples c \<Rightarrow> v\<lparr>wv_samples := ProblemSampleList c (wv_samples v)\<rparr>
      | StarterCode s \<Rightarrow> v\<lparr>wv_starterCode := s\<rparr>
      | JudgeTemplate s \<Rightarrow> v\<lparr>wv_judgeTemplate := s\<rparr>
      | Skeleton \<Rightarrow> if trim (wv_judgeTemplate v) = [] then v\<lparr>wv_judgeTemplate := CPP_DRIVER_SKELETON\<rparr> else v)"

datatype editor_op =
    Edit field_edit | EditSource jsstr | EditLimits CalibrationLimits
  | AutosaveFires | SaveButton | RetryButton | SaveKey save_key
  | SaveSucceeds nat AdminProblem int | SaveSettles nat | SaveFails nat thrown
  | ReloadButton | ReloadAnswers "AdminProblem option"
  | Refetch AdminProblem | CheckAnswers "thrown + PublishCheck" | UploadFile "jsstr option" | UploadEnds "thrown + int"
  | Calibrate | CalibrationEnds "thrown + calibration_result"
  | PublishButton | PublishEnds "thrown option" | UnpublishEnds "thrown option"
  | Menu confirm_question | Confirm | ConfirmEnds "thrown option" | ConfirmClose
  | OpenPanel "ProblemWorkbenchPanel option"

fun editor_step :: "editor_op \<Rightarrow> editor \<Rightarrow> editor" where
  "editor_step (Edit c) e = edit (handleChange c) e"
| "editor_step (EditSource s) e = (if editable e then e\<lparr>referenceSource := s\<rparr> else e)"
| "editor_step (EditLimits l) e = (if editable e then e\<lparr>limits := l\<rparr> else e)"
| "editor_step AutosaveFires e = (if autosave_armed e then handleSubmit e else e)"
| "editor_step SaveButton e = (if saveButton e = Some True then handleSubmit e else e)"
| "editor_step RetryButton e = (if save_failed e \<and> \<not> conflict e then handleSubmit e else e)"
| "editor_step (SaveKey k) e = onSaveKey k e"
| "editor_step (SaveSucceeds n p t) e = save_onSuccess n p t e"
| "editor_step (SaveSettles n) e = save_settles n e"
| "editor_step (SaveFails n err) e = save_onError n err e"
| "editor_step ReloadButton e = (if save_failed e then e\<lparr>reloading := reloading e + 1\<rparr> else e)"
| "editor_step (ReloadAnswers r) e =
     (if reloading e = 0 then e
      else let e1 = e\<lparr>reloading := reloading e - 1\<rparr> in case r of Some p \<Rightarrow> reloadLatest p e1 | None \<Rightarrow> e1)"
| "editor_step (Refetch p) e = e\<lparr>problem := p\<rparr>"
| "editor_step (CheckAnswers r) e =
     (case r of Inr c \<Rightarrow> e\<lparr>check := Some c, check_failed := None\<rparr> | Inl err \<Rightarrow> e\<lparr>check_failed := Some err\<rparr>)"
| "editor_step (UploadFile f) e = onUpload f e"
| "editor_step (UploadEnds r) e = (if uploading e then upload_ends r e else e)"
| "editor_step Calibrate e = runCalibration e"
| "editor_step (CalibrationEnds r) e = calibration_ends r e"
| "editor_step PublishButton e = onPublishButton e"
| "editor_step (PublishEnds r) e = publishing_ends r e"
| "editor_step (UnpublishEnds r) e = unpublishing_ends r e"
| "editor_step (Menu q) e = onMenu q e"
| "editor_step Confirm e = onConfirm e"
| "editor_step (ConfirmEnds r) e = confirm_ends r e"
| "editor_step ConfirmClose e = confirm_close e"
| "editor_step (OpenPanel p) e = e\<lparr>edit_panel := p\<rparr>"

definition editor_run :: "editor_op list \<Rightarrow> editor \<Rightarrow> editor" where
  "editor_run ops e = fold editor_step ops e"

end
