(* ===== verification/Editor_Properties.thy ===== *)
theory Editor_Properties
  imports Problem_Editor Draft_Records
begin

text \<open>
  The properties of the problem editor: what a save sends and what reading it back gives, which calls
  an execution makes and in which states, what a form without unsaved changes holds, that autosaving
  catches up with the form, and the conversion of the limits.
\<close>

section \<open>Texts, tags and samples\<close>

lemma trim_trim [simp]: "trim (trim s) = trim s"
proof -
  have "dropWhile P (rev (dropWhile P (rev (dropWhile P xs)))) = rev (dropWhile P (rev (dropWhile P xs)))"
    for P and xs :: jsstr
  proof (cases "dropWhile P xs")
    case Nil
    show ?thesis by (simp only: Nil rev.simps dropWhile.simps)
  next
    case (Cons y ys)
    then have "\<not> P y" by (metis dropWhile_eq_Cons_conv)
    then have "rev (dropWhile P (rev (y # ys))) = y # rev (dropWhile P (rev ys))"
      by (simp add: dropWhile_append dropWhile_eq_Nil_conv)
    then show ?thesis using Cons \<open>\<not> P y\<close> by simp
  qed
  then show ?thesis by (simp add: trim_def trimStart_def)
qed

lemma trim_Nil [simp]: "trim [] = []"
  by (simp add: trim_def trimStart_def)

lemma trim_or_null_cases:
  "trim_or_null s = Some t \<Longrightarrow> t \<noteq> [] \<and> trim t = t"
  by (auto simp: trim_or_null_def split: if_splits)

lemma trim_or_null_again [simp]: "trim_or_null (or_empty (trim_or_null s)) = trim_or_null s"
  by (simp add: trim_or_null_def or_empty_def)

lemma set_unique [simp]: "set (unique xs) = set xs"
  by (simp add: unique_def)

lemma distinct_unique [simp]: "distinct (unique xs)"
  by (simp add: unique_def)

lemma unique_distinct: "distinct xs \<Longrightarrow> unique xs = xs"
  by (simp add: unique_def distinct_remdups_id)

lemma length_toProblemSamples [simp]: "length (toProblemSamples xs) = length xs"
  by (simp add: toProblemSamples_def)

lemma nth_toProblemSamples:
  "i < length xs \<Longrightarrow> toProblemSamples xs ! i =
     \<lparr>ps_ordinal = int i + 1, ps_input = es_input (xs ! i), ps_output = es_output (xs ! i),
      ps_explanation = trim_or_null (es_explanation (xs ! i))\<rparr>"
  by (simp add: toProblemSamples_def nth_enumerate_eq)

lemma ordinals_toProblemSamples: "map ps_ordinal (toProblemSamples xs) = map (\<lambda>i. int i + 1) [0..<length xs]"
  by (rule nth_equalityI) (simp_all add: nth_toProblemSamples)

lemma toProblemSamples_again:
  "toProblemSamples (map (\<lambda>x. \<lparr>es_input = ps_input x, es_output = ps_output x, es_explanation = or_empty (ps_explanation x)\<rparr>)
     (toProblemSamples xs)) = toProblemSamples xs"
  by (rule nth_equalityI) (simp_all add: nth_toProblemSamples)

text \<open>Moving a sample is a swap: nothing is lost and moving back restores the list.\<close>

lemma mset_move_sample: "mset (move_sample i d xs) = mset xs"
  by (auto simp: move_sample_def Let_def mset_swap)

lemma move_sample_back:
  assumes "i < length xs" and "int j = int i + d" and "j < length xs"
  shows "move_sample j (- d) (move_sample i d xs) = xs"
proof -
  have "nat (int i + d) = j" and "nat (int j - d) = i" using assms by auto
  then show ?thesis using assms
    by (auto simp: move_sample_def Let_def nth_list_update list_update_swap intro!: nth_equalityI)
qed

section \<open>Comparison by the printed form\<close>

lemma printable_values: "printable (values_json v)"
  by (simp add: values_json_def sample_json_def list_all_iff)

lemma difficulty_name_inject [simp]: "difficulty_name a = difficulty_name b \<longleftrightarrow> a = b"
  by (cases a; cases b) (simp_all add: difficulty_name_def)

lemma sample_json_inject [simp]: "sample_json a = sample_json b \<longleftrightarrow> a = b"
  by (auto simp: sample_json_def)

lemma values_json_inject: "values_json a = values_json b \<longleftrightarrow> a = b"
proof
  have "inj JStr" and "inj sample_json" by (auto simp: inj_on_def)
  moreover assume "values_json a = values_json b"
  ultimately show "a = b" by (simp add: values_json_def inj_map_eq_map del: js_Cons)
qed simp

lemma sameWorkbenchValues_iff: "sameWorkbenchValues a b \<longleftrightarrow> a = b"
proof
  assume "sameWorkbenchValues a b"
  then have "JSON_parse (JSON_text (values_json a)) = JSON_parse (JSON_text (values_json b))"
    by (simp add: sameWorkbenchValues_def)
  then show "a = b" by (simp add: JSON_roundtrip printable_values values_json_inject)
qed (simp add: sameWorkbenchValues_def)

lemma isDirty_iff: "isDirty e \<longleftrightarrow> formValues e \<noteq> savedValues e"
  by (simp add: isDirty_def sameWorkbenchValues_iff)


section \<open>What a save sends\<close>

definition trimmed :: "jsstr \<Rightarrow> bool" where
  "trimmed s \<longleftrightarrow> s \<noteq> [] \<and> trim s = s"

definition wf_request :: "UpdateProblemRequest \<Rightarrow> bool" where
  "wf_request r \<longleftrightarrow> trimmed (up_title r) \<and> pred_option trimmed (up_constraints r) \<and> pred_option trimmed (up_hint r)
     \<and> list_all trimmed (up_tags r) \<and> distinct (up_tags r)
     \<and> map ps_ordinal (up_samples r) = map (\<lambda>i. int i + 1) [0..<length (up_samples r)]
     \<and> list_all (\<lambda>x. pred_option trimmed (ps_explanation x)) (up_samples r)
     \<and> pred_option (\<lambda>t. trim t \<noteq> []) (up_judgeTemplate r)"

text \<open>The problem \<open>p\<close> after a request: its fields, and the old driver where the request names none.\<close>

definition with_request :: "UpdateProblemRequest \<Rightarrow> AdminProblem \<Rightarrow> AdminProblem" where
  "with_request r p =
     p\<lparr>ap_title := up_title r, ap_statement := up_statement r, ap_inputDescription := up_inputDescription r,
       ap_outputDescription := up_outputDescription r, ap_constraints := up_constraints r, ap_hint := up_hint r,
       ap_difficulty := up_difficulty r, ap_tags := up_tags r, ap_samples := up_samples r,
       ap_language := (ap_language p)\<lparr>starter := up_starterCode r\<rparr>,
       ap_judgeTemplate := (case up_judgeTemplate r of Some t \<Rightarrow> Some t | None \<Rightarrow> ap_judgeTemplate p)\<rparr>"

lemma pred_trim_or_null [simp]: "pred_option trimmed (trim_or_null s)"
  by (simp add: trim_or_null_def trimmed_def)

lemma wf_update_request:
  assumes "trim (wv_title v) \<noteq> []"
  shows "wf_request (update_request p v)"
proof -
  have "list_all (\<lambda>x. pred_option trimmed (ps_explanation x)) (toProblemSamples xs)" for xs
    by (simp add: list_all_length nth_toProblemSamples)
  then show ?thesis using assms
    by (auto simp: wf_request_def update_request_def ordinals_toProblemSamples list_all_iff trimmed_def)
qed

lemma tags_again:
  "unique (filter (\<lambda>t. t \<noteq> []) (map trim (unique (filter (\<lambda>t. t \<noteq> []) (map trim ts)))))
   = unique (filter (\<lambda>t. t \<noteq> []) (map trim ts))" (is "unique (filter _ (map trim ?us)) = _")
proof -
  have "map trim ?us = ?us" by (rule map_idI) auto
  moreover have "filter (\<lambda>t. t \<noteq> []) ?us = ?us" by (rule filter_True) auto
  ultimately show ?thesis by (simp add: unique_distinct)
qed

text \<open>
  Saving, loading the stored problem and saving again sends the same fields again, for any form: trimming,
  dropping blank and repeated tags, numbering samples and turning blank texts into null are stable. The
  driver of a problem in CORE mode has to be filled in.
\<close>

lemma save_reload_stable:
  assumes "ap_core p \<Longrightarrow> trim (wv_judgeTemplate v) \<noteq> []"
    and "\<not> ap_core p \<Longrightarrow> ap_judgeTemplate p = None"
  shows "update_request p (toFormValues (with_request (update_request p v) p)) = update_request p v"
  using assms
  by (auto simp: update_request_def toFormValues_def with_request_def tags_again toProblemSamples_again or_empty_def [of "Some _"]
      simp del: map_map)


section \<open>Which calls are made, and when\<close>

text \<open>What holds of the state in which the editor makes a call.\<close>

definition call_allowed :: "editor_call \<Rightarrow> editor \<Rightarrow> bool" where
  "call_allowed c e \<longleftrightarrow>
     (case c of
        CallSave n r \<Rightarrow> n = saveCount e \<and> r = update_request (problem e) (formValues e) \<and> \<not> titleMissing e \<and> \<not> save_pending e
      | CallUpload f \<Rightarrow> editable e \<and> \<not> isDirty e \<and> \<not> uploading e
      | CallCalibrate r \<Rightarrow> editable e \<and> \<not> isDirty e \<and> ap_testData (problem e) \<noteq> None \<and> nodeUnavailable e = None
          \<and> calibration e \<noteq> CalPending \<and> calibration_mutationFn e = Inr r \<and> trim (referenceSource e) \<noteq> []
      | CallPublish v \<Rightarrow> editable e \<and> \<not> isDirty e \<and> \<not> acting e \<and> \<not> ap_public (problem e)
          \<and> v = ap_rowVersion (problem e) \<and> pred_option check_ready (check e) \<and> check e \<noteq> None
      | CallUnpublish v \<Rightarrow> editable e \<and> \<not> isDirty e \<and> \<not> acting e \<and> ap_public (problem e) \<and> v = ap_rowVersion (problem e)
      | CallArchive v \<Rightarrow> confirming e = Some AskArchive \<and> \<not> confirm_loading e \<and> v = ap_rowVersion (problem e)
      | CallDelete v \<Rightarrow> confirming e = Some AskDelete \<and> \<not> confirm_loading e \<and> v = ap_rowVersion (problem e))"

definition one_call :: "editor \<Rightarrow> editor \<Rightarrow> bool" where
  "one_call e e' \<longleftrightarrow> ed_calls e' = ed_calls e \<or> (\<exists>c. ed_calls e' = ed_calls e @ [c] \<and> call_allowed c e)"

named_theorems editor_defs \<open>the operations of the editor\<close>

lemmas [editor_defs] = call_def markChanged_def edit_def save_onSuccess_def save_settles_def save_onError_def
  reloadLatest_def onUpload_def upload_ends_def runCalibration_def calibration_ends_def calibration_onSuccess_def
  onPublishButton_def publishing_ends_def unpublishing_ends_def onMenu_def onConfirm_def confirm_ends_def
  confirm_close_def handleSubmit_def onSaveKey_def

lemma unsavedReason_None: "unsavedReason e = None \<longleftrightarrow> editable e \<and> \<not> isDirty e"
  by (simp add: unsavedReason_def)

lemma calibrationBlocked_None:
  "calibrationBlocked e = None \<longleftrightarrow> editable e \<and> \<not> isDirty e \<and> ap_testData (problem e) \<noteq> None \<and> nodeUnavailable e = None"
  using unsavedReason_None [of e] by (auto simp: calibrationBlocked_def split: option.splits)

lemma publish_enabled:
  "\<not> publishDisabled e \<Longrightarrow> editable e \<and> \<not> isDirty e \<and> (ap_public (problem e) \<or> (check e \<noteq> None \<and> pred_option check_ready (check e)))"
  using unsavedReason_None [of e] by (auto simp: publishDisabled_def split: option.splits)

lemma one_call_same: "ed_calls e' = ed_calls e \<Longrightarrow> one_call e e'"
  by (simp add: one_call_def)

lemma one_call_call: "call_allowed c e \<Longrightarrow> ed_calls e' = ed_calls e \<Longrightarrow> one_call e (call c e')"
  by (auto simp: one_call_def call_def)

lemma one_call_handleSubmit: "one_call e (handleSubmit e)"
  by (auto simp: handleSubmit_def call_allowed_def one_call_same one_call_call)

lemma one_call_onUpload: "one_call e (onUpload f e)"
  using unsavedReason_None [of e]
  by (auto simp: onUpload_def testDataDisabled_def call_allowed_def one_call_same one_call_call split: option.splits)

lemma one_call_runCalibration: "one_call e (runCalibration e)"
  using calibrationBlocked_None [of e]
  by (auto simp: runCalibration_def calibrateDisabled_def call_allowed_def one_call_same one_call_call split: sum.splits)

lemma one_call_onPublishButton: "one_call e (onPublishButton e)"
  using publish_enabled [of e]
  by (auto simp: onPublishButton_def call_allowed_def one_call_same one_call_call)

lemma one_call_onConfirm: "one_call e (onConfirm e)"
  by (auto simp: onConfirm_def call_allowed_def one_call_same one_call_call split: option.splits confirm_question.splits)

lemmas one_call_intros = one_call_handleSubmit one_call_onUpload one_call_runCalibration one_call_onPublishButton
  one_call_onConfirm

lemma one_call_step: "one_call e (editor_step op e)"
proof (cases op)
  case (SaveKey k)
  then show ?thesis by (simp add: onSaveKey_def one_call_handleSubmit one_call_same)
next
  case (SaveSucceeds n p t)
  then show ?thesis by (auto simp: save_onSuccess_def Let_def intro!: one_call_same split: option.splits)
next
  case (CheckAnswers r)
  then show ?thesis by (auto intro!: one_call_same split: sum.splits)
next
  case (ReloadAnswers r)
  then show ?thesis by (auto simp: reloadLatest_def Let_def intro!: one_call_same split: option.splits)
next
  case (CalibrationEnds r)
  then show ?thesis by (auto simp: calibration_ends_def calibration_onSuccess_def intro!: one_call_same split: sum.splits)
next
  case (PublishEnds r)
  then show ?thesis by (auto simp: publishing_ends_def intro!: one_call_same split: option.splits)
next
  case (UnpublishEnds r)
  then show ?thesis by (auto simp: unpublishing_ends_def intro!: one_call_same split: option.splits)
next
  case (ConfirmEnds r)
  then show ?thesis by (auto simp: confirm_ends_def intro!: one_call_same split: option.splits)
qed (simp_all add: one_call_intros one_call_same edit_def markChanged_def save_settles_def save_onError_def upload_ends_def
    onMenu_def confirm_close_def)


lemma editor_run_Nil [simp]: "editor_run [] e = e"
  by (simp add: editor_run_def)

lemma editor_run_Cons [simp]: "editor_run (op # ops) e = editor_run ops (editor_step op e)"
  by (simp add: editor_run_def)

lemma editor_run_append: "editor_run (ops @ ops') e = editor_run ops' (editor_run ops e)"
  by (simp add: editor_run_def)

text \<open>An invariant of every execution: it holds at the start and each step keeps it.\<close>

lemma editor_invariant:
  assumes "P [] (open_editor p panel0)"
    and "\<And>ops op e. e = editor_run ops (open_editor p panel0) \<Longrightarrow> P ops e \<Longrightarrow> P (ops @ [op]) (editor_step op e)"
  shows "P ops (editor_run ops (open_editor p panel0))"
proof (induction ops rule: rev_induct)
  case Nil
  then show ?case using assms(1) by simp
next
  case (snoc op ops)
  then show ?case using assms(2) by (simp add: editor_run_append)
qed

text \<open>
  Every call of an execution is made by one step, alone, and was allowed in the state before that step. The
  calls only grow, so the number of calls before it names the step.
\<close>

lemma nth_call:
  assumes "i < length (ed_calls (editor_run ops (open_editor p panel0)))"
  shows "\<exists>pre op post e. ops = pre @ op # post \<and> e = editor_run pre (open_editor p panel0) \<and> length (ed_calls e) = i
    \<and> ed_calls (editor_step op e) = ed_calls e @ [ed_calls (editor_run ops (open_editor p panel0)) ! i]
    \<and> call_allowed (ed_calls (editor_run ops (open_editor p panel0)) ! i) e"
  using assms
proof (induction ops rule: rev_induct)
  case Nil
  then show ?case by (simp add: open_editor_def)
next
  case (snoc op ops)
  let ?e = "editor_run ops (open_editor p panel0)"
  have run: "editor_run (ops @ [op]) (open_editor p panel0) = editor_step op ?e" by (simp add: editor_run_append)
  show ?case
  proof (cases "i < length (ed_calls ?e)")
    case True
    then have "ed_calls (editor_step op ?e) ! i = ed_calls ?e ! i"
      using one_call_step [of ?e op] by (auto simp: one_call_def nth_append)
    then show ?thesis using snoc.IH [OF True] unfolding run by (metis append_assoc append_Cons)
  next
    case False
    then obtain c where c: "ed_calls (editor_step op ?e) = ed_calls ?e @ [c]" "call_allowed c ?e"
      using one_call_step [of ?e op] snoc.prems unfolding run one_call_def by auto
    then have "length (ed_calls ?e) = i" using False snoc.prems unfolding run by simp
    then have "ops @ [op] = ops @ op # [] \<and> ?e = ?e \<and> length (ed_calls ?e) = i
      \<and> ed_calls (editor_step op ?e) = ed_calls ?e @ [ed_calls (editor_step op ?e) ! i]
      \<and> call_allowed (ed_calls (editor_step op ?e) ! i) ?e"
      using c by (auto simp: nth_append)
    then show ?thesis unfolding run by blast
  qed
qed

lemma calls_allowed:
  assumes "c \<in> set (ed_calls (editor_run ops (open_editor p panel0)))"
  shows "\<exists>pre post. ops = pre @ post \<and> call_allowed c (editor_run pre (open_editor p panel0))"
proof -
  obtain i where "i < length (ed_calls (editor_run ops (open_editor p panel0)))"
    and "ed_calls (editor_run ops (open_editor p panel0)) ! i = c"
    using assms by (metis in_set_conv_nth)
  then show ?thesis using nth_call [of i ops p panel0] by blast
qed

definition uses_saved :: "editor_call \<Rightarrow> bool" where
  "uses_saved c = (case c of CallUpload _ \<Rightarrow> True | CallCalibrate _ \<Rightarrow> True | CallPublish _ \<Rightarrow> True | CallUnpublish _ \<Rightarrow> True | _ \<Rightarrow> False)"

lemma calibration_request_source: "calibration_mutationFn e = Inr r \<Longrightarrow> cr_source r = referenceSource e"
proof -
  assume "calibration_mutationFn e = Inr r"
  then obtain cpu clock where "(case cpu of None \<Rightarrow> Inl CpuMissing
      | Some c \<Rightarrow> bind_result (mebibytesToBytes (memoryMib (limits e))) (\<lambda>mem.
          Inr \<lparr>cr_cpuNs = c, cr_memoryBytes = mem, cr_clockNs = clock, cr_source = referenceSource e\<rparr>)) = Inr r"
    unfolding calibration_mutationFn_def bind_result_Inr_iff by blast
  then show ?thesis by (cases cpu) (auto simp: bind_result_Inr_iff)
qed

text \<open>
  C17. A file is uploaded, the reference program calibrated and the problem published or withdrawn only by a step
  that makes this call alone, and in the state in which it makes it the problem is active and the form has no
  unsaved change. There no upload is running for an upload; for a calibration there is test data, no judge node
  reported missing, none running, and the source sent is the one typed, not blank; publishing is for a problem not
  public whose check is ready, withdrawing for a public one, both for the row version shown and with neither
  running.
\<close>

theorem actions_use_saved_content:
  assumes "i < length (ed_calls (editor_run ops (open_editor p panel0)))"
    and "c = ed_calls (editor_run ops (open_editor p panel0)) ! i" and "uses_saved c"
  shows "\<exists>pre op post e. ops = pre @ op # post \<and> e = editor_run pre (open_editor p panel0) \<and> length (ed_calls e) = i
    \<and> ed_calls (editor_step op e) = ed_calls e @ [c]
    \<and> ap_active (problem e) \<and> formValues e = savedValues e
    \<and> (case c of
         CallUpload f \<Rightarrow> \<not> uploading e
       | CallCalibrate r \<Rightarrow> ap_testData (problem e) \<noteq> None \<and> nodeUnavailable e = None \<and> calibration e \<noteq> CalPending
           \<and> cr_source r = referenceSource e \<and> trim (cr_source r) \<noteq> []
       | CallPublish v \<Rightarrow> \<not> ap_public (problem e) \<and> v = ap_rowVersion (problem e) \<and> check e \<noteq> None
           \<and> pred_option check_ready (check e) \<and> \<not> acting e
       | CallUnpublish v \<Rightarrow> ap_public (problem e) \<and> v = ap_rowVersion (problem e) \<and> \<not> acting e
       | _ \<Rightarrow> False)"
proof -
  obtain pre op post e where made: "ops = pre @ op # post \<and> e = editor_run pre (open_editor p panel0) \<and> length (ed_calls e) = i
      \<and> ed_calls (editor_step op e) = ed_calls e @ [c]" and "call_allowed c e"
    using nth_call [OF assms(1)] unfolding assms(2) by blast
  then have "ap_active (problem e) \<and> formValues e = savedValues e
    \<and> (case c of
         CallUpload f \<Rightarrow> \<not> uploading e
       | CallCalibrate r \<Rightarrow> ap_testData (problem e) \<noteq> None \<and> nodeUnavailable e = None \<and> calibration e \<noteq> CalPending
           \<and> cr_source r = referenceSource e \<and> trim (cr_source r) \<noteq> []
       | CallPublish v \<Rightarrow> \<not> ap_public (problem e) \<and> v = ap_rowVersion (problem e) \<and> check e \<noteq> None
           \<and> pred_option check_ready (check e) \<and> \<not> acting e
       | CallUnpublish v \<Rightarrow> ap_public (problem e) \<and> v = ap_rowVersion (problem e) \<and> \<not> acting e
       | _ \<Rightarrow> False)"
    using assms(3)
    by (cases c) (auto simp: call_allowed_def uses_saved_def editable_def isDirty_iff dest: calibration_request_source)
  then show ?thesis using made by blast
qed

text \<open>
  Every request to save that an execution sends is in order: a trimmed title that is not blank, trimmed
  optional texts, distinct trimmed tags, samples numbered from 1, no blank driver; it is the request of the
  form and the problem (slug and row version) as they were when it was sent.
\<close>

theorem save_requests_wellformed:
  assumes "CallSave n r \<in> set (ed_calls (editor_run ops (open_editor p panel0)))"
  shows "wf_request r \<and> (\<exists>pre post. ops = pre @ post
    \<and> r = update_request (problem (editor_run pre (open_editor p panel0))) (formValues (editor_run pre (open_editor p panel0))))"
proof -
  obtain pre post where p: "ops = pre @ post" and c: "call_allowed (CallSave n r) (editor_run pre (open_editor p panel0))"
    using calls_allowed [OF assms] by blast
  then show ?thesis using wf_update_request by (auto simp: call_allowed_def titleMissing_def)
qed

section \<open>What a form without changes holds\<close>

text \<open>Saves have distinct numbers below the counter, and each was sent with what it holds.\<close>

definition saves_sent :: "editor \<Rightarrow> bool" where
  "saves_sent e \<longleftrightarrow> (\<forall>n v. (n, v) \<in> set (inflight e) \<longrightarrow>
     n < saveCount e \<and> (\<exists>q. CallSave n (update_request q v) \<in> set (ed_calls e)))"

lemma saves_sent_mono:
  assumes "saves_sent e" and "set (inflight e') \<subseteq> set (inflight e)" and "saveCount e' = saveCount e"
    and "set (ed_calls e) \<subseteq> set (ed_calls e')"
  shows "saves_sent e'"
  unfolding saves_sent_def
proof (intro allI impI)
  fix n v assume "(n, v) \<in> set (inflight e')"
  then have "n < saveCount e" and "\<exists>q. CallSave n (update_request q v) \<in> set (ed_calls e)"
    using assms(1,2) unfolding saves_sent_def by (metis subsetD)+
  then show "n < saveCount e' \<and> (\<exists>q. CallSave n (update_request q v) \<in> set (ed_calls e'))"
    using assms(3,4) by auto
qed

lemma saves_sent_handleSubmit:
  assumes "saves_sent e"
  shows "saves_sent (handleSubmit e)"
proof (cases "save_pending e \<or> titleMissing e")
  case True
  then have "handleSubmit e = e" unfolding handleSubmit_def by (rule if_P)
  then show ?thesis using assms by simp
next
  case False
  show ?thesis unfolding saves_sent_def
  proof (intro allI impI)
    fix n v assume "(n, v) \<in> set (inflight (handleSubmit e))"
    then have "(n, v) \<in> set (inflight e) \<or> n = saveCount e \<and> v = formValues e"
      using False by (auto simp: handleSubmit_def call_def)
    moreover have "set (ed_calls (handleSubmit e)) = insert (CallSave (saveCount e) (update_request (problem e) (formValues e))) (set (ed_calls e))"
      and "saveCount (handleSubmit e) = Suc (saveCount e)"
      using False by (auto simp: handleSubmit_def call_def)
    ultimately show "n < saveCount (handleSubmit e) \<and> (\<exists>q. CallSave n (update_request q v) \<in> set (ed_calls (handleSubmit e)))"
      using assms unfolding saves_sent_def by (metis insertCI less_Suc_eq)
  qed
qed

text \<open>A step submits the form, or answers some save, or leaves the saves in flight alone.\<close>

lemma saves_step:
  "editor_step op e = handleSubmit e
   \<or> (set (inflight (editor_step op e)) \<subseteq> set (inflight e) \<and> saveCount (editor_step op e) = saveCount e)"
proof (cases op)
  case (SaveSucceeds n p t)
  then show ?thesis by (auto simp: save_onSuccess_def Let_def split: option.splits)
next
  case (SaveFails n err)
  then show ?thesis by (auto simp: save_onError_def)
next
  case (CheckAnswers r)
  then show ?thesis by (auto split: sum.splits)
next
  case (ReloadAnswers r)
  then show ?thesis by (auto simp: reloadLatest_def Let_def split: option.splits)
qed (simp_all add: editor_defs del: handleSubmit_def split: option.splits sum.splits)

lemma saves_sent_step: "saves_sent e \<Longrightarrow> saves_sent (editor_step op e)"
  using saves_step [of op e] saves_sent_handleSubmit [of e] one_call_step [of e op]
  by (auto simp: one_call_def intro: saves_sent_mono)

interpretation es: kept_invariant editor_step saves_sent
  by unfold_locales (rule saves_sent_step)

lemma saves_sent_run: "saves_sent (editor_run ops (open_editor p panel0))"
  unfolding editor_run_def by (rule es.run_keeps) (simp add: saves_sent_def open_editor_def)

text \<open>
  What an operation confirms: the contents of the save it answers, or the version it reloads. \<open>submitted\<close> says
  that the execution sent the save \<open>n\<close> with the form \<open>v\<close>; \<open>unconfirmed\<close> that the operations confirm nothing.
\<close>

definition confirmation :: "editor_op \<Rightarrow> editor \<Rightarrow> WorkbenchValues option" where
  "confirmation op e =
     (case op of
        SaveSucceeds n q t \<Rightarrow> map_of (inflight e) n
      | ReloadAnswers (Some q) \<Rightarrow> if reloading e = 0 then None else Some (toFormValues q)
      | _ \<Rightarrow> None)"

fun unconfirmed :: "editor_op list \<Rightarrow> editor \<Rightarrow> bool" where
  "unconfirmed [] e = True"
| "unconfirmed (op # ops) e \<longleftrightarrow> confirmation op e = None \<and> unconfirmed ops (editor_step op e)"

definition submitted :: "AdminProblem \<Rightarrow> ProblemWorkbenchPanel option \<Rightarrow> editor_op list \<Rightarrow> nat \<Rightarrow> WorkbenchValues \<Rightarrow> bool" where
  "submitted p panel0 ops n v \<longleftrightarrow>
     (\<exists>pre op post e. ops = pre @ op # post \<and> e = editor_run pre (open_editor p panel0) \<and> saveCount e = n \<and> formValues e = v
        \<and> ed_calls (editor_step op e) = ed_calls e @ [CallSave n (update_request (problem e) v)])"

lemma confirmation_Some:
  "confirmation op e = Some v \<longleftrightarrow>
     (\<exists>q. op = ReloadAnswers (Some q) \<and> 0 < reloading e \<and> v = toFormValues q)
     \<or> (\<exists>n q t. op = SaveSucceeds n q t \<and> map_of (inflight e) n = Some v)"
proof (cases op)
  case (ReloadAnswers r)
  then show ?thesis by (cases r) (auto simp: confirmation_def)
qed (simp_all add: confirmation_def)

lemma savedValues_step:
  "savedValues (editor_step op e) = (case confirmation op e of Some v \<Rightarrow> v | None \<Rightarrow> savedValues e)"
proof (cases op)
  case (SaveSucceeds n p t)
  then show ?thesis by (simp add: confirmation_def save_onSuccess_def Let_def split: option.splits)
next
  case (CheckAnswers r)
  then show ?thesis by (simp add: confirmation_def split: sum.splits)
next
  case (ReloadAnswers r)
  then show ?thesis by (simp add: confirmation_def reloadLatest_def Let_def split: option.splits)
qed (simp_all add: confirmation_def editor_defs split: option.splits sum.splits)

lemma unconfirmed_snoc [simp]:
  "unconfirmed (ops @ [op]) e \<longleftrightarrow> unconfirmed ops e \<and> confirmation op (editor_run ops e) = None"
  by (induction ops arbitrary: e) auto

lemma submitted_snoc: "submitted p panel0 ops n v \<Longrightarrow> submitted p panel0 (ops @ [op]) n v"
  unfolding submitted_def by (metis append_assoc append_Cons)

lemma inflight_step:
  assumes "(n, v) \<in> set (inflight (editor_step op e))"
  shows "(n, v) \<in> set (inflight e)
    \<or> (saveCount e = n \<and> formValues e = v \<and> ed_calls (editor_step op e) = ed_calls e @ [CallSave n (update_request (problem e) v)])"
  using saves_step [of op e] assms by (auto simp: handleSubmit_def call_def split: if_splits)

lemma inflight_submitted:
  "\<forall>n v. (n, v) \<in> set (inflight (editor_run ops (open_editor p panel0))) \<longrightarrow> submitted p panel0 ops n v"
proof (rule editor_invariant [where P = "\<lambda>ops e. \<forall>n v. (n, v) \<in> set (inflight e) \<longrightarrow> submitted p panel0 ops n v"])
  fix ops op e
  assume e: "e = editor_run ops (open_editor p panel0)"
    and IH: "\<forall>n v. (n, v) \<in> set (inflight e) \<longrightarrow> submitted p panel0 ops n v"
  show "\<forall>n v. (n, v) \<in> set (inflight (editor_step op e)) \<longrightarrow> submitted p panel0 (ops @ [op]) n v"
  proof (intro allI impI)
    fix n v assume "(n, v) \<in> set (inflight (editor_step op e))"
    from inflight_step [OF this] show "submitted p panel0 (ops @ [op]) n v"
    proof
      assume "(n, v) \<in> set (inflight e)"
      then show ?thesis using IH submitted_snoc by blast
    next
      assume "saveCount e = n \<and> formValues e = v
        \<and> ed_calls (editor_step op e) = ed_calls e @ [CallSave n (update_request (problem e) v)]"
      then have "ops @ [op] = ops @ op # [] \<and> e = editor_run ops (open_editor p panel0) \<and> saveCount e = n \<and> formValues e = v
        \<and> ed_calls (editor_step op e) = ed_calls e @ [CallSave n (update_request (problem e) v)]" using e by simp
      then show ?thesis unfolding submitted_def by blast
    qed
  qed
qed (simp add: open_editor_def)

lemma savedValues_confirmed:
  fixes p panel0 ops
  defines "v \<equiv> savedValues (editor_run ops (open_editor p panel0))"
  shows "v = toFormValues p \<and> unconfirmed ops (open_editor p panel0)
    \<or> (\<exists>pre op post e. ops = pre @ op # post \<and> e = editor_run pre (open_editor p panel0) \<and> confirmation op e = Some v
         \<and> unconfirmed post (editor_step op e))"
  unfolding v_def
proof (rule editor_invariant [where P = "\<lambda>ops e. savedValues e = toFormValues p \<and> unconfirmed ops (open_editor p panel0)
    \<or> (\<exists>pre op post e'. ops = pre @ op # post \<and> e' = editor_run pre (open_editor p panel0)
         \<and> confirmation op e' = Some (savedValues e) \<and> unconfirmed post (editor_step op e'))"])
  fix ops op e
  let ?P = "\<lambda>ops e. savedValues e = toFormValues p \<and> unconfirmed ops (open_editor p panel0)
    \<or> (\<exists>pre op post e'. ops = pre @ op # post \<and> e' = editor_run pre (open_editor p panel0)
         \<and> confirmation op e' = Some (savedValues e) \<and> unconfirmed post (editor_step op e'))"
  assume e: "e = editor_run ops (open_editor p panel0)" and IH: "?P ops e"
  show "?P (ops @ [op]) (editor_step op e)"
  proof (cases "confirmation op e")
    case (Some v)
    then have "ops @ [op] = ops @ op # [] \<and> confirmation op e = Some (savedValues (editor_step op e))
        \<and> unconfirmed [] (editor_step op e)"
      by (simp add: savedValues_step)
    then show ?thesis using e by blast
  next
    case None
    then have same: "savedValues (editor_step op e) = savedValues e" by (simp add: savedValues_step)
    from IH show ?thesis
    proof (elim disjE exE conjE)
      assume "savedValues e = toFormValues p" "unconfirmed ops (open_editor p panel0)"
      then show ?thesis using None e same by simp
    next
      fix pre op' post e'
      assume *: "ops = pre @ op' # post" "e' = editor_run pre (open_editor p panel0)"
        "confirmation op' e' = Some (savedValues e)" "unconfirmed post (editor_step op' e')"
      then have "e = editor_run post (editor_step op' e')" by (simp add: e editor_run_append)
      then have "unconfirmed (post @ [op]) (editor_step op' e')" using * None by simp
      then show ?thesis using * same by (metis append_assoc append_Cons)
    qed
  qed
qed (simp add: open_editor_def)

text \<open>
  C6. In every execution, a form that shows no unsaved changes holds exactly what was confirmed last: the problem
  it was opened with when nothing has been confirmed; else what the last confirming operation confirmed, which is
  the version a reload brought, or the contents of the save that this answer is for, and that save was sent
  earlier in the execution, with this number, while the form held these contents. (What a request carries of
  the form is \<open>update_request\<close>: it names no driver when the driver is blank.)
\<close>

theorem clean_form_is_confirmed:
  assumes "\<not> isDirty (editor_run ops (open_editor p panel0))" and "v = formValues (editor_run ops (open_editor p panel0))"
  shows "v = toFormValues p \<and> unconfirmed ops (open_editor p panel0)
    \<or> (\<exists>pre op post e. ops = pre @ op # post \<and> e = editor_run pre (open_editor p panel0) \<and> unconfirmed post (editor_step op e)
        \<and> ((\<exists>q. op = ReloadAnswers (Some q) \<and> 0 < reloading e \<and> v = toFormValues q)
           \<or> (\<exists>n q t. op = SaveSucceeds n q t \<and> map_of (inflight e) n = Some v \<and> submitted p panel0 pre n v)))"
proof -
  have "v = savedValues (editor_run ops (open_editor p panel0))" using assms by (simp add: isDirty_iff)
  note last = savedValues_confirmed [of ops p panel0, folded this]
  have how: "(\<exists>q. op = ReloadAnswers (Some q) \<and> 0 < reloading e \<and> v = toFormValues q)
      \<or> (\<exists>n q t. op = SaveSucceeds n q t \<and> map_of (inflight e) n = Some v \<and> submitted p panel0 pre n v)"
    if "e = editor_run pre (open_editor p panel0)" "confirmation op e = Some v" for pre op e
  proof -
    have "submitted p panel0 pre n v" if "map_of (inflight e) n = Some v" for n
      using inflight_submitted [of pre p panel0] map_of_SomeD [OF that] \<open>e = editor_run pre (open_editor p panel0)\<close> by simp
    then show ?thesis using that(2) unfolding confirmation_Some by blast
  qed
  from last show ?thesis
  proof (elim disjE exE conjE)
    fix pre op post e
    assume "ops = pre @ op # post" "unconfirmed post (editor_step op e)"
      and e: "e = editor_run pre (open_editor p panel0)" "confirmation op e = Some v"
    note this(1) e(1) this(2) how [OF e]
    then show ?thesis
      by (intro disjI2 [where P = "v = toFormValues p \<and> unconfirmed ops (open_editor p panel0)"]
          exI [where x = pre] exI [where x = op] exI [where x = post] exI [where x = e] conjI)
  qed simp
qed

section \<open>Autosaving catches up\<close>

lemma edits_while_saving:
  assumes "save_pending e" and "editable e"
  shows "editor_run (map Edit cs) e = e\<lparr>formValues := fold handleChange cs (formValues e)\<rparr>"
  using assms
proof (induction cs arbitrary: e)
  case (Cons c cs)
  have "editor_step (Edit c) e = e\<lparr>formValues := handleChange c (formValues e)\<rparr>"
    using Cons.prems by (simp add: edit_def markChanged_def save_pending_def)
  then show ?case using Cons.IH [of "e\<lparr>formValues := handleChange c (formValues e)\<rparr>"] Cons.prems
    by (simp add: save_pending_def editable_def)
qed simp

lemma saved_after:
  assumes "saves_sent e" and "autosave_armed e"
  shows "editor_run (AutosaveFires # map Edit cs @ [SaveSucceeds (saveCount e) q t, SaveSettles (saveCount e)]) e =
    e\<lparr>problem := q, formValues := fold handleChange cs (formValues e), savedValues := formValues e, save_state := SaveIdle,
      saveCount := saveCount e + 1, savedDriver := wv_judgeTemplate (formValues e),
      driverChanged := (driverChanged e \<or> (ap_core (problem e) \<and> trim (wv_judgeTemplate (formValues e)) \<noteq> []
        \<and> wv_judgeTemplate (formValues e) \<noteq> savedDriver e)),
      lastSavedAt := Some t, ed_calls := ed_calls e @ [CallSave (saveCount e) (update_request (problem e) (formValues e))]\<rparr>"
proof -
  let ?n = "saveCount e"
  have fresh: "?n \<notin> fst ` set (inflight e)" using assms(1) unfolding saves_sent_def by (metis imageE less_irrefl prod.collapse)
  then have found: "map_of (inflight e @ [(?n, v)]) ?n = Some v" for v
    by (simp add: map_add_def map_of_eq_None_iff [THEN iffD2])
  have rest_inflight: "filter (\<lambda>x. fst x \<noteq> ?n) (inflight e) = inflight e"
    using fresh by (intro filter_True) force
  have gone: "map_of (inflight e) ?n = None" using fresh by (simp add: map_of_eq_None_iff)
  have start: "editor_step AutosaveFires e = call (CallSave ?n (update_request (problem e) (formValues e)))
      (e\<lparr>save_state := SavePending ?n, inflight := inflight e @ [(?n, formValues e)], saveCount := ?n + 1\<rparr>)"
    using assms(2) by (simp add: handleSubmit_def autosave_armed_def)
  have "editable e" using assms(2) by (simp add: autosave_armed_def autosave_def)
  then show ?thesis
    unfolding editor_run_Cons start
    by (simp add: editor_run_append edits_while_saving save_pending_def editable_def call_def save_onSuccess_def Let_def
        found rest_inflight save_settles_def gone del: map_of_append)
qed



section \<open>Limits\<close>

lemma safe_limit_iff: "safe_limit x \<longleftrightarrow> (\<exists>n. x = Fin (of_int n) \<and> 0 < n \<and> n < 2 ^ 53)"
proof
  assume s: "safe_limit x"
  then obtain r where x: "x = Fin r" by (cases x) (auto simp: safe_limit_def isFinite_def)
  define n where "n = \<lfloor>r\<rfloor>"
  have r: "r = of_int n" and "0 < r" and "\<bar>r\<bar> < of_int safe_bound"
    using s by (auto simp: safe_limit_def isSafeInteger_def x n_def)
  then have "0 < n" and "\<bar>n\<bar> < safe_bound" by (simp_all flip: of_int_abs)
  then show "\<exists>n. x = Fin (of_int n) \<and> 0 < n \<and> n < 2 ^ 53" using x r by (auto simp: safe_bound_def)
next
  assume "\<exists>n. x = Fin (of_int n) \<and> 0 < n \<and> n < 2 ^ 53"
  then obtain n where x: "x = Fin (of_int n)" and n: "0 < n" "n < safe_bound" by (auto simp: safe_bound_def)
  then have "\<bar>of_int n :: rat\<bar> < of_int safe_bound" by simp
  then show "safe_limit x" using n by (simp add: x safe_limit_def isFinite_def isSafeInteger_def)
qed

lemma secondsToNanoseconds_safe: "secondsToNanoseconds v opt = Inr (Some x) \<Longrightarrow> safe_limit x"
  by (auto simp: secondsToNanoseconds_def Let_def split: if_splits)

lemma mebibytesToBytes_safe: "mebibytesToBytes v = Inr x \<Longrightarrow> safe_limit x"
  by (auto simp: mebibytesToBytes_def Let_def split: if_splits)

lemma calibration_request_safe:
  "calibration_mutationFn e = Inr r \<Longrightarrow>
     safe_limit (cr_cpuNs r) \<and> safe_limit (cr_memoryBytes r) \<and> pred_option safe_limit (cr_clockNs r)"
proof -
  assume "calibration_mutationFn e = Inr r"
  then obtain cpu clock mem where "secondsToNanoseconds (cpuSeconds (limits e)) False = Inr (Some cpu)"
    and c: "secondsToNanoseconds (clockSeconds (limits e)) True = Inr clock"
    and "mebibytesToBytes (memoryMib (limits e)) = Inr mem"
    and r: "r = \<lparr>cr_cpuNs = cpu, cr_memoryBytes = mem, cr_clockNs = clock, cr_source = referenceSource e\<rparr>"
    by (auto simp: calibration_mutationFn_def bind_result_Inr_iff split: option.splits)
  moreover have "pred_option safe_limit clock" using c by (cases clock) (auto dest: secondsToNanoseconds_safe)
  ultimately show ?thesis by (simp add: secondsToNanoseconds_safe mebibytesToBytes_safe)
qed

text \<open>
  The limits of every calibration an execution asks for are positive integers below \<open>2 ^ 53\<close>: CPU time and
  memory always, the wall clock when one is given.
\<close>

theorem calibration_limits_safe:
  assumes "CallCalibrate r \<in> set (ed_calls (editor_run ops (open_editor p panel0)))"
  shows "\<exists>cpu mem. cr_cpuNs r = Fin (of_int cpu) \<and> cr_memoryBytes r = Fin (of_int mem)
    \<and> 0 < cpu \<and> cpu < 2 ^ 53 \<and> 0 < mem \<and> mem < 2 ^ 53
    \<and> pred_option (\<lambda>x. \<exists>n. x = Fin (of_int n) \<and> 0 < n \<and> n < 2 ^ 53) (cr_clockNs r)"
proof -
  obtain e where "calibration_mutationFn e = Inr r"
    using calls_allowed [OF assms] by (auto simp: call_allowed_def)
  then have r: "safe_limit (cr_cpuNs r)" "safe_limit (cr_memoryBytes r)" "pred_option safe_limit (cr_clockNs r)"
    using calibration_request_safe by simp_all
  obtain cpu mem where "cr_cpuNs r = Fin (of_int cpu)" "0 < cpu" "cpu < 2 ^ 53"
    and "cr_memoryBytes r = Fin (of_int mem)" "0 < mem" "mem < 2 ^ 53"
    using r(1,2) unfolding safe_limit_iff by blast
  then show ?thesis using r(3) unfolding safe_limit_iff by blast
qed

lemma whole_limits:
  assumes "0 < n" and "n * 10 ^ 9 < 2 ^ 53" and "0 < m" and "m * 2 ^ 20 < 2 ^ 53"
  shows "secondsToNanoseconds (int_text n) opt = Inr (Some (Fin (of_int (n * 10 ^ 9))))
    \<and> mebibytesToBytes (int_text m) = Inr (Fin (of_int (m * 2 ^ 20)))"
proof -
  have exact: "num_mult (Number_of (int_text i)) (Fin (of_int k)) = Fin (of_int (i * k)) \<and> trim (int_text i) \<noteq> []"
    if i: "0 < i" and k: "0 < k" and ik: "i * k < 2 ^ 53" for i k :: int
  proof -
    have "i * 1 \<le> i * k" using i k by (intro mult_left_mono) auto
    then have "i \<le> safe_bound" and "i * k \<le> safe_bound" using ik by (simp_all add: safe_bound_def)
    moreover have "0 \<le> i * k" using i k by simp
    ultimately have "num_mult (Number_of (int_text i)) (Fin (of_int k)) = Fin (of_int (i * k))"
      using i to_double_nonneg [of i] to_double_nonneg [of "i * k"] by (simp add: int_text_def Number_of_dec_text)
    moreover have "trim (int_text i) \<noteq> []"
    proof
      assume "trim (int_text i) = []"
      then have "Number_of (int_text i) = Fin 0" by (simp add: Number_of_def)
      then show False using i \<open>i \<le> safe_bound\<close> to_double_nonneg [of i] by (simp add: int_text_def Number_of_dec_text)
    qed
    ultimately show ?thesis by simp
  qed
  have safe: "safe_limit (Fin (of_int (i * k)))" if "0 < i" "0 < k" "i * k < 2 ^ 53" for i k :: int
    using that unfolding safe_limit_iff by (metis mult_pos_pos)
  show ?thesis
    using exact [of n "10 ^ 9"] exact [of m "2 ^ 20"] safe [of n "10 ^ 9"] safe [of m "2 ^ 20"] assms
    by (simp add: secondsToNanoseconds_def mebibytesToBytes_def)
qed

text \<open>
  Whole numbers are converted exactly, to the largest limit a safe integer can hold.
\<close>

theorem whole_limits_exact:
  assumes "0 < n" and "n * 10 ^ 9 < 2 ^ 53" and "0 < m" and "m * 2 ^ 20 < 2 ^ 53"
  shows "secondsToNanoseconds (int_text n) opt = Inr (Some (Fin (of_int (n * 10 ^ 9))))
    \<and> mebibytesToBytes (int_text m) = Inr (Fin (of_int (m * 2 ^ 20)))"
  using assms by (rule whole_limits)

lemma round_half_even_nearest:
  assumes "of_int n - 1 / 2 < r" and "r < of_int n + 1 / 2"
  shows "round_half_even r = n"
proof (cases "of_int n \<le> r")
  case True
  then have "\<lfloor>r\<rfloor> = n" using assms(2) by (simp add: floor_eq_iff)
  then show ?thesis using assms(2) by (simp add: round_half_even_def Let_def)
next
  case False
  then have "\<lfloor>r\<rfloor> = n - 1" using assms(1) by (simp add: floor_eq_iff)
  then show ?thesis using assms(1) by (simp add: round_half_even_def Let_def)
qed

lemma to_double_nearest:
  assumes "0 < q" and "ilog2 q = l" and "0 \<le> l" and "l \<le> 52"
    and "of_int m - 1 / 2 < q * 2 ^ nat (52 - l)" and "q * 2 ^ nat (52 - l) < of_int m + 1 / 2" and "m < 2 ^ 100"
  shows "to_double q = Fin (of_int m / 2 ^ nat (52 - l))"
proof -
  have p: "pow2 (l - 52) = 1 / 2 ^ nat (52 - l)" using assms(4) by (cases "l = 52") (simp_all add: pow2_def)
  have "(of_int m :: rat) < 2 ^ 100" using assms(7) by (metis of_int_less_iff of_int_numeral of_int_power)
  also have "(2::rat) ^ 100 \<le> 2 ^ 1024" by (rule power_increasing) simp_all
  finally have "(of_int m :: rat) < 2 ^ 1024 * 1" by simp
  also have "(2::rat) ^ 1024 * 1 \<le> 2 ^ 1024 * 2 ^ nat (52 - l)" by (intro mult_left_mono) simp_all
  finally have "(of_int m :: rat) / 2 ^ nat (52 - l) < 2 ^ 1024" by (simp only: pos_divide_less_eq zero_less_power zero_less_numeral)
  moreover have "round_half_even (q / pow2 (l - 52)) = m"
    unfolding p using assms(5,6) by (intro round_half_even_nearest) simp_all
  ultimately show ?thesis
    unfolding to_double_def Let_def using assms(1,2,3) by (simp add: p max_absorb1)
qed

lemma milliseconds_read: "Number_of (js ''1.001'') = Fin (4508103226997866 / 2 ^ 52)"
proof -
  have "ilog2 (1001 / 1000) = 0" by code_simp
  then have "to_double (1001 / 1000) = Fin (4508103226997866 / 2 ^ 52)"
    using to_double_nearest [of "1001 / 1000" 0 4508103226997866] by simp
  then have "unsigned_text (js ''1.001'') = Fin (4508103226997866 / 2 ^ 52)"
    by (simp add: unsigned_text_def scan_decimal_def scan_exponent_def in_range_def scanned_value_def digits_val_def digit_val_def
        pow10_def Let_def)
  then show ?thesis by (simp add: Number_of_def trim_def trimStart_def is_ws_def in_range_def Let_def)
qed

lemma milliseconds_product:
  "num_mult (Fin (4508103226997866 / 2 ^ 52)) (Fin 1000000000) = Fin (8396996607999999 / 2 ^ 23)"
proof -
  have "ilog2 (4508103226997866 / 2 ^ 52 * 1000000000) = 29" by code_simp
  then show ?thesis using to_double_nearest [of "4508103226997866 / 2 ^ 52 * 1000000000" 29 8396996607999999] by simp
qed

text \<open>
  A limit in milliseconds may be refused: 1.001 seconds are 1001000000 nanoseconds, but the product of the
  binary64 numbers is not an integer.
\<close>

theorem millisecond_limit_refused: "secondsToNanoseconds (js ''1.001'') False = Inl BadTime"
proof -
  have "\<lfloor>8396996607999999 / 2 ^ 23 :: rat\<rfloor> = 1000999999" by (simp add: floor_eq_iff)
  then have "\<not> safe_limit (Fin (8396996607999999 / 2 ^ 23))" by (simp add: safe_limit_def isSafeInteger_def)
  then show ?thesis
    unfolding secondsToNanoseconds_def milliseconds_read milliseconds_product Let_def by simp
qed

text \<open>
  Clearing the driver of a problem in CORE mode sends a request without one, which leaves the stored driver as it
  was; the editor nevertheless takes the empty driver for saved.
\<close>

lemma cleared_driver_shown_as_saved:
  assumes "e = editor_run ops (open_editor p panel0)" and "autosave_armed e" and "trim (wv_judgeTemplate (formValues e)) = []"
    and "ap_core (problem e)" and "ap_judgeTemplate (problem e) = Some d" and "trim d \<noteq> []"
    and "e' = editor_run [AutosaveFires, SaveSucceeds (saveCount e) (with_request (update_request (problem e) (formValues e)) (problem e)) t,
           SaveSettles (saveCount e)] e"
  shows "ap_judgeTemplate (problem e') = Some d \<and> trim (wv_judgeTemplate (formValues e')) = []
    \<and> SaveStatus e' = SavedAt t \<and> \<not> isDirty e'"
proof -
  have sent: "saves_sent e" by (simp add: assms(1) saves_sent_run)
  have "e' = editor_run (AutosaveFires # map Edit [] @ [SaveSucceeds (saveCount e)
      (with_request (update_request (problem e) (formValues e)) (problem e)) t, SaveSettles (saveCount e)]) e"
    by (simp only: assms(7) list.map append_Nil)
  note e' = this [unfolded saved_after [OF sent assms(2)]]
  have "up_judgeTemplate (update_request (problem e) (formValues e)) = None"
    using assms(3) by (simp add: update_request_def)
  then have "ap_judgeTemplate (with_request (update_request (problem e) (formValues e)) (problem e)) = ap_judgeTemplate (problem e)"
    by (simp add: with_request_def)
  then show ?thesis using assms(3,5) by (simp add: e' SaveStatus_def save_pending_def save_failed_def isDirty_iff)
qed

section \<open>Examples\<close>

definition demo_problem :: AdminProblem where
  "demo_problem =
     \<lparr>ap_id = js ''1'', ap_slug = js ''sum'', ap_public = False, ap_active = True, ap_core = False, ap_title = js ''Sum'',
      ap_statement = [], ap_inputDescription = [], ap_outputDescription = [], ap_constraints = None, ap_hint = None,
      ap_difficulty = EASY, ap_tags = [js ''math''], ap_samples = [],
      ap_language = \<lparr>lang_id = js ''cpp'', displayName = js ''C++'', starter = []\<rparr>, ap_judgeTemplate = None,
      ap_solutionPrefix = None, ap_testData = Some \<lparr>td_digest = js ''d'', td_count = 1, td_bytes = 2\<rparr>, ap_published = False,
      ap_rowVersion = 7\<rparr>"

lemmas demo_simps = demo_problem_def open_editor_def toFormValues_def or_empty_def editable_def isDirty_iff
  trim_def trimStart_def is_ws_def in_range_def

lemma demo_upload: "ed_calls (editor_run [UploadFile (Some (js ''t''))] (open_editor demo_problem None)) = [CallUpload (js ''t'')]"
  by (simp add: demo_simps onUpload_def testDataDisabled_def unsavedReason_def call_def)

lemma actions_use_saved_content_witness:
  "\<exists>pre op post e. [UploadFile (Some (js ''t''))] = pre @ op # post \<and> e = editor_run pre (open_editor demo_problem None)
    \<and> ed_calls e = [] \<and> ed_calls (editor_step op e) = [CallUpload (js ''t'')]
    \<and> ap_active (problem e) \<and> formValues e = savedValues e \<and> \<not> uploading e"
proof -
  have c: "CallUpload (js ''t'') = ed_calls (editor_run [UploadFile (Some (js ''t''))] (open_editor demo_problem None)) ! 0"
    and "0 < length (ed_calls (editor_run [UploadFile (Some (js ''t''))] (open_editor demo_problem None)))"
    by (simp_all only: demo_upload) simp_all
  moreover have "uses_saved (CallUpload (js ''t''))" by (simp add: uses_saved_def)
  ultimately obtain pre op post e where "[UploadFile (Some (js ''t''))] = pre @ op # post"
    and "e = editor_run pre (open_editor demo_problem None)" and calls: "length (ed_calls e) = 0"
    and "ed_calls (editor_step op e) = ed_calls e @ [CallUpload (js ''t'')]" and "ap_active (problem e)"
    and "formValues e = savedValues e" and "\<not> uploading e"
    using actions_use_saved_content [OF _ c] unfolding editor_call.case by blast
  moreover from calls have "ed_calls e = []" by blast
  ultimately show ?thesis by (metis append_Nil)
qed

abbreviation demo_edit :: "editor_op list" where
  "demo_edit \<equiv> [Edit (Statement (js ''a'')), AutosaveFires]"

lemma demo_typed:
  "editor_step (Edit (Statement s)) (open_editor demo_problem None) =
     (open_editor demo_problem None)\<lparr>formValues := (toFormValues demo_problem)\<lparr>wv_statement := s\<rparr>\<rparr>"
proof -
  have "ap_active demo_problem" by (simp add: demo_problem_def)
  then show ?thesis by (simp add: edit_def markChanged_def save_pending_def editable_def handleChange_def open_editor_def)
qed

lemma demo_armed: "autosave_armed (editor_run [Edit (Statement (js ''a''))] (open_editor demo_problem None))"
  unfolding editor_run_Cons editor_run_Nil demo_typed
  by (simp add: demo_simps autosave_armed_def autosave_def save_pending_def save_failed_def titleMissing_def)

lemma demo_save:
  "CallSave 0 (update_request demo_problem ((toFormValues demo_problem)\<lparr>wv_statement := js ''a''\<rparr>))
     \<in> set (ed_calls (editor_run demo_edit (open_editor demo_problem None)))"
  using demo_armed unfolding editor_run_Cons editor_run_Nil demo_typed
  by (simp add: handleSubmit_def autosave_armed_def call_def open_editor_def del: js_Cons)

lemma save_requests_wellformed_witness:
  "wf_request (update_request demo_problem ((toFormValues demo_problem)\<lparr>wv_statement := js ''a''\<rparr>))"
  using save_requests_wellformed [OF demo_save] by blast

abbreviation demo_saved :: "editor_op list" where
  "demo_saved \<equiv> [Edit (Statement (js ''a'')), AutosaveFires, SaveSucceeds 0 demo_problem 5, SaveSettles 0]"

lemma clean_form_is_confirmed_witness:
  "\<exists>pre op post e q t. demo_saved = pre @ op # post \<and> e = editor_run pre (open_editor demo_problem None)
    \<and> op = SaveSucceeds 0 q t \<and> submitted demo_problem None pre 0 ((toFormValues demo_problem)\<lparr>wv_statement := js ''a''\<rparr>)"
proof -
  let ?e = "editor_run [Edit (Statement (js ''a''))] (open_editor demo_problem None)"
  let ?v = "(toFormValues demo_problem)\<lparr>wv_statement := js ''a''\<rparr>"
  have count: "saveCount ?e = 0" and typed: "formValues ?e = ?v"
    unfolding editor_run_Cons editor_run_Nil demo_typed by (simp_all add: open_editor_def)
  have "editor_run demo_saved (open_editor demo_problem None) =
      editor_run (AutosaveFires # map Edit [] @ [SaveSucceeds (saveCount ?e) demo_problem 5, SaveSettles (saveCount ?e)]) ?e"
    unfolding count by (simp only: editor_run_Cons editor_run_Nil list.map append_Nil)
  note after = this [unfolded saved_after [OF saves_sent_run demo_armed]]
  have clean: "\<not> isDirty (editor_run demo_saved (open_editor demo_problem None))"
    and now: "?v = formValues (editor_run demo_saved (open_editor demo_problem None))"
    unfolding after by (simp_all add: isDirty_iff typed del: editor_run_Cons js_Cons)
  have "?v \<noteq> toFormValues demo_problem" by (simp add: toFormValues_def demo_problem_def)
  then obtain pre op post e where ops: "demo_saved = pre @ op # post" and e: "e = editor_run pre (open_editor demo_problem None)"
    and how: "(\<exists>q. op = ReloadAnswers (Some q) \<and> 0 < reloading e \<and> ?v = toFormValues q)
           \<or> (\<exists>n q t. op = SaveSucceeds n q t \<and> map_of (inflight e) n = Some ?v \<and> submitted demo_problem None pre n ?v)"
    using clean_form_is_confirmed [OF clean now] by (elim disjE [where P = "?v = _ \<and> _"] exE conjE) (rule notE)
  from ops have "op \<in> set demo_saved" by (simp only: set_append list.set Un_iff insert_iff simp_thms)
  then have "op \<noteq> ReloadAnswers (Some q)" "op = SaveSucceeds n q' t \<Longrightarrow> n = 0" for q n q' t by auto
  then obtain q t where "op = SaveSucceeds 0 q t" "submitted demo_problem None pre 0 ?v" using how by blast
  then show ?thesis using ops e by (intro exI conjI)
qed



lemma whole_limits_exact_witness:
  "secondsToNanoseconds (int_text 9) True = Inr (Some (Fin 9000000000)) \<and> mebibytesToBytes (int_text 256) = Inr (Fin 268435456)"
  using whole_limits_exact [of 9 256 True] by simp

definition demo_calibration :: calibration_request where
  "demo_calibration = \<lparr>cr_cpuNs = Fin 1000000000, cr_memoryBytes = Fin 268435456, cr_clockNs = None, cr_source = js ''x''\<rparr>"

lemma demo_calibrate:
  "CallCalibrate demo_calibration \<in> set (ed_calls (editor_run [EditSource (js ''x''), Calibrate] (open_editor demo_problem None)))"
proof -
  let ?e = "(open_editor demo_problem None)\<lparr>referenceSource := js ''x''\<rparr>"
  have typed: "editor_step (EditSource (js ''x'')) (open_editor demo_problem None) = ?e"
    by (simp add: editable_def open_editor_def demo_problem_def)
  have texts: "int_text 1 = js ''1''" "int_text 256 = js ''256''" by code_simp+
  have "calibration_mutationFn ?e = Inr demo_calibration"
    using whole_limits [of 1 256 False] unfolding texts
    by (simp add: calibration_mutationFn_def open_editor_def demo_calibration_def secondsToNanoseconds_def [of "[]"] del: js_Cons)
  moreover have "\<not> calibrateDisabled ?e"
    by (simp add: calibrateDisabled_def calibrationBlocked_None nodeUnavailable_def demo_simps)
  moreover have "calibration ?e \<noteq> CalPending" by (simp add: open_editor_def)
  ultimately show ?thesis unfolding editor_run_Cons editor_run_Nil typed
    by (simp add: runCalibration_def call_def)
qed

lemma calibration_limits_safe_witness:
  "\<exists>cpu mem. cr_cpuNs demo_calibration = Fin (of_int cpu) \<and> cr_memoryBytes demo_calibration = Fin (of_int mem)
    \<and> 0 < cpu \<and> cpu < 2 ^ 53 \<and> 0 < mem \<and> mem < 2 ^ 53"
  using calibration_limits_safe [OF demo_calibrate] by blast


definition demo_core :: AdminProblem where
  "demo_core = demo_problem\<lparr>ap_core := True, ap_judgeTemplate := Some (js ''d'')\<rparr>"

lemma demo_cleared:
  "editor_run [Edit (JudgeTemplate [])] (open_editor demo_core None) =
     (open_editor demo_core None)\<lparr>formValues := (toFormValues demo_core)\<lparr>wv_judgeTemplate := []\<rparr>\<rparr>"
proof -
  have "ap_active demo_core" by (simp add: demo_core_def demo_problem_def)
  then show ?thesis by (simp add: edit_def markChanged_def save_pending_def editable_def handleChange_def open_editor_def)
qed

end
