(* ===== verification/Problem_Page.thy ===== *)
theory Problem_Page
  imports Submission_Panel Draft_Pages Auth
begin

text \<open>
  The page of a problem: \<open>features/problems/components/problem-detail-page.tsx\<close>, the code editor with
  its draft in \<open>problem-source-editor.tsx\<close> and the history of one's submissions in
  \<open>features/submissions/submission-history-panel.tsx\<close>. A source of the history reaches the draft only
  through the editor's confirmation. What the query library tells of a query is a record of data and
  error; data stay when a later answer fails.
\<close>

record 'a query =
  qr_data :: "'a option"
  qr_error :: "thrown option"

definition isPending :: "'a query \<Rightarrow> bool" where
  "isPending q \<longleftrightarrow> qr_data q = None \<and> qr_error q = None"

definition isError :: "'a query \<Rightarrow> bool" where
  "isError q \<longleftrightarrow> qr_error q \<noteq> None"

section \<open>The problem\<close>

record statement_sample =
  ss_ordinal :: int
  ss_input :: jsstr
  ss_output :: jsstr
  ss_explanation :: "jsstr option"

record ProblemDetail =
  pd_problemId :: jsstr
  pd_slug :: jsstr
  pd_title :: jsstr
  pd_tags :: "jsstr list"
  pd_statement :: jsstr
  pd_inputDescription :: jsstr
  pd_outputDescription :: jsstr
  pd_constraints :: "jsstr option"
  pd_hint :: "jsstr option"
  pd_samples :: "statement_sample list"
  pd_languages :: "LanguageOption list"

datatype detail_page = DetailLoading | DetailNotFound | DetailFailed | DetailWorkbench ProblemDetail bool

definition ProblemDetailPage :: "ProblemDetail query \<Rightarrow> detail_page" where
  "ProblemDetailPage q =
     (case qr_data q of
        Some d \<Rightarrow> DetailWorkbench d (isError q)
      | None \<Rightarrow>
          if isPending q then DetailLoading
          else if (case qr_error q of Some (Api a) \<Rightarrow> err_code a = Some (js ''PROBLEM_NOT_FOUND'') | _ \<Rightarrow> False)
          then DetailNotFound else DetailFailed)"

text \<open>\<open>ProblemStatement\<close>: a section per text; constraints and hint only when they are not empty.\<close>

datatype statement_section =
    SectionInput jsstr | SectionOutput jsstr | SectionConstraints jsstr | SectionSamples "statement_sample list" | SectionHint jsstr

definition ProblemStatement :: "ProblemDetail \<Rightarrow> jsstr \<times> statement_section list" where
  "ProblemStatement d = (pd_statement d,
     [SectionInput (pd_inputDescription d), SectionOutput (pd_outputDescription d)]
     @ (if truthy (pd_constraints d) then [SectionConstraints (the (pd_constraints d))] else [])
     @ [SectionSamples (map (\<lambda>x. if truthy (ss_explanation x) then x else x\<lparr>ss_explanation := None\<rparr>) (pd_samples d))]
     @ (if truthy (pd_hint d) then [SectionHint (the (pd_hint d))] else []))"

text \<open>The tabs beside the code; on a narrow screen statement and code are tabs too, one of them hidden.\<close>

datatype content_tab = StatementTab | SubmissionsTab

definition onValueChange :: "jsstr \<Rightarrow> content_tab" where
  "onValueChange v = (if v = js ''submissions'' then SubmissionsTab else StatementTab)"

datatype statement_pane = StatementUnavailable | StatementShown "jsstr \<times> statement_section list"

definition statement_tab :: "ProblemDetail \<Rightarrow> bool \<Rightarrow> statement_pane" where
  "statement_tab d unavailable = (if unavailable then StatementUnavailable else StatementShown (ProblemStatement d))"

datatype workbench_layout = SideBySide | OnePane content_pane
     and content_pane = StatementPane | CodePane

definition ProblemWorkbench :: "bool \<Rightarrow> content_pane \<Rightarrow> workbench_layout" where
  "ProblemWorkbench wide pane = (if wide then SideBySide else OnePane pane)"

section \<open>Who may write code\<close>

definition session_account :: "json query \<Rightarrow> json option" where
  "session_account s = (case qr_data s of Some v \<Rightarrow> if session_authenticated v then Some (session_user v) else None | None \<Rightarrow> None)"

definition account_id :: "json \<Rightarrow> jsstr" where
  "account_id u = as_str (jget (js ''id'') u)"

definition must_change_password :: "json \<Rightarrow> bool" where
  "must_change_password u \<longleftrightarrow> jget (js ''passwordChangeRequired'') u = JBool True"

definition account_is :: "string \<Rightarrow> json \<Rightarrow> bool" where
  "account_is status u \<longleftrightarrow> jget (js ''status'') u = JStr (js status)"

definition editableIdentity :: "ProblemDetail \<Rightarrow> json query \<Rightarrow> bool" where
  "editableIdentity d s =
     (case session_account s of
        Some u \<Rightarrow> account_is ''ACTIVE'' u \<and> \<not> must_change_password u \<and> problemLanguage (pd_languages d) \<noteq> None
      | None \<Rightarrow> False)"

datatype code_notice = ConfirmingSession | SessionUnknown | PasswordFirst | AccountDisabled | LoginFirst | NoLanguage

definition code_notice :: "ProblemDetail \<Rightarrow> json query \<Rightarrow> code_notice option" where
  "code_notice d s =
     (if isPending s then Some ConfirmingSession
      else if isError s then Some SessionUnknown
      else case session_account s of
          None \<Rightarrow> Some LoginFirst
        | Some u \<Rightarrow>
            if must_change_password u then Some PasswordFirst
            else if account_is ''DISABLED'' u then Some AccountDisabled
            else if problemLanguage (pd_languages d) = None then Some NoLanguage else None)"

datatype notice_action = RetrySession | ChangePassword | LoginWith jsstr | NoAction

definition noticeBar :: "ProblemDetail \<Rightarrow> json query \<Rightarrow> (code_notice \<times> notice_action) option" where
  "noticeBar d s = map_option (\<lambda>n. (n,
     if isError s then RetrySession
     else if (case session_account s of Some u \<Rightarrow> must_change_password u | None \<Rightarrow> False) then ChangePassword
     else if \<not> isPending s \<and> session_account s = None then LoginWith (js ''/problems/'' @ pd_slug d)
     else NoAction)) (code_notice d s)"

datatype code_pane = ReadOnlyCode jsstr jsstr | DraftCode CodeDraftIdentity jsstr bool

definition ProblemCode :: "ProblemDetail \<Rightarrow> json query \<Rightarrow> bool \<Rightarrow> code_pane" where
  "ProblemCode d s unavailable =
     (case (editableIdentity d s, session_account s, problemLanguage (pd_languages d)) of
        (True, Some u, Some l) \<Rightarrow>
          DraftCode \<lparr>userId = account_id u, problemId = pd_problemId d, languageId = lang_id l\<rparr> (starter l) (isError s \<or> unavailable)
      | (_, _, l) \<Rightarrow> ReadOnlyCode (case l of Some x \<Rightarrow> starter x | None \<Rightarrow> []) (case l of Some x \<Rightarrow> lang_id x | None \<Rightarrow> []))"

section \<open>The editor and its draft\<close>

record SubmissionSourceData =
  src_submissionId :: jsstr
  src_problemId :: jsstr
  src_languageId :: jsstr
  src_source :: jsstr

record HistoryLoad =
  load_userId :: jsstr
  load_source :: SubmissionSourceData

record draft_editor =
  identity :: CodeDraftIdentity
  readOnly :: bool
  draft :: draft_state
  pendingLoad :: "(HistoryLoad \<times> jsstr) option"
  resetOpen :: bool
  conflictOpen :: bool
  blocked :: bool

definition draft_value :: "draft_editor \<Rightarrow> jsstr" where
  "draft_value e = snap_value (snapshot (draft e))"

definition open_draft_editor :: "CodeDraftIdentity \<Rightarrow> bool \<Rightarrow> draft_state \<Rightarrow> draft_editor" where
  "open_draft_editor i ro s =
     \<lparr>identity = i, readOnly = ro, draft = s, pendingLoad = None, resetOpen = False, conflictOpen = False, blocked = False\<rparr>"

definition requestLoad :: "HistoryLoad \<Rightarrow> draft_editor \<Rightarrow> draft_editor" where
  "requestLoad v e =
     (if readOnly e \<or> load_userId v \<noteq> userId (identity e) \<or> src_problemId (load_source v) \<noteq> problemId (identity e)
         \<or> src_languageId (load_source v) \<noteq> languageId (identity e)
      then e else e\<lparr>pendingLoad := Some (v, draft_value e)\<rparr>)"

text \<open>Rendered again with another \<open>readOnly\<close>: a pending load is dropped.\<close>

definition rerender :: "bool \<Rightarrow> draft_editor \<Rightarrow> draft_editor" where
  "rerender ro e = e\<lparr>readOnly := ro, pendingLoad := (if ro then None else pendingLoad e)\<rparr>"

definition loadChanged :: "draft_editor \<Rightarrow> bool" where
  "loadChanged e =
     (case pendingLoad e of
        None \<Rightarrow> False | Some (_, original) \<Rightarrow> original \<noteq> draft_value e \<or> snap_status (snapshot (draft e)) = Conflict)"

definition confirmLoad :: "draft_editor \<Rightarrow> draft_editor" where
  "confirmLoad e =
     (case pendingLoad e of
        None \<Rightarrow> e
      | Some (v, _) \<Rightarrow>
          if readOnly e \<or> loadChanged e \<or> load_userId v \<noteq> userId (identity e) then e
          else e\<lparr>draft := setValue (src_source (load_source v)) (draft e), pendingLoad := None\<rparr>)"

definition confirmReset :: "host \<Rightarrow> env \<Rightarrow> draft_editor \<Rightarrow> draft_editor" where
  "confirmReset H E e = (if readOnly e \<or> \<not> resetOpen e then e else e\<lparr>draft := resetToStarter H E (draft e), resetOpen := False\<rparr>)"

definition chooseCopy :: "host \<Rightarrow> env \<Rightarrow> jsstr \<Rightarrow> draft_editor \<Rightarrow> draft_editor" where
  "chooseCopy H E c e =
     (if readOnly e \<or> \<not> conflictOpen e then e else e\<lparr>draft := resolveConflict H E c (draft e), conflictOpen := False\<rparr>)"

text \<open>Leaving for another page saves first; the page is kept when that fails.\<close>

definition leave :: "host \<Rightarrow> env \<Rightarrow> jsstr \<Rightarrow> jsstr \<Rightarrow> draft_editor \<Rightarrow> draft_editor" where
  "leave H E from_path to_path e =
     (if from_path = to_path then e
      else case flush H E (draft e) of (ok, s) \<Rightarrow> e\<lparr>draft := s, blocked := \<not> ok\<rparr>)"

definition exportSource :: "draft_editor \<Rightarrow> jsstr \<times> jsstr" where
  "exportSource e = (js ''solution.cpp'', draft_value e)"

record draft_toolbar =
  bar_danger :: bool
  bar_message :: draft_message
  bar_retry :: bool
  bar_copies :: bool
  bar_reset :: bool

definition DraftEditor :: "draft_editor \<Rightarrow> draft_toolbar" where
  "DraftEditor e =
     (let n = snapshot (draft e) in
      \<lparr>bar_danger = (snap_status n = Failed \<or> snap_status n = Conflict), bar_message = snap_message n,
       bar_retry = (snap_status n = Failed), bar_copies = (snap_status n = Conflict), bar_reset = (\<not> readOnly e)\<rparr>)"

definition load_dialog :: "draft_editor \<Rightarrow> (bool \<times> bool) option" where
  "load_dialog e = (if pendingLoad e \<noteq> None \<and> \<not> readOnly e then Some (loadChanged e, \<not> (readOnly e \<or> loadChanged e)) else None)"

definition conflict_dialog :: "draft_editor \<Rightarrow> (jsstr \<times> jsstr list \<times> bool) option" where
  "conflict_dialog e = (if conflictOpen e
     then Some (draft_value e, map source (snap_conflicts (snapshot (draft e))), \<not> readOnly e) else None)"

section \<open>The history\<close>

datatype history_gate =
    GateConfirming | GateUnknown | GateLogin jsstr | GateDisabled | GatePassword | GateOwned jsstr jsstr

definition SubmissionHistoryPanel :: "ProblemDetail \<Rightarrow> json query \<Rightarrow> history_gate" where
  "SubmissionHistoryPanel d s =
     (if isPending s then GateConfirming
      else if isError s then GateUnknown
      else case session_account s of
          None \<Rightarrow> GateLogin (js ''/problems/'' @ pd_slug d @ js ''?tab=submissions'')
        | Some u \<Rightarrow>
            if \<not> account_is ''ACTIVE'' u then GateDisabled
            else if must_change_password u then GatePassword
            else GateOwned (account_id u) (pd_problemId d))"

record history_page =
  search :: HistorySearch
  historySubmissionId :: "jsstr option"

datatype history_click =
    ChooseVerdict "jsstr option" | FirstPage | ClearFilter | PreviousPage | NextPage | OpenRow jsstr | Back

record history_rows =
  rows :: "SubmissionData list"
  row_page :: int
  row_totalPages :: int
  row_totalElements :: int

text \<open>\<open>change\<close>: the search of the address after a click; a filter starts again at the first page.\<close>

definition change :: "history_rows \<Rightarrow> history_click \<Rightarrow> history_page \<Rightarrow> history_page" where
  "change r c h =
     (case c of
        ChooseVerdict v \<Rightarrow> h\<lparr>search := (search h)\<lparr>historyVerdict := v, historyPage := Some 1\<rparr>\<rparr>
      | FirstPage \<Rightarrow> h\<lparr>search := (search h)\<lparr>historyPage := Some 1\<rparr>\<rparr>
      | ClearFilter \<Rightarrow> h\<lparr>search := (search h)\<lparr>historyVerdict := None, historyPage := Some 1\<rparr>\<rparr>
      | PreviousPage \<Rightarrow> h\<lparr>search := (search h)\<lparr>historyPage := Some (row_page r - 1)\<rparr>\<rparr>
      | NextPage \<Rightarrow> h\<lparr>search := (search h)\<lparr>historyPage := Some (row_page r + 1)\<rparr>\<rparr>
      | OpenRow i \<Rightarrow> h\<lparr>historySubmissionId := Some i\<rparr>
      | Back \<Rightarrow> h\<lparr>historySubmissionId := None\<rparr>)"

datatype empty_text = PageEmpty | FilterEmpty | HistoryEmpty

record history_view =
  hv_count :: "int option"
  hv_pending :: bool
  hv_error :: "thrown option"
  hv_empty :: "empty_text option"
  hv_rows :: "SubmissionData list"
  hv_clicks :: "history_click list"

definition history_shown :: "history_rows query \<Rightarrow> history_rows option" where
  "history_shown q =
     (if (case qr_error q of Some err \<Rightarrow> isPrivateAccessError err | None \<Rightarrow> False) then None else qr_data q)"

definition history_list :: "history_page \<Rightarrow> history_rows query \<Rightarrow> history_view" where
  "history_list h q =
     \<lparr>hv_count = map_option row_totalElements (history_shown q), hv_pending = isPending q, hv_error = qr_error q,
      hv_empty = (case history_shown q of
          Some r \<Rightarrow> if rows r \<noteq> [] then None
            else Some (if row_totalElements r > 0 then PageEmpty else if truthy (historyVerdict (search h)) then FilterEmpty else HistoryEmpty)
        | None \<Rightarrow> None),
      hv_rows = (case history_shown q of Some r \<Rightarrow> rows r | None \<Rightarrow> []),
      hv_clicks = (case history_shown q of
          Some r \<Rightarrow>
            (if rows r = [] \<and> row_page r > 1 then [FirstPage] else [])
            @ (if rows r = [] \<and> truthy (historyVerdict (search h)) then [ClearFilter] else [])
            @ map (\<lambda>x. OpenRow (sub_id x)) (rows r)
            @ (if row_page r \<le> 1 then [] else [PreviousPage]) @ (if row_page r \<ge> row_totalPages r then [] else [NextPage])
        | None \<Rightarrow> [])\<rparr>"

text \<open>\<open>OwnedHistory\<close>: the list, or the detail of the submission named in the address.\<close>

definition OwnedHistory :: "history_page \<Rightarrow> history_rows query \<Rightarrow> jsstr + history_view" where
  "OwnedHistory h q = (if truthy (historySubmissionId h) then Inl (the (historySubmissionId h)) else Inr (history_list h q))"

text \<open>\<open>HistoryDetail\<close>: the result is read again every two seconds until it is final or fails.\<close>

definition detail_queryFn ::
    "json option \<Rightarrow> json option \<Rightarrow> jsstr \<Rightarrow> jsstr \<Rightarrow> (thrown, SubmissionData) result \<Rightarrow> SubmissionData guarded" where
  "detail_queryFn s0 s1 uid pid got =
     withHistoryIdentity s0 s1 uid (bind_result got (\<lambda>v. if sub_problemId v \<noteq> pid then Inl plain_exception else Inr v))"

definition detail_interval :: "SubmissionData query \<Rightarrow> int option" where
  "detail_interval q = (if (case qr_data q of Some v \<Rightarrow> sub_status v = DONE | None \<Rightarrow> False) \<or> isError q then None else Some 2000)"

definition denied :: "SubmissionData query \<Rightarrow> SubmissionSourceData query \<Rightarrow> bool" where
  "denied rq sq \<longleftrightarrow> (case qr_error sq of Some err \<Rightarrow> isPrivateAccessError err | None \<Rightarrow> False)
     \<or> (case qr_error rq of Some err \<Rightarrow> isPrivateAccessError err | None \<Rightarrow> False)"

record history_detail =
  hd_result :: "(SubmissionData \<times> result_view) option"
  hd_resultError :: "thrown option"
  hd_code :: "SubmissionSourceData option"
  hd_sourceError :: "thrown option"
  hd_load :: bool

definition HistoryDetail :: "bool \<Rightarrow> SubmissionData query \<Rightarrow> SubmissionSourceData query \<Rightarrow> history_detail" where
  "HistoryDetail canLoad rq sq =
     (let code = (if denied rq sq then None else qr_data sq) in
      \<lparr>hd_result = (if denied rq sq then None else map_option (\<lambda>v. (v, SubmissionResult v)) (qr_data rq)),
       hd_resultError = qr_error rq, hd_code = code, hd_sourceError = qr_error sq,
       hd_load = (code \<noteq> None \<and> canLoad \<and> qr_data rq \<noteq> None \<and> \<not> isError rq)\<rparr>)"

definition onLoad :: "jsstr \<Rightarrow> bool \<Rightarrow> SubmissionData query \<Rightarrow> SubmissionSourceData query \<Rightarrow> HistoryLoad option" where
  "onLoad uid canLoad rq sq =
     (if hd_load (HistoryDetail canLoad rq sq)
      then map_option (\<lambda>c. \<lparr>load_userId = uid, load_source = c\<rparr>) (hd_code (HistoryDetail canLoad rq sq)) else None)"

section \<open>Executions of the editor\<close>

datatype draft_editor_op =
    Type jsstr | RequestLoad HistoryLoad | CancelLoad | ConfirmLoad | AskReset bool | ConfirmReset | AskConflict bool
  | ChooseCopy jsstr | Rerender bool | Leave jsstr jsstr | Stay | DraftEvent draft_op

definition own_event :: "draft_op \<Rightarrow> bool" where
  "own_event op = (case op of Edit _ \<Rightarrow> False | Resolve _ \<Rightarrow> False | Reset \<Rightarrow> False | _ \<Rightarrow> True)"

fun draft_editor_step :: "host \<Rightarrow> env \<Rightarrow> draft_editor_op \<Rightarrow> draft_editor \<Rightarrow> draft_editor" where
  "draft_editor_step H E (Type s) e = (if readOnly e then e else e\<lparr>draft := setValue s (draft e)\<rparr>)"
| "draft_editor_step H E (RequestLoad v) e = requestLoad v e"
| "draft_editor_step H E CancelLoad e = e\<lparr>pendingLoad := None\<rparr>"
| "draft_editor_step H E ConfirmLoad e = confirmLoad e"
| "draft_editor_step H E (AskReset b) e = (if readOnly e \<and> b then e else e\<lparr>resetOpen := b\<rparr>)"
| "draft_editor_step H E ConfirmReset e = confirmReset H E e"
| "draft_editor_step H E (AskConflict b) e = e\<lparr>conflictOpen := b\<rparr>"
| "draft_editor_step H E (ChooseCopy c) e = chooseCopy H E c e"
| "draft_editor_step H E (Rerender ro) e = rerender ro e"
| "draft_editor_step H E (Leave f t) e = leave H E f t e"
| "draft_editor_step H E Stay e = e\<lparr>blocked := False\<rparr>"
| "draft_editor_step H E (DraftEvent op) e = (if own_event op then e\<lparr>draft := draft_step H E op (draft e)\<rparr> else e)"

inductive draft_editor_reach :: "host \<Rightarrow> CodeDraftIdentity \<Rightarrow> draft_editor \<Rightarrow> bool" for H i where
  opened: "newController H E i starter0 w st lost = Some s \<Longrightarrow> draft_editor_reach H i (open_draft_editor i ro s)"
| step: "draft_editor_reach H i e \<Longrightarrow> draft_editor_reach H i (draft_editor_step H E op e)"
| elsewhere: "draft_editor_reach H i e \<Longrightarrow> draft_editor_reach H i (e\<lparr>draft := (draft e)\<lparr>storage := st\<rparr>\<rparr>)"

end
