(* ===== verification/Page_Properties.thy ===== *)
theory Page_Properties
  imports Problem_Page
begin

text \<open>
  The properties of the problem's page: who may write code, what a load from the history may do to the
  draft, what a denied history shows, and where the buttons of the history lead.
\<close>

section \<open>What the page promises\<close>

lemma DraftCode_iff:
  "ProblemCode d s unavailable = DraftCode i st ro \<longleftrightarrow>
     (\<exists>u l. session_account s = Some u \<and> account_is ''ACTIVE'' u \<and> \<not> must_change_password u
       \<and> problemLanguage (pd_languages d) = Some l
       \<and> i = \<lparr>userId = account_id u, problemId = pd_problemId d, languageId = lang_id l\<rparr> \<and> st = starter l
       \<and> ro = (isError s \<or> unavailable))"
  by (auto simp: ProblemCode_def editableIdentity_def split: option.splits bool.splits)

lemma active_not_disabled: "account_is ''ACTIVE'' u \<Longrightarrow> \<not> account_is ''DISABLED'' u"
  by (simp add: account_is_def)

text \<open>
  C22. Code can be written on a problem's page exactly when the session is confirmed, its account is active and
  needs no new password, the problem is available and opens a language; the draft is then that account's,
  for this problem and language. And the page says why it cannot: the code can be written if and only if neither
  the bar above the code has a notice nor the statement tab says that the problem is unavailable.
\<close>

theorem code_needs_entitled_session:
  assumes "pred_option (\<lambda>u. account_is ''ACTIVE'' u \<or> account_is ''DISABLED'' u) (session_account s)"
  shows "(ProblemCode d s unavailable = DraftCode i st False \<longleftrightarrow>
      \<not> unavailable \<and> \<not> isError s \<and> (\<exists>u l. session_account s = Some u \<and> account_is ''ACTIVE'' u \<and> \<not> must_change_password u
        \<and> problemLanguage (pd_languages d) = Some l \<and> st = starter l
        \<and> i = \<lparr>userId = account_id u, problemId = pd_problemId d, languageId = lang_id l\<rparr>))
    \<and> ((\<exists>i st. ProblemCode d s unavailable = DraftCode i st False) \<longleftrightarrow>
        noticeBar d s = None \<and> statement_tab d unavailable \<noteq> StatementUnavailable)"
proof (intro conjI)
  show "ProblemCode d s unavailable = DraftCode i st False \<longleftrightarrow>
      \<not> unavailable \<and> \<not> isError s \<and> (\<exists>u l. session_account s = Some u \<and> account_is ''ACTIVE'' u \<and> \<not> must_change_password u
        \<and> problemLanguage (pd_languages d) = Some l \<and> st = starter l
        \<and> i = \<lparr>userId = account_id u, problemId = pd_problemId d, languageId = lang_id l\<rparr>)"
    unfolding DraftCode_iff by blast
  have "\<not> isPending s" if "session_account s = Some u" for u
    using that by (auto simp: session_account_def isPending_def split: option.splits)
  then have "noticeBar d s = None \<longleftrightarrow> (\<exists>i st. ProblemCode d s False = DraftCode i st False)"
    using assms active_not_disabled unfolding DraftCode_iff
    by (cases "session_account s") (auto simp: noticeBar_def code_notice_def)
  then show "(\<exists>i st. ProblemCode d s unavailable = DraftCode i st False) \<longleftrightarrow>
      noticeBar d s = None \<and> statement_tab d unavailable \<noteq> StatementUnavailable"
    unfolding DraftCode_iff by (auto simp: statement_tab_def)
qed

text \<open>A load in question was asked for by this editor's own account, problem and language.\<close>

definition load_matches :: "CodeDraftIdentity \<Rightarrow> draft_editor \<Rightarrow> bool" where
  "load_matches i e \<longleftrightarrow> identity e = i \<and> (\<forall>v o0. pendingLoad e = Some (v, o0) \<longrightarrow> \<not> readOnly e
     \<and> load_userId v = userId i \<and> src_problemId (load_source v) = problemId i \<and> src_languageId (load_source v) = languageId i)"

lemma load_matches_step: "load_matches i e \<Longrightarrow> load_matches i (draft_editor_step H E op e)"
  by (cases op) (auto simp: load_matches_def requestLoad_def confirmLoad_def confirmReset_def chooseCopy_def rerender_def leave_def
      split: option.splits prod.splits)

interpretation de: kept_invariant "draft_editor_step H E" "load_matches i" for H E i
  by unfold_locales (rule load_matches_step)

lemma load_matches_reach: "draft_editor_reach H i e \<Longrightarrow> load_matches i e"
  by (induction rule: draft_editor_reach.induct)
    (auto simp: de.keeps, auto simp: load_matches_def open_draft_editor_def)

lemma setValue_text: "snap_value (snapshot (setValue v s)) = v"
  by (simp add: setValue_def update_def)

text \<open>
  C11. In every state the editor can reach, confirming a load replaces the draft only by the source of a submission
  that was asked for with this editor's own account, problem and language, only while the editor may be
  written, without a conflict of tabs, and only if the draft is still the text it was when the load was asked for.
\<close>

theorem history_load_guarded:
  assumes "draft_editor_reach H i e" and "e' = draft_editor_step H E ConfirmLoad e" and "draft_value e' \<noteq> draft_value e"
  shows "\<exists>v. pendingLoad e = Some (v, draft_value e) \<and> draft_value e' = src_source (load_source v)
    \<and> load_userId v = userId i \<and> src_problemId (load_source v) = problemId i \<and> src_languageId (load_source v) = languageId i
    \<and> \<not> readOnly e \<and> snap_status (snapshot (draft e)) \<noteq> Conflict \<and> pendingLoad e' = None"
proof -
  obtain v o0 where p: "pendingLoad e = Some (v, o0)" and "\<not> readOnly e" and "\<not> loadChanged e"
    and e': "e' = e\<lparr>draft := setValue (src_source (load_source v)) (draft e), pendingLoad := None\<rparr>"
    using assms(2,3) by (auto simp: confirmLoad_def split: option.splits prod.splits if_splits)
  then show ?thesis using load_matches_reach [OF assms(1)]
    by (auto simp: load_matches_def loadChanged_def draft_value_def setValue_text)
qed

lemma read_only_draft_kept:
  "readOnly e \<Longrightarrow> \<forall>d. op \<noteq> DraftEvent d \<Longrightarrow> \<forall>f t. op \<noteq> Leave f t \<Longrightarrow> draft (draft_editor_step H E op e) = draft e"
  by (cases op) (auto simp: requestLoad_def confirmLoad_def confirmReset_def chooseCopy_def rerender_def split: option.splits)

text \<open>
  A history that the server or a changed session denies is not shown: neither result nor source, and nothing can
  be loaded. What can be loaded is the source the query holds, for the account of the panel, with a result
  that was read without error.
\<close>

theorem denied_history_hidden:
  "(denied rq sq \<longrightarrow> hd_result (HistoryDetail canLoad rq sq) = None \<and> hd_code (HistoryDetail canLoad rq sq) = None
      \<and> onLoad uid canLoad rq sq = None)
   \<and> (\<forall>v. onLoad uid canLoad rq sq = Some v \<longrightarrow> canLoad \<and> load_userId v = uid \<and> qr_data sq = Some (load_source v)
      \<and> qr_data rq \<noteq> None \<and> qr_error rq = None)"
  by (auto simp: HistoryDetail_def onLoad_def isError_def Let_def split: if_splits)

text \<open>
  The buttons of the history never lead to a page outside: from a page of the list they go to its first page or to a
  page between 1 and the last, and a chosen verdict starts at the first page.
\<close>

theorem history_clicks_in_range:
  assumes "history_shown q = Some r" and "c \<in> set (hv_clicks (history_list h q)) \<or> (\<exists>v. c = ChooseVerdict v) \<or> c = Back"
    and "1 \<le> page_of (search h)" and "row_page r = page_of (search h)"
  shows "1 \<le> page_of (search (change r c h)) \<and> page_of (search (change r c h)) \<le> max (page_of (search h)) (row_totalPages r)
    \<and> (historyVerdict (search (change r c h)) \<noteq> historyVerdict (search h) \<longrightarrow> page_of (search (change r c h)) = 1)"
  using assms by (cases c) (auto simp: history_list_def change_def page_of_def split: if_splits)


section \<open>Examples\<close>

definition demo_detail :: ProblemDetail where
  "demo_detail = \<lparr>pd_problemId = js ''p'', pd_slug = js ''sum'', pd_title = js ''Sum'', pd_tags = [], pd_statement = [],
     pd_inputDescription = [], pd_outputDescription = [], pd_constraints = None, pd_hint = None, pd_samples = [],
     pd_languages = [\<lparr>lang_id = js ''c'', displayName = js ''C'', starter = js ''x''\<rparr>]\<rparr>"

definition demo_session :: "json query" where
  "demo_session = \<lparr>qr_data = Some (JObj [(js ''authenticated'', JBool True),
     (js ''user'', JObj [(js ''id'', JStr (js ''u'')), (js ''status'', JStr (js ''ACTIVE'')),
        (js ''passwordChangeRequired'', JBool False)])]), qr_error = None\<rparr>"

lemma demo_account:
  "session_account demo_session = Some (JObj [(js ''id'', JStr (js ''u'')), (js ''status'', JStr (js ''ACTIVE'')),
     (js ''passwordChangeRequired'', JBool False)])"
  by (simp add: demo_session_def session_account_def session_authenticated_def session_user_def jget_JObj)

lemma code_needs_entitled_session_witness:
  "ProblemCode demo_detail demo_session False = DraftCode demo_identity (js ''x'') False \<and> noticeBar demo_detail demo_session = None"
proof -
  have "pred_option (\<lambda>u. account_is ''ACTIVE'' u \<or> account_is ''DISABLED'' u) (session_account demo_session)"
    by (simp add: demo_account account_is_def jget_JObj)
  note * = code_needs_entitled_session [OF this, of demo_detail False demo_identity "js ''x''"]
  have "ProblemCode demo_detail demo_session False = DraftCode demo_identity (js ''x'') False"
    unfolding DraftCode_iff using demo_account
    by (simp add: account_is_def must_change_password_def account_id_def jget_JObj isError_def demo_detail_def
        problemLanguage_def demo_identity_def as_str_def demo_session_def [THEN arg_cong, of qr_error])
  then show ?thesis using * by blast
qed

lemma denied_history_hidden_witness:
  "onLoad [] True \<lparr>qr_data = None, qr_error = Some sessionChanged\<rparr> \<lparr>qr_data = None, qr_error = None\<rparr> = None"
  using denied_history_hidden [of "\<lparr>qr_data = None, qr_error = Some sessionChanged\<rparr>" "\<lparr>qr_data = None, qr_error = None\<rparr>" True "[]"]
  by (simp add: denied_def isPrivateAccessError_def sessionChanged_def plain_error_def)

lemma history_clicks_in_range_witness:
  "let r = \<lparr>rows = [], row_page = 2, row_totalPages = 3, row_totalElements = 50\<rparr>;
       h = \<lparr>search = \<lparr>historyPage = Some 2, historyVerdict = None\<rparr>, historySubmissionId = None\<rparr>
   in 1 \<le> page_of (search (change r NextPage h)) \<and> page_of (search (change r NextPage h)) \<le> 3"
  using history_clicks_in_range [of "\<lparr>qr_data = Some \<lparr>rows = [], row_page = 2, row_totalPages = 3, row_totalElements = 50\<rparr>, qr_error = None\<rparr>"
      "\<lparr>rows = [], row_page = 2, row_totalPages = 3, row_totalElements = 50\<rparr>" NextPage
      "\<lparr>search = \<lparr>historyPage = Some 2, historyVerdict = None\<rparr>, historySubmissionId = None\<rparr>"]
  by (simp add: history_shown_def history_list_def page_of_def change_def)

definition demo_load :: HistoryLoad where
  "demo_load = \<lparr>load_userId = js ''u'', load_source = \<lparr>src_submissionId = js ''s'', src_problemId = js ''p'',
     src_languageId = js ''c'', src_source = js ''old''\<rparr>\<rparr>"

definition demo_editor :: draft_editor where
  "demo_editor = draft_editor_step demo_host demo_env (RequestLoad demo_load) (open_draft_editor demo_identity False demo_open)"

lemma demo_editor_reach: "draft_editor_reach demo_host demo_identity demo_editor"
  unfolding demo_editor_def by (intro draft_editor_reach.step draft_editor_reach.opened [OF demo_open_eq])

lemma demo_editor_eq: "demo_editor = (open_draft_editor demo_identity False demo_open)\<lparr>pendingLoad := Some (demo_load, js ''x'')\<rparr>"
  by (simp add: demo_editor_def requestLoad_def open_draft_editor_def demo_load_def demo_identity_def draft_value_def demo_open_fields(3)
      del: js_Cons)

lemma demo_open_status: "snap_status (snapshot demo_open) = Clean"
  by (simp add: demo_open_def newController_def demo_codeDraftKey demo_env_def scanDrafts_def)

lemma history_load_guarded_witness:
  "\<exists>v. pendingLoad demo_editor = Some (v, draft_value demo_editor)
    \<and> draft_value (draft_editor_step demo_host demo_env ConfirmLoad demo_editor) = src_source (load_source v)"
proof -
  have "draft_value (draft_editor_step demo_host demo_env ConfirmLoad demo_editor) \<noteq> draft_value demo_editor"
    by (simp add: demo_editor_eq confirmLoad_def loadChanged_def draft_value_def open_draft_editor_def demo_open_fields(3) demo_open_status
        setValue_text demo_load_def demo_identity_def)
  then show ?thesis using history_load_guarded [OF demo_editor_reach refl] by blast
qed

end
