(* ===== verification/Admin_Languages.thy ===== *)
theory Admin_Languages
  imports Problem_Editor Problem_Page Admin_Api
begin

text \<open>
  The languages in the administration: the list \<open>admin-language-list-page.tsx\<close>, the page of one
  language with the editor of its prefix code \<open>admin-language-edit-page.tsx\<close>, and
  \<open>use-redirect-when-signed-out.ts\<close>, all under \<open>features/admin-languages\<close>. The editor is mounted by the
  page: another version of the language, and a failed query, unmount it.
\<close>

section \<open>Signed out\<close>

text \<open>The effect: forget the session and go to the login page with the way back.\<close>

definition useRedirectWhenSignedOut :: "thrown option \<Rightarrow> jsstr \<Rightarrow> jsstr option" where
  "useRedirectWhenSignedOut error returnTo =
     (if (case error of Some e \<Rightarrow> with_status 401 e | None \<Rightarrow> False) then Some returnTo else None)"

section \<open>The list\<close>

record LanguageSetting =
  ls_id :: jsstr
  ls_displayName :: jsstr
  ls_prefix :: jsstr
  ls_updatedAt :: jsstr

datatype list_state = ListLoading | ListError error_text | ListRows "(jsstr \<times> jsstr \<times> int) list"

definition AdminLanguageListPage :: "LanguageSetting list query \<Rightarrow> list_state \<times> int option \<times> jsstr option" where
  "AdminLanguageListPage q =
     ((if isPending q then ListLoading
       else case qr_error q of
           Some e \<Rightarrow> ListError (apiErrorMessage e)
         | None \<Rightarrow> ListRows (map (\<lambda>l. (ls_id l, ls_displayName l, prefixLineCount (ls_prefix l)))
             (case qr_data q of Some ls \<Rightarrow> ls | None \<Rightarrow> []))),
      map_option (int \<circ> length) (qr_data q), useRedirectWhenSignedOut (qr_error q) (js ''/admin/languages''))"

section \<open>The editor of the prefix code\<close>

datatype prefix_save = PrefixIdle | PrefixSaving nat | PrefixError thrown

record prefix_editor =
  pe_language :: LanguageSetting
  pe_draft :: jsstr
  pe_confirming :: bool
  pe_save :: prefix_save
  pe_blocked :: bool

definition open_prefix :: "LanguageSetting \<Rightarrow> prefix_editor" where
  "open_prefix l = \<lparr>pe_language = l, pe_draft = ls_prefix l, pe_confirming = False, pe_save = PrefixIdle, pe_blocked = False\<rparr>"

definition prefix_dirty :: "prefix_editor \<Rightarrow> bool" where
  "prefix_dirty e \<longleftrightarrow> pe_draft e \<noteq> ls_prefix (pe_language e)"

definition normalized :: "prefix_editor \<Rightarrow> jsstr" where
  "normalized e = (if pe_draft e \<noteq> [] \<and> last (pe_draft e) = 10 then pe_draft e else pe_draft e @ [10])"

definition prefix_saving :: "prefix_editor \<Rightarrow> bool" where
  "prefix_saving e = (case pe_save e of PrefixSaving _ \<Rightarrow> True | _ \<Rightarrow> False)"

definition prefix_conflict :: "prefix_editor \<Rightarrow> bool" where
  "prefix_conflict e =
     (case pe_save e of PrefixError (Api a) \<Rightarrow> err_code a = Some (js ''ROW_VERSION_CONFLICT'') | _ \<Rightarrow> False)"

definition canSave :: "prefix_editor \<Rightarrow> bool" where
  "canSave e \<longleftrightarrow> prefix_dirty e \<and> trim (pe_draft e) \<noteq> [] \<and> \<not> prefix_conflict e \<and> \<not> prefix_saving e"

record save_event =
  sk_mod :: bool
  sk_s :: bool
  sk_composing :: bool

definition prefix_onKeyDown :: "save_event \<Rightarrow> prefix_editor \<Rightarrow> prefix_editor" where
  "prefix_onKeyDown k e =
     (if sk_mod k \<and> sk_s k \<and> \<not> sk_composing k \<and> canSave e \<and> \<not> pe_confirming e then e\<lparr>pe_confirming := True\<rparr> else e)"

text \<open>Typing; the editor is read-only while a save is pending. An error is forgotten unless it is the conflict.\<close>

definition prefix_onChange :: "jsstr \<Rightarrow> prefix_editor \<Rightarrow> prefix_editor" where
  "prefix_onChange v e =
     (if prefix_saving e then e
      else e\<lparr>pe_draft := v, pe_save := (case pe_save e of
               PrefixError x \<Rightarrow> if prefix_conflict e then pe_save e else PrefixIdle | _ \<Rightarrow> pe_save e)\<rparr>)"

definition restore_prefix :: "prefix_editor \<Rightarrow> prefix_editor" where
  "restore_prefix e =
     (if prefix_conflict e then e\<lparr>pe_save := PrefixIdle, pe_draft := ls_prefix (pe_language e)\<rparr>
      else if \<not> prefix_dirty e \<or> prefix_saving e then e
      else e\<lparr>pe_draft := ls_prefix (pe_language e)\<rparr>)"

definition prefix_blocker :: "jsstr \<Rightarrow> jsstr \<Rightarrow> prefix_editor \<Rightarrow> prefix_editor" where
  "prefix_blocker from_path to_path e = (if from_path \<noteq> to_path \<and> prefix_dirty e then e\<lparr>pe_blocked := True\<rparr> else e)"

definition prefix_lines :: "prefix_editor \<Rightarrow> int" where
  "prefix_lines e = prefixLineCount (if prefix_dirty e then normalized e else ls_prefix (pe_language e))"

section \<open>The page\<close>

record prefix_request =
  pr_id :: jsstr
  pr_prefix :: jsstr
  pr_expected :: jsstr

definition prefix_request_json :: "prefix_request \<Rightarrow> json" where
  "prefix_request_json r = JObj [(js ''solutionPrefix'', JStr (pr_prefix r)), (js ''expectedUpdatedAt'', JStr (pr_expected r))]"

definition prefix_mutationFn :: "'w net \<Rightarrow> prefix_request \<Rightarrow> ('w, json) io" where
  "prefix_mutationFn N r = updateLanguageSetting N (pr_id r) (prefix_request_json r)"

text \<open>The page: the language of the address, the query, the mounted editor, the saves that are not
  answered yet and what was sent. \<open>lp_seen\<close> are the versions the server has given out so far, and
  \<open>lp_left\<close> says that the page was left.\<close>

record language_page =
  lp_id :: jsstr
  lp_query :: "LanguageSetting list query"
  lp_editor :: "prefix_editor option"
  lp_inflight :: "nat list"
  lp_sent :: "prefix_request list"
  lp_seen :: "LanguageSetting set"
  lp_left :: bool

definition page_language :: "language_page \<Rightarrow> LanguageSetting option" where
  "page_language s = Option.bind (qr_data (lp_query s)) (find (\<lambda>l. ls_id l = lp_id s))"

text \<open>Rendering: loading and errors stand in the place of the editor; \<open>key={language.updatedAt}\<close>
  keeps the mounted editor exactly for the same version.\<close>

definition render_page :: "language_page \<Rightarrow> language_page" where
  "render_page s = s\<lparr>lp_editor :=
     (if isPending (lp_query s) \<or> isError (lp_query s) then None
      else case page_language s of
          None \<Rightarrow> None
        | Some l \<Rightarrow>
            (case lp_editor s of
               Some e \<Rightarrow> if ls_updatedAt (pe_language e) = ls_updatedAt l then Some (e\<lparr>pe_language := l\<rparr>) else Some (open_prefix l)
             | None \<Rightarrow> Some (open_prefix l)))\<rparr>"

datatype edit_state = EditLoading | EditFailed error_text | EditNoLanguage | EditShown

definition AdminLanguageEditPage :: "language_page \<Rightarrow> edit_state \<times> jsstr option" where
  "AdminLanguageEditPage s =
     ((if isPending (lp_query s) then EditLoading
       else case qr_error (lp_query s) of
           Some e \<Rightarrow> EditFailed (apiErrorMessage e)
         | None \<Rightarrow> if page_language s = None then EditNoLanguage else EditShown),
      useRedirectWhenSignedOut (qr_error (lp_query s)) (js ''/admin/languages/'' @ lp_id s))"

definition open_language_page :: "jsstr \<Rightarrow> language_page" where
  "open_language_page i =
     \<lparr>lp_id = i, lp_query = \<lparr>qr_data = None, qr_error = None\<rparr>, lp_editor = None, lp_inflight = [], lp_sent = [],
      lp_seen = {}, lp_left = False\<rparr>"

text \<open>An answer of the list query, at the start, on return to the window or after an invalidation: a
  failure leaves the data and sets the error.\<close>

definition languages_answer :: "thrown + LanguageSetting list \<Rightarrow> language_page \<Rightarrow> language_page" where
  "languages_answer r s =
     (case r of
        Inl e \<Rightarrow> s\<lparr>lp_query := (lp_query s)\<lparr>qr_error := Some e\<rparr>\<rparr>
      | Inr ls \<Rightarrow> s\<lparr>lp_query := \<lparr>qr_data = Some ls, qr_error = None\<rparr>, lp_seen := lp_seen s \<union> set ls\<rparr>)"

definition confirm_save :: "language_page \<Rightarrow> language_page" where
  "confirm_save s =
     (case lp_editor s of
        Some e \<Rightarrow>
          if \<not> pe_confirming e \<or> prefix_saving e then s
          else s\<lparr>lp_editor := Some (e\<lparr>pe_save := PrefixSaving (length (lp_sent s))\<rparr>),
                 lp_inflight := lp_inflight s @ [length (lp_sent s)],
                 lp_sent := lp_sent s @ [\<lparr>pr_id = ls_id (pe_language e), pr_prefix = normalized e,
                                          pr_expected = ls_updatedAt (pe_language e)\<rparr>]\<rparr>
      | None \<Rightarrow> s)"

text \<open>\<open>setQueryData\<close> with the saved setting; an answer to a save whose editor is gone changes the cache only.\<close>

definition put_saved :: "LanguageSetting \<Rightarrow> LanguageSetting list query \<Rightarrow> LanguageSetting list query" where
  "put_saved saved q =
     (case qr_data q of
        Some ls \<Rightarrow> \<lparr>qr_data = Some (map (\<lambda>l. if ls_id l = ls_id saved then saved else l) ls), qr_error = None\<rparr>
      | None \<Rightarrow> q)"

definition save_answer :: "nat \<Rightarrow> thrown + LanguageSetting \<Rightarrow> language_page \<Rightarrow> language_page" where
  "save_answer n r s =
     (if n \<notin> set (lp_inflight s) then s
      else let own = (\<lambda>f. map_option (\<lambda>e. if pe_save e = PrefixSaving n then f e else e) (lp_editor s));
               s1 = s\<lparr>lp_inflight := removeAll n (lp_inflight s)\<rparr>
           in case r of
               Inl e \<Rightarrow> s1\<lparr>lp_editor := own (\<lambda>x. x\<lparr>pe_save := PrefixError e, pe_confirming := False\<rparr>)\<rparr>
             | Inr saved \<Rightarrow> s1\<lparr>lp_editor := own (\<lambda>x. x\<lparr>pe_draft := ls_prefix saved, pe_save := PrefixIdle, pe_confirming := False\<rparr>),
                              lp_query := put_saved saved (lp_query s), lp_seen := insert saved (lp_seen s)\<rparr>)"

datatype prefix_op =
    LanguagesAnswer "thrown + LanguageSetting list" | TypePrefix jsstr | SaveKey save_event | ClickSave | ConfirmSave
  | CloseConfirm | SaveAnswer nat "thrown + LanguageSetting" | RestorePrefix | LeavePrefix jsstr jsstr
  | StayHere | LeaveAnyway

definition in_editor :: "(prefix_editor \<Rightarrow> prefix_editor) \<Rightarrow> language_page \<Rightarrow> language_page" where
  "in_editor f s = s\<lparr>lp_editor := map_option f (lp_editor s)\<rparr>"

text \<open>The confirmation is modal: while it is open the editor and its buttons are out of reach.\<close>

definition behind :: "(prefix_editor \<Rightarrow> prefix_editor) \<Rightarrow> prefix_editor \<Rightarrow> prefix_editor" where
  "behind f e = (if pe_confirming e \<or> pe_blocked e then e else f e)"

definition language_step :: "prefix_op \<Rightarrow> language_page \<Rightarrow> language_page" where
  "language_step op s =
     (case op of
        LanguagesAnswer r \<Rightarrow> languages_answer r s
      | TypePrefix v \<Rightarrow> in_editor (behind (prefix_onChange v)) s
      | SaveKey k \<Rightarrow> in_editor (prefix_onKeyDown k) s
      | ClickSave \<Rightarrow> in_editor (behind (\<lambda>e. if canSave e then e\<lparr>pe_confirming := True\<rparr> else e)) s
      | ConfirmSave \<Rightarrow> confirm_save s
      | CloseConfirm \<Rightarrow> in_editor (\<lambda>e. if prefix_saving e then e else e\<lparr>pe_confirming := False\<rparr>) s
      | SaveAnswer n r \<Rightarrow> save_answer n r s
      | RestorePrefix \<Rightarrow> in_editor (behind restore_prefix) s
      | LeavePrefix a b \<Rightarrow>
          if a \<noteq> b \<and> (case lp_editor s of Some e \<Rightarrow> \<not> prefix_dirty e | None \<Rightarrow> True) then s\<lparr>lp_left := True\<rparr>
          else in_editor (prefix_blocker a b) s
      | StayHere \<Rightarrow> in_editor (\<lambda>e. e\<lparr>pe_blocked := False\<rparr>) s
      | LeaveAnyway \<Rightarrow> if (case lp_editor s of Some e \<Rightarrow> pe_blocked e | None \<Rightarrow> False) then s\<lparr>lp_left := True\<rparr> else s)"

definition language_run :: "prefix_op list \<Rightarrow> language_page \<Rightarrow> language_page" where
  "language_run ops s = fold (\<lambda>op. render_page \<circ> language_step op) ops s"

section \<open>Facts\<close>

lemma trim_eq_Nil: "trim s = [] \<longleftrightarrow> (\<forall>c\<in>set s. is_ws c)"
proof -
  have "(\<forall>c\<in>set (dropWhile is_ws s). is_ws c) \<longleftrightarrow> dropWhile is_ws s = []"
  proof (cases "dropWhile is_ws s")
    case (Cons y ys)
    then have "\<not> is_ws y" by (simp add: dropWhile_eq_Cons_conv)
    with Cons show ?thesis by simp
  next
    case Nil
    then show ?thesis unfolding Nil by simp
  qed
  then show ?thesis by (simp add: trim_def trimStart_def dropWhile_eq_Nil_conv)
qed

lemma normalized_newline: "last (normalized e) = 10"
  by (simp add: normalized_def)

lemma normalized_blank: "trim (normalized e) = [] \<longleftrightarrow> trim (pe_draft e) = []"
  by (auto simp: normalized_def trim_eq_Nil is_ws_def in_range_def)

text \<open>A request is guarded when it names a version the server has given out and its text is a
  non-empty prefix that ends its last line.\<close>

definition guarded_request :: "language_page \<Rightarrow> prefix_request \<Rightarrow> bool" where
  "guarded_request s r \<longleftrightarrow> pr_id r = lp_id s \<and> last (pr_prefix r) = 10 \<and> trim (pr_prefix r) \<noteq> []
     \<and> (\<exists>l\<in>lp_seen s. ls_id l = lp_id s \<and> ls_updatedAt l = pr_expected r)"

definition good_editor :: "language_page \<Rightarrow> prefix_editor \<Rightarrow> bool" where
  "good_editor s e \<longleftrightarrow> pe_language e \<in> lp_seen s \<and> ls_id (pe_language e) = lp_id s
     \<and> (pe_confirming e \<longrightarrow> trim (pe_draft e) \<noteq> [] \<and> \<not> prefix_conflict e)
     \<and> (prefix_saving e \<longrightarrow> pe_confirming e)"

definition good_page :: "language_page \<Rightarrow> bool" where
  "good_page s \<longleftrightarrow> list_all (guarded_request s) (lp_sent s) \<and> pred_option (good_editor s) (lp_editor s)
     \<and> pred_option (\<lambda>ls. set ls \<subseteq> lp_seen s) (qr_data (lp_query s))"

lemmas prefix_defs = prefix_onKeyDown_def prefix_onChange_def restore_prefix_def prefix_blocker_def behind_def
  canSave_def prefix_conflict_def prefix_saving_def

lemma good_later:
  assumes "lp_id s' = lp_id s" and "lp_seen s \<subseteq> lp_seen s'"
  shows "guarded_request s r \<Longrightarrow> guarded_request s' r" and "good_editor s e \<Longrightarrow> good_editor s' e"
  using assms by (auto simp: guarded_request_def good_editor_def)

lemma good_open: "l \<in> lp_seen s \<Longrightarrow> ls_id l = lp_id s \<Longrightarrow> good_editor s (open_prefix l)"
  by (simp add: good_editor_def open_prefix_def prefix_saving_def)

lemma page_language_seen:
  "good_page s \<Longrightarrow> page_language s = Some l \<Longrightarrow> l \<in> lp_seen s \<and> ls_id l = lp_id s"
  by (auto simp: good_page_def page_language_def bind_eq_Some_conv find_Some_iff subset_iff)

lemma render_good: "good_page s \<Longrightarrow> good_page (render_page s)"
proof -
  assume good: "good_page s"
  have "pred_option (good_editor s) (lp_editor (render_page s))"
  proof (cases "page_language s")
    case (Some l)
    note l = page_language_seen [OF good Some]
    then have "good_editor s (e\<lparr>pe_language := l\<rparr>)" if "lp_editor s = Some e" for e
      using good that by (simp add: good_page_def good_editor_def prefix_conflict_def prefix_saving_def)
    then show ?thesis using good_open [of l s] l Some by (simp add: render_page_def split: option.split)
  qed (simp add: render_page_def)
  moreover have "lp_seen (render_page s) = lp_seen s" "lp_id (render_page s) = lp_id s"
      "lp_sent (render_page s) = lp_sent s" "lp_query (render_page s) = lp_query s"
    by (simp_all add: render_page_def)
  ultimately show ?thesis
    using good good_later [of "render_page s" s] by (simp add: good_page_def list_all_iff option.pred_set)
qed

lemma in_editor_good:
  assumes "good_page s" and "\<And>e. good_editor s e \<Longrightarrow> good_editor s (f e)"
  shows "good_page (in_editor f s)"
proof -
  have "good_editor (in_editor f s) e = good_editor s e" "guarded_request (in_editor f s) r = guarded_request s r" for e r
    by (simp_all add: in_editor_def good_editor_def guarded_request_def)
  then show ?thesis
    using assms by (auto simp: good_page_def in_editor_def option.pred_set list_all_iff)
qed

lemma confirm_good: "good_page s \<Longrightarrow> good_page (confirm_save s)"
  by (auto simp: good_page_def confirm_save_def good_editor_def guarded_request_def list_all_iff normalized_newline
      normalized_blank prefix_conflict_def prefix_saving_def split: option.split prefix_save.splits)

lemma put_saved_seen:
  "pred_option (\<lambda>ls. set ls \<subseteq> S) (qr_data q) \<Longrightarrow> pred_option (\<lambda>ls. set ls \<subseteq> insert x S) (qr_data (put_saved x q))"
  by (auto simp: put_saved_def split: option.split)

lemma save_answer_good:
  assumes "good_page s"
  shows "good_page (save_answer n r s)"
proof (cases "n \<in> set (lp_inflight s)")
  case True
  show ?thesis
  proof (cases r)
    case (Inl x)
    have eq: "save_answer n r s = in_editor (\<lambda>e. if pe_save e = PrefixSaving n then e\<lparr>pe_save := PrefixError x, pe_confirming := False\<rparr> else e)
        (s\<lparr>lp_inflight := removeAll n (lp_inflight s)\<rparr>)"
      using True Inl by (simp add: save_answer_def in_editor_def)
    have "good_page (s\<lparr>lp_inflight := removeAll n (lp_inflight s)\<rparr>)"
      using assms good_later [of "s\<lparr>lp_inflight := removeAll n (lp_inflight s)\<rparr>" s]
      by (simp add: good_page_def list_all_iff option.pred_set)
    then show ?thesis unfolding eq
      by (rule in_editor_good) (auto simp: good_editor_def prefix_saving_def)
  next
    case (Inr saved)
    let ?s = "s\<lparr>lp_inflight := removeAll n (lp_inflight s), lp_query := put_saved saved (lp_query s), lp_seen := insert saved (lp_seen s)\<rparr>"
    have eq: "save_answer n r s =
        in_editor (\<lambda>e. if pe_save e = PrefixSaving n then e\<lparr>pe_draft := ls_prefix saved, pe_save := PrefixIdle, pe_confirming := False\<rparr> else e) ?s"
      using True Inr by (simp add: save_answer_def in_editor_def)
    have "lp_seen s \<subseteq> lp_seen ?s" "lp_id ?s = lp_id s" by auto
    moreover have "pred_option (\<lambda>ls. set ls \<subseteq> insert saved (lp_seen s)) (qr_data (put_saved saved (lp_query s)))"
      using assms by (intro put_saved_seen) (simp add: good_page_def)
    ultimately have "good_page ?s"
      using assms good_later [of ?s s] by (simp add: good_page_def list_all_iff option.pred_set)
    then show ?thesis unfolding eq
      by (rule in_editor_good) (auto simp: good_editor_def prefix_saving_def)
  qed
qed (simp add: save_answer_def assms)

lemma languages_answer_good: "good_page s \<Longrightarrow> good_page (languages_answer r s)"
proof -
  assume good: "good_page s"
  have "lp_seen s \<subseteq> lp_seen (languages_answer r s)" "lp_id (languages_answer r s) = lp_id s"
      "lp_sent (languages_answer r s) = lp_sent s" "lp_editor (languages_answer r s) = lp_editor s"
    by (auto simp: languages_answer_def split: sum.split)
  moreover have "pred_option (\<lambda>ls. set ls \<subseteq> lp_seen (languages_answer r s)) (qr_data (lp_query (languages_answer r s)))"
    using good by (auto simp: good_page_def languages_answer_def split: sum.split)
  ultimately show ?thesis
    using good good_later [of "languages_answer r s" s] by (simp add: good_page_def list_all_iff option.pred_set)
qed

lemma left_good: "good_page s \<Longrightarrow> good_page (s\<lparr>lp_left := True\<rparr>)"
  using good_later [of "s\<lparr>lp_left := True\<rparr>" s] by (simp add: good_page_def list_all_iff option.pred_set)

lemma onChange_good: "good_editor s e \<Longrightarrow> \<not> pe_confirming e \<Longrightarrow> good_editor s (prefix_onChange v e)"
  by (auto simp: good_editor_def prefix_onChange_def prefix_saving_def split: prefix_save.splits)

lemma onKeyDown_good: "good_editor s e \<Longrightarrow> good_editor s (prefix_onKeyDown k e)"
  by (auto simp: good_editor_def prefix_onKeyDown_def canSave_def prefix_conflict_def prefix_saving_def)

lemma restore_good: "good_editor s e \<Longrightarrow> \<not> pe_confirming e \<Longrightarrow> good_editor s (restore_prefix e)"
  by (auto simp: good_editor_def restore_prefix_def prefix_saving_def)

lemma ask_good: "good_editor s e \<Longrightarrow> canSave e \<Longrightarrow> good_editor s (e\<lparr>pe_confirming := True\<rparr>)"
  by (simp add: good_editor_def canSave_def prefix_conflict_def prefix_saving_def)

lemma close_good: "good_editor s e \<Longrightarrow> \<not> prefix_saving e \<Longrightarrow> good_editor s (e\<lparr>pe_confirming := False\<rparr>)"
  by (simp add: good_editor_def prefix_saving_def)

lemma block_good: "good_editor s e \<Longrightarrow> good_editor s (e\<lparr>pe_blocked := b\<rparr>)"
  by (simp add: good_editor_def prefix_conflict_def prefix_saving_def)

lemma behind_good: "good_editor s e \<Longrightarrow> (\<not> pe_confirming e \<Longrightarrow> good_editor s (f e)) \<Longrightarrow> good_editor s (behind f e)"
  by (simp add: behind_def)

lemma language_step_good:
  assumes "good_page s"
  shows "good_page (language_step op s)"
proof (cases op)
  case (TypePrefix v)
  then show ?thesis using assms
    by (simp add: language_step_def in_editor_good behind_good onChange_good)
next
  case ClickSave
  then show ?thesis using assms
    by (simp add: language_step_def in_editor_good behind_good ask_good)
next
  case CloseConfirm
  then show ?thesis using assms by (simp add: language_step_def in_editor_good close_good)
next
  case RestorePrefix
  then show ?thesis using assms by (simp add: language_step_def in_editor_good behind_good restore_good)
next
  case (LeavePrefix a b)
  then show ?thesis using assms
    by (simp add: language_step_def in_editor_good prefix_blocker_def block_good left_good)
qed (simp_all add: language_step_def assms languages_answer_good confirm_good save_answer_good left_good
    in_editor_good onKeyDown_good block_good)

interpretation lp: kept_invariant "\<lambda>op. render_page \<circ> language_step op" good_page
  by unfold_locales (simp add: render_good language_step_good)

definition language_page_after :: "jsstr \<Rightarrow> prefix_op list \<Rightarrow> language_page" where
  "language_page_after i ops = language_run ops (open_language_page i)"

lemma language_run_good: "good_page (language_run ops (open_language_page i))"
  unfolding language_run_def
  by (rule lp.run_keeps) (simp add: good_page_def open_language_page_def)

lemma language_run_id: "lp_id (language_run ops s) = lp_id s"
proof -
  have "lp_id (render_page (language_step op s)) = lp_id s" for op s
    by (cases op) (simp_all add: render_page_def language_step_def languages_answer_def in_editor_def confirm_save_def
        save_answer_def Let_def split: sum.split option.split)
  then show ?thesis
    unfolding language_run_def by (induction ops arbitrary: s) simp_all
qed

text \<open>
  C25. Saving the prefix code is guarded: every request names the page's language and, as the version
  it replaces, one that the server has given out; its text is not blank and ends its last line. A save that
  fails leaves the draft as it was; after a conflict the editor sends nothing until the draft is given up.
\<close>

theorem prefix_saves_guarded:
  "(\<forall>r\<in>set (lp_sent (language_page_after i ops)). pr_id r = i \<and> last (pr_prefix r) = 10 \<and> trim (pr_prefix r) \<noteq> []
      \<and> (\<exists>l\<in>lp_seen (language_page_after i ops). ls_id l = i \<and> ls_updatedAt l = pr_expected r))
    \<and> map_option pe_draft (lp_editor (save_answer n (Inl x) (language_page_after i ops))) = map_option pe_draft (lp_editor (language_page_after i ops))
    \<and> (\<forall>e. lp_editor (language_page_after i ops) = Some e \<and> prefix_conflict e \<longrightarrow>
         confirm_save (language_page_after i ops) = language_page_after i ops \<and> \<not> canSave e \<and> prefix_onKeyDown k e = e
         \<and> prefix_conflict (prefix_onChange v e) \<and> pe_draft (restore_prefix e) = ls_prefix (pe_language e))"
proof -
  have good: "good_page (language_page_after i ops)" unfolding language_page_after_def by (rule language_run_good)
  have pid: "lp_id (language_page_after i ops) = i"
    unfolding language_page_after_def by (simp add: language_run_id open_language_page_def)
  have "confirm_save (language_page_after i ops) = language_page_after i ops" if "lp_editor (language_page_after i ops) = Some e" "prefix_conflict e" for e
    using good that by (simp add: good_page_def good_editor_def confirm_save_def)
  moreover have "prefix_conflict (prefix_onChange v e) \<and> \<not> canSave e \<and> prefix_onKeyDown k e = e
      \<and> pe_draft (restore_prefix e) = ls_prefix (pe_language e)" if "prefix_conflict e" for e
    using that by (auto simp: prefix_onChange_def prefix_conflict_def canSave_def prefix_onKeyDown_def restore_prefix_def
        split: prefix_save.splits thrown.splits)
  moreover have "map_option pe_draft (lp_editor (save_answer n (Inl x) (language_page_after i ops))) = map_option pe_draft (lp_editor (language_page_after i ops))"
    by (cases "lp_editor (language_page_after i ops)") (simp_all add: save_answer_def Let_def)
  moreover have "\<forall>r\<in>set (lp_sent (language_page_after i ops)). guarded_request (language_page_after i ops) r"
    using good by (simp add: good_page_def list_all_iff)
  ultimately show ?thesis by (simp add: guarded_request_def pid)
qed

text \<open>A page with an unsaved draft, from which a save is on its way.\<close>

definition demo_setting :: LanguageSetting where
  "demo_setting = \<lparr>ls_id = js ''cpp'', ls_displayName = js ''C'', ls_prefix = js ''a'' @ [10], ls_updatedAt = js ''1''\<rparr>"

definition demo_language :: language_page where
  "demo_language = language_run [LanguagesAnswer (Inr [demo_setting]), TypePrefix (js ''b''), ClickSave, ConfirmSave]
     (open_language_page (js ''cpp''))"

theorem prefix_saves_guarded_witness:
  "\<exists>r. lp_sent demo_language = [r] \<and> pr_id r = js ''cpp'' \<and> last (pr_prefix r) = 10"
proof -
  have "length (lp_sent demo_language) = 1" by code_simp
  then obtain r where "lp_sent demo_language = [r]" by (auto simp: length_Suc_conv)
  then show ?thesis
    using prefix_saves_guarded [of "js ''cpp''" "[LanguagesAnswer (Inr [demo_setting]), TypePrefix (js ''b''), ClickSave, ConfirmSave]"]
    unfolding language_page_after_def demo_language_def [symmetric] by simp
qed

text \<open>
  Leaving the page with an unsaved draft asks first, but the page itself drops the draft without a word:
  when the list of languages is read again in the background and that fails, the error takes the place
  of the editor, and the editor that comes back after the next success starts from the saved text; a
  newer version of the language replaces the editor in the same way.
\<close>

theorem background_read_drops_draft:
  assumes "lp_editor s = Some e" and "prefix_dirty e" and "a \<noteq> b" and "\<not> pe_blocked e"
    and "find (\<lambda>l. ls_id l = lp_id s) ls = Some l"
  shows "lp_left (language_step (LeavePrefix a b) s) = lp_left s
    \<and> lp_editor (language_step (LeavePrefix a b) s) = Some (e\<lparr>pe_blocked := True\<rparr>)
    \<and> lp_editor (language_run [LanguagesAnswer (Inl x)] s) = None
    \<and> lp_editor (language_run [LanguagesAnswer (Inl x), LanguagesAnswer (Inr ls)] s) = Some (open_prefix l)
    \<and> (ls_updatedAt l \<noteq> ls_updatedAt (pe_language e) \<longrightarrow>
         lp_editor (language_run [LanguagesAnswer (Inr ls)] s) = Some (open_prefix l))
    \<and> \<not> prefix_dirty (open_prefix l)"
  using assms
  by (simp add: language_step_def in_editor_def prefix_blocker_def language_run_def render_page_def languages_answer_def
      isPending_def isError_def page_language_def open_prefix_def prefix_dirty_def)

definition demo_typed_prefix :: language_page where
  "demo_typed_prefix = language_run [LanguagesAnswer (Inr [demo_setting]), TypePrefix (js ''b'')] (open_language_page (js ''cpp''))"

theorem background_read_drops_draft_witness:
  "\<exists>e. lp_editor demo_typed_prefix = Some e \<and> prefix_dirty e
     \<and> lp_editor (language_run [LanguagesAnswer (Inl (Exn None)), LanguagesAnswer (Inr [demo_setting])] demo_typed_prefix)
       = Some (open_prefix demo_setting)"
proof -
  have "(lp_editor demo_typed_prefix = None) = False" by code_simp
  then obtain e where e: "lp_editor demo_typed_prefix = Some e" by (cases "lp_editor demo_typed_prefix") auto
  have "prefix_dirty (the (lp_editor demo_typed_prefix)) = True" "pe_blocked (the (lp_editor demo_typed_prefix)) = False" by code_simp+
  then have "prefix_dirty e" "\<not> pe_blocked e" by (simp_all add: e)
  moreover have "find (\<lambda>l. ls_id l = lp_id demo_typed_prefix) [demo_setting] = Some demo_setting" by code_simp
  ultimately show ?thesis
    using background_read_drops_draft [OF e _ _ _, of "js ''a''" "js ''b''" "[demo_setting]" demo_setting "Exn None"] e by simp
qed

end
