(* ===== verification/Admin_Users.thy ===== *)
theory Admin_Users
  imports Admin_Languages
begin

text \<open>
  The accounts in the administration, \<open>features/admin-users/components/admin-users-page.tsx\<close>: the
  table, the dialog that creates an account, the one-time password, and the three mutations of the page.
  A mutation that has succeeded is pending until the list is read again.
\<close>

section \<open>Data\<close>

record UserAccountData =
  ua_id :: jsstr
  ua_username :: jsstr
  ua_admin :: bool
  ua_active :: bool
  ua_passwordChangeRequired :: bool
  ua_rowVersion :: int

record user_list =
  ul_items :: "UserAccountData list"
  ul_page :: int
  ul_totalPages :: int
  ul_totalElements :: int

definition PAGE_SIZE :: int where
  "PAGE_SIZE = 20"

datatype user_mutation = UserIdle | UserAsking | UserRefreshing | UserFailed thrown

definition user_pending :: "user_mutation \<Rightarrow> bool" where
  "user_pending m \<longleftrightarrow> m = UserAsking \<or> m = UserRefreshing"

definition user_error :: "user_mutation \<Rightarrow> thrown option" where
  "user_error m = (case m of UserFailed e \<Rightarrow> Some e | _ \<Rightarrow> None)"

datatype user_call = CallCreateUser jsstr | CallUserStatus jsstr bool int | CallPasswordReset jsstr int

definition perform_call :: "'w net \<Rightarrow> user_call \<Rightarrow> ('w, json) io" where
  "perform_call N c =
     (case c of
        CallCreateUser username \<Rightarrow> createUser N (JObj [(js ''username'', JStr username)])
      | CallUserStatus i next n \<Rightarrow> updateUserStatus N i
          (JObj [(js ''status'', JStr (if next then js ''ACTIVE'' else js ''DISABLED'')), (js ''rowVersion'', JNum (Fin (of_int n)))])
      | CallPasswordReset i n \<Rightarrow> resetUserPassword N i (row_version n))"

record users_page =
  au_page :: int
  au_query :: "user_list query"
  au_password :: "jsstr option"
  au_copied :: bool
  au_open :: bool
  au_username :: jsstr
  au_create :: user_mutation
  au_status :: user_mutation
  au_reset :: user_mutation
  au_sent :: "user_call list"
  au_seen :: "UserAccountData set"
  au_given :: "jsstr list"
  au_closed :: "jsstr list"

definition open_users :: "int \<Rightarrow> users_page" where
  "open_users p =
     \<lparr>au_page = p, au_query = \<lparr>qr_data = None, qr_error = None\<rparr>, au_password = None, au_copied = False, au_open = False,
      au_username = [], au_create = UserIdle, au_status = UserIdle, au_reset = UserIdle, au_sent = [], au_seen = {},
      au_given = [], au_closed = []\<rparr>"

section \<open>What the page shows\<close>

datatype role_label = Administrator | OrdinaryUser

definition roleLabel :: "UserAccountData \<Rightarrow> role_label" where
  "roleLabel u = (if ua_admin u then Administrator else OrdinaryUser)"

definition UserAvatar :: "UserAccountData \<Rightarrow> jsstr" where
  "UserAvatar u = take 1 (ua_username u)"

definition mutationError :: "users_page \<Rightarrow> thrown option" where
  "mutationError s =
     (case user_error (au_create s) of
        Some e \<Rightarrow> Some e
      | None \<Rightarrow> (case user_error (au_status s) of Some e \<Rightarrow> Some e | None \<Rightarrow> user_error (au_reset s)))"

definition unauthenticated :: "users_page \<Rightarrow> bool" where
  "unauthenticated s \<longleftrightarrow>
     list_ex (\<lambda>error. case error of Some e \<Rightarrow> with_status 401 e | None \<Rightarrow> False) [qr_error (au_query s), mutationError s]"

text \<open>The effect: the session is forgotten and the login page opens with the way back.\<close>

definition users_redirect :: "users_page \<Rightarrow> jsstr option" where
  "users_redirect s = (if unauthenticated s then Some (js ''/admin/users?page='' @ int_text (au_page s)) else None)"

definition user_items :: "users_page \<Rightarrow> UserAccountData list" where
  "user_items s = (case qr_data (au_query s) of Some d \<Rightarrow> ul_items d | None \<Rightarrow> [])"

datatype user_group = ActiveUsers | DisabledUsers

definition user_groups :: "users_page \<Rightarrow> (user_group \<times> UserAccountData list) list" where
  "user_groups s = filter (\<lambda>(k, rows). rows \<noteq> [])
     [(ActiveUsers, filter ua_active (user_items s)), (DisabledUsers, filter (\<lambda>u. \<not> ua_active u) (user_items s))]"

datatype users_table = UsersLoading | UsersError auth_text | UsersEmpty | UsersTable "(user_group \<times> UserAccountData list) list"

definition AdminUsersPage :: "users_page \<Rightarrow> users_table" where
  "AdminUsersPage s =
     (if isPending (au_query s) then UsersLoading
      else case qr_error (au_query s) of
          Some e \<Rightarrow> UsersError (authErrorMessage e)
        | None \<Rightarrow> if user_items s = [] then UsersEmpty else UsersTable (user_groups s))"

definition users_notice :: "users_page \<Rightarrow> auth_text option" where
  "users_notice s = map_option authErrorMessage (mutationError s)"

record row_actions =
  ra_disabled :: bool
  ra_danger :: bool

definition UserRowActions :: "users_page \<Rightarrow> UserAccountData \<Rightarrow> row_actions" where
  "UserRowActions s u = \<lparr>ra_disabled = (user_pending (au_status s) \<or> user_pending (au_reset s)), ra_danger = ua_active u\<rparr>"

text \<open>The cells of a row.\<close>

record user_row =
  ur_avatar :: jsstr
  ur_name :: jsstr
  ur_role :: role_label
  ur_firstLogin :: bool
  ur_active :: bool
  ur_actions :: row_actions

definition user_row :: "users_page \<Rightarrow> UserAccountData \<Rightarrow> user_row" where
  "user_row s u = \<lparr>ur_avatar = UserAvatar u, ur_name = ua_username u, ur_role = roleLabel u,
     ur_firstLogin = ua_passwordChangeRequired u, ur_active = ua_active u, ur_actions = UserRowActions s u\<rparr>"

text \<open>Page and pages, and the buttons to the previous and the next page; none for a single page.\<close>

definition users_pagination :: "users_page \<Rightarrow> (int \<times> int \<times> int option \<times> int option) option" where
  "users_pagination s =
     (case qr_data (au_query s) of
        Some d \<Rightarrow>
          if ul_totalPages d > 1
          then Some (ul_page d, ul_totalPages d, if au_page s \<le> 1 then None else Some (au_page s - 1),
                 if au_page s \<ge> ul_totalPages d then None else Some (au_page s + 1))
          else None
      | None \<Rightarrow> None)"

section \<open>Handlers\<close>

text \<open>
  What the browser requires of a required input with \<open>minLength\<close> 3 and \<open>maxLength\<close> 64 before it submits the
  form. The input has a \<open>pattern\<close> too, \<open>[A-Za-z0-9][A-Za-z0-9._-]{2,63}\<close>, but a pattern is compiled with the
  \<open>v\<close> flag, where a hyphen at the end of a class is a syntax error, and a pattern that does not compile is
  ignored.
\<close>

definition username_valid :: "jsstr \<Rightarrow> bool" where
  "username_valid v \<longleftrightarrow> v \<noteq> [] \<and> 3 \<le> length v \<and> length v \<le> 64"

text \<open>The dialogs are modal, and the password stands over the creation dialog.\<close>

definition create_reachable :: "users_page \<Rightarrow> bool" where
  "create_reachable s \<longleftrightarrow> au_open s \<and> au_password s = None"

definition submit_user :: "users_page \<Rightarrow> users_page" where
  "submit_user s =
     (if \<not> create_reachable s \<or> \<not> username_valid (au_username s) \<or> user_pending (au_create s) then s
      else s\<lparr>au_create := UserAsking, au_sent := au_sent s @ [CallCreateUser (au_username s)]\<rparr>)"

text \<open>A row can be clicked while it is shown, no dialog is over it and its menu is not disabled; then
  \<open>window.confirm\<close> asks.\<close>

definition row_clickable :: "users_page \<Rightarrow> UserAccountData \<Rightarrow> bool" where
  "row_clickable s u \<longleftrightarrow> \<not> isError (au_query s) \<and> u \<in> set (user_items s) \<and> \<not> ra_disabled (UserRowActions s u)
     \<and> \<not> au_open s \<and> au_password s = None"

definition toggleStatus :: "UserAccountData \<Rightarrow> bool \<Rightarrow> users_page \<Rightarrow> users_page" where
  "toggleStatus u confirmed s =
     (if row_clickable s u \<and> confirmed
      then s\<lparr>au_status := UserAsking, au_sent := au_sent s @ [CallUserStatus (ua_id u) (\<not> ua_active u) (ua_rowVersion u)]\<rparr>
      else s)"

definition resetPassword :: "UserAccountData \<Rightarrow> bool \<Rightarrow> users_page \<Rightarrow> users_page" where
  "resetPassword u confirmed s =
     (if row_clickable s u \<and> confirmed
      then s\<lparr>au_reset := UserAsking, au_sent := au_sent s @ [CallPasswordReset (ua_id u) (ua_rowVersion u)]\<rparr>
      else s)"

text \<open>The answers; \<open>onSuccess\<close> shows the password and waits for the list.\<close>

definition give_password :: "jsstr \<Rightarrow> users_page \<Rightarrow> users_page" where
  "give_password p s = s\<lparr>au_password := Some p, au_given := au_given s @ [p]\<rparr>"

definition create_answer :: "thrown + jsstr \<Rightarrow> users_page \<Rightarrow> users_page" where
  "create_answer r s =
     (if au_create s \<noteq> UserAsking then s
      else case r of Inl e \<Rightarrow> s\<lparr>au_create := UserFailed e\<rparr> | Inr p \<Rightarrow> give_password p (s\<lparr>au_create := UserRefreshing\<rparr>))"

definition status_answer :: "thrown option \<Rightarrow> users_page \<Rightarrow> users_page" where
  "status_answer r s =
     (if au_status s \<noteq> UserAsking then s
      else s\<lparr>au_status := (case r of Some e \<Rightarrow> UserFailed e | None \<Rightarrow> UserRefreshing)\<rparr>)"

definition reset_answer :: "thrown + jsstr \<Rightarrow> users_page \<Rightarrow> users_page" where
  "reset_answer r s =
     (if au_reset s \<noteq> UserAsking then s
      else case r of Inl e \<Rightarrow> s\<lparr>au_reset := UserFailed e\<rparr> | Inr p \<Rightarrow> give_password p (s\<lparr>au_reset := UserRefreshing\<rparr>))"

text \<open>The list was read again after a success: the mutation is over; the creation dialog closes.\<close>

datatype which_mutation = TheCreate | TheStatus | TheReset

definition refreshed :: "which_mutation \<Rightarrow> users_page \<Rightarrow> users_page" where
  "refreshed w s =
     (case w of
        TheCreate \<Rightarrow> if au_create s = UserRefreshing then s\<lparr>au_create := UserIdle, au_username := [], au_open := False\<rparr> else s
      | TheStatus \<Rightarrow> if au_status s = UserRefreshing then s\<lparr>au_status := UserIdle\<rparr> else s
      | TheReset \<Rightarrow> if au_reset s = UserRefreshing then s\<lparr>au_reset := UserIdle\<rparr> else s)"

text \<open>An answer of the list query, and another page: its rows are the cached ones or, until they
  come, those of the page before (\<open>keepPreviousData\<close>).\<close>

definition users_answer :: "thrown + user_list \<Rightarrow> users_page \<Rightarrow> users_page" where
  "users_answer r s =
     (case r of
        Inl e \<Rightarrow> s\<lparr>au_query := (au_query s)\<lparr>qr_error := Some e\<rparr>\<rparr>
      | Inr d \<Rightarrow> s\<lparr>au_query := \<lparr>qr_data = Some d, qr_error = None\<rparr>, au_seen := au_seen s \<union> set (ul_items d)\<rparr>)"

definition to_page :: "int \<Rightarrow> users_page \<Rightarrow> users_page" where
  "to_page p s = s\<lparr>au_page := p, au_query := (au_query s)\<lparr>qr_error := None\<rparr>\<rparr>"

text \<open>\<open>TemporaryPasswordDialog\<close>: the copy is confirmed when the clipboard has answered.\<close>

definition close_password :: "users_page \<Rightarrow> users_page" where
  "close_password s =
     (case au_password s of
        Some p \<Rightarrow> s\<lparr>au_copied := False, au_password := None, au_closed := au_closed s @ [p]\<rparr> | None \<Rightarrow> s)"

definition copy_ends :: "bool \<Rightarrow> users_page \<Rightarrow> users_page" where
  "copy_ends ok s = s\<lparr>au_copied := ok\<rparr>"

datatype users_op =
    UsersAnswer "thrown + user_list" | ToPage int | OpenCreate bool | TypeUsername jsstr | SubmitUser
  | ToggleStatus UserAccountData bool | ResetPassword UserAccountData bool | CreateAnswer "thrown + jsstr"
  | StatusAnswer "thrown option" | ResetAnswer "thrown + jsstr" | Refreshed which_mutation | ClosePassword | CopyEnds bool

definition users_step :: "users_op \<Rightarrow> users_page \<Rightarrow> users_page" where
  "users_step op s =
     (case op of
        UsersAnswer r \<Rightarrow> users_answer r s
      | ToPage p \<Rightarrow> to_page p s
      | OpenCreate b \<Rightarrow> if user_pending (au_create s) \<or> au_password s \<noteq> None then s else s\<lparr>au_open := b\<rparr>
      | TypeUsername v \<Rightarrow> if create_reachable s then s\<lparr>au_username := v\<rparr> else s
      | SubmitUser \<Rightarrow> submit_user s
      | ToggleStatus u c \<Rightarrow> toggleStatus u c s
      | ResetPassword u c \<Rightarrow> resetPassword u c s
      | CreateAnswer r \<Rightarrow> create_answer r s
      | StatusAnswer r \<Rightarrow> status_answer r s
      | ResetAnswer r \<Rightarrow> reset_answer r s
      | Refreshed w \<Rightarrow> refreshed w s
      | ClosePassword \<Rightarrow> close_password s
      | CopyEnds ok \<Rightarrow> copy_ends ok s)"

lemmas users_defs = users_step_def users_answer_def to_page_def submit_user_def toggleStatus_def resetPassword_def
  create_answer_def status_answer_def reset_answer_def refreshed_def close_password_def copy_ends_def give_password_def

section \<open>Facts\<close>

definition good_call :: "UserAccountData set \<Rightarrow> user_call \<Rightarrow> bool" where
  "good_call seen c =
     (case c of
        CallCreateUser v \<Rightarrow> username_valid v
      | CallUserStatus i next n \<Rightarrow> (\<exists>u\<in>seen. ua_id u = i \<and> ua_rowVersion u = n \<and> next = (\<not> ua_active u))
      | CallPasswordReset i n \<Rightarrow> (\<exists>u\<in>seen. ua_id u = i \<and> ua_rowVersion u = n))"

definition good_users :: "users_page \<Rightarrow> bool" where
  "good_users s \<longleftrightarrow> list_all (good_call (au_seen s)) (au_sent s) \<and> set (user_items s) \<subseteq> au_seen s
     \<and> \<not> (user_pending (au_status s) \<and> user_pending (au_reset s))
     \<and> (user_pending (au_create s) \<longrightarrow> au_open s)"

lemma good_call_mono: "good_call S c \<Longrightarrow> S \<subseteq> T \<Longrightarrow> good_call T c"
  by (auto simp: good_call_def split: user_call.splits)

lemma users_step_good:
  assumes "good_users s"
  shows "good_users (users_step op s)"
proof (cases op)
  case (UsersAnswer r)
  have "list_all (good_call (au_seen s \<union> T)) (au_sent s)" for T
    using assms by (auto simp: good_users_def list_all_iff intro: good_call_mono)
  then show ?thesis using assms UsersAnswer
    by (cases r) (auto simp: users_defs good_users_def user_items_def)
next
  case (ToggleStatus u c)
  then show ?thesis using assms
    by (auto simp: users_defs good_users_def user_items_def row_clickable_def UserRowActions_def good_call_def user_pending_def)
next
  case (ResetPassword u c)
  then show ?thesis using assms
    by (auto simp: users_defs good_users_def user_items_def row_clickable_def UserRowActions_def good_call_def user_pending_def)
next
  case SubmitUser
  then show ?thesis using assms
    by (auto simp: users_defs create_reachable_def good_users_def user_items_def good_call_def user_pending_def)
next
  case (CreateAnswer r)
  then show ?thesis using assms
    by (cases r) (auto simp: users_defs good_users_def user_items_def user_pending_def)
next
  case (ResetAnswer r)
  then show ?thesis using assms
    by (cases r) (auto simp: users_defs good_users_def user_items_def user_pending_def)
next
  case (StatusAnswer r)
  then show ?thesis using assms
    by (cases r) (auto simp: users_defs good_users_def user_items_def user_pending_def)
next
  case (Refreshed w)
  then show ?thesis using assms
    by (cases w) (auto simp: users_defs good_users_def user_items_def user_pending_def)
qed (use assms in \<open>auto simp: users_defs good_users_def user_items_def split: option.split\<close>)

interpretation au: kept_invariant users_step good_users
  by unfold_locales (rule users_step_good)

definition users_after :: "int \<Rightarrow> users_op list \<Rightarrow> users_page" where
  "users_after p ops = fold users_step ops (open_users p)"

text \<open>A name is asked for only when it stood in the field of the dialog.\<close>

lemma typed_names:
  "(au_username (users_after p ops) = [] \<or> TypeUsername (au_username (users_after p ops)) \<in> set ops)
   \<and> (\<forall>v. CallCreateUser v \<in> set (au_sent (users_after p ops)) \<longrightarrow> TypeUsername v \<in> set ops)"
proof (induction ops rule: rev_induct)
  case Nil
  then show ?case by (simp add: users_after_def open_users_def)
next
  case (snoc op ops)
  let ?s = "users_after p ops"
  have "users_after p (ops @ [op]) = users_step op ?s" by (simp add: users_after_def)
  moreover have "au_username (users_step op ?s) \<in> {[], au_username ?s} \<or> op = TypeUsername (au_username (users_step op ?s))"
    by (cases op) (auto simp: users_defs split: option.split sum.split which_mutation.split)
  moreover have "CallCreateUser v \<in> set (au_sent ?s) \<or> v = au_username ?s \<and> v \<noteq> []"
    if "CallCreateUser v \<in> set (au_sent (users_step op ?s))" for v
    using that by (cases op) (auto simp: users_defs username_valid_def split: option.splits sum.splits which_mutation.splits if_splits)
  ultimately show ?case using snoc.IH by auto
qed

text \<open>
  C26. What the page asks of the server is what the administrator saw and typed: a status change asks for the
  opposite of the status of a row the server has given out and a password reset for such a row, both with
  that row's version, so that a row changed meanwhile is refused; the name of an account to create was typed
  into the dialog and has 3 to 64 code units. A status change and a reset are never under way together, and a
  creation keeps its dialog open.
\<close>

theorem user_requests_as_shown:
  "(\<forall>c\<in>set (au_sent (users_after p ops)). case c of
        CallCreateUser v \<Rightarrow> TypeUsername v \<in> set ops \<and> 3 \<le> length v \<and> length v \<le> 64
      | CallUserStatus i next n \<Rightarrow> (\<exists>u\<in>au_seen (users_after p ops). ua_id u = i \<and> ua_rowVersion u = n \<and> next = (\<not> ua_active u))
      | CallPasswordReset i n \<Rightarrow> (\<exists>u\<in>au_seen (users_after p ops). ua_id u = i \<and> ua_rowVersion u = n))
    \<and> \<not> (user_pending (au_status (users_after p ops)) \<and> user_pending (au_reset (users_after p ops))) \<and> (user_pending (au_create (users_after p ops)) \<longrightarrow> au_open (users_after p ops))"
proof -
  have good: "good_users (users_after p ops)"
    unfolding users_after_def by (rule au.run_keeps) (simp add: good_users_def open_users_def user_items_def user_pending_def)
  have "case c of
        CallCreateUser v \<Rightarrow> TypeUsername v \<in> set ops \<and> 3 \<le> length v \<and> length v \<le> 64
      | CallUserStatus i next n \<Rightarrow> (\<exists>u\<in>au_seen (users_after p ops). ua_id u = i \<and> ua_rowVersion u = n \<and> next = (\<not> ua_active u))
      | CallPasswordReset i n \<Rightarrow> (\<exists>u\<in>au_seen (users_after p ops). ua_id u = i \<and> ua_rowVersion u = n)"
    if "c \<in> set (au_sent (users_after p ops))" for c
  proof -
    have "good_call (au_seen (users_after p ops)) c" using good that by (simp add: good_users_def list_all_iff)
    then show ?thesis using that typed_names [of p ops] by (cases c) (auto simp: good_call_def username_valid_def)
  qed
  then show ?thesis using good unfolding good_users_def by blast
qed

text \<open>The form sends names that the server and the session schema refuse.\<close>

lemma refused_name_sent:
  "au_sent (users_after 1 [OpenCreate True, TypeUsername (js ''a b c''), SubmitUser]) = [CallCreateUser (js ''a b c'')]
   \<and> \<not> username_regex (js ''a b c'')"
  by (rule conjI; code_simp)

definition demo_user :: UserAccountData where
  "demo_user = \<lparr>ua_id = js ''u'', ua_username = js ''ann'', ua_admin = False, ua_active = True,
     ua_passwordChangeRequired = False, ua_rowVersion = 7\<rparr>"

definition demo_list :: user_list where
  "demo_list = \<lparr>ul_items = [demo_user], ul_page = 1, ul_totalPages = 1, ul_totalElements = 1\<rparr>"

theorem user_requests_as_shown_witness:
  "au_sent (users_after 1 [UsersAnswer (Inr demo_list), ToggleStatus demo_user True]) = [CallUserStatus (js ''u'') False 7]
   \<and> (\<exists>u\<in>au_seen (users_after 1 [UsersAnswer (Inr demo_list), ToggleStatus demo_user True]).
        ua_id u = js ''u'' \<and> ua_rowVersion u = 7 \<and> ua_active u)"
proof -
  have "au_sent (users_after 1 [UsersAnswer (Inr demo_list), ToggleStatus demo_user True]) = [CallUserStatus (js ''u'') False 7]"
    by code_simp
  then show ?thesis
    using user_requests_as_shown [of 1 "[UsersAnswer (Inr demo_list), ToggleStatus demo_user True]"] by simp
qed

definition overlapping :: "jsstr \<Rightarrow> jsstr \<Rightarrow> users_op list" where
  "overlapping p q =
     [UsersAnswer (Inr demo_list), ResetPassword demo_user True, OpenCreate True, TypeUsername (js ''bob''), SubmitUser,
      ResetAnswer (Inr p), CreateAnswer (Inr q)]"

text \<open>
  The one-time password stays on the page until the administrator closes it, whatever else
  happens, with one exception: the page has one place for it, so when a reset and a creation are under way
  together the password that comes second replaces the first, which nobody has closed and the server
  shows no more.
\<close>

lemma password_shown_until_closed:
  "((\<forall>q. op \<noteq> CreateAnswer (Inr q) \<and> op \<noteq> ResetAnswer (Inr q)) \<and> op \<noteq> ClosePassword \<longrightarrow>
       au_password (users_step op s) = au_password s)
   \<and> (\<forall>q. au_create s = UserAsking \<longrightarrow> au_password (users_step (CreateAnswer (Inr q)) s) = Some q)
   \<and> (let t = users_after 1 (overlapping p q)
      in au_given t = [p, q] \<and> au_closed t = [] \<and> au_password t = Some q)"
proof (intro conjI)
  have "username_valid (js ''bob'')" by code_simp
  then show "let t = users_after 1 (overlapping p q)
      in au_given t = [p, q] \<and> au_closed t = [] \<and> au_password t = Some q"
    by (simp add: users_after_def overlapping_def users_defs open_users_def row_clickable_def isError_def user_items_def demo_list_def
        UserRowActions_def user_pending_def create_reachable_def del: js_Cons)
  show "(\<forall>q. op \<noteq> CreateAnswer (Inr q) \<and> op \<noteq> ResetAnswer (Inr q)) \<and> op \<noteq> ClosePassword \<longrightarrow>
       au_password (users_step op s) = au_password s"
    by (cases op) (auto simp: users_defs split: sum.split option.split which_mutation.split)
  show "\<forall>q. au_create s = UserAsking \<longrightarrow> au_password (users_step (CreateAnswer (Inr q)) s) = Some q"
    by (simp add: users_defs)
qed

text \<open>
  An administrator who was signed out is led to the login page when the list or a mutation is
  answered with 401, unless an older error is still on the page: the page looks at the first error of
  creation, status change and reset only, so after a creation that failed for another reason the 401 of a
  status change is neither acted upon nor shown, and neither is that of a reset after a failed status change.
\<close>

theorem sign_out_noticed_unless_masked:
  "(qr_error (au_query s) = Some e \<and> with_status 401 e \<longrightarrow> users_redirect s \<noteq> None)
   \<and> (au_create s = UserFailed e \<and> with_status 401 e \<longrightarrow> users_redirect s \<noteq> None)
   \<and> (au_create s = UserFailed e' \<and> \<not> with_status 401 e' \<and> au_status s = UserAsking \<and> qr_error (au_query s) = None \<longrightarrow>
        users_redirect (status_answer (Some e) s) = None \<and> users_notice (status_answer (Some e) s) = Some (authErrorMessage e'))
   \<and> (user_error (au_create s) = None \<and> au_status s = UserAsking \<and> with_status 401 e \<longrightarrow>
        users_redirect (status_answer (Some e) s) = Some (js ''/admin/users?page='' @ int_text (au_page s)))"
  by (auto simp: users_redirect_def unauthenticated_def mutationError_def status_answer_def users_notice_def user_error_def
      split: option.splits user_mutation.splits)

definition refused :: "int \<Rightarrow> thrown" where
  "refused n = Api ((plain_error (Other 0) Http)\<lparr>err_status := Some n\<rparr>)"

definition signed_out :: users_page where
  "signed_out = (open_users 1)\<lparr>au_create := UserFailed (refused 409), au_status := UserAsking\<rparr>"

theorem sign_out_noticed_unless_masked_witness:
  "with_status 401 (refused 401) \<and> users_redirect (status_answer (Some (refused 401)) signed_out) = None"
  using sign_out_noticed_unless_masked [of signed_out "refused 401" "refused 409"]
  by (simp add: signed_out_def open_users_def with_status_def refused_def plain_error_def)

end
