(* ===== verification/Admin_Forms.thy ===== *)
theory Admin_Forms
  imports Editor_Properties Auth
begin

text \<open>
  Two forms of the problem administration: the tags of a problem in
  \<open>features/problems/components/problem-tag-property.tsx\<close> and the dialog that creates a problem in
  \<open>admin-problem-create-dialog.tsx\<close>. The theorems say that the tags shown are the tags a save sends,
  and that the dialog sends nothing but well-formed problems, one at a time.
\<close>

section \<open>Tags\<close>

datatype tag_message = TagLong | TagKnown | TagsFull

record tag_property =
  tags :: "jsstr list"
  tag_draft :: jsstr
  tag_message :: "tag_message option"

definition addDraft :: "tag_property \<Rightarrow> tag_property" where
  "addDraft s =
     (let tag = trim (tag_draft s) in
      if tag = [] then s
      else if length tag > 32 then s\<lparr>tag_message := Some TagLong\<rparr>
      else if tag \<in> set (tags s) then s\<lparr>tag_message := Some TagKnown\<rparr>
      else if length (tags s) \<ge> 20 then s\<lparr>tag_message := Some TagsFull\<rparr>
      else s\<lparr>tags := tags s @ [tag], tag_draft := [], tag_message := None\<rparr>)"

text \<open>The keys are named as the event names them; the third one adds a tag too, it is the full-width comma.\<close>

definition onKeyDown :: "bool \<Rightarrow> jsstr \<Rightarrow> tag_property \<Rightarrow> tag_property" where
  "onKeyDown composing key s =
     (if composing then s
      else if key = js ''Enter'' \<or> key = js '','' \<or> key = [0xFF0C] then addDraft s
      else if key = js ''Backspace'' \<and> tag_draft s = [] \<and> tags s \<noteq> [] then s\<lparr>tags := butlast (tags s)\<rparr>
      else s)"

definition remove_tag :: "jsstr \<Rightarrow> tag_property \<Rightarrow> tag_property" where
  "remove_tag t s = s\<lparr>tags := filter (\<lambda>x. x \<noteq> t) (tags s)\<rparr>"

definition close_tags :: "tag_property \<Rightarrow> tag_property" where
  "close_tags s = (addDraft s)\<lparr>tag_message := None\<rparr>"

definition type_tag :: "jsstr \<Rightarrow> tag_property \<Rightarrow> tag_property" where
  "type_tag v s = s\<lparr>tag_draft := v, tag_message := None\<rparr>"

datatype tag_op = TypeTag jsstr | TagKey bool jsstr | RemoveTag jsstr | OpenTags bool

text \<open>While the property is disabled neither the buttons nor the input are on the page.\<close>

definition ProblemTagProperty :: "bool \<times> tag_op \<Rightarrow> tag_property \<Rightarrow> tag_property" where
  "ProblemTagProperty = (\<lambda>(disabled, op) s.
     if disabled then s
     else case op of
         TypeTag v \<Rightarrow> type_tag v s
       | TagKey composing key \<Rightarrow> onKeyDown composing key s
       | RemoveTag t \<Rightarrow> remove_tag t s
       | OpenTags opened \<Rightarrow> if opened then s else close_tags s)"

definition good_tag :: "jsstr \<Rightarrow> bool" where
  "good_tag t \<longleftrightarrow> t \<noteq> [] \<and> trim t = t \<and> length t \<le> 32"

definition good_tags :: "jsstr list \<Rightarrow> bool" where
  "good_tags ts \<longleftrightarrow> distinct ts \<and> list_all good_tag ts \<and> length ts \<le> 20"

section \<open>The creation dialog\<close>

record CreateValues =
  nv_slug :: jsstr
  nv_title :: jsstr
  nv_difficulty :: difficulty_level
  nv_core :: bool
  nv_languageId :: jsstr

definition create_defaults :: CreateValues where
  "create_defaults = \<lparr>nv_slug = [], nv_title = [], nv_difficulty = UNRATED, nv_core = False, nv_languageId = []\<rparr>"

text \<open>\<open>/^[a-z0-9]+(?:-[a-z0-9]+)*$/\<close>: the pieces between the hyphens are not empty.\<close>

definition slugPattern :: "jsstr \<Rightarrow> bool" where
  "slugPattern s \<longleftrightarrow> list_all (\<lambda>p. p \<noteq> [] \<and> list_all (\<lambda>c. is_lower c \<or> is_digit c) p) (split_on 45 s)"

datatype create_error =
    TitleMissing | TitleLong | SlugMissing | SlugBad | SlugTaken | LanguageMissing
  | CreateFailed "jsstr option" "jsstr option"

record create_errors =
  ce_slug :: "create_error option"
  ce_title :: "create_error option"
  ce_form :: "create_error option"

definition no_errors :: create_errors where
  "no_errors = \<lparr>ce_slug = None, ce_title = None, ce_form = None\<rparr>"

definition createErrorMessage :: "thrown \<Rightarrow> create_error" where
  "createErrorMessage e =
     (case e of
        Exn _ \<Rightarrow> CreateFailed None None
      | Api a \<Rightarrow> if err_status a = Some 409 then SlugTaken
                else CreateFailed (Option.bind (err_problem a) (\<lambda>p. as_text (jget (js ''detail'') p))) (error_id e))"

definition slugErrorMessage :: "thrown \<Rightarrow> create_error option" where
  "slugErrorMessage e = (if with_status 409 e then Some SlugTaken else None)"

record create_dialog =
  nd_open :: bool
  nd_values :: CreateValues
  nd_errors :: create_errors
  nd_creating :: bool
  nd_sent :: "CreateValues list"

definition closed_dialog :: create_dialog where
  "closed_dialog = \<lparr>nd_open = False, nd_values = create_defaults, nd_errors = no_errors, nd_creating = False, nd_sent = []\<rparr>"

definition nextErrors :: "CreateValues \<Rightarrow> create_errors" where
  "nextErrors v =
     (let title = trim (nv_title v); slug = trim (nv_slug v) in
      \<lparr>ce_slug = (if slug = [] then Some SlugMissing
                  else if length slug < 3 \<or> length slug > 80 \<or> \<not> slugPattern slug then Some SlugBad else None),
       ce_title = (if title = [] then Some TitleMissing else if length title > 160 then Some TitleLong else None),
       ce_form = (if nv_languageId v = [] then Some LanguageMissing else None)\<rparr>)"

text \<open>\<open>onSubmit\<close> up to its \<open>await\<close>; the form library does not start it while one is running.\<close>

definition create_onSubmit :: "create_dialog \<Rightarrow> create_dialog" where
  "create_onSubmit d =
     (if nd_creating d then d
      else if nextErrors (nd_values d) \<noteq> no_errors then d\<lparr>nd_errors := nextErrors (nd_values d)\<rparr>
      else d\<lparr>nd_creating := True, nd_sent := nd_sent d @
             [(nd_values d)\<lparr>nv_title := trim (nv_title (nd_values d)), nv_slug := trim (nv_slug (nd_values d))\<rparr>]\<rparr>)"

definition create_ends :: "thrown option \<Rightarrow> create_dialog \<Rightarrow> create_dialog" where
  "create_ends r d =
     (if \<not> nd_creating d then d
      else case r of
          None \<Rightarrow> d\<lparr>nd_creating := False, nd_values := create_defaults, nd_errors := no_errors, nd_open := False\<rparr>
        | Some e \<Rightarrow> d\<lparr>nd_creating := False, nd_errors :=
              (case slugErrorMessage e of
                 Some m \<Rightarrow> no_errors\<lparr>ce_slug := Some m\<rparr> | None \<Rightarrow> no_errors\<lparr>ce_form := Some (createErrorMessage e)\<rparr>)\<rparr>)"

definition onOpenChange :: "bool \<Rightarrow> create_dialog \<Rightarrow> create_dialog" where
  "onOpenChange nextOpen d =
     (if \<not> nextOpen \<and> nd_creating d then d
      else if nextOpen then d\<lparr>nd_open := True\<rparr>
      else d\<lparr>nd_open := False, nd_values := create_defaults, nd_errors := no_errors\<rparr>)"

definition type_title :: "jsstr \<Rightarrow> create_dialog \<Rightarrow> create_dialog" where
  "type_title v d = d\<lparr>nd_values := (nd_values d)\<lparr>nv_title := v\<rparr>, nd_errors := (nd_errors d)\<lparr>ce_title := None, ce_form := None\<rparr>\<rparr>"

definition type_slug :: "(jsstr \<Rightarrow> jsstr) \<Rightarrow> jsstr \<Rightarrow> create_dialog \<Rightarrow> create_dialog" where
  "type_slug toLowerCase v d =
     d\<lparr>nd_values := (nd_values d)\<lparr>nv_slug := toLowerCase v\<rparr>, nd_errors := (nd_errors d)\<lparr>ce_slug := None, ce_form := None\<rparr>\<rparr>"

text \<open>The language can be chosen once the list of languages is there, and only from it.\<close>

definition choose_language :: "(jsstr \<times> jsstr) list option \<Rightarrow> jsstr \<Rightarrow> create_dialog \<Rightarrow> create_dialog" where
  "choose_language languages v d =
     (case languages of
        None \<Rightarrow> d
      | Some ls \<Rightarrow> if v \<in> set (map fst ls)
          then d\<lparr>nd_values := (nd_values d)\<lparr>nv_languageId := v\<rparr>, nd_errors := (nd_errors d)\<lparr>ce_form := None\<rparr>\<rparr> else d)"

datatype create_op =
    OpenDialog bool | TypeTitle jsstr | TypeSlug jsstr | ChooseDifficulty difficulty_level
  | ChooseLanguage "(jsstr \<times> jsstr) list option" jsstr | ChooseMode bool | SubmitDialog | CreateEnds "thrown option"

definition AdminProblemCreateDialog :: "(jsstr \<Rightarrow> jsstr) \<Rightarrow> create_op \<Rightarrow> create_dialog \<Rightarrow> create_dialog" where
  "AdminProblemCreateDialog toLowerCase op d =
     (case op of
        OpenDialog b \<Rightarrow> onOpenChange b d
      | CreateEnds r \<Rightarrow> create_ends r d
      | _ \<Rightarrow>
          if \<not> nd_open d then d
          else case op of
              TypeTitle v \<Rightarrow> type_title v d
            | TypeSlug v \<Rightarrow> type_slug toLowerCase v d
            | ChooseDifficulty v \<Rightarrow> d\<lparr>nd_values := (nd_values d)\<lparr>nv_difficulty := v\<rparr>\<rparr>
            | ChooseLanguage ls v \<Rightarrow> choose_language ls v d
            | ChooseMode v \<Rightarrow> d\<lparr>nd_values := (nd_values d)\<lparr>nv_core := v\<rparr>\<rparr>
            | SubmitDialog \<Rightarrow> create_onSubmit d
            | _ \<Rightarrow> d)"

section \<open>Facts about tags\<close>

lemma addDraft_good: "good_tags (tags s) \<Longrightarrow> good_tags (tags (addDraft s))"
  by (auto simp: addDraft_def good_tags_def good_tag_def Let_def)

lemma butlast_good: "good_tags ts \<Longrightarrow> good_tags (butlast ts)"
  by (auto simp: good_tags_def list_all_iff distinct_butlast dest: in_set_butlastD)

lemma filter_good: "good_tags ts \<Longrightarrow> good_tags (filter P ts)"
  by (auto simp: good_tags_def list_all_iff intro: order_trans [OF length_filter_le])

lemmas tag_defs = ProblemTagProperty_def type_tag_def onKeyDown_def remove_tag_def close_tags_def

interpretation tp: kept_invariant ProblemTagProperty "\<lambda>s. good_tags (tags s)"
proof
  fix op and s :: tag_property
  assume good: "good_tags (tags s)"
  obtain d :: bool and op' :: tag_op where op: "op = (d, op')" by (cases op)
  show "good_tags (tags (ProblemTagProperty op s))"
    using good addDraft_good [OF good] butlast_good [OF good] filter_good [OF good]
    by (cases op') (simp_all add: op tag_defs)
qed

lemma good_tags_sent: "good_tags ts \<Longrightarrow> unique (filter (\<lambda>t. t \<noteq> []) (map trim ts)) = ts"
proof -
  assume good: "good_tags ts"
  then have "map trim ts = ts" by (auto simp: good_tags_def good_tag_def list_all_iff intro!: map_idI)
  moreover have "filter (\<lambda>t. t \<noteq> []) ts = ts"
    using good by (auto simp: good_tags_def good_tag_def list_all_iff filter_id_conv)
  ultimately show ?thesis using good by (simp add: unique_distinct good_tags_def)
qed

text \<open>
  Editing the tags keeps them well-formed, whatever is typed, pressed or removed: no two are equal,
  none is blank, has space around it or more than 32 code units, and there are at most 20. So the tags
  on the page are exactly those a save sends, in the same order.
\<close>

lemma tags_sent_as_shown:
  assumes "good_tags (tags s)"
  shows "good_tags (tags (fold ProblemTagProperty ops s))
    \<and> (wv_tags v = tags (fold ProblemTagProperty ops s)
       \<longrightarrow> up_tags (update_request p v) = tags (fold ProblemTagProperty ops s))"
  using tp.run_keeps [OF assms, of ops] good_tags_sent by (simp add: update_request_def)

section \<open>Facts about the dialog\<close>

lemma split_on_set: "set s \<subseteq> insert d (\<Union> (set ` set (split_on d s)))"
proof (induction s)
  case (Cons c s)
  obtain p ps where "split_on d s = p # ps" by (metis list.exhaust split_on_nonempty)
  with Cons show ?case by auto
qed simp

lemma slug_chars: "slugPattern s \<Longrightarrow> c \<in> set s \<Longrightarrow> is_lower c \<or> is_digit c \<or> c = 45"
  using split_on_set [of s 45] by (fastforce simp: slugPattern_def list_all_iff)

lemma encode_unreserved: 
  assumes "list_all (\<lambda>c. uri_unreserved (uint c)) s"
  shows "encodeURIComponent s = Some s"
proof -
  have range: "list_all (in_range 0 127) s"
    using assms by (auto simp: list_all_iff uri_unreserved_def in_range_def)
  then have points: "code_points s = map uint s" by (rule code_points_ascii)
  have "utf8_bytes (uint c) = [uint c]" "uri_escape (uint c) = [c]" if "c \<in> set s" for c
    using that range assms by (auto simp: list_all_iff in_range_def utf8_bytes_def uri_escape_def)
  then have "concat (map uri_escape (utf8 s)) = s"
    using points by (simp add: utf8_def map_concat comp_def concat_map_singleton cong: map_cong)
  moreover have "isWellFormed s"
    using range by (induction s rule: isWellFormed.induct) (auto simp: in_range_def)
  ultimately show ?thesis by (simp add: encodeURIComponent_def)
qed

lemma slug_in_path: "slugPattern s \<Longrightarrow> encodeURIComponent s = Some s"
proof (rule encode_unreserved, unfold list_all_iff, intro ballI)
  fix c assume "slugPattern s" "c \<in> set s"
  then have "is_lower c \<or> is_digit c \<or> c = 45" by (rule slug_chars)
  then show "uri_unreserved (uint c)"
  proof (elim disjE)
    show "is_lower c \<Longrightarrow> uri_unreserved (uint c)" by (simp add: uri_unreserved_def in_range_def)
    show "is_digit c \<Longrightarrow> uri_unreserved (uint c)" by (simp add: uri_unreserved_def in_range_def)
  qed (simp add: uri_unreserved_def)
qed

definition good_create :: "CreateValues \<Rightarrow> bool" where
  "good_create v \<longleftrightarrow> trim (nv_title v) = nv_title v \<and> 1 \<le> length (nv_title v) \<and> length (nv_title v) \<le> 160
     \<and> slugPattern (nv_slug v) \<and> 3 \<le> length (nv_slug v) \<and> length (nv_slug v) \<le> 80 \<and> nv_languageId v \<noteq> []"

definition good_dialog :: "create_dialog \<Rightarrow> bool" where
  "good_dialog d \<longleftrightarrow> list_all good_create (nd_sent d) \<and> (nd_creating d \<longrightarrow> nd_open d \<and> nd_sent d \<noteq> [])"

lemma no_errors_good:
  "nextErrors v = no_errors \<Longrightarrow> good_create (v\<lparr>nv_title := trim (nv_title v), nv_slug := trim (nv_slug v)\<rparr>)"
  by (auto simp: nextErrors_def no_errors_def good_create_def Let_def Suc_le_eq split: if_splits)

lemmas create_defs = AdminProblemCreateDialog_def onOpenChange_def create_ends_def type_title_def type_slug_def
  choose_language_def create_onSubmit_def

interpretation nd: kept_invariant "AdminProblemCreateDialog low" good_dialog for low
proof
  fix op d
  assume "good_dialog d"
  then show "good_dialog (AdminProblemCreateDialog low op d)"
    by (cases op) (auto simp: create_defs good_dialog_def no_errors_good split: option.split)
qed

text \<open>
  The dialog creates only well-formed problems: in any execution, with any way of lowering
  letters, every request has a trimmed title of 1 to 160 code units, a slug of 3 to 80 that matches the
  pattern and stands in an address as it is, and a language; a form that is not like that sends nothing and
  shows an error, and while a request is unanswered the dialog stays open and sends no other.
\<close>

lemma create_requests_wellformed:
  "(\<forall>v\<in>set (nd_sent (fold (AdminProblemCreateDialog low) ops closed_dialog)).
      good_create v \<and> encodeURIComponent (nv_slug v) = Some (nv_slug v))
   \<and> (nextErrors (nd_values d) \<noteq> no_errors \<and> \<not> nd_creating d \<longrightarrow>
        nd_sent (create_onSubmit d) = nd_sent d \<and> nd_errors (create_onSubmit d) \<noteq> no_errors)
   \<and> (nd_creating (fold (AdminProblemCreateDialog low) ops closed_dialog) \<longrightarrow>
        nd_open (fold (AdminProblemCreateDialog low) ops closed_dialog)
        \<and> create_onSubmit (fold (AdminProblemCreateDialog low) ops closed_dialog) = fold (AdminProblemCreateDialog low) ops closed_dialog
        \<and> onOpenChange False (fold (AdminProblemCreateDialog low) ops closed_dialog) = fold (AdminProblemCreateDialog low) ops closed_dialog)"
proof -
  have "good_dialog closed_dialog" by (simp add: good_dialog_def closed_dialog_def)
  then have "good_dialog (fold (AdminProblemCreateDialog low) ops closed_dialog)" by (rule nd.run_keeps)
  then show ?thesis
    by (auto simp: good_dialog_def list_all_iff good_create_def slug_in_path create_onSubmit_def onOpenChange_def)
qed

end
