(* ===== verification/Problem_Lists.thy ===== *)
theory Problem_Lists
  imports Admin_Users Admin_Forms
begin

text \<open>
  The list pages: the public problem list \<open>features/problems/components/problem-list-page.tsx\<close>, the
  administration's list \<open>admin-problem-list-page.tsx\<close>, its overview \<open>app/pages/admin-dashboard-page.tsx\<close>,
  the page that mounts the problem editor (\<open>AdminProblemWorkbench\<close>), and the routes that read their
  searches. A list page is mounted anew for every search.
\<close>

section \<open>Searches of the routes\<close>

definition slice_tags :: "json \<Rightarrow> json" where
  "slice_tags v = (case v of JUndef \<Rightarrow> JUndef | JArr vs \<Rightarrow> JArr (take 10 vs) | _ \<Rightarrow> JArr [v])"

definition problemsSearchSchema :: schema where
  "problemsSearchSchema = ZObject Strip
     [(js ''q'', ZCatch (ZOptional (ZString [SMin 1, SMax 100])) JUndef),
      (js ''difficulty'', ZCatch (ZOptional (enum [''UNRATED'', ''EASY'', ''MEDIUM'', ''HARD''])) JUndef),
      (js ''tag'', ZTransform (ZOptional (ZUnion [zstr, ZArray zstr None])) slice_tags),
      (js ''codeMode'', ZCatch (ZOptional (enum [''ACM'', ''CORE''])) JUndef),
      (js ''language'', ZCatch (ZOptional (ZString [SRegex language_regex])) JUndef),
      (js ''sort'', ZDefault (ZCatch (enum [''UPDATED_DESC'', ''UPDATED_ASC'', ''TITLE_ASC'']) (JStr (js ''UPDATED_DESC'')))
         (JStr (js ''UPDATED_DESC''))),
      (js ''cursor'', ZCatch (ZOptional (ZString [SMin 1, SMax 2048])) JUndef),
      (js ''size'', ZDefault (ZCatch (ZCoerceNumber [NInt, NMin 1, NMax 100]) (JNum (Fin 20))) (JNum (Fin 20)))]"

definition adminProblemsSearchSchema :: schema where
  "adminProblemsSearchSchema = ZObject Strip
     [(js ''page'', ZDefault (ZCatch (ZCoerceNumber [NInt, NMin 1]) (JNum (Fin 1))) (JNum (Fin 1))),
      (js ''q'', ZDefault (ZCatch (ZString [SMax 100]) (JStr [])) (JStr [])),
      (js ''status'', ZDefault (ZCatch (enum [''ALL'', ''ACTIVE'', ''ARCHIVED'']) (JStr (js ''ALL''))) (JStr (js ''ALL'')))]"

definition panelSchema :: schema where
  "panelSchema = ZObject Strip [(js ''panel'', ZCatch (ZOptional (enum [''test-data'', ''calibration'', ''publish''])) JUndef)]"

text \<open>\<open>typeof search.page === 'number' && Number.isInteger(search.page) && search.page > 0\<close>.\<close>

definition users_validateSearch :: "json \<Rightarrow> number" where
  "users_validateSearch v =
     (case jget (js ''page'') v of
        JNum x \<Rightarrow> if isInteger x \<and> (case x of Fin q \<Rightarrow> q > 0 | _ \<Rightarrow> False) then x else Fin 1
      | _ \<Rightarrow> Fin 1)"

section \<open>The public list\<close>

datatype problem_sort = UPDATED_DESC | UPDATED_ASC | TITLE_ASC

record ProblemSearch =
  se_q :: "jsstr option"
  se_difficulty :: "difficulty_level option"
  se_tag :: "jsstr list option"
  se_core :: "bool option"
  se_language :: "jsstr option"
  se_sort :: problem_sort
  se_cursor :: "jsstr option"
  se_size :: int

record ProblemSummary =
  sm_problemId :: jsstr
  sm_slug :: jsstr
  sm_title :: jsstr
  sm_difficulty :: difficulty_level
  sm_tags :: "jsstr list"
  sm_languages :: "(jsstr \<times> jsstr) list"

record problem_batch =
  pb_items :: "ProblemSummary list"
  pb_hasMore :: bool
  pb_nextCursor :: "jsstr option"

definition sort_name :: "problem_sort \<Rightarrow> jsstr" where
  "sort_name x = (case x of UPDATED_DESC \<Rightarrow> js ''UPDATED_DESC'' | UPDATED_ASC \<Rightarrow> js ''UPDATED_ASC'' | TITLE_ASC \<Rightarrow> js ''TITLE_ASC'')"

definition opt_text :: "jsstr option \<Rightarrow> query_value" where
  "opt_text v = (case v of Some s \<Rightarrow> QText s | None \<Rightarrow> QUndefined)"

text \<open>The entries of the search object in the order of the schema, as \<open>listProblems\<close> gets them.\<close>

definition search_entries :: "ProblemSearch \<Rightarrow> (jsstr \<times> query_value) list" where
  "search_entries s =
     [(js ''q'', opt_text (se_q s)), (js ''difficulty'', opt_text (map_option difficulty_name (se_difficulty s))),
      (js ''tag'', case se_tag s of Some ts \<Rightarrow> QList ts | None \<Rightarrow> QUndefined),
      (js ''codeMode'', opt_text (map_option (\<lambda>b. if b then js ''CORE'' else js ''ACM'') (se_core s))),
      (js ''language'', opt_text (se_language s)), (js ''sort'', QText (sort_name (se_sort s))),
      (js ''cursor'', opt_text (se_cursor s)), (js ''size'', QNumber (se_size s))]"

definition filtered :: "ProblemSearch \<Rightarrow> bool" where
  "filtered s \<longleftrightarrow> truthy (se_q s) \<or> se_difficulty s \<noteq> None \<or> se_core s \<noteq> None \<or> truthy (se_language s)
     \<or> (case se_tag s of Some ts \<Rightarrow> ts \<noteq> [] | None \<Rightarrow> False)"

text \<open>A \<open>Map\<close> from id to name in the order of the first mention; a later name replaces an earlier one.\<close>

definition languageOptions :: "ProblemSearch \<Rightarrow> problem_batch option \<Rightarrow> (jsstr \<times> jsstr) list" where
  "languageOptions s d =
     (let m = fold (\<lambda>(k, v). AList.update k v) (concat (map sm_languages (case d of Some b \<Rightarrow> pb_items b | None \<Rightarrow> []))) []
      in case se_language s of
          Some l \<Rightarrow> if l \<noteq> [] \<and> map_of m l = None then m @ [(l, l)] else m
        | None \<Rightarrow> m)"

text \<open>The mounted page. \<open>pl_cache\<close> is what the query cache holds of other searches; \<open>pl_given\<close> are
  the cursors the server has given, with the search they continue.\<close>

record problem_list =
  pl_search :: ProblemSearch
  pl_keyword :: jsstr
  pl_tagText :: jsstr
  pl_result :: "problem_batch query"
  pl_fetching :: bool
  pl_cache :: "(ProblemSearch \<times> problem_batch) list"
  pl_given :: "(ProblemSearch \<times> jsstr) set"

definition mount_list :: "ProblemSearch \<Rightarrow> (ProblemSearch \<times> problem_batch) list \<Rightarrow> (ProblemSearch \<times> jsstr) set \<Rightarrow> problem_list" where
  "mount_list s cache given =
     \<lparr>pl_search = s, pl_keyword = or_empty (se_q s),
      pl_tagText = (case se_tag s of Some ts \<Rightarrow> join (js '', '') ts | None \<Rightarrow> []),
      pl_result = \<lparr>qr_data = map_of cache s, qr_error = None\<rparr>, pl_fetching = (map_of cache s = None),
      pl_cache = cache, pl_given = given\<rparr>"

text \<open>\<open>navigate\<close>: the route renders the page with \<open>key={JSON.stringify(search)}\<close>, so another search mounts
  another page, which knows of the old one only what the cache has for its own search.\<close>

definition ProblemsRoute :: "ProblemSearch \<Rightarrow> problem_list \<Rightarrow> problem_list" where
  "ProblemsRoute s p = (if s = pl_search p then p else mount_list s (pl_cache p) (pl_given p))"

definition applyText :: "problem_list \<Rightarrow> problem_list" where
  "applyText p = ProblemsRoute ((pl_search p)\<lparr>
     se_q := trim_or_null (pl_keyword p),
     se_tag := Some (take 10 (filter (\<lambda>t. t \<noteq> []) (map trim (split_on 44 (pl_tagText p))))), se_cursor := None\<rparr>) p"

definition clearFilters :: "problem_list \<Rightarrow> problem_list" where
  "clearFilters p = ProblemsRoute \<lparr>se_q = None, se_difficulty = None, se_tag = None, se_core = None, se_language = None,
     se_sort = UPDATED_DESC, se_cursor = None, se_size = se_size (pl_search p)\<rparr> (p\<lparr>pl_keyword := [], pl_tagText := []\<rparr>)"

definition nonempty :: "jsstr \<Rightarrow> jsstr option" where
  "nonempty v = (if v = [] then None else Some v)"

definition isInvalidCursor :: "thrown \<Rightarrow> bool" where
  "isInvalidCursor e = (case e of Api a \<Rightarrow> err_code a = Some (js ''INVALID_CURSOR'') | Exn _ \<Rightarrow> False)"

datatype list_error = CursorGone | BadListData | ListUnavailable

definition problemError :: "thrown \<Rightarrow> list_error" where
  "problemError e = (case e of Api a \<Rightarrow> if err_kind a = Contract then BadListData else ListUnavailable | Exn _ \<Rightarrow> ListUnavailable)"

datatype batch_state = PageLoading | PageError list_error | PageNothing bool | PageRows "ProblemSummary list"

definition pageState :: "problem_list \<Rightarrow> batch_state" where
  "pageState p =
     (let r = pl_result p in
      if isPending r then PageLoading
      else case qr_data r of
          None \<Rightarrow> (case qr_error r of
              Some e \<Rightarrow> PageError (if isInvalidCursor e then CursorGone else problemError e) | None \<Rightarrow> PageLoading)
        | Some b \<Rightarrow> if pb_items b = [] then PageNothing (filtered (pl_search p)) else PageRows (pb_items b))"

text \<open>The notice above the rows, and the pagination below: whether the first batch can be returned
  to and whether the next one can be asked for.\<close>

definition keptNotice :: "problem_list \<Rightarrow> bool" where
  "keptNotice p \<longleftrightarrow> isError (pl_result p) \<and> qr_data (pl_result p) \<noteq> None"

definition list_pagination :: "problem_list \<Rightarrow> (bool \<times> bool \<times> bool) option" where
  "list_pagination p = map_option (\<lambda>b. (pb_hasMore b, truthy (se_cursor (pl_search p)), pb_hasMore b \<and> \<not> pl_fetching p)) (qr_data (pl_result p))"

definition renderRow :: "ProblemSummary \<Rightarrow> jsstr \<times> jsstr \<times> difficulty_level \<times> jsstr list \<times> jsstr" where
  "renderRow x = (js ''/problems/'' @ sm_slug x, sm_title x, sm_difficulty x, take 2 (sm_tags x), join (js '' / '') (map snd (sm_languages x)))"

definition list_answer :: "thrown + problem_batch \<Rightarrow> problem_list \<Rightarrow> problem_list" where
  "list_answer r p =
     (case r of
        Inl e \<Rightarrow> p\<lparr>pl_result := (pl_result p)\<lparr>qr_error := Some e\<rparr>, pl_fetching := False\<rparr>
      | Inr b \<Rightarrow> p\<lparr>pl_result := \<lparr>qr_data = Some b, qr_error = None\<rparr>, pl_fetching := False,
                   pl_cache := AList.update (pl_search p) b (pl_cache p),
                   pl_given := (case pb_nextCursor b of Some c \<Rightarrow> insert (pl_search p, c) (pl_given p) | None \<Rightarrow> pl_given p)\<rparr>)"

definition nextBatch :: "problem_list \<Rightarrow> problem_list" where
  "nextBatch p =
     (case qr_data (pl_result p) of
        Some b \<Rightarrow> if pb_hasMore b \<and> \<not> pl_fetching p then ProblemsRoute ((pl_search p)\<lparr>se_cursor := pb_nextCursor b\<rparr>) p else p
      | None \<Rightarrow> p)"

text \<open>\<open>VisitAddress\<close>: back, forward, a link or a typed address leads to any search the route accepts,
  with any cursor.\<close>

datatype list_op =
    VisitAddress ProblemSearch | TypeKeyword jsstr | TypeTagText jsstr | ApplyText | ListDifficulty "difficulty_level option" | ListLanguage jsstr
  | ListMode "bool option" | ListSort problem_sort | ClearFilters | FirstBatch | NextBatch | ListFetch
  | ListAnswer "thrown + problem_batch"

definition list_step :: "list_op \<Rightarrow> problem_list \<Rightarrow> problem_list" where
  "list_step op p =
     (case op of
        VisitAddress s \<Rightarrow> ProblemsRoute s p
      | TypeKeyword v \<Rightarrow> p\<lparr>pl_keyword := v\<rparr>
      | TypeTagText v \<Rightarrow> p\<lparr>pl_tagText := v\<rparr>
      | ApplyText \<Rightarrow> applyText p
      | ListDifficulty d \<Rightarrow> ProblemsRoute ((pl_search p)\<lparr>se_difficulty := d, se_cursor := None\<rparr>) p
      | ListLanguage l \<Rightarrow> ProblemsRoute ((pl_search p)\<lparr>se_language := nonempty l, se_cursor := None\<rparr>) p
      | ListMode m \<Rightarrow> ProblemsRoute ((pl_search p)\<lparr>se_core := m, se_cursor := None\<rparr>) p
      | ListSort o' \<Rightarrow> ProblemsRoute ((pl_search p)\<lparr>se_sort := o', se_cursor := None\<rparr>) p
      | ClearFilters \<Rightarrow> clearFilters p
      | FirstBatch \<Rightarrow> ProblemsRoute ((pl_search p)\<lparr>se_cursor := None\<rparr>) p
      | NextBatch \<Rightarrow> nextBatch p
      | ListFetch \<Rightarrow> p\<lparr>pl_fetching := True\<rparr>
      | ListAnswer r \<Rightarrow> list_answer r p)"

section \<open>The administration's list\<close>

record AdminProblemSummary =
  as_id :: jsstr
  as_slug :: jsstr
  as_title :: jsstr
  as_public :: bool
  as_active :: bool
  as_difficulty :: difficulty_level
  as_hasTestData :: bool

record admin_batch =
  ab_items :: "AdminProblemSummary list"
  ab_page :: int
  ab_totalPages :: int
  ab_totalElements :: int

record AdminProblemSearch =
  sa_page :: int
  sa_q :: jsstr
  sa_status :: ProblemStatusFilter

definition groupByVisibility :: "AdminProblemSummary list \<Rightarrow> (bool \<times> AdminProblemSummary list) list" where
  "groupByVisibility items =
     (let drafts = filter (\<lambda>x. \<not> as_public x) items; published = filter as_public items
      in (if drafts \<noteq> [] then [(False, drafts)] else []) @ (if published \<noteq> [] then [(True, published)] else []))"

record admin_list =
  al_search :: AdminProblemSearch
  al_keyword :: jsstr
  al_problems :: "admin_batch query"

definition mount_admin_list :: "AdminProblemSearch \<Rightarrow> admin_batch option \<Rightarrow> admin_list" where
  "mount_admin_list s cached = \<lparr>al_search = s, al_keyword = sa_q s, al_problems = \<lparr>qr_data = cached, qr_error = None\<rparr>\<rparr>"

datatype admin_state = AdminLoading | AdminFailed | AdminNothing bool | AdminGroups "(bool \<times> AdminProblemSummary list) list"

definition AdminProblemListPage :: "admin_list \<Rightarrow> admin_state" where
  "AdminProblemListPage p =
     (if isPending (al_problems p) then AdminLoading
      else if isError (al_problems p) then AdminFailed
      else case qr_data (al_problems p) of
          Some d \<Rightarrow> if ab_items d = [] then AdminNothing (sa_q (al_search p) \<noteq> [] \<or> sa_status (al_search p) \<noteq> AllStatuses)
                    else AdminGroups (groupByVisibility (ab_items d))
        | None \<Rightarrow> AdminLoading)"

definition admin_pagination :: "admin_list \<Rightarrow> (int \<times> int \<times> AdminProblemSearch option \<times> AdminProblemSearch option) option" where
  "admin_pagination p =
     (case qr_data (al_problems p) of
        Some d \<Rightarrow>
          if ab_totalPages d > 1
          then let s = al_search p in
               Some (ab_page d, ab_totalPages d,
                 if sa_page s \<le> 1 then None else Some (s\<lparr>sa_page := sa_page s - 1\<rparr>),
                 if sa_page s \<ge> ab_totalPages d then None else Some (s\<lparr>sa_page := sa_page s + 1\<rparr>))
          else None
      | None \<Rightarrow> None)"

definition choose_status :: "ProblemStatusFilter \<Rightarrow> admin_list \<Rightarrow> AdminProblemSearch" where
  "choose_status st p = (al_search p)\<lparr>sa_page := 1, sa_status := st\<rparr>"

definition search_admin :: "admin_list \<Rightarrow> AdminProblemSearch" where
  "search_admin p = (al_search p)\<lparr>sa_page := 1, sa_q := trim (al_keyword p)\<rparr>"

text \<open>\<open>create\<close>: the request of the dialog, and the page of the created problem.\<close>

definition create_json :: "CreateValues \<Rightarrow> json" where
  "create_json v = JObj
     [(js ''slug'', JStr (nv_slug v)), (js ''title'', JStr (nv_title v)), (js ''difficulty'', JStr (difficulty_name (nv_difficulty v))),
      (js ''codeMode'', JStr (if nv_core v then js ''CORE'' else js ''ACM'')), (js ''languageId'', JStr (nv_languageId v))]"

definition create_mutation :: "'w net \<Rightarrow> CreateValues \<Rightarrow> ('w, jsstr) io" where
  "create_mutation N v = bind_io (createProblem N (create_json v))
     (\<lambda>created. pure (Inr (js ''/admin/problems/'' @ as_str (jget (js ''id'') created))))"

section \<open>The overview\<close>

record judge_node =
  jn_nodeId :: jsstr
  jn_languages :: "jsstr list"
  jn_online :: bool
  jn_lastSeenAt :: jsstr

datatype todo_status = TodoDone | TodoPartial | TodoNone

datatype status_label = NeedsCalibration | NeedsTestData | NeedsPassword | NodeOnline | NodeOffline jsstr

datatype todo_link = LinkProblem | LinkUsers | LinkNone

record TodoRow =
  todo_id :: jsstr
  todo_title :: jsstr
  todo_detail :: "jsstr + role_label"
  todo_status :: todo_status
  todo_label :: status_label
  todo_link :: todo_link

definition drafts :: "admin_batch query \<Rightarrow> TodoRow list" where
  "drafts q = map (\<lambda>x. \<lparr>todo_id = as_id x, todo_title = as_title x, todo_detail = Inl (as_slug x),
       todo_status = (if as_hasTestData x then TodoPartial else TodoNone),
       todo_label = (if as_hasTestData x then NeedsCalibration else NeedsTestData), todo_link = LinkProblem\<rparr>)
     (filter (\<lambda>x. \<not> as_public x) (case qr_data q of Some d \<Rightarrow> ab_items d | None \<Rightarrow> []))"

definition pendingUsers :: "user_list query \<Rightarrow> TodoRow list" where
  "pendingUsers q = map (\<lambda>u. \<lparr>todo_id = ua_id u, todo_title = ua_username u, todo_detail = Inr (roleLabel u),
       todo_status = TodoNone, todo_label = NeedsPassword, todo_link = LinkUsers\<rparr>)
     (filter (\<lambda>u. ua_active u \<and> ua_passwordChangeRequired u) (case qr_data q of Some d \<Rightarrow> ul_items d | None \<Rightarrow> []))"

definition nodes :: "judge_node list query \<Rightarrow> TodoRow list" where
  "nodes q = map (\<lambda>n. \<lparr>todo_id = jn_nodeId n, todo_title = jn_nodeId n, todo_detail = Inl (join (js '' / '') (jn_languages n)),
       todo_status = (if jn_online n then TodoDone else TodoNone),
       todo_label = (if jn_online n then NodeOnline else NodeOffline (jn_lastSeenAt n)), todo_link = LinkNone\<rparr>)
     (case qr_data q of Some ns \<Rightarrow> ns | None \<Rightarrow> [])"

datatype todo_group = DraftGroup int "TodoRow list" | UserGroup int "TodoRow list" | NodeGroup bool int int "TodoRow list"

definition todo_groups :: "admin_batch query \<Rightarrow> user_list query \<Rightarrow> judge_node list query \<Rightarrow> todo_group list" where
  "todo_groups ps us ns =
     (let ds = drafts ps; pu = pendingUsers us; nd = nodes ns; online = length (filter (\<lambda>n. todo_status n = TodoDone) nd) in
      (if ds \<noteq> [] then [DraftGroup (int (length ds)) ds] else []) @ (if pu \<noteq> [] then [UserGroup (int (length pu)) pu] else [])
      @ (if qr_data ns \<noteq> None then [NodeGroup (online = 0) (int online) (int (length nd)) nd] else []))"

datatype dashboard = DashLoading | DashFailed | DashNothing | DashGroups "todo_group list"

definition AdminDashboardPage :: "admin_batch query \<Rightarrow> user_list query \<Rightarrow> judge_node list query \<Rightarrow> dashboard" where
  "AdminDashboardPage ps us ns =
     (if isPending ps \<or> isPending us \<or> isPending ns then DashLoading
      else if isError ps \<or> isError us \<or> isError ns then DashFailed
      else if todo_groups ps us ns = [] then DashNothing else DashGroups (todo_groups ps us ns))"

definition dashboard_counts :: "admin_batch query \<Rightarrow> user_list query \<Rightarrow> (int \<times> int) option" where
  "dashboard_counts ps us =
     (case (qr_data ps, qr_data us) of (Some p, Some u) \<Rightarrow> Some (ab_totalElements p, ul_totalElements u) | _ \<Rightarrow> None)"

section \<open>The page of the problem editor\<close>

datatype workbench_page = WorkbenchLoading | WorkbenchFailed error_text | WorkbenchMounted editor

text \<open>What is rendered, given the editor mounted before: while the query is pending or failed there is none.\<close>

definition AdminProblemWorkbench :: "AdminProblem query \<Rightarrow> ProblemWorkbenchPanel option \<Rightarrow> editor option \<Rightarrow> workbench_page" where
  "AdminProblemWorkbench q panel mounted =
     (if isPending q then WorkbenchLoading
      else case (qr_error q, qr_data q) of
          (Some e, _) \<Rightarrow> WorkbenchFailed (apiErrorMessage e)
        | (None, Some p) \<Rightarrow> WorkbenchMounted (case mounted of Some ed \<Rightarrow> ed\<lparr>problem := p\<rparr> | None \<Rightarrow> open_editor p panel)
        | (None, None) \<Rightarrow> WorkbenchLoading)"

definition mounted_editor :: "workbench_page \<Rightarrow> editor option" where
  "mounted_editor w = (case w of WorkbenchMounted ed \<Rightarrow> Some ed | _ \<Rightarrow> None)"

end
