(* ===== verification/List_Properties.thy ===== *)
theory List_Properties
  imports Problem_Lists
begin

text \<open>
  The properties of the list pages: a cursor never outlives the filters it was given for, unless an address
  brings the search back, and the rows shown are the answer to the search of the address; what becomes of the rows when the next batch fails; which
  searches the routes accept; and what a failed background query does to the mounted problem editor.
\<close>

section \<open>Cursors\<close>

definition same_filters :: "ProblemSearch \<Rightarrow> ProblemSearch \<Rightarrow> bool" where
  "same_filters a b \<longleftrightarrow> a\<lparr>se_cursor := None\<rparr> = b\<lparr>se_cursor := None\<rparr>"

text \<open>\<open>V\<close> are the searches whose address was visited.\<close>

definition good_list :: "ProblemSearch set \<Rightarrow> problem_list \<Rightarrow> bool" where
  "good_list V p \<longleftrightarrow>
     (\<forall>c. se_cursor (pl_search p) = Some c \<longrightarrow> (\<exists>s. (s, c) \<in> pl_given p \<and> same_filters s (pl_search p)) \<or> pl_search p \<in> V)
     \<and> qr_data (pl_result p) = map_of (pl_cache p) (pl_search p)
     \<and> (\<forall>s b c. map_of (pl_cache p) s = Some b \<and> pb_nextCursor b = Some c \<longrightarrow> (s, c) \<in> pl_given p)"

lemma good_list_cong:
  "pl_search p' = pl_search p \<Longrightarrow> qr_data (pl_result p') = qr_data (pl_result p) \<Longrightarrow> pl_cache p' = pl_cache p
     \<Longrightarrow> pl_given p' = pl_given p \<Longrightarrow> good_list V p' = good_list V p"
  by (simp only: good_list_def)

lemma good_list_mono: "good_list V p \<Longrightarrow> V \<subseteq> W \<Longrightarrow> good_list W p"
  unfolding good_list_def by blast

lemma mount_good:
  assumes "good_list V p"
    and "\<And>c. se_cursor s = Some c \<Longrightarrow> (\<exists>s'. (s', c) \<in> pl_given p \<and> same_filters s' s) \<or> s \<in> V"
  shows "good_list V (ProblemsRoute s p)"
  using assms by (auto simp: ProblemsRoute_def good_list_def mount_list_def)

lemma restart_good: "good_list V p \<Longrightarrow> se_cursor s = None \<Longrightarrow> good_list V (ProblemsRoute s p)"
  by (rule mount_good) simp_all

lemma next_good: "good_list V p \<Longrightarrow> good_list V (nextBatch p)"
proof (cases "qr_data (pl_result p)")
  case (Some b)
  assume good: "good_list V p"
  have "good_list V (ProblemsRoute ((pl_search p)\<lparr>se_cursor := pb_nextCursor b\<rparr>) p)"
  proof (rule mount_good [OF good])
    fix c
    assume "se_cursor ((pl_search p)\<lparr>se_cursor := pb_nextCursor b\<rparr>) = Some c"
    then have "pb_nextCursor b = Some c" by simp
    moreover have "map_of (pl_cache p) (pl_search p) = Some b" using good Some by (simp add: good_list_def)
    ultimately have "(pl_search p, c) \<in> pl_given p" using good by (simp add: good_list_def)
    then show "(\<exists>s'. (s', c) \<in> pl_given p \<and> same_filters s' ((pl_search p)\<lparr>se_cursor := pb_nextCursor b\<rparr>))
        \<or> (pl_search p)\<lparr>se_cursor := pb_nextCursor b\<rparr> \<in> V"
      by (auto simp: same_filters_def)
  qed
  then show ?thesis using good Some by (simp add: nextBatch_def)
qed (simp add: nextBatch_def)

lemma answer_good: "good_list V p \<Longrightarrow> good_list V (list_answer r p)"
proof (cases r)
  case (Inr b)
  assume good: "good_list V p"
  have "(s, c) \<in> pl_given (list_answer r p)"
    if "map_of (AList.update (pl_search p) b (pl_cache p)) s = Some b'" "pb_nextCursor b' = Some c" for s b' c
    using that good by (auto simp: Inr list_answer_def good_list_def update_conv split: if_splits option.splits)
  moreover have "pl_given p \<subseteq> pl_given (list_answer r p)"
    by (auto simp: Inr list_answer_def split: option.split)
  moreover have "pl_search (list_answer r p) = pl_search p" "qr_data (pl_result (list_answer r p)) = Some b"
      "pl_cache (list_answer r p) = AList.update (pl_search p) b (pl_cache p)"
    by (simp_all add: Inr list_answer_def)
  ultimately show ?thesis
    using good unfolding good_list_def by (simp add: update_conv) (meson subsetD)
next
  case (Inl e)
  assume "good_list V p"
  then show ?thesis by (subst good_list_cong [of _ p]) (simp_all add: Inl list_answer_def)
qed

definition visits :: "list_op \<Rightarrow> ProblemSearch set" where
  "visits op = (case op of VisitAddress s \<Rightarrow> {s} | _ \<Rightarrow> {})"

lemma list_step_good:
  assumes "good_list V p"
  shows "good_list (V \<union> visits op) (list_step op p)"
proof (cases op)
  case (VisitAddress s)
  have "good_list (V \<union> {s}) p" using assms by (rule good_list_mono) blast
  then show ?thesis unfolding VisitAddress list_step_def visits_def list_op.case by (rule mount_good) simp
next
  case (TypeKeyword v)
  then show ?thesis using assms by (subst good_list_cong [of _ p]) (simp_all add: list_step_def visits_def)
next
  case (TypeTagText v)
  then show ?thesis using assms by (subst good_list_cong [of _ p]) (simp_all add: list_step_def visits_def)
next
  case ListFetch
  then show ?thesis using assms by (subst good_list_cong [of _ p]) (simp_all add: list_step_def visits_def)
next
  case ClearFilters
  have "good_list V (p\<lparr>pl_keyword := [], pl_tagText := []\<rparr>)" using assms by (subst good_list_cong [of _ p]) simp_all
  then have "good_list V (ProblemsRoute \<lparr>se_q = None, se_difficulty = None, se_tag = None, se_core = None, se_language = None,
      se_sort = UPDATED_DESC, se_cursor = None, se_size = se_size (pl_search p)\<rparr> (p\<lparr>pl_keyword := [], pl_tagText := []\<rparr>))"
    by (rule restart_good) simp
  then show ?thesis by (simp add: ClearFilters list_step_def clearFilters_def visits_def)
qed (use assms in \<open>simp_all add: list_step_def visits_def applyText_def restart_good next_good answer_good\<close>)

text \<open>The step on pairs of the visited addresses and the page.\<close>

definition visit_step :: "list_op \<Rightarrow> ProblemSearch set \<times> problem_list \<Rightarrow> ProblemSearch set \<times> problem_list" where
  "visit_step op x = (fst x \<union> visits op, list_step op (snd x))"

interpretation pl: kept_invariant visit_step "\<lambda>x. good_list (fst x) (snd x)"
  by unfold_locales (simp add: visit_step_def list_step_good)

lemma visit_run: "fold visit_step ops (V, p) = (V \<union> (\<Union>op\<in>set ops. visits op), fold list_step ops p)"
  by (induction ops arbitrary: V p) (auto simp: visit_step_def)

text \<open>
  C29. The problem list never mixes searches. It is opened at any address, with an empty query cache, and
  whatever is clicked, typed and visited, a cursor in the search was given by the server for the same filters
  and order, or the whole search with its cursor is that of an address: the one the page was opened at or one
  visited since. So changing a filter never takes a cursor along. And the rows on the page are the last answer
  to exactly the search of the address.
\<close>

theorem cursor_belongs_to_search:
  assumes "p = fold list_step ops (mount_list s [] {})"
  shows "(\<forall>c. se_cursor (pl_search p) = Some c \<longrightarrow>
      (\<exists>s'. (s', c) \<in> pl_given p \<and> same_filters s' (pl_search p))
      \<or> pl_search p = s \<or> VisitAddress (pl_search p) \<in> set ops)
    \<and> qr_data (pl_result p) = map_of (pl_cache p) (pl_search p)"
proof -
  have "good_list {s} (mount_list s [] {})" by (simp add: good_list_def mount_list_def)
  then have "good_list ({s} \<union> (\<Union>op\<in>set ops. visits op)) p"
    using pl.run_keeps [of "({s}, mount_list s [] {})" ops] by (simp add: visit_run assms)
  moreover have "VisitAddress s' \<in> set ops" if "s' \<in> visits op" "op \<in> set ops" for s' op
    using that by (cases op) (auto simp: visits_def)
  ultimately show ?thesis unfolding good_list_def by blast
qed

definition first_search :: ProblemSearch where
  "first_search = \<lparr>se_q = None, se_difficulty = None, se_tag = None, se_core = None, se_language = None,
     se_sort = UPDATED_DESC, se_cursor = None, se_size = 20\<rparr>"

definition first_batch :: problem_batch where
  "first_batch = \<lparr>pb_items = [\<lparr>sm_problemId = js ''1'', sm_slug = js ''a-plus-b'', sm_title = js ''A'', sm_difficulty = EASY,
     sm_tags = [], sm_languages = []\<rparr>], pb_hasMore = True, pb_nextCursor = Some (js ''x'')\<rparr>"

theorem cursor_belongs_to_search_witness:
  "\<exists>s'. (s', js ''x'') \<in> pl_given (fold list_step [ListAnswer (Inr first_batch), NextBatch] (mount_list first_search [] {}))"
proof -
  let ?p = "fold list_step [ListAnswer (Inr first_batch), NextBatch] (mount_list first_search [] {})"
  have "se_cursor (pl_search ?p) = Some (js ''x'')" by code_simp
  moreover have "se_cursor first_search = None" by (simp add: first_search_def)
  ultimately show ?thesis
    using cursor_belongs_to_search [of ?p "[ListAnswer (Inr first_batch), NextBatch]" first_search] by auto
qed

section \<open>A batch that fails\<close>

text \<open>
  When the batch on the page is read again and that fails, its rows stay with a notice above them.
  The next batch is different: it is another search, for which the page is mounted anew, so the rows
  are gone as soon as it is asked for, and when it fails only the error page is left. The option to keep the
  previous data and the notice that the current results were kept when the next batch failed have no effect.
\<close>

lemma next_batch_not_kept:
  assumes "qr_data (pl_result p) = Some b" and "pb_hasMore b" and "\<not> pl_fetching p" and "pb_items b \<noteq> []"
    and "pb_nextCursor b = Some c" and "se_cursor (pl_search p) \<noteq> Some c"
    and "map_of (pl_cache p) ((pl_search p)\<lparr>se_cursor := Some c\<rparr>) = None"
  shows "pageState (list_step (ListAnswer (Inl e)) p) = PageRows (pb_items b) \<and> keptNotice (list_step (ListAnswer (Inl e)) p)
    \<and> pageState (list_step NextBatch p) = PageLoading
    \<and> (\<exists>x. pageState (list_step (ListAnswer (Inl e)) (list_step NextBatch p)) = PageError x)
    \<and> \<not> keptNotice (list_step (ListAnswer (Inl e)) (list_step NextBatch p))"
proof -
  have "(pl_search p)\<lparr>se_cursor := Some c\<rparr> \<noteq> pl_search p"
    using assms(6) by (metis ProblemSearch.select_convs(7) ProblemSearch.surjective ProblemSearch.update_convs(7))
  then have "list_step NextBatch p = mount_list ((pl_search p)\<lparr>se_cursor := Some c\<rparr>) (pl_cache p) (pl_given p)"
    using assms by (simp add: list_step_def nextBatch_def ProblemsRoute_def)
  then show ?thesis
    using assms by (auto simp: list_step_def list_answer_def pageState_def keptNotice_def isPending_def isError_def mount_list_def Let_def)
qed

section \<open>The routes\<close>

context zod
begin

lemma catch_total: "\<exists>w. safeParse (ZCatch z d) v = Some w"
  by (simp add: catch_law split: option.split)

lemma default_catch_total: "\<exists>w. safeParse (ZDefault (ZCatch z d) d') v = Some w"
  using catch_total [of z d v] by (simp add: default_law)

lemma search_accepted:
  "safeParse problemsSearchSchema (JObj ms) \<noteq> None \<longleftrightarrow>
     safeParse (ZUnion [zstr, ZArray zstr None]) (jget (js ''tag'') (JObj ms)) \<noteq> None \<or> jget (js ''tag'') (JObj ms) = JUndef"
proof -
  let ?tag = "ZTransform (ZOptional (ZUnion [zstr, ZArray zstr None])) slice_tags"
  have "safeParse ?tag (jget (js ''tag'') (JObj ms)) \<noteq> None"
    if "safeParse problemsSearchSchema (JObj ms) = Some w" for w
    using object_SomeD [OF that [unfolded problemsSearchSchema_def], of "js ''tag''" ?tag] by simp
  moreover have "\<exists>w. safeParse problemsSearchSchema (JObj ms) = Some w"
    if "safeParse ?tag (jget (js ''tag'') (JObj ms)) \<noteq> None"
    unfolding problemsSearchSchema_def
    by (rule object_SomeI [OF refl]) (use that in \<open>auto simp: catch_total default_catch_total\<close>)
  ultimately show ?thesis
    by (auto simp: transform_law optional_law)
qed

lemma coerce_int:
  assumes "safeParse (ZCoerceNumber [NInt, NMin a, NMax b]) v = Some w"
  shows "\<exists>n. w = JNum (Fin (of_int n)) \<and> a \<le> n \<and> n \<le> b"
proof -
  obtain q where q: "w = JNum (Fin q)" "isSafeInteger (Fin q)" "of_int a \<le> q" "q \<le> of_int b"
    using assms by (auto simp: coerce_law num_result_def isFinite_def split: if_splits number.splits)
  then have f: "of_int \<lfloor>q\<rfloor> = q" by (simp add: isSafeInteger_def)
  with q(3,4) have "a \<le> \<lfloor>q\<rfloor>" "\<lfloor>q\<rfloor> \<le> b" by (metis of_int_le_iff)+
  with f q(1) show ?thesis by metis
qed

lemma text_field:
  assumes "safeParse (ZCatch (ZOptional (ZString [SMin a, SMax b])) JUndef) v = Some w"
  shows "w = JUndef \<or> (\<exists>s. w = JStr s \<and> a \<le> int (length s) \<and> int (length s) \<le> b)"
proof (cases "safeParse (ZOptional (ZString [SMin a, SMax b])) v")
  case (Some x)
  then show ?thesis using assms string_SomeD [of "[SMin a, SMax b]" v x]
    by (auto simp: catch_law optional_law split: if_splits)
qed (use assms in \<open>simp add: catch_law\<close>)

lemma strings_only:
  "safeParse (ZArray zstr None) v = Some w \<Longrightarrow> \<exists>ts. v = JArr (map JStr ts) \<and> w = v"
proof -
  assume p: "safeParse (ZArray zstr None) v = Some w"
  have string: "safeParse zstr x = Some y \<longleftrightarrow> (\<exists>s. x = JStr s \<and> y = JStr s)" for x y
    by (auto simp: zstr_def string_law split: json.splits)
  obtain vs ws where v: "v = JArr vs" "w = JArr ws" "list_all2 (\<lambda>x y. safeParse zstr x = Some y) vs ws"
    using array_SomeD [OF p] unfolding sequence_map_Some by blast
  have "vs = ws \<and> (\<exists>ts. vs = map JStr ts)"
    using v(3) by (induction rule: list_all2_induct) (auto simp: string intro: exI [of _ "_ # _"])
  with v(1,2) show ?thesis by blast
qed

lemma tag_field:
  assumes "safeParse (ZTransform (ZOptional (ZUnion [zstr, ZArray zstr None])) slice_tags) v = Some w"
  shows "w = JUndef \<or> (\<exists>ts. w = JArr (map JStr ts) \<and> length ts \<le> 10)"
proof (cases "v = JUndef")
  case False
  obtain x where x: "safeParse (ZUnion [zstr, ZArray zstr None]) v = Some x" "w = slice_tags x"
    using assms False by (auto simp: transform_law optional_law)
  show ?thesis
  proof (cases "safeParse zstr v")
    case (Some y)
    then obtain s where s: "v = JStr s" "y = v" using string_SomeD [of "[]" v y] by (auto simp: zstr_def)
    then have "w = JArr (map JStr [s])" using x Some by (auto simp: union_law slice_tags_def)
    then show ?thesis by (intro disjI2 exI [of _ "[s]"]) simp
  next
    case None
    then have "safeParse (ZArray zstr None) v = Some x" using x by (simp add: union_law split: if_splits)
    then obtain ts where "x = JArr (map JStr ts)" using strings_only by blast
    then have "w = JArr (map JStr (take 10 ts))" using x by (simp add: slice_tags_def take_map)
    then show ?thesis by (intro disjI2 exI [of _ "take 10 ts"]) simp
  qed
qed (use assms in \<open>simp add: transform_law optional_law slice_tags_def\<close>)

lemma union_tags:
  "safeParse (ZUnion [zstr, ZArray zstr None]) v \<noteq> None \<longleftrightarrow> (\<exists>s. v = JStr s) \<or> (\<exists>ts. v = JArr (map JStr ts))"
proof -
  have "safeParse zstr v \<noteq> None \<longleftrightarrow> (\<exists>s. v = JStr s)" by (simp add: zstr_def string_law split: json.splits)
  moreover have "safeParse (ZArray zstr None) v \<noteq> None \<longleftrightarrow> (\<exists>ts. v = JArr (map JStr ts))"
  proof
    assume "\<exists>ts. v = JArr (map JStr ts)"
    then obtain ts where "v = JArr (map JStr ts)" by blast
    moreover have "sequence (map (safeParse zstr \<circ> JStr) ts) = Some (map JStr ts)"
      by (induction ts) (simp_all add: zstr_def string_law)
    ultimately show "safeParse (ZArray zstr None) v \<noteq> None" by (simp add: array_law within_max_def)
  qed (use strings_only in blast)
  ultimately show ?thesis by (auto simp: union_law)
qed

end

text \<open>
  Which addresses the list routes accept: the search of the problem list is refused exactly when its
  tag is neither absent, nor a text, nor a list of texts; everything else that is malformed is replaced by its
  default. What the page gets is in range: a text of 1 to 100 code units or none, at most ten
  tags, a batch size from 1 to 100. The administration's list accepts every address.
\<close>

lemma list_searches_in_range:
  assumes "zod P U D"
  shows "(P problemsSearchSchema (JObj ms) = None \<longleftrightarrow>
        (let v = jget (js ''tag'') (JObj ms) in v \<noteq> JUndef \<and> (\<forall>s. v \<noteq> JStr s) \<and> (\<forall>ts. v \<noteq> JArr (map JStr ts))))
    \<and> (\<forall>w. P problemsSearchSchema (JObj ms) = Some w \<longrightarrow>
         (jget (js ''q'') w = JUndef \<or> (\<exists>s. jget (js ''q'') w = JStr s \<and> 1 \<le> int (length s) \<and> int (length s) \<le> 100))
         \<and> (jget (js ''tag'') w = JUndef \<or> (\<exists>ts. jget (js ''tag'') w = JArr (map JStr ts) \<and> length ts \<le> 10))
         \<and> (\<exists>n. jget (js ''size'') w = JNum (Fin (of_int n)) \<and> 1 \<le> n \<and> n \<le> 100))
    \<and> P adminProblemsSearchSchema (JObj ms) \<noteq> None"
proof -
  note search_accepted = zod.search_accepted [OF assms] and union_tags = zod.union_tags [OF assms]
    and object = zod.object_SomeD [OF assms]
  have "P problemsSearchSchema (JObj ms) = None \<longleftrightarrow>
      (let v = jget (js ''tag'') (JObj ms) in v \<noteq> JUndef \<and> (\<forall>s. v \<noteq> JStr s) \<and> (\<forall>ts. v \<noteq> JArr (map JStr ts)))"
    using search_accepted [of ms] union_tags [of "jget (js ''tag'') (JObj ms)"] by (auto simp: Let_def simp del: js_Cons)
  moreover have "jget (js ''q'') w = JUndef \<or> (\<exists>s. jget (js ''q'') w = JStr s \<and> 1 \<le> int (length s) \<and> int (length s) \<le> 100)"
    if "P problemsSearchSchema (JObj ms) = Some w" for w
    using object [OF that [unfolded problemsSearchSchema_def], of "js ''q''"] by (intro zod.text_field [OF assms]) simp
  moreover have "jget (js ''tag'') w = JUndef \<or> (\<exists>ts. jget (js ''tag'') w = JArr (map JStr ts) \<and> length ts \<le> 10)"
    if "P problemsSearchSchema (JObj ms) = Some w" for w
    using object [OF that [unfolded problemsSearchSchema_def], of "js ''tag''"] by (intro zod.tag_field [OF assms]) simp
  moreover have "\<exists>n. jget (js ''size'') w = JNum (Fin (of_int n)) \<and> 1 \<le> n \<and> n \<le> 100"
    if "P problemsSearchSchema (JObj ms) = Some w" for w
  proof -
    have "P (ZDefault (ZCatch (ZCoerceNumber [NInt, NMin 1, NMax 100]) (JNum (Fin 20))) (JNum (Fin 20))) (jget (js ''size'') (JObj ms))
        = Some (jget (js ''size'') w)"
      using object [OF that [unfolded problemsSearchSchema_def], of "js ''size''"] by simp
    then have "jget (js ''size'') w = JNum (Fin (of_int 20))
        \<or> P (ZCoerceNumber [NInt, NMin 1, NMax 100]) (jget (js ''size'') (JObj ms)) = Some (jget (js ''size'') w)"
      by (auto simp: zod.default_law [OF assms] zod.catch_law [OF assms] simp del: js_Cons split: if_splits option.splits)
    then show ?thesis
    proof
      assume "jget (js ''size'') w = JNum (Fin (of_int 20))"
      then show ?thesis by (intro exI [of _ 20]) simp
    qed (rule zod.coerce_int [OF assms])
  qed
  moreover have "\<exists>w. P adminProblemsSearchSchema (JObj ms) = Some w"
    unfolding adminProblemsSearchSchema_def
    by (rule zod.object_SomeI [OF assms refl]) (auto simp: zod.default_catch_total [OF assms])
  ultimately show ?thesis by blast
qed

section \<open>Background failures\<close>

text \<open>
  The page of the problem editor drops the editor, and with it everything not saved, when the problem
  is read again in the background and that fails, whatever the form holds: the error takes its place, and
  after the next success a new editor is opened with the content of the server. The message shown
  meanwhile says that no local data was overwritten. A successful read leaves the form alone.
\<close>

theorem failed_refetch_drops_edits:
  assumes "AdminProblemWorkbench \<lparr>qr_data = Some p, qr_error = None\<rparr> panel (Some opened) = WorkbenchMounted e"
  shows "mounted_editor (AdminProblemWorkbench \<lparr>qr_data = Some p, qr_error = Some x\<rparr> panel (Some e)) = None
    \<and> mounted_editor (AdminProblemWorkbench \<lparr>qr_data = Some p', qr_error = None\<rparr> panel
         (mounted_editor (AdminProblemWorkbench \<lparr>qr_data = Some p, qr_error = Some x\<rparr> panel (Some e)))) = Some (open_editor p' panel)
    \<and> formValues (open_editor p' panel) = toFormValues p'
    \<and> map_option formValues (mounted_editor (AdminProblemWorkbench \<lparr>qr_data = Some p', qr_error = None\<rparr> panel (Some e))) = Some (formValues e)"
  by (simp add: AdminProblemWorkbench_def mounted_editor_def isPending_def open_editor_def)

definition blank_problem :: AdminProblem where
  "blank_problem = \<lparr>ap_id = [], ap_slug = [], ap_public = True, ap_active = True, ap_core = False, ap_title = js ''A'',
     ap_statement = [], ap_inputDescription = [], ap_outputDescription = [], ap_constraints = None, ap_hint = None,
     ap_difficulty = EASY, ap_tags = [], ap_samples = [], ap_language = \<lparr>lang_id = js ''cpp'', displayName = js ''C'', starter = []\<rparr>,
     ap_judgeTemplate = None, ap_solutionPrefix = None, ap_testData = None, ap_published = True, ap_rowVersion = 1\<rparr>"

theorem failed_refetch_drops_edits_witness:
  "mounted_editor (AdminProblemWorkbench \<lparr>qr_data = Some blank_problem, qr_error = Some (Exn None)\<rparr> None
     (Some (open_editor blank_problem None))) = None"
  by (rule failed_refetch_drops_edits [where opened = "open_editor blank_problem None" and p' = blank_problem, THEN conjunct1])
    (simp add: AdminProblemWorkbench_def isPending_def open_editor_def)

text \<open>Once everything is loaded the overview always has the group of the judge nodes, so the page that says
  there is nothing to do is never shown.\<close>

lemma dashboard_never_empty: "AdminDashboardPage ps us ns \<noteq> DashNothing"
  by (auto simp: AdminDashboardPage_def todo_groups_def isPending_def isError_def Let_def)

text \<open>An address beyond the last page of a list of one page shows the page of an empty list, without pagination.\<close>

lemma lost_page:
  "AdminProblemListPage \<lparr>al_search = \<lparr>sa_page = 2, sa_q = [], sa_status = AllStatuses\<rparr>, al_keyword = [],
      al_problems = \<lparr>qr_data = Some \<lparr>ab_items = [], ab_page = 2, ab_totalPages = 1, ab_totalElements = 5\<rparr>, qr_error = None\<rparr>\<rparr> = AdminNothing False
   \<and> admin_pagination \<lparr>al_search = \<lparr>sa_page = 2, sa_q = [], sa_status = AllStatuses\<rparr>, al_keyword = [],
      al_problems = \<lparr>qr_data = Some \<lparr>ab_items = [], ab_page = 2, ab_totalPages = 1, ab_totalElements = 5\<rparr>, qr_error = None\<rparr>\<rparr> = None"
  by (simp add: AdminProblemListPage_def admin_pagination_def isPending_def isError_def)

end
