(* ===== verification/Site_Pages.thy ===== *)
theory Site_Pages
  imports Admin_Users
begin

text \<open>
  The pages and shells around the features: the login page (\<open>routes/_site.login.tsx\<close>,
  \<open>app/pages/login-page.tsx\<close>), the password page (\<open>routes/_site.account.password.tsx\<close>), the home page
  (\<open>routes/_site.index.tsx\<close>), the account menu, the navigation of the administration with its breadcrumbs
  (\<open>app/shells\<close>), and the components with a state of their own: the split panes
  (\<open>components/ui/split-pane.tsx\<close>) and the password field.
\<close>

section \<open>Login\<close>

definition login_validateSearch :: "json \<Rightarrow> jsstr" where
  "login_validateSearch v = safeReturnPath (jget (js ''returnTo'') v) (js ''/'')"

definition login_beforeLoad :: "json \<Rightarrow> jsstr option" where
  "login_beforeLoad session =
     (if session_authenticated session
      then Some (if must_change_password (session_user session) then js ''/account/password'' else js ''/'') else None)"

record login_page =
  lg_returnTo :: jsstr
  lg_username :: jsstr
  lg_password :: jsstr
  lg_mutation :: mutation_state
  lg_session :: "json option"
  lg_location :: "jsstr option"
  lg_sent :: "(jsstr \<times> jsstr) list"

definition open_login :: "json \<Rightarrow> login_page" where
  "open_login v =
     \<lparr>lg_returnTo = login_validateSearch v, lg_username = [], lg_password = [], lg_mutation = MutIdle, lg_session = None,
      lg_location = None, lg_sent = []\<rparr>"

text \<open>The form is submitted when the browser finds the fields valid; a pending login is not repeated.\<close>

definition login_submit :: "login_page \<Rightarrow> login_page" where
  "login_submit s =
     (if \<not> username_valid (lg_username s) \<or> lg_password s = [] \<or> length (lg_password s) > 128 \<or> lg_mutation s = MutPending then s
      else s\<lparr>lg_mutation := MutPending, lg_sent := lg_sent s @ [(lg_username s, lg_password s)]\<rparr>)"

definition login_answer :: "thrown + json \<Rightarrow> login_page \<Rightarrow> login_page" where
  "login_answer r s =
     (if lg_mutation s \<noteq> MutPending then s
      else case r of
          Inl e \<Rightarrow> s\<lparr>lg_mutation := MutError e\<rparr>
        | Inr session \<Rightarrow> s\<lparr>lg_mutation := MutIdle, lg_session := Some session, lg_password := [],
            lg_location := Some (if session_authenticated session \<and> must_change_password (session_user session)
                                 then js ''/account/password'' else lg_returnTo s)\<rparr>)"

datatype login_op = TypeLoginName jsstr | TypeLoginPassword jsstr | SubmitLogin | LoginAnswer "thrown + json"

definition LoginPage :: "login_op \<Rightarrow> login_page \<Rightarrow> login_page" where
  "LoginPage op s =
     (case op of
        TypeLoginName v \<Rightarrow> s\<lparr>lg_username := v\<rparr>
      | TypeLoginPassword v \<Rightarrow> s\<lparr>lg_password := v\<rparr>
      | SubmitLogin \<Rightarrow> login_submit s
      | LoginAnswer r \<Rightarrow> login_answer r s)"

definition mutation_error :: "mutation_state \<Rightarrow> thrown option" where
  "mutation_error m = (case m of MutError e \<Rightarrow> Some e | _ \<Rightarrow> None)"

definition LoginPageView :: "login_page \<Rightarrow> auth_text option \<times> bool" where
  "LoginPageView s = (map_option authErrorMessage (mutation_error (lg_mutation s)), lg_mutation s = MutPending)"

section \<open>The password page\<close>

record password_page =
  pw_current :: jsstr
  pw_new :: jsstr
  pw_confirm :: jsstr
  pw_mutation :: mutation_state
  pw_forgotten :: bool
  pw_login :: "jsstr option"
  pw_sent :: "(jsstr \<times> jsstr) list"

definition open_password :: password_page where
  "open_password = \<lparr>pw_current = [], pw_new = [], pw_confirm = [], pw_mutation = MutIdle, pw_forgotten = False, pw_login = None, pw_sent = []\<rparr>"

definition mismatch :: "password_page \<Rightarrow> bool" where
  "mismatch s \<longleftrightarrow> length (pw_confirm s) > 0 \<and> pw_confirm s \<noteq> pw_new s"

text \<open>What the browser requires of the three fields (\<open>required\<close>, \<open>minLength\<close>, \<open>maxLength\<close>).\<close>

definition password_fields_valid :: "password_page \<Rightarrow> bool" where
  "password_fields_valid s \<longleftrightarrow> pw_current s \<noteq> [] \<and> length (pw_current s) \<le> 128
     \<and> 12 \<le> length (pw_new s) \<and> length (pw_new s) \<le> 128 \<and> 12 \<le> length (pw_confirm s) \<and> length (pw_confirm s) \<le> 128"

definition password_submit :: "password_page \<Rightarrow> password_page" where
  "password_submit s =
     (if password_fields_valid s \<and> \<not> mismatch s \<and> pw_mutation s \<noteq> MutPending
      then s\<lparr>pw_mutation := MutPending, pw_sent := pw_sent s @ [(pw_current s, pw_new s)]\<rparr> else s)"

text \<open>Success ends the session and leads to the login page; so does the effect on a 401.\<close>

definition password_answer :: "thrown option \<Rightarrow> password_page \<Rightarrow> password_page" where
  "password_answer r s =
     (if pw_mutation s \<noteq> MutPending then s
      else case r of
          None \<Rightarrow> s\<lparr>pw_mutation := MutIdle, pw_current := [], pw_new := [], pw_confirm := [], pw_forgotten := True, pw_login := Some (js ''/'')\<rparr>
        | Some e \<Rightarrow>
            if with_status 401 e
            then s\<lparr>pw_mutation := MutError e, pw_forgotten := True, pw_login := Some (js ''/account/password'')\<rparr>
            else s\<lparr>pw_mutation := MutError e\<rparr>)"

datatype password_op =
    TypeCurrent jsstr | TypeNew jsstr | TypeConfirm jsstr | SubmitPassword | PasswordAnswer "thrown option"

definition ChangePasswordPage :: "password_op \<Rightarrow> password_page \<Rightarrow> password_page" where
  "ChangePasswordPage op s =
     (case op of
        TypeCurrent v \<Rightarrow> s\<lparr>pw_current := v\<rparr>
      | TypeNew v \<Rightarrow> s\<lparr>pw_new := v\<rparr>
      | TypeConfirm v \<Rightarrow> s\<lparr>pw_confirm := v\<rparr>
      | SubmitPassword \<Rightarrow> password_submit s
      | PasswordAnswer r \<Rightarrow> password_answer r s)"

record password_field =
  pf_visible :: bool
  pf_capsLock :: bool

datatype field_event = ToggleVisible | FieldKey bool | FieldBlur

definition PasswordField :: "field_event \<Rightarrow> password_field \<Rightarrow> password_field" where
  "PasswordField ev f =
     (case ev of
        ToggleVisible \<Rightarrow> f\<lparr>pf_visible := \<not> pf_visible f\<rparr>
      | FieldKey caps \<Rightarrow> f\<lparr>pf_capsLock := caps\<rparr>
      | FieldBlur \<Rightarrow> f\<lparr>pf_capsLock := False\<rparr>)"

text \<open>\<open>describedBy\<close>: the ids of the messages that are shown.\<close>

definition describedBy :: "jsstr \<Rightarrow> bool \<Rightarrow> jsstr option \<Rightarrow> password_field \<Rightarrow> jsstr option" where
  "describedBy i invalid errorId f =
     (let ids = filter (\<lambda>x. x \<noteq> []) ((if invalid then [or_empty errorId] else []) @ (if pf_capsLock f then [i @ js ''-caps-lock''] else []))
      in if ids = [] then None else Some (join (js '' '') ids))"

section \<open>Home page and account menu\<close>

record home_page =
  home_passwordNotice :: bool
  home_continue :: bool
  home_admin :: bool

definition session_admin :: "json \<Rightarrow> bool" where
  "session_admin v \<longleftrightarrow> session_authenticated v \<and> jget (js ''role'') (session_user v) = JStr (js ''ADMIN'')"

definition HomePage :: "json query \<Rightarrow> home_page" where
  "HomePage q =
     (case qr_data q of
        Some v \<Rightarrow> \<lparr>home_passwordNotice = (session_authenticated v \<and> must_change_password (session_user v)),
                   home_continue = session_authenticated v, home_admin = session_admin v\<rparr>
      | None \<Rightarrow> \<lparr>home_passwordNotice = False, home_continue = False, home_admin = False\<rparr>)"

datatype menu_item = ItemSite | ItemPassword bool | ItemAdmin | ItemLogout bool bool

datatype trigger_status = StatusLeaving | StatusFailed | StatusPassword

definition triggerStatus :: "json \<Rightarrow> mutation_state \<Rightarrow> trigger_status option" where
  "triggerStatus user m =
     (if m = MutPending then Some StatusLeaving else if mutation_error m \<noteq> None then Some StatusFailed
      else if must_change_password user then Some StatusPassword else None)"

datatype label_part = LabelName jsstr | LabelPassword | LabelFailed

definition triggerLabel :: "json \<Rightarrow> mutation_state \<Rightarrow> label_part list" where
  "triggerLabel user m =
     [LabelName (as_str (jget (js ''username'') user))] @ (if must_change_password user then [LabelPassword] else [])
     @ (if mutation_error m \<noteq> None then [LabelFailed] else [])"

record account_menu_view =
  am_status :: "trigger_status option"
  am_label :: "label_part list"
  am_error :: "auth_text option"
  am_items :: "menu_item list"

text \<open>The items of the menu; the last one is disabled while the logout is pending and asks to retry after a failure.\<close>

definition AccountMenuView :: "bool \<Rightarrow> bool \<Rightarrow> json \<Rightarrow> mutation_state \<Rightarrow> account_menu_view" where
  "AccountMenuView showAdmin showSite user m =
     \<lparr>am_status = triggerStatus user m, am_label = triggerLabel user m,
      am_error = map_option authErrorMessage (mutation_error m),
      am_items = (if showSite then [ItemSite] else []) @ [ItemPassword (must_change_password user)]
        @ (if showAdmin \<and> jget (js ''role'') user = JStr (js ''ADMIN'') then [ItemAdmin] else [])
        @ [ItemLogout (m = MutPending) (mutation_error m \<noteq> None)]\<rparr>"

datatype account_menu = MenuChecking | MenuRetry | MenuLogin | MenuShown account_menu_view

definition AccountMenu :: "bool \<Rightarrow> bool \<Rightarrow> json query \<Rightarrow> mutation_state \<Rightarrow> account_menu" where
  "AccountMenu showAdmin showSite q m =
     (if isPending q then MenuChecking
      else if isError q then MenuRetry
      else case qr_data q of
          Some v \<Rightarrow> if session_authenticated v then MenuShown (AccountMenuView showAdmin showSite (session_user v) m) else MenuLogin
        | None \<Rightarrow> MenuChecking)"

text \<open>The end of a logout: the state of the mutation, whether the session is forgotten and the login page opened.\<close>

definition logout_ends :: "thrown option \<Rightarrow> mutation_state \<times> bool" where
  "logout_ends r =
     (case r of None \<Rightarrow> (MutIdle, True) | Some e \<Rightarrow> (MutError e, with_status 401 e))"

section \<open>Navigation\<close>

datatype admin_section = Dashboard | ProblemsSection | LanguagesSection | UsersSection

record AdminNavigationLeaf =
  nl_id :: admin_section
  nl_activePaths :: "jsstr list"
  nl_to :: jsstr

record AdminNavigationGroup =
  ng_label :: jsstr
  ng_children :: "AdminNavigationLeaf list"

datatype AdminNavigationEntry = NavLeaf AdminNavigationLeaf | NavGroup AdminNavigationGroup

definition adminNavigationEntries :: "AdminNavigationEntry list" where
  "adminNavigationEntries =
     [NavLeaf \<lparr>nl_id = Dashboard, nl_activePaths = [js ''/admin'', js ''/admin/dashborad''], nl_to = js ''/admin''\<rparr>,
      NavLeaf \<lparr>nl_id = ProblemsSection, nl_activePaths = [js ''/admin/problems''], nl_to = js ''/admin/problems''\<rparr>,
      NavLeaf \<lparr>nl_id = LanguagesSection, nl_activePaths = [js ''/admin/languages''], nl_to = js ''/admin/languages''\<rparr>,
      NavLeaf \<lparr>nl_id = UsersSection, nl_activePaths = [js ''/admin/users''], nl_to = js ''/admin/users''\<rparr>]"

definition isAdminNavigationLeafActive :: "AdminNavigationLeaf \<Rightarrow> jsstr \<Rightarrow> bool" where
  "isAdminNavigationLeafActive item path =
     list_ex (\<lambda>p. path = p \<or> (p \<noteq> js ''/admin'' \<and> startsWith path (p @ js ''/''))) (nl_activePaths item)"

definition isAdminNavigationGroupActive :: "AdminNavigationGroup \<Rightarrow> jsstr \<Rightarrow> bool" where
  "isAdminNavigationGroupActive g path = list_ex (\<lambda>item. isAdminNavigationLeafActive item path) (ng_children g)"

record AdminBreadcrumb =
  bc_label :: "admin_section + jsstr"
  bc_to :: "jsstr option"

definition withPage :: "jsstr option \<Rightarrow> AdminNavigationLeaf \<Rightarrow> AdminBreadcrumb list" where
  "withPage pageCrumb entry =
     (case pageCrumb of
        None \<Rightarrow> [\<lparr>bc_label = Inl (nl_id entry), bc_to = None\<rparr>]
      | Some l \<Rightarrow> [\<lparr>bc_label = Inl (nl_id entry), bc_to = Some (nl_to entry)\<rparr>, \<lparr>bc_label = Inr l, bc_to = None\<rparr>])"

text \<open>The loop over the entries: the first active leaf, alone or below its group.\<close>

fun breadcrumbs_in :: "jsstr \<Rightarrow> jsstr option \<Rightarrow> AdminNavigationEntry list \<Rightarrow> AdminBreadcrumb list" where
  "breadcrumbs_in path pageCrumb [] = []"
| "breadcrumbs_in path pageCrumb (NavGroup g # es) =
     (case find (\<lambda>child. isAdminNavigationLeafActive child path) (ng_children g) of
        Some leaf \<Rightarrow> \<lparr>bc_label = Inr (ng_label g), bc_to = None\<rparr> # withPage pageCrumb leaf
      | None \<Rightarrow> breadcrumbs_in path pageCrumb es)"
| "breadcrumbs_in path pageCrumb (NavLeaf e # es) =
     (if isAdminNavigationLeafActive e path then withPage pageCrumb e else breadcrumbs_in path pageCrumb es)"

definition adminBreadcrumbsFor :: "jsstr \<Rightarrow> jsstr option \<Rightarrow> AdminBreadcrumb list" where
  "adminBreadcrumbsFor path pageCrumb = breadcrumbs_in path pageCrumb adminNavigationEntries"

text \<open>The links of the breadcrumbs, with the search each section starts from.\<close>

definition SectionLink :: "jsstr \<Rightarrow> (jsstr \<times> jsstr) list" where
  "SectionLink target =
     (if target = js ''/admin/problems'' then [(js ''page'', js ''1''), (js ''q'', []), (js ''status'', js ''ALL'')]
      else if target = js ''/admin/users'' then [(js ''page'', js ''1'')] else [])"

datatype crumb = CrumbLink jsstr "(jsstr \<times> jsstr) list" | CrumbHere | CrumbText

definition AdminBreadcrumbs :: "jsstr \<Rightarrow> jsstr option \<Rightarrow> crumb list" where
  "AdminBreadcrumbs path pageCrumb =
     (let trail = adminBreadcrumbsFor path pageCrumb in
      (if trail = [] then CrumbHere else CrumbLink (js ''/admin'') [])
      # map (\<lambda>(i, c). if i + 1 = length trail then CrumbHere
           else case bc_to c of Some t \<Rightarrow> CrumbLink t (SectionLink t) | None \<Rightarrow> CrumbText) (enumerate 0 trail))"

text \<open>The sidebar: the link of a leaf with its search and whether it is the current page, and the
  groups, open while one of their leaves is active or when the user opened them (\<open>userOpened\<close>).\<close>

record leaf_link =
  ll_id :: admin_section
  ll_to :: jsstr
  ll_search :: "(jsstr \<times> jsstr) list"
  ll_active :: bool

definition AdminNavigationLeafLink :: "jsstr \<Rightarrow> AdminNavigationLeaf \<Rightarrow> leaf_link" where
  "AdminNavigationLeafLink path item =
     (let (target, url_search) =
        (if nl_to item = js ''/admin'' then (js ''/admin'', [])
         else if nl_to item = js ''/admin/users'' then (js ''/admin/users'', [(js ''page'', js ''1'')])
         else if nl_to item = js ''/admin/languages'' then (js ''/admin/languages'', [])
         else (js ''/admin/problems'', [(js ''page'', js ''1''), (js ''q'', []), (js ''status'', js ''ALL'')]))
      in \<lparr>ll_id = nl_id item, ll_to = target, ll_search = url_search, ll_active = isAdminNavigationLeafActive item path\<rparr>)"

datatype nav_item = NavLink leaf_link | NavFold jsstr bool bool "leaf_link list"

definition AdminNavigationGroupItem :: "jsstr \<Rightarrow> bool \<Rightarrow> AdminNavigationGroup \<Rightarrow> nav_item" where
  "AdminNavigationGroupItem path userOpened g =
     (let act = isAdminNavigationGroupActive g path
      in NavFold (ng_label g) act (act \<or> userOpened) (map (AdminNavigationLeafLink path) (ng_children g)))"

definition toggle_group :: "jsstr \<Rightarrow> AdminNavigationGroup \<Rightarrow> bool \<Rightarrow> bool \<Rightarrow> bool" where
  "toggle_group path g open_now userOpened = (if isAdminNavigationGroupActive g path then userOpened else open_now)"

definition AdminNavigation :: "jsstr \<Rightarrow> (jsstr \<Rightarrow> bool) \<Rightarrow> nav_item list" where
  "AdminNavigation path userOpened =
     map (\<lambda>e. case e of
        NavGroup g \<Rightarrow> AdminNavigationGroupItem path (userOpened (ng_label g)) g
      | NavLeaf l \<Rightarrow> NavLink (AdminNavigationLeafLink path l)) adminNavigationEntries"

text \<open>\<open>/^\/problems\/[^/]+\/?$/\<close>: the pages that fill the window.\<close>

definition coding :: "jsstr \<Rightarrow> bool" where
  "coding path \<longleftrightarrow> startsWith path (js ''/problems/'')
     \<and> (let t = drop 10 path; u = (if t \<noteq> [] \<and> last t = 47 then butlast t else t) in u \<noteq> [] \<and> 47 \<notin> set u)"

section \<open>Split panes\<close>

text \<open>\<open>Math.min(max, Math.max(min, next))\<close> for finite bounds.\<close>

definition clamp :: "rat \<Rightarrow> rat \<Rightarrow> number \<Rightarrow> number" where
  "clamp lo hi x =
     (case x of Fin q \<Rightarrow> Fin (min hi (max lo q)) | Infinity up \<Rightarrow> Fin (min hi (if up then hi else lo)) | NaN \<Rightarrow> NaN)"

record split_pane =
  sp_horizontal :: bool
  sp_min :: rat
  sp_max :: rat
  sp_default :: rat
  sp_ratio :: number
  sp_dragging :: bool
  sp_stored :: "jsstr option"

text \<open>\<open>localStorage.getItem\<close> may throw (\<open>Inl\<close>); \<open>Number(null)\<close> is 0.\<close>

definition readRatio :: "(unit + jsstr option) option \<Rightarrow> rat \<Rightarrow> rat \<Rightarrow> rat \<Rightarrow> number" where
  "readRatio item fallback lo hi =
     (case item of
        Some (Inr v) \<Rightarrow>
          (case (case v of Some s \<Rightarrow> Number_of s | None \<Rightarrow> Fin 0) of
             Fin q \<Rightarrow> if lo \<le> q \<and> q \<le> hi then Fin q else Fin fallback
           | _ \<Rightarrow> Fin fallback)
      | _ \<Rightarrow> Fin fallback)"

definition SplitPane :: "bool \<Rightarrow> rat \<Rightarrow> rat \<Rightarrow> rat \<Rightarrow> (unit + jsstr option) option \<Rightarrow> split_pane" where
  "SplitPane horizontal dflt lo hi item =
     \<lparr>sp_horizontal = horizontal, sp_min = lo, sp_max = hi, sp_default = dflt, sp_ratio = readRatio item dflt lo hi,
      sp_dragging = False, sp_stored = None\<rparr>"

definition commit_ratio :: "bool \<Rightarrow> number \<Rightarrow> split_pane \<Rightarrow> split_pane" where
  "commit_ratio can_store x s =
     (let r = clamp (sp_min s) (sp_max s) x in
      s\<lparr>sp_ratio := r, sp_stored := (if can_store then Some (number_text r) else sp_stored s)\<rparr>)"

text \<open>The place of the pointer between the edges of the container, which may have no extent.\<close>

definition ratioAt :: "rat \<Rightarrow> rat \<Rightarrow> rat \<Rightarrow> number" where
  "ratioAt pointer edge extent = num_div (to_double (pointer - edge)) (Fin extent)"

definition STEP :: number where
  "STEP = to_double (1 / 50)"

definition split_onKeyDown :: "bool \<Rightarrow> jsstr \<Rightarrow> split_pane \<Rightarrow> split_pane" where
  "split_onKeyDown can_store key s =
     (let decrease = (if sp_horizontal s then js ''ArrowLeft'' else js ''ArrowUp'');
          increase = (if sp_horizontal s then js ''ArrowRight'' else js ''ArrowDown'') in
      if key = decrease then commit_ratio can_store (num_plus (sp_ratio s) (negate STEP)) s
      else if key = increase then commit_ratio can_store (num_plus (sp_ratio s) STEP) s
      else if key = js ''Home'' then commit_ratio can_store (Fin (sp_min s)) s
      else if key = js ''End'' then commit_ratio can_store (Fin (sp_max s)) s
      else s)"

datatype split_op = PointerDown | PointerMove rat rat rat | PointerUp | DoubleClick | SplitKey jsstr

definition split_step :: "bool \<times> split_op \<Rightarrow> split_pane \<Rightarrow> split_pane" where
  "split_step = (\<lambda>(can_store, op) s.
     case op of
       PointerDown \<Rightarrow> s\<lparr>sp_dragging := True\<rparr>
     | PointerMove p e x \<Rightarrow> if sp_dragging s then commit_ratio can_store (ratioAt p e x) s else s
     | PointerUp \<Rightarrow> s\<lparr>sp_dragging := False\<rparr>
     | DoubleClick \<Rightarrow> commit_ratio can_store (Fin (sp_default s)) s
     | SplitKey k \<Rightarrow> split_onKeyDown can_store k s)"

end
