(* ===== verification/Return_Path.thy ===== *)
theory Return_Path
  imports Auth
begin

text \<open>
  The return path checked twice. One \<open>safeReturnPath\<close> can be defeated with dot segments, because the
  parsed path may start with two slashes where the text did not. Its result, however, is a parsed path: it has
  no dot segments any more, and encoding makes no new ones. So the second check, of the login page after the
  one of the guard, leaves a path on the site.
\<close>

section \<open>Encoded paths\<close>

text \<open>A text of dots, plain or percent-encoded.\<close>

fun dots_only :: "jsstr \<Rightarrow> bool" where
  "dots_only [] = True"
| "dots_only (c # s) =
     (if c = 46 then dots_only s
      else if c = 37 then (case s of d # e # r \<Rightarrow> d = 50 \<and> (e = 69 \<or> e = 101) \<and> dots_only r | _ \<Rightarrow> False)
      else False)"

lemma lower_char: "is_upper c \<Longrightarrow> uint (c + 32) = uint c + 32"
  by (simp add: in_range_def uint_word_ariths)

lemma lower_ascii_char:
  "(if is_upper c then c + 32 else c) = 46 \<longleftrightarrow> c = 46" "(if is_upper c then c + 32 else c) = 37 \<longleftrightarrow> c = 37"
  "(if is_upper c then c + 32 else c) = 50 \<longleftrightarrow> c = 50" "(if is_upper c then c + 32 else c) = 101 \<longleftrightarrow> c = 69 \<or> c = 101"
  using lower_char [of c] by (auto simp: in_range_def word_uint_eq_iff)

lemma dot_segments: "single_dot s \<or> double_dot s \<Longrightarrow> dots_only s"
  by (auto simp: single_dot_def double_dot_def lower_ascii_def map_eq_Cons_conv lower_ascii_char)

definition enc :: "int \<Rightarrow> jsstr" where
  "enc b = (if in_path_set b then percent_byte b else [of_int b])"

lemma percent_encode_enc: "percent_encode in_path_set s = concat (map enc (utf8 s))"
  by (simp add: percent_encode_def enc_def [abs_def])

lemma hex_upper_eq: "0 \<le> d \<Longrightarrow> d < 16 \<Longrightarrow> hex_upper d = k \<longleftrightarrow> (if d < 10 then 48 + d else 55 + d) = uint k"
  by (metis of_int_uint_cu uint_hex_upper)

lemma reserved_not_dots:
  assumes "in_path_set b" and "0 \<le> b" and "b < 256"
  shows "\<not> dots_only (enc b @ r)"
proof
  assume "dots_only (enc b @ r)"
  then have "hex_upper (b div 16) = 50" "hex_upper (b mod 16) = 69 \<or> hex_upper (b mod 16) = 101"
    using assms(1) by (simp_all add: enc_def percent_byte_def)
  moreover have "0 \<le> b div 16" "b div 16 < 16" "0 \<le> b mod 16" "b mod 16 < 16" using assms(2,3) by auto
  ultimately have "b div 16 = 2" "b mod 16 = 14" by (auto simp: hex_upper_eq split: if_splits)
  then have "b = 46" using div_mult_mod_eq [of b 16] by simp
  with assms(1) show False by (simp add: in_path_set_def)
qed

lemma enc_head: "concat (map enc (b # bs)) = c # r \<Longrightarrow> c \<noteq> 37 \<Longrightarrow> \<not> in_path_set b \<and> of_int b = c \<and> concat (map enc bs) = r"
  by (auto simp: enc_def percent_byte_def split: if_splits)

lemma dots_not_reserved:
  "list_all (\<lambda>b. 0 \<le> b \<and> b < 256) bs \<Longrightarrow> dots_only (concat (map enc bs)) \<Longrightarrow> \<forall>b\<in>set bs. \<not> in_path_set b"
proof (induction bs rule: length_induct)
  case (1 bs)
  show ?case
  proof (cases bs)
    case (Cons b bs')
    have nb: "\<not> in_path_set b"
      using 1(2,3) reserved_not_dots [of b "concat (map enc bs')"] by (auto simp: Cons)
    then have "enc b = [of_int b]" by (simp add: enc_def)
    then have d: "dots_only (of_int b # concat (map enc bs'))" using 1(3) by (simp add: Cons del: dots_only.simps)
    show ?thesis
    proof (cases "(of_int b :: code_unit) = 46")
      case True
      then have "dots_only (concat (map enc bs'))" using d by simp
      moreover have "length bs' < length bs" "list_all (\<lambda>b. 0 \<le> b \<and> b < 256) bs'" using 1(2) by (simp_all add: Cons)
      ultimately have "\<forall>b\<in>set bs'. \<not> in_path_set b" using 1(1) by blast
      then show ?thesis using nb by (simp add: Cons)
    next
      case False
      then obtain e r where r: "concat (map enc bs') = 50 # e # r" "e = 69 \<or> e = 101" "dots_only r"
        using d by (auto split: if_splits list.splits)
      then obtain b1 bs1 where b1: "bs' = b1 # bs1" by (cases bs') auto
      note h1 = enc_head [OF r(1) [unfolded b1]]
      then have r1: "concat (map enc bs1) = e # r" by simp
      then obtain b2 bs2 where b2: "bs1 = b2 # bs2" by (cases bs1) auto
      note h2 = enc_head [OF r1 [unfolded b2]]
      have "e \<noteq> 37" using r(2) by auto
      with h2 have "dots_only (concat (map enc bs2))" using r(3) by simp
      moreover have "length bs2 < length bs" "list_all (\<lambda>b. 0 \<le> b \<and> b < 256) bs2" using 1(2) by (simp_all add: Cons b1 b2)
      ultimately have "\<forall>b\<in>set bs2. \<not> in_path_set b" using 1(1) by blast
      then show ?thesis using nb h1 h2 \<open>e \<noteq> 37\<close> by (simp add: Cons b1 b2)
    qed
  qed simp
qed

lemma utf8_bytes_low:
  assumes "0 \<le> p" and "\<forall>b\<in>set (utf8_bytes p). b < 128"
  shows "p < 128"
proof (rule ccontr)
  assume "\<not> p < 128"
  then have "192 \<le> hd (utf8_bytes p)"
    using assms(1) pos_imp_zdiv_nonneg_iff [of 64 p] pos_imp_zdiv_nonneg_iff [of 4096 p] pos_imp_zdiv_nonneg_iff [of 262144 p]
    by (simp add: utf8_bytes_def)
  moreover have "hd (utf8_bytes p) < 128" using assms(2) utf8_bytes_nonempty [of p] by simp
  ultimately show False by simp
qed

lemma not_reserved_low: "\<not> in_path_set b \<Longrightarrow> b < 128"
  by (simp add: in_path_set_def)

lemma code_points_low: "\<forall>p\<in>set (code_points s). p < 128 \<Longrightarrow> list_all (in_range 0 127) s"
proof (induction s rule: code_points.induct)
  case (2 c)
  then show ?case using uint_cu_bounds [of c] by (auto simp: unit_point_def in_range_def split: if_splits)
next
  case (3 c d s)
  have "\<not> (is_lead c \<and> is_trail d)"
  proof
    assume l: "is_lead c \<and> is_trail d"
    then have "pair_point c d < 128" using 3(3) by simp
    then show False using l by (auto simp: pair_point_def in_range_def)
  qed
  then show ?case using 3(2,3) uint_cu_bounds [of c] by (auto simp: unit_point_def in_range_def split: if_splits)
qed simp

lemma unreserved_ascii:
  assumes "\<forall>b\<in>set (utf8 s). \<not> in_path_set b"
  shows "percent_encode in_path_set s = s"
proof -
  have low: "\<forall>b\<in>set (utf8 s). b < 128" using assms not_reserved_low by blast
  have "p < 128" if "p \<in> set (code_points s)" for p
  proof (rule utf8_bytes_low)
    show "0 \<le> p" using that code_points_bound [of s] by (auto simp: list_all_iff)
    show "\<forall>b\<in>set (utf8_bytes p). b < 128" using low that by (auto simp: utf8_def)
  qed
  then have ascii: "list_all (in_range 0 127) s" by (intro code_points_low) simp
  have "utf8_bytes (uint c) = [uint c]" if "c \<in> set s" for c
    using that ascii by (auto simp: list_all_iff in_range_def utf8_bytes_def)
  then have u: "utf8 s = map uint s"
    by (simp add: utf8_def code_points_ascii [OF ascii] comp_def cong: map_cong)
  then have "map enc (utf8 s) = map (\<lambda>c. [c]) s" using assms by (auto simp: enc_def)
  then show ?thesis by (simp add: percent_encode_enc)
qed

text \<open>Encoding makes no dot segment out of a segment that is none.\<close>

lemma encoded_not_dot:
  assumes "\<not> single_dot g" and "\<not> double_dot g"
  shows "\<not> single_dot (percent_encode in_path_set g)" and "\<not> double_dot (percent_encode in_path_set g)"
proof -
  have "percent_encode in_path_set g = g" if "dots_only (percent_encode in_path_set g)"
    using that unfolding percent_encode_enc
    by (intro unreserved_ascii [unfolded percent_encode_enc] dots_not_reserved [OF utf8_bound])
  then show "\<not> single_dot (percent_encode in_path_set g)" and "\<not> double_dot (percent_encode in_path_set g)"
    using dot_segments [of "percent_encode in_path_set g"] assms by metis+
qed

lemma utf8_slash: "47 \<in> set (utf8 s) \<Longrightarrow> 47 \<in> set s"
proof -
  have "47 \<in> set s" if "p \<in> set (code_points s)" "47 \<in> set (utf8_bytes p)" for p
  proof -
    have "0 \<le> p" using that(1) code_points_bound [of s] by (auto simp: list_all_iff)
    then have p: "p = 47" using that(2) by (auto simp: utf8_bytes_def split: if_splits)
    have "47 \<in> set (code_points s) \<Longrightarrow> 47 \<in> set s"
    proof (induction s rule: code_points.induct)
      case (2 c)
      then have "uint c = 47" by (auto simp: unit_point_def split: if_splits)
      then show ?case using of_int_uint_cu [of c] by simp
    next
      case (3 c d s)
      have "uint c = 47 \<Longrightarrow> c = 47" using of_int_uint_cu [of c] by simp
      then show ?case using 3 by (auto simp: unit_point_def pair_point_def in_range_def split: if_splits)
    qed simp
    then show ?thesis using that(1) p by simp
  qed
  then show "47 \<in> set (utf8 s) \<Longrightarrow> 47 \<in> set s" by (auto simp: utf8_def)
qed

definition path_char :: "code_unit \<Rightarrow> bool" where
  "path_char c \<longleftrightarrow> c \<noteq> 35 \<and> c \<noteq> 63 \<and> \<not> in_range 0 32 c"

lemma enc_chars:
  assumes "0 \<le> b" and "b < 256" and "c \<in> set (enc b)"
  shows "path_char c \<and> (c = 47 \<longrightarrow> b = 47)"
proof (cases "in_path_set b")
  case True
  have d: "0 \<le> b div 16" "b div 16 < 16" "0 \<le> b mod 16" "b mod 16 < 16" using assms(1,2) by auto
  have hex: "path_char (hex_upper k) \<and> hex_upper k \<noteq> 47" if "0 \<le> k" "k < 16" for k
    using hex_upper_range [OF that] by (auto simp: path_char_def in_range_def)
  have "c = 37 \<or> c = hex_upper (b div 16) \<or> c = hex_upper (b mod 16)"
    using True assms(3) by (simp add: enc_def percent_byte_def)
  then show ?thesis using hex [OF d(1,2)] hex [OF d(3,4)] by (auto simp: path_char_def in_range_def)
next
  case False
  then have "uint c = b" using assms by (simp add: enc_def uint_of_int_cu)
  then show ?thesis using False by (auto simp: path_char_def in_path_set_def in_range_def)
qed

lemma encoded_chars:
  assumes "c \<in> set (percent_encode in_path_set g)"
  shows "path_char c \<and> (c = 47 \<longrightarrow> 47 \<in> set g)"
proof -
  obtain b where b: "b \<in> set (utf8 g)" "c \<in> set (enc b)" using assms by (auto simp: percent_encode_enc)
  then have "0 \<le> b" "b < 256" using utf8_bound [of g] by (auto simp: list_all_iff)
  then show ?thesis using enc_chars [OF _ _ b(2)] b(1) utf8_slash [of g] by auto
qed

definition plain_segment :: "jsstr \<Rightarrow> bool" where
  "plain_segment g \<longleftrightarrow> \<not> single_dot g \<and> \<not> double_dot g \<and> list_all path_char g \<and> 47 \<notin> set g"

lemma plain_Nil: "plain_segment []"
  by (simp add: plain_segment_def single_dot_def double_dot_def lower_ascii_def)

lemma plain_encode:
  assumes "\<not> single_dot g" and "\<not> double_dot g" and "47 \<notin> set g"
  shows "plain_segment (percent_encode in_path_set g)"
  using encoded_not_dot [OF assms(1,2)] encoded_chars [of _ g] assms(3) by (auto simp: plain_segment_def list_all_iff)

lemma plain_butlast: "list_all plain_segment acc \<Longrightarrow> list_all plain_segment (butlast acc)"
  by (auto simp: list_all_iff dest: in_set_butlastD)

lemma path_loop_segments:
  "list_all plain_segment acc \<Longrightarrow> \<forall>g\<in>set segs. 47 \<notin> set g \<Longrightarrow> list_all plain_segment (path_loop acc segs)"
  by (induction acc segs rule: path_loop.induct) (simp_all add: plain_butlast plain_encode plain_Nil)

lemma path_loop_nonempty: "segs \<noteq> [] \<Longrightarrow> path_loop acc segs \<noteq> []"
  by (induction acc segs rule: path_loop.induct) auto

lemma split_on_free: "g \<in> set (split_on d s) \<Longrightarrow> d \<notin> set g"
proof (induction s arbitrary: g)
  case (Cons c s)
  obtain p ps where "split_on d s = p # ps" by (metis list.exhaust split_on_nonempty)
  with Cons show ?case by (auto split: if_splits)
qed simp

lemma join_chars: "c \<in> set (join sep xs) \<Longrightarrow> c \<in> set sep \<or> (\<exists>x\<in>set xs. c \<in> set x)"
  by (induction sep xs rule: join.induct) auto

lemma strip_tail:
  assumes "a \<noteq> []" and "\<not> in_range 0 32 (hd a)" and "\<not> in_range 0 32 (last a)"
  obtains b' where "strip_c0_space (a @ b) = a @ b'" and "\<exists>q. b = b' @ q"
proof -
  have "dropWhile (in_range 0 32) (a @ b) = a @ b" using assms(1,2) by (cases a) auto
  moreover have "\<exists>b'. rev (dropWhile (in_range 0 32) (rev (a @ b))) = a @ b' \<and> (\<exists>q. b = b' @ q)"
  proof (induction b rule: rev_induct)
    case Nil
    then show ?case using assms(1,3) by (cases a rule: rev_cases) auto
  next
    case (snoc c b)
    then show ?case by (cases "in_range 0 32 c") auto
  qed
  ultimately show thesis using that by (auto simp: strip_c0_space_def)
qed

lemma takeWhile_all: "\<forall>c\<in>set a. P c \<Longrightarrow> takeWhile P (a @ b) = a @ takeWhile P b"
  by (induction a) auto

lemma path_of_clean:
  assumes "list_all path_char a" and "a \<noteq> []" and "b = [] \<or> hd b = 63 \<or> hd b = 35"
  shows "path_of (a @ b) = tl a"
proof -
  have ends: "\<not> in_range 0 32 (hd a)" "\<not> in_range 0 32 (last a)"
    using assms(1,2) by (auto simp: list_all_iff path_char_def)
  obtain b' q where b': "strip_c0_space (a @ b) = a @ b'" "b = b' @ q"
    using strip_tail [OF assms(2) ends] by metis
  have "b' = [] \<or> hd b' = 63 \<or> hd b' = 35" using assms(3) b'(2) by (cases b') auto
  then have "takeWhile (\<lambda>c. c \<noteq> 63) (takeWhile (\<lambda>c. c \<noteq> 35) b') = []" by (cases b') auto
  moreover have "\<forall>c\<in>set a. c \<noteq> 35" "\<forall>c\<in>set a. c \<noteq> 63" using assms(1) by (auto simp: list_all_iff path_char_def)
  ultimately show ?thesis by (simp add: path_of_def before_def b'(1) takeWhile_all)
qed

lemma prefixed_hd: "prefixed d v = [] \<or> hd (prefixed d v) = d"
  by (auto simp: prefixed_def split: option.splits list.splits)

text \<open>The result of the check has no dot segments, so a second check makes it safe.\<close>

lemma checked_dotless: "dotless (href (parse_reference s))"
proof -
  define segs where "segs = path_loop [] (split_on 47 (tl (before 63 (before 35 (strip_c0_space s)))))"
  let ?u = "parse_reference s"
  have ne: "segs \<noteq> []" unfolding segs_def by (rule path_loop_nonempty) simp
  have plain: "list_all plain_segment segs"
    unfolding segs_def by (rule path_loop_segments) (auto dest: split_on_free)
  have pn: "pathname ?u = 47 # join [47] segs" by (simp add: parse_reference_def Let_def segs_def)
  have "list_all path_char (47 # join [47] segs)"
    using plain join_chars [of _ "[47]" segs] by (fastforce simp: list_all_iff plain_segment_def path_char_def in_range_def)
  moreover have "url.search ?u @ url_hash ?u = [] \<or> hd (url.search ?u @ url_hash ?u) = 63 \<or> hd (url.search ?u @ url_hash ?u) = 35"
    using prefixed_hd by (simp add: parse_reference_def Let_def hd_append) metis
  ultimately have "path_of (href ?u) = join [47] segs"
    using path_of_clean [of "47 # join [47] segs" "url.search ?u @ url_hash ?u"] by (simp add: href_def pn)
  moreover have "split_on 47 (join [47] segs) = segs"
    using plain ne by (intro split_on_join) (auto simp: list_all_iff plain_segment_def)
  ultimately show ?thesis using plain by (simp add: dotless_def list_all_iff plain_segment_def)
qed

lemma checked_twice:
  "let r = safeReturnPath (JStr (safeReturnPath v (js ''/''))) (js ''/'') in \<exists>t. r = 47 # t \<and> \<not> startsWith t [47]"
proof -
  have base: "\<exists>t. js ''/'' = 47 # t \<and> \<not> startsWith t [47]" by (simp add: startsWith_def)
  have dl: "dotless (safeReturnPath v (js ''/''))"
  proof (cases rule: safeReturnPath_cases [of v "js ''/''"])
    case refused
    have "dotless (js ''/'')" by code_simp
    then show ?thesis by (simp only: refused)
  qed (simp only: checked_dotless)
  show ?thesis
  proof (cases rule: safeReturnPath_cases [of "JStr (safeReturnPath v (js ''/''))" "js ''/''"])
    case (kept r)
    then have "\<exists>t. href (parse_reference r) = 47 # t \<and> \<not> startsWith t [47]" using safe_reference [of r] dl by simp
    then show ?thesis unfolding kept(7) Let_def .
  next
    case refused
    then show ?thesis using base by (simp only: Let_def)
  qed
qed

end
