(* ===== verification/Site_Properties.thy ===== *)
theory Site_Properties
  imports Site_Pages Return_Path
begin

text \<open>
  The properties of the pages around the features: where a login leads that a guard has asked for, what the
  password page sends, and that a split pane keeps its ratio within its bounds.
\<close>

section \<open>Login\<close>

lemma login_returnTo: "lg_returnTo (fold LoginPage ops s) = lg_returnTo s"
proof (induction ops arbitrary: s)
  case (Cons op ops)
  have "lg_returnTo (LoginPage op s) = lg_returnTo s"
    by (cases op) (simp_all add: LoginPage_def login_submit_def login_answer_def split: sum.split)
  then show ?case using Cons by simp
qed simp

text \<open>An answer of a login that asks for a new password.\<close>

definition asks_new_password :: "login_op \<Rightarrow> bool" where
  "asks_new_password op =
     (case op of LoginAnswer (Inr a) \<Rightarrow> session_authenticated a \<and> must_change_password (session_user a) | _ \<Rightarrow> False)"

lemma login_location_step:
  assumes "lg_location (LoginPage op s) = Some l"
  shows "lg_location s = Some l \<or> (l = js ''/account/password'' \<and> asks_new_password op) \<or> l = lg_returnTo s"
  using assms
  by (cases op) (auto simp: LoginPage_def login_submit_def login_answer_def asks_new_password_def simp del: js_Cons
      split: sum.splits if_splits)

lemma login_location:
  assumes "lg_location s = None" and "lg_location (fold LoginPage ops s) = Some l"
  shows "(l = js ''/account/password'' \<and> list_ex asks_new_password ops) \<or> l = lg_returnTo s"
  using assms
proof (induction ops rule: rev_induct)
  case (snoc op ops)
  then have "lg_location (LoginPage op (fold LoginPage ops s)) = Some l" by simp
  then show ?case using login_location_step snoc.IH [OF snoc.prems(1)] login_returnTo by fastforce
qed simp

text \<open>
  C23. Whoever is sent to the login page by a guard stays on the site and comes back: whatever the address was,
  and whatever is typed and answered, the login page opens the password page, and that only after an answer that
  asks for a new password, or the guard's path checked once more. This is the address the guard was asked about
  where the check leaves that address as it is; and in any case it is one slash followed by something that is not
  a slash. The guard and the login page each check the path, and although one check can be defeated with dot
  segments, two cannot. (A link straight to the login page is checked once only, and is not covered.)
\<close>

theorem guarded_login_stays_on_site:
  assumes "requireUser session to = Inl (ToLogin r)"
    and "lg_location (fold LoginPage ops (open_login (JObj [(js ''returnTo'', JStr r)]))) = Some l"
  shows "(\<exists>t. l = 47 # t \<and> \<not> startsWith t [47])
    \<and> ((l = js ''/account/password'' \<and> list_ex asks_new_password ops) \<or> l = safeReturnPath (JStr r) (js ''/''))
    \<and> (safeReturnPath (JStr to) (js ''/'') = to \<longrightarrow> safeReturnPath (JStr r) (js ''/'') = to)"
proof -
  have r: "r = safeReturnPath (JStr to) (js ''/'')"
    using assms(1) by (auto simp: requireUser_def simp del: js_Cons split: if_splits)
  have to: "lg_returnTo (open_login (JObj [(js ''returnTo'', JStr r)])) = safeReturnPath (JStr r) (js ''/'')"
    by (simp add: open_login_def login_validateSearch_def jget_JObj)
  have "lg_location (open_login (JObj [(js ''returnTo'', JStr r)])) = None" by (simp add: open_login_def)
  note l = login_location [OF this assms(2), unfolded to]
  have "\<exists>t. safeReturnPath (JStr r) (js ''/'') = 47 # t \<and> \<not> startsWith t [47]"
    using checked_twice [of "JStr to"] by (simp only: r Let_def)
  moreover have "\<exists>t. js ''/account/password'' = 47 # t \<and> \<not> startsWith t [47]" by (simp add: startsWith_def)
  ultimately have "\<exists>t. l = 47 # t \<and> \<not> startsWith t [47]" using l by metis
  then show ?thesis using l r by metis
qed

definition demo_login :: "jsstr \<Rightarrow> login_page" where
  "demo_login r = fold LoginPage
     [TypeLoginName (js ''ann''), TypeLoginPassword (js ''secret''), SubmitLogin, LoginAnswer (Inr anonymous)]
     (open_login (JObj [(js ''returnTo'', JStr r)]))"

theorem guarded_login_stays_on_site_witness:
  "lg_location (demo_login (js ''/problems/sum'')) = Some (js ''/problems/sum'')
    \<and> (\<exists>t. the (lg_location (demo_login (js ''//evil.com''))) = 47 # t \<and> \<not> startsWith t [47])"
proof -
  have "(lg_location (demo_login (js ''/problems/sum'')) = None) = False" "(lg_location (demo_login (js ''//evil.com'')) = None) = False"
    by code_simp+
  then obtain l l' where l: "lg_location (demo_login (js ''/problems/sum'')) = Some l" "lg_location (demo_login (js ''//evil.com'')) = Some l'"
    by fast
  have to: "requireUser anonymous (js ''/problems/sum'') = Inl (ToLogin (js ''/problems/sum''))"
    "requireUser anonymous (js ''/.//evil.com'') = Inl (ToLogin (js ''//evil.com''))" by code_simp+
  note g = guarded_login_stays_on_site [OF to(1) l(1) [unfolded demo_login_def]]
    guarded_login_stays_on_site [OF to(2) l(2) [unfolded demo_login_def]]
  have "safeReturnPath (JStr (js ''/problems/sum'')) (js ''/'') = js ''/problems/sum''"
    "list_ex asks_new_password [TypeLoginName (js ''ann''), TypeLoginPassword (js ''secret''), SubmitLogin, LoginAnswer (Inr anonymous)] = False"
    by code_simp+
  then have "l = js ''/problems/sum''" using g(1) by metis
  then show ?thesis using l g(2) by (simp del: js_Cons)
qed

section \<open>Passwords\<close>

definition good_passwords :: "password_page \<Rightarrow> bool" where
  "good_passwords s \<longleftrightarrow> list_all (\<lambda>(c, n). c \<noteq> [] \<and> 12 \<le> length n \<and> length n \<le> 128) (pw_sent s)
     \<and> (pw_login s \<noteq> None \<longrightarrow> pw_forgotten s)"

interpretation pw: kept_invariant ChangePasswordPage good_passwords
proof
  fix op s
  assume "good_passwords s"
  then show "good_passwords (ChangePasswordPage op s)"
    by (cases op) (auto simp: ChangePasswordPage_def password_submit_def password_answer_def password_fields_valid_def
        good_passwords_def split: option.split)
qed

lemma confirmed_password:
  "pw_sent (password_submit s) \<noteq> pw_sent s \<Longrightarrow> pw_confirm s = pw_new s \<and> pw_mutation s \<noteq> MutPending"
  by (auto simp: password_submit_def mismatch_def password_fields_valid_def split: if_splits)

section \<open>Split panes\<close>

definition good_split :: "split_pane \<Rightarrow> bool" where
  "good_split s \<longleftrightarrow> sp_min s \<le> sp_max s \<and> (sp_ratio s = NaN \<or> (\<exists>q. sp_ratio s = Fin q \<and> sp_min s \<le> q \<and> q \<le> sp_max s))"

lemma clamp_range: "lo \<le> hi \<Longrightarrow> clamp lo hi x = NaN \<and> x = NaN \<or> (\<exists>q. clamp lo hi x = Fin q \<and> lo \<le> q \<and> q \<le> hi)"
  by (cases x) (auto simp: clamp_def)

lemma commit_good: "good_split s \<Longrightarrow> good_split (commit_ratio b x s)"
  using clamp_range [of "sp_min s" "sp_max s" x] by (auto simp: good_split_def commit_ratio_def Let_def)

interpretation sp: kept_invariant split_step good_split
proof
  fix op and s :: split_pane
  assume good: "good_split s"
  obtain b :: bool and op' :: split_op where op: "op = (b, op')" by (cases op)
  show "good_split (split_step op s)"
    using good by (cases op') (simp_all add: op split_step_def split_onKeyDown_def Let_def commit_good, simp_all add: good_split_def)
qed

lemma to_double_not_NaN: "to_double q \<noteq> NaN"
  by (simp add: to_double_def Let_def)

lemma step_not_NaN: "num_plus (Fin q) STEP \<noteq> NaN" "num_plus (Fin q) (negate STEP) \<noteq> NaN"
  using to_double_not_NaN [of "1 / 50"]
  by (auto simp: num_plus_def STEP_def negate_def to_double_not_NaN split: number.splits)

lemma ratioAt_NaN: "x \<noteq> 0 \<Longrightarrow> ratioAt p e x \<noteq> NaN"
  using to_double_not_NaN [of "p - e"] by (cases "to_double (p - e)") (auto simp: ratioAt_def to_double_not_NaN)

definition has_extent :: "bool \<times> split_op \<Rightarrow> bool" where
  "has_extent = (\<lambda>(b, op). case op of PointerMove p e x \<Rightarrow> x \<noteq> 0 | _ \<Rightarrow> True)"

lemma commit_finite: "sp_min s \<le> sp_max s \<Longrightarrow> x \<noteq> NaN \<Longrightarrow> sp_ratio (commit_ratio b x s) \<noteq> NaN"
  using clamp_range [of "sp_min s" "sp_max s" x] by (auto simp: commit_ratio_def Let_def)

lemma split_step_finite:
  assumes "good_split s" and "sp_ratio s \<noteq> NaN" and "has_extent op"
  shows "sp_ratio (split_step op s) \<noteq> NaN"
proof -
  obtain b :: bool and op' :: split_op where op: "op = (b, op')" by (cases op)
  obtain q where q: "sp_ratio s = Fin q" using assms(1,2) by (auto simp: good_split_def)
  have le: "sp_min s \<le> sp_max s" using assms(1) by (simp add: good_split_def)
  show ?thesis
  proof (cases op')
    case (PointerMove p e x)
    then show ?thesis using assms(2,3) ratioAt_NaN commit_finite [OF le] by (simp add: op split_step_def has_extent_def)
  next
    case (SplitKey k)
    then show ?thesis using assms(2) step_not_NaN commit_finite [OF le] by (simp add: op split_step_def split_onKeyDown_def q Let_def)
  qed (use assms(2) commit_finite [OF le] in \<open>simp_all add: op split_step_def\<close>)
qed

lemma split_run_finite:
  "good_split s \<Longrightarrow> sp_ratio s \<noteq> NaN \<Longrightarrow> list_all has_extent ops \<Longrightarrow> sp_ratio (fold split_step ops s) \<noteq> NaN"
proof (induction ops arbitrary: s)
  case (Cons op ops)
  then have "good_split (split_step op s)" "sp_ratio (split_step op s) \<noteq> NaN" by (simp_all add: sp.keeps split_step_finite)
  with Cons show ?case by simp
qed simp

lemma split_bounds: "sp_min (fold split_step ops s) = sp_min s" "sp_max (fold split_step ops s) = sp_max s"
proof -
  have "sp_min (split_step op s) = sp_min s \<and> sp_max (split_step op s) = sp_max s" for op s
    by (cases op) (simp add: split_step_def split_onKeyDown_def commit_ratio_def Let_def split: split_op.split)
  then have "sp_min (fold split_step ops s) = sp_min s \<and> sp_max (fold split_step ops s) = sp_max s"
    by (induction ops arbitrary: s) simp_all
  then show "sp_min (fold split_step ops s) = sp_min s" "sp_max (fold split_step ops s) = sp_max s" by simp_all
qed

text \<open>
  C40. A split pane keeps its ratio within its bounds, whatever the storage held, is dragged or pressed,
  with every Number rounded as the language rounds it; only a drag in a container without extent can
  make it not a number, and returning to a bound with Home or End mends that.
\<close>

theorem split_ratio_bounded:
  assumes "lo \<le> dflt" and "dflt \<le> hi"
  shows "(let s = fold split_step ops (SplitPane h dflt lo hi item) in
      (sp_ratio s = NaN \<and> \<not> list_all has_extent ops \<or> (\<exists>q. sp_ratio s = Fin q \<and> lo \<le> q \<and> q \<le> hi))
      \<and> sp_ratio (split_step (b, SplitKey (js ''Home'')) s) = Fin lo)"
proof -
  let ?s = "SplitPane h dflt lo hi item" let ?r = "fold split_step ops ?s"
  have "\<exists>q. readRatio item dflt lo hi = Fin q \<and> lo \<le> q \<and> q \<le> hi"
    using assms by (auto simp: readRatio_def split: option.split sum.split number.split)
  then have good: "good_split ?s" "sp_ratio ?s \<noteq> NaN" using assms by (auto simp: good_split_def SplitPane_def)
  have bounds: "sp_min ?r = lo" "sp_max ?r = hi" by (simp_all add: split_bounds SplitPane_def)
  have "good_split ?r" using good(1) by (rule sp.run_keeps)
  then have "sp_ratio ?r = NaN \<and> \<not> list_all has_extent ops \<or> (\<exists>q. sp_ratio ?r = Fin q \<and> lo \<le> q \<and> q \<le> hi)"
    using split_run_finite [OF good] bounds by (auto simp: good_split_def)
  moreover have "sp_ratio (split_step (b, SplitKey (js ''Home'')) ?r) = Fin lo"
    using assms bounds by (simp add: split_step_def split_onKeyDown_def commit_ratio_def clamp_def Let_def)
  ultimately show ?thesis by (simp add: Let_def)
qed

theorem split_ratio_bounded_witness:
  "\<exists>q. sp_ratio (fold split_step [(True, PointerDown), (True, PointerMove 900 0 1000)] (SplitPane True (42 / 100) (1 / 4) (3 / 4) None)) = Fin q
     \<and> 1 / 4 \<le> q \<and> q \<le> 3 / 4"
  using split_ratio_bounded [of "1 / 4" "42 / 100" "3 / 4" "[(True, PointerDown), (True, PointerMove 900 0 1000)]" True None True]
  by (simp add: Let_def has_extent_def)

text \<open>
  The password page asks for a change only with the new password typed twice the same, from 12 to 128
  code units long and with the current one given, and once at a time; when it sends the user to
  the login page, after the change or when the session has ended, the session is forgotten.
\<close>

theorem password_change_confirmed:
  "good_passwords (fold ChangePasswordPage ops open_password)
   \<and> (pw_sent (password_submit s) \<noteq> pw_sent s \<longrightarrow>
        pw_confirm s = pw_new s \<and> pw_mutation s \<noteq> MutPending \<and> pw_sent (password_submit s) = pw_sent s @ [(pw_current s, pw_new s)])"
proof -
  have "good_passwords open_password" by (simp add: good_passwords_def open_password_def)
  then have "good_passwords (fold ChangePasswordPage ops open_password)" by (rule pw.run_keeps)
  then show ?thesis using confirmed_password [of s] by (auto simp: password_submit_def)
qed

theorem password_change_confirmed_witness:
  "good_passwords (fold ChangePasswordPage [TypeCurrent (js ''old''), TypeNew (js ''0123456789ab''), TypeConfirm (js ''0123456789ab''), SubmitPassword] open_password)
   \<and> pw_sent (fold ChangePasswordPage [TypeCurrent (js ''old''), TypeNew (js ''0123456789ab''), TypeConfirm (js ''0123456789ab''), SubmitPassword] open_password)
     = [(js ''old'', js ''0123456789ab'')]"
proof
  show "good_passwords (fold ChangePasswordPage [TypeCurrent (js ''old''), TypeNew (js ''0123456789ab''), TypeConfirm (js ''0123456789ab''), SubmitPassword] open_password)"
    using password_change_confirmed by blast
  show "pw_sent (fold ChangePasswordPage [TypeCurrent (js ''old''), TypeNew (js ''0123456789ab''), TypeConfirm (js ''0123456789ab''), SubmitPassword] open_password)
     = [(js ''old'', js ''0123456789ab'')]"
    by code_simp
qed

end
