(* ===== verification/Theme_Generator.thy ===== *)
theory Theme_Generator
  imports Theme "HOL-Library.Sublist"
begin

text \<open>
  The generator of the theme registry, \<open>apps/web/scripts/generate-design-system.mjs\<close>, and the script it
  generates for the start of a page, \<open>apps/web/public/generated/theme-init.js\<close>. Paths are those of
  \<open>node:path\<close> on POSIX, as texts; what the file system answers is the record \<open>files\<close>, an argument of
  every function that asks it, and what changes it are the two operations of \<open>disk\<close>. Exceptions are values of \<open>gen_error\<close>, one constructor per message.
\<close>

section \<open>Paths\<close>

definition isAbsolute :: "jsstr \<Rightarrow> bool" where
  "isAbsolute p = startsWith p (js ''/'')"

definition path_segments :: "jsstr \<Rightarrow> jsstr list" where
  "path_segments p = filter (\<lambda>s. s \<noteq> []) (split_on 47 p)"

text \<open>\<open>acc\<close> holds the segments kept so far, the last one first; the root has no parent.\<close>

fun normal_segments :: "jsstr list \<Rightarrow> jsstr list \<Rightarrow> jsstr list" where
  "normal_segments acc [] = rev acc"
| "normal_segments acc (s # ss) =
     (if s = js ''.'' then normal_segments acc ss
      else if s = js ''..'' then normal_segments (tl acc) ss
      else normal_segments (s # acc) ss)"

definition absolute_text :: "jsstr list \<Rightarrow> jsstr" where
  "absolute_text ss = 47 # join [47] ss"

text \<open>\<open>resolve(base, p)\<close> for an absolute \<open>base\<close>.\<close>

definition resolve_path :: "jsstr \<Rightarrow> jsstr \<Rightarrow> jsstr" where
  "resolve_path base p =
     absolute_text (normal_segments [] (path_segments (if isAbsolute p then p else base @ 47 # p)))"

text \<open>\<open>relative(from, to)\<close> for normal absolute paths: up to the common directory, then down.\<close>

fun common_length :: "'a list \<Rightarrow> 'a list \<Rightarrow> nat" where
  "common_length (x # xs) (y # ys) = (if x = y then Suc (common_length xs ys) else 0)"
| "common_length _ _ = 0"

definition relative_path :: "jsstr \<Rightarrow> jsstr \<Rightarrow> jsstr" where
  "relative_path source target =
     (let f = path_segments source; t = path_segments target; k = common_length f t
      in join [47] (replicate (length f - k) (js ''..'') @ drop k t))"

definition isInsideDirectory :: "jsstr \<Rightarrow> jsstr \<Rightarrow> bool" where
  "isInsideDirectory dir candidate =
     (let relativePath = relative_path dir candidate
      in relativePath \<noteq> js ''..'' \<and> \<not> startsWith relativePath (js ''../'') \<and> \<not> isAbsolute relativePath)"

definition endsWith :: "jsstr \<Rightarrow> jsstr \<Rightarrow> bool" where
  "endsWith s p \<longleftrightarrow> length p \<le> length s \<and> drop (length s - length p) s = p"

section \<open>Files\<close>

datatype file_kind = RegularFile | SymbolicLink | OtherKind

datatype fs_error = ENOENT | OtherFailure

record files =
  lstat :: "jsstr \<Rightarrow> (fs_error, file_kind) result"
  realpath :: "jsstr \<Rightarrow> (fs_error, jsstr) result"
  readFile :: "jsstr \<Rightarrow> (fs_error, jsstr) result"

text \<open>\<open>mkdir(path, { recursive: true })\<close> and \<open>writeFile(path, content)\<close>, with the file system after them.\<close>

record disk =
  make_directory :: "jsstr \<Rightarrow> files \<Rightarrow> (fs_error, files) result"
  write_file :: "jsstr \<Rightarrow> jsstr \<Rightarrow> files \<Rightarrow> (fs_error, files) result"

datatype input_label = ManifestFile | ThemeFile jsstr

datatype gen_error =
    FsFailed fs_error | NeedsObject jsstr | NeedsText jsstr
  | InputNotRelative input_label | InputEscapes input_label jsstr | RootIsLink | InputIsLink input_label jsstr
  | InputNotFile input_label jsstr | InputReallyOutside input_label jsstr
  | OutputEscapes jsstr | WebRootIsLink | OutputParentOutside jsstr | OutputIsLink jsstr | OutputNotFile jsstr
  | OutputReallyOutside jsstr | OutputMissing jsstr | OutputDrifted jsstr
  | ManifestUnreadable | BadSchemaVersion | BadSelector | FollowsSystem | NoThemes | BadThemeId jsstr
  | DuplicateTheme jsstr | BadColorScheme jsstr | NotCss jsstr | BadVersion jsstr | UnknownDefault jsstr
  | UnknownFallback jsstr | BadArguments

definition from_fs :: "(fs_error, 'a) result \<Rightarrow> (gen_error, 'a) result" where
  "from_fs r = (case r of Inl e \<Rightarrow> Inl (FsFailed e) | Inr x \<Rightarrow> Inr x)"

definition requireObject :: "json \<Rightarrow> jsstr \<Rightarrow> (gen_error, json) result" where
  "requireObject v label = (case v of JObj _ \<Rightarrow> Inr v | _ \<Rightarrow> Inl (NeedsObject label))"

definition requireString :: "json \<Rightarrow> jsstr \<Rightarrow> (gen_error, jsstr) result" where
  "requireString v label = (case v of JStr s \<Rightarrow> if s = [] then Inl (NeedsText label) else Inr s | _ \<Rightarrow> Inl (NeedsText label))"

text \<open>An input of the generator: a relative path inside the package, no link, and really inside.\<close>

definition resolveDesignSystemInput :: "files \<Rightarrow> jsstr \<Rightarrow> jsstr \<Rightarrow> input_label \<Rightarrow> (gen_error, jsstr) result" where
  "resolveDesignSystemInput F dir file label =
     (if file = [] \<or> isAbsolute file then Inl (InputNotRelative label)
      else let absoluteFile = resolve_path dir file in
        if \<not> isInsideDirectory dir absoluteFile then Inl (InputEscapes label file)
        else bind_result (from_fs (lstat F dir)) (\<lambda>rootKind.
             bind_result (require (rootKind \<noteq> SymbolicLink) RootIsLink) (\<lambda>_.
             bind_result (from_fs (lstat F absoluteFile)) (\<lambda>kind.
             bind_result (require (kind \<noteq> SymbolicLink) (InputIsLink label file)) (\<lambda>_.
             bind_result (require (kind = RegularFile) (InputNotFile label file)) (\<lambda>_.
             bind_result (from_fs (realpath F dir)) (\<lambda>rootReal.
             bind_result (from_fs (realpath F absoluteFile)) (\<lambda>fileReal.
             bind_result (require (isInsideDirectory rootReal fileReal) (InputReallyOutside label file)) (\<lambda>_.
             Inr fileReal)))))))))"

text \<open>The place an output is written to; a file that does not exist is looked at through its directory.\<close>

definition resolveWebOutput :: "files \<Rightarrow> jsstr \<Rightarrow> jsstr \<Rightarrow> (gen_error, jsstr) result" where
  "resolveWebOutput F web outputPath =
     (if \<not> isInsideDirectory web outputPath then Inl (OutputEscapes (relative_path web outputPath))
      else bind_result (from_fs (lstat F web)) (\<lambda>rootKind.
           bind_result (require (rootKind \<noteq> SymbolicLink) WebRootIsLink) (\<lambda>_.
           bind_result (from_fs (realpath F web)) (\<lambda>webReal.
           case lstat F outputPath of
             Inl ENOENT \<Rightarrow>
               bind_result (from_fs (realpath F (resolve_path outputPath (js ''..'')))) (\<lambda>parentReal.
               if isInsideDirectory webReal parentReal then Inr outputPath
               else Inl (OutputParentOutside (relative_path web outputPath)))
           | Inl e \<Rightarrow> Inl (FsFailed e)
           | Inr kind \<Rightarrow>
               if kind = SymbolicLink then Inl (OutputIsLink (relative_path web outputPath))
               else if kind \<noteq> RegularFile then Inl (OutputNotFile (relative_path web outputPath))
               else bind_result (from_fs (realpath F outputPath)) (\<lambda>outputReal.
                    if isInsideDirectory webReal outputReal then Inr outputReal
                    else Inl (OutputReallyOutside (relative_path web outputPath)))))))"

section \<open>The manifest\<close>

record theme_manifest =
  tm_selector :: jsstr
  tm_default :: jsstr
  tm_fallback :: jsstr
  tm_follow :: bool
  tm_themes :: "ThemeDefinition list"

text \<open>\<open>/^[a-z][a-z0-9-]*$/\<close>.\<close>

definition theme_id_pattern :: "jsstr \<Rightarrow> bool" where
  "theme_id_pattern s = (case s of [] \<Rightarrow> False | c # r \<Rightarrow> is_lower c \<and> list_all (\<lambda>d. is_lower d \<or> is_digit d \<or> d = 45) r)"

definition positive_integer :: "json \<Rightarrow> int option" where
  "positive_integer v =
     (case v of JNum (Fin q) \<Rightarrow> if isInteger (Fin q) \<and> \<not> q < 1 then Some \<lfloor>q\<rfloor> else None | _ \<Rightarrow> None)"

definition theme_label_at :: "nat \<Rightarrow> jsstr \<Rightarrow> jsstr" where
  "theme_label_at i field = js ''themes['' @ dec_text (int i) @ js '']'' @ field"

definition load_theme :: "files \<Rightarrow> jsstr \<Rightarrow> jsstr set \<Rightarrow> nat \<Rightarrow> json \<Rightarrow> (gen_error, ThemeDefinition) result" where
  "load_theme F dir seen i candidate =
     bind_result (requireObject candidate (theme_label_at i [])) (\<lambda>theme.
     bind_result (requireString (jget (js ''id'') theme) (theme_label_at i (js ''.id''))) (\<lambda>tid.
     bind_result (require (theme_id_pattern tid) (BadThemeId tid)) (\<lambda>_.
     bind_result (require (tid \<notin> seen) (DuplicateTheme tid)) (\<lambda>_.
     bind_result (requireString (jget (js ''label'') theme) (theme_label_at i (js ''.label''))) (\<lambda>label.
     bind_result (requireString (jget (js ''colorScheme'') theme) (theme_label_at i (js ''.colorScheme''))) (\<lambda>scheme.
     bind_result (require (scheme = js ''dark'' \<or> scheme = js ''light'') (BadColorScheme tid)) (\<lambda>_.
     bind_result (requireString (jget (js ''file'') theme) (theme_label_at i (js ''.file''))) (\<lambda>file.
     bind_result (require (endsWith file (js ''.css'')) (NotCss tid)) (\<lambda>_.
     bind_result (resolveDesignSystemInput F dir file (ThemeFile tid)) (\<lambda>_.
     case positive_integer (jget (js ''version'') theme) of
       None \<Rightarrow> Inl (BadVersion tid)
     | Some n \<Rightarrow> Inr \<lparr>theme_id = tid, theme_label = label, colorScheme = (if scheme = js ''dark'' then Dark else Light),
                     theme_file = file, theme_version = n\<rparr>))))))))))"

fun load_themes :: "files \<Rightarrow> jsstr \<Rightarrow> jsstr set \<Rightarrow> nat \<Rightarrow> json list \<Rightarrow> (gen_error, ThemeDefinition list) result" where
  "load_themes F dir seen i [] = Inr []"
| "load_themes F dir seen i (v # vs) =
     bind_result (load_theme F dir seen i v) (\<lambda>t.
     bind_result (load_themes F dir (insert (theme_id t) seen) (Suc i) vs) (\<lambda>ts. Inr (t # ts)))"

definition manifest_name :: jsstr where
  "manifest_name = js ''themes.manifest.json''"

definition read_manifest :: "files \<Rightarrow> jsstr \<Rightarrow> (gen_error, json) result" where
  "read_manifest F dir =
     (case bind_result (resolveDesignSystemInput F dir manifest_name ManifestFile) (\<lambda>p. from_fs (readFile F p)) of
        Inl _ \<Rightarrow> Inl ManifestUnreadable
      | Inr content \<Rightarrow> (case JSON_parse content of None \<Rightarrow> Inl ManifestUnreadable | Some v \<Rightarrow> Inr v))"

definition requireThemes :: "json \<Rightarrow> (gen_error, json list) result" where
  "requireThemes v = (case v of JArr vs \<Rightarrow> if vs = [] then Inl NoThemes else Inr vs | _ \<Rightarrow> Inl NoThemes)"

definition loadManifest :: "files \<Rightarrow> jsstr \<Rightarrow> (gen_error, theme_manifest) result" where
  "loadManifest F dir =
     bind_result (read_manifest F dir) (\<lambda>parsed.
     bind_result (requireObject parsed manifest_name) (\<lambda>m.
     bind_result (require (jget (js ''schemaVersion'') m = JNum (Fin 1)) BadSchemaVersion) (\<lambda>_.
     bind_result (require (jget (js ''selectorAttribute'') m = JStr (js ''data-theme'')) BadSelector) (\<lambda>_.
     bind_result (require (jget (js ''followSystemByDefault'') m = JBool False) FollowsSystem) (\<lambda>_.
     bind_result (requireThemes (jget (js ''themes'') m)) (\<lambda>vs.
     bind_result (load_themes F dir {} 0 vs) (\<lambda>themes.
     bind_result (requireString (jget (js ''defaultTheme'') m) (js ''defaultTheme'')) (\<lambda>dflt.
     bind_result (requireString (jget (js ''fallbackTheme'') m) (js ''fallbackTheme'')) (\<lambda>fb.
     bind_result (require (dflt \<in> set (map theme_id themes)) (UnknownDefault dflt)) (\<lambda>_.
     bind_result (require (fb \<in> set (map theme_id themes)) (UnknownFallback fb)) (\<lambda>_.
     Inr \<lparr>tm_selector = js ''data-theme'', tm_default = dflt, tm_fallback = fb, tm_follow = False, tm_themes = themes\<rparr>)))))))))))"

section \<open>Rendering\<close>

definition replaceAll :: "code_unit \<Rightarrow> jsstr \<Rightarrow> jsstr \<Rightarrow> jsstr" where
  "replaceAll c t s = concat (map (\<lambda>x. if x = c then t else [x]) s)"

definition quoteForJavaScript :: "jsstr \<Rightarrow> jsstr" where
  "quoteForJavaScript value =
     39 # replaceAll 0x2029 [92, 117, 50, 48, 50, 57] (replaceAll 0x2028 [92, 117, 50, 48, 50, 56]
            (replaceAll 10 [92, 110] (replaceAll 13 [92, 114] (replaceAll 39 [92, 39] (replaceAll 92 [92, 92] value))))) @ [39]"

definition theme_lines :: "ThemeDefinition \<Rightarrow> jsstr list" where
  "theme_lines t =
     [js ''  {'', js ''    id: '' @ quoteForJavaScript (theme_id t) @ js '','',
      js ''    label: '' @ quoteForJavaScript (theme_label t) @ js '','',
      js ''    colorScheme: '' @ quoteForJavaScript (scheme_text (colorScheme t)) @ js '','',
      js ''    file: '' @ quoteForJavaScript (theme_file t) @ js '','',
      js ''    version: '' @ number_text (Fin (of_int (theme_version t))) @ js '','', js ''  },'']"

definition renderRegistry :: "theme_manifest \<Rightarrow> jsstr" where
  "renderRegistry m = join [10]
     ([js ''/* This file is generated by scripts/generate-design-system.mjs. Do not edit. */'', [],
       js ''export const themeRegistry = [''] @ concat (map theme_lines (tm_themes m)) @
      [js ''] as const;'', [],
       js ''export type ThemeDefinition = (typeof themeRegistry)[number];'',
       js ''export type ThemeId = ThemeDefinition['id'];'',
       js ''export type ThemeColorScheme = ThemeDefinition['colorScheme'];'', [],
       js ''export const themeSelectorAttribute = '' @ quoteForJavaScript (tm_selector m) @ js '';'',
       js ''export const colorSchemeAttribute = '' @ quoteForJavaScript colorSchemeAttribute @ js '';'',
       js ''export const defaultThemeId: ThemeId = '' @ quoteForJavaScript (tm_default m) @ js '';'',
       js ''export const fallbackThemeId: ThemeId = '' @ quoteForJavaScript (tm_fallback m) @ js '';'',
       js ''export const themeStorageKey = '' @ quoteForJavaScript themeStorageKey @ js '';'',
       js ''export const followSystemByDefault = '' @ (if tm_follow m then js ''true'' else js ''false'') @ js '';'', []])"

definition renderBootstrap :: "theme_manifest \<Rightarrow> jsstr" where
  "renderBootstrap m =
     (let q = (\<lambda>t. 39 # t @ [39]) in join [10]
     ([js ''/* This file is generated by scripts/generate-design-system.mjs. Do not edit. */'',
       js ''/* global document, window */'', js ''(function initializeTheme() {'', js ''  '' @ q (js ''use strict'') @ js '';'', [],
       js ''  const themeColorSchemes = Object.freeze({''] @
      map (\<lambda>t. js ''    '' @ q (theme_id t) @ js '': '' @ q (scheme_text (colorScheme t)) @ js '','') (tm_themes m) @
      [js ''  });'', js ''  const defaultTheme = '' @ q (tm_default m) @ js '';'',
       js ''  const fallbackTheme = '' @ q (tm_fallback m) @ js '';'', js ''  const storageKey = '' @ q themeStorageKey @ js '';'',
       js ''  const root = document.documentElement;'', js ''  let storedTheme = null;'', js ''  let storageReadable = true;'', [],
       js ''  try {'', js ''    storedTheme = window.localStorage.getItem(storageKey);'', js ''  } catch {'',
       js ''    storageReadable = false;'', js ''  }'', [], js ''  let theme = defaultTheme;'',
       js ''  if (typeof storedTheme === '' @ q (js ''string'') @ js '' && storedTheme.trim().length > 0) {'',
       js ''    theme = Object.prototype.hasOwnProperty.call(themeColorSchemes, storedTheme)'', js ''      ? storedTheme'',
       js ''      : fallbackTheme;'', js ''  }'', [], js ''  const invalidStoredTheme ='',
       js ''    typeof storedTheme === '' @ q (js ''string'') @ js '' &&'', js ''    (storedTheme.trim().length === 0 ||'',
       js ''      !Object.prototype.hasOwnProperty.call(themeColorSchemes, storedTheme));'',
       js ''  if (storageReadable && invalidStoredTheme) {'', js ''    try {'', js ''      window.localStorage.removeItem(storageKey);'',
       js ''    } catch {'', js ''      // Storage cleanup is best-effort; rendering must continue.'', js ''    }'', js ''  }'', [],
       js ''  root.setAttribute('' @ q (tm_selector m) @ js '', theme);'',
       js ''  root.setAttribute('' @ q colorSchemeAttribute @ js '', themeColorSchemes[theme]);'', js ''})();'', []]))"

section \<open>Outputs\<close>

definition registry_output :: "jsstr \<Rightarrow> jsstr" where
  "registry_output web = resolve_path web (js ''src/generated/design-system/themes.ts'')"

definition bootstrap_output :: "jsstr \<Rightarrow> jsstr" where
  "bootstrap_output web = resolve_path web (js ''public/generated/theme-init.js'')"

definition expectedOutputs :: "files \<Rightarrow> jsstr \<Rightarrow> (gen_error, (jsstr \<times> jsstr) list) result" where
  "expectedOutputs F web =
     bind_result (loadManifest F (resolve_path web (js ''design-system''))) (\<lambda>m.
     Inr [(registry_output web, renderRegistry m), (bootstrap_output web, renderBootstrap m)])"

text \<open>The comparison with the files in place. The source writes what it expects into a temporary
  directory and reads it back; that directory is not part of the model.\<close>

fun checkGenerated :: "files \<Rightarrow> jsstr \<Rightarrow> (jsstr \<times> jsstr) list \<Rightarrow> (gen_error, unit) result" where
  "checkGenerated F web [] = Inr ()"
| "checkGenerated F web ((p, content) # others) =
     (case bind_result (resolveWebOutput F web p) (\<lambda>q. from_fs (readFile F q)) of
        Inl e \<Rightarrow> Inl (if e = FsFailed ENOENT then OutputMissing (relative_path web p) else e)
      | Inr actual \<Rightarrow>
          if actual \<noteq> content then Inl (OutputDrifted (relative_path web p)) else checkGenerated F web others)"

text \<open>
  The calls that change the file system, in order, each with the file system it is made on, and how the writing ends.
  The directory of an output is made before the place of the output is looked at.
\<close>

datatype disk_call = MakesDirectory files jsstr | WritesFile files jsstr jsstr

fun writeGenerated :: "disk \<Rightarrow> jsstr \<Rightarrow> (jsstr \<times> jsstr) list \<Rightarrow> files \<Rightarrow> disk_call list \<times> (gen_error, files) result" where
  "writeGenerated D web [] F = ([], Inr F)"
| "writeGenerated D web ((p, content) # others) F =
     (let parent = resolve_path p (js ''..''); made = MakesDirectory F parent
      in case make_directory D parent F of
           Inl e \<Rightarrow> ([made], Inl (FsFailed e))
         | Inr F1 \<Rightarrow>
             (case resolveWebOutput F1 web p of
                Inl e \<Rightarrow> ([made], Inl e)
              | Inr q \<Rightarrow>
                  (case write_file D q content F1 of
                     Inl e \<Rightarrow> ([made, WritesFile F1 q content], Inl (FsFailed e))
                   | Inr F2 \<Rightarrow>
                       let rest = writeGenerated D web others F2
                       in (made # WritesFile F1 q content # fst rest, snd rest))))"

definition generate :: "disk \<Rightarrow> jsstr \<Rightarrow> jsstr list \<Rightarrow> files \<Rightarrow> disk_call list \<times> (gen_error, files) result" where
  "generate D web args F =
     (if length args > 1 \<or> length args = 1 \<and> hd args \<noteq> js ''--check'' then ([], Inl BadArguments)
      else case expectedOutputs F web of
          Inl e \<Rightarrow> ([], Inl e)
        | Inr expected \<Rightarrow>
            if args = [js ''--check''] then ([], bind_result (checkGenerated F web expected) (\<lambda>_. Inr F))
            else writeGenerated D web expected F)"

section \<open>The script at the start of a page\<close>

definition themeColorSchemes :: "(jsstr \<times> jsstr) list" where
  "themeColorSchemes = [(js ''cherry-black'', js ''dark''), (js ''pure-white'', js ''light'')]"

definition initializeTheme :: "store_access \<Rightarrow> attributes \<Rightarrow> store \<Rightarrow> attributes \<times> store" where
  "initializeTheme a root_element st =
     (let storageReadable = (\<not> no_storage a \<and> \<not> get_throws a);
          storedTheme = (if storageReadable then st (js ''cherry-oj.theme'') else None);
          theme = (case storedTheme of
             Some s \<Rightarrow> if trim s \<noteq> [] then if map_of themeColorSchemes s \<noteq> None then s else js ''cherry-black'' else js ''cherry-black''
           | None \<Rightarrow> js ''cherry-black'');
          invalidStoredTheme = (case storedTheme of
             Some s \<Rightarrow> trim s = [] \<or> map_of themeColorSchemes s = None | None \<Rightarrow> False)
      in (root_element(js ''data-theme'' \<mapsto> theme, js ''data-color-scheme'' := map_of themeColorSchemes theme),
          if storageReadable \<and> invalidStoredTheme \<and> \<not> remove_throws a then st(js ''cherry-oj.theme'' := None) else st))"

end
