(* ===== verification/Generator_Properties.thy ===== *)
theory Generator_Properties
  imports Theme_Generator
begin

text \<open>
  The properties of the theme generator: the test on relative paths is containment of directories, so that
  no file outside the package is read and no file outside the client written, though a directory may be made there; its string literals are read back as
  the text they were made from; what it accepts is a well-formed registry; and the script at the start of
  a page chooses the theme that the program chooses later.
\<close>

section \<open>Containment\<close>

definition good_segment :: "jsstr \<Rightarrow> bool" where
  "good_segment s \<longleftrightarrow> s \<noteq> [] \<and> 47 \<notin> set s \<and> s \<noteq> js ''.'' \<and> s \<noteq> js ''..''"

definition canonical :: "jsstr \<Rightarrow> bool" where
  "canonical p \<longleftrightarrow> p = absolute_text (path_segments p) \<and> list_all good_segment (path_segments p)"

lemma split_on_pieces: "s \<in> set (split_on d t) \<Longrightarrow> d \<notin> set s"
proof (induction t arbitrary: s)
  case (Cons c t)
  then show ?case by (cases "split_on d t") (auto split: if_splits)
qed simp

lemma segments_absolute:
  assumes "list_all good_segment ss"
  shows "path_segments (absolute_text ss) = ss"
proof (cases "ss = []")
  case False
  have "list_all (\<lambda>s. 47 \<notin> set s) ss" using assms by (auto simp: list_all_iff good_segment_def)
  then have "split_on 47 (join [47] ss) = ss" using False by (simp add: split_on_join list_all_iff)
  moreover have "filter (\<lambda>s. s \<noteq> []) ss = ss" using assms by (simp add: filter_id_conv list_all_iff good_segment_def)
  ultimately show ?thesis by (simp add: path_segments_def absolute_text_def)
qed (simp add: path_segments_def absolute_text_def)

lemma canonical_absolute: "list_all good_segment ss \<Longrightarrow> canonical (absolute_text ss)"
  by (simp add: canonical_def segments_absolute)

lemma normal_segments_good:
  "list_all good_segment acc \<Longrightarrow> list_all (\<lambda>s. s \<noteq> [] \<and> 47 \<notin> set s) ss \<Longrightarrow> list_all good_segment (normal_segments acc ss)"
proof (induction acc ss rule: normal_segments.induct)
  case (2 acc s ss)
  have "list_all good_segment (tl acc)" using "2.prems"(1) by (cases acc) simp_all
  with 2 show ?case by (auto simp: good_segment_def [of s] simp del: js_Cons)
qed (simp add: list_all_iff)

lemma resolve_canonical: "canonical (resolve_path base p)"
  unfolding resolve_path_def
  by (intro canonical_absolute normal_segments_good) (auto simp: list_all_iff path_segments_def dest: split_on_pieces)

lemma common_length_prefix: "drop (common_length f t) f = [] \<longleftrightarrow> prefix f t"
  by (induction f t rule: common_length.induct) auto

lemma common_length_le: "common_length f t \<le> length f"
  by (induction f t rule: common_length.induct) auto

lemma join_starts: "ss \<noteq> [] \<Longrightarrow> \<exists>r. join [47] ss = hd ss @ r \<and> (r = [] \<or> hd r = 47)"
  by (cases ss rule: remdups_adj.cases) auto

lemma good_start:
  assumes "good_segment s" and "r = [] \<or> hd r = 47"
  shows "s @ r \<noteq> js ''..''" and "\<not> startsWith (s @ r) (js ''../'')" and "\<not> isAbsolute (s @ r)"
proof -
  have s: "s \<noteq> []" "47 \<notin> set s" "s \<noteq> [46]" "s \<noteq> [46, 46]" using assms(1) by (auto simp: good_segment_def)
  show "s @ r \<noteq> js ''..''"
    using s assms(2) by (auto simp: append_eq_Cons_conv)
  show "\<not> isAbsolute (s @ r)"
    using s by (cases s) (auto simp: isAbsolute_def startsWith_def)
  show "\<not> startsWith (s @ r) (js ''../'')"
    using s assms(2) by (auto simp: startsWith_iff append_eq_Cons_conv Cons_eq_append_conv)
qed

text \<open>The test of the source on the relative path is containment of the directory.\<close>

lemma inside_iff_prefix:
  assumes "canonical a" and "canonical b"
  shows "isInsideDirectory a b \<longleftrightarrow> prefix (path_segments a) (path_segments b)"
proof -
  let ?f = "path_segments a" and ?t = "path_segments b"
  let ?k = "common_length ?f ?t"
  show ?thesis
  proof (cases "drop ?k ?f = []")
    case True
    then have rel: "relative_path a b = join [47] (drop ?k ?t)"
      by (simp add: relative_path_def Let_def)
    have good: "list_all good_segment (drop ?k ?t)" using assms(2) by (auto simp: canonical_def list_all_iff dest: in_set_dropD)
    have "isInsideDirectory a b"
    proof (cases "drop ?k ?t = []")
      case True
      then show ?thesis by (simp add: isInsideDirectory_def rel isAbsolute_def startsWith_def)
    next
      case False
      then have "good_segment (hd (drop ?k ?t))" using good by (simp add: list_all_iff)
      moreover obtain r where "relative_path a b = hd (drop ?k ?t) @ r" "r = [] \<or> hd r = 47"
        using join_starts [OF False] rel by metis
      ultimately show ?thesis using good_start [of "hd (drop ?k ?t)" r] by (simp only: isInsideDirectory_def Let_def) simp
    qed
    then show ?thesis using True common_length_prefix by blast
  next
    case False
    then obtain n where n: "length ?f - ?k = Suc n" by (metis drop_all not_less_eq_eq diff_is_0_eq not0_implies_Suc)
    have "relative_path a b = join [47] (js ''..'' # replicate n (js ''..'') @ drop ?k ?t)"
      by (simp add: relative_path_def Let_def n del: js_Cons)
    then have "relative_path a b = js ''..'' \<or> startsWith (relative_path a b) (js ''../'')"
      by (cases "replicate n (js ''..'') @ drop ?k ?t") (auto simp: startsWith_def)
    then have "\<not> isInsideDirectory a b" by (auto simp: isInsideDirectory_def Let_def)
    then show ?thesis using False common_length_prefix by blast
  qed
qed

text \<open>What \<open>realpath\<close> returns is an absolute path without links, dots and empty segments.\<close>

definition canonical_realpath :: "files \<Rightarrow> bool" where
  "canonical_realpath F \<longleftrightarrow> (\<forall>p q. realpath F p = Inr q \<longrightarrow> canonical q)"

lemma input_inside:
  assumes "resolveDesignSystemInput F dir file label = Inr q" and "canonical_realpath F"
  shows "\<exists>r. realpath F dir = Inr r \<and> prefix (path_segments r) (path_segments q)
    \<and> lstat F (resolve_path dir file) = Inr RegularFile \<and> realpath F (resolve_path dir file) = Inr q"
proof -
  obtain r where "realpath F dir = Inr r" "realpath F (resolve_path dir file) = Inr q" "isInsideDirectory r q"
      "lstat F (resolve_path dir file) = Inr RegularFile"
    using assms(1)
    by (auto simp: resolveDesignSystemInput_def Let_def from_fs_def bind_result_Inr_iff require_def split: if_splits sum.splits)
  then show ?thesis using assms(2) inside_iff_prefix unfolding canonical_realpath_def by blast
qed

lemma output_inside:
  assumes "resolveWebOutput F web p = Inr q" and "canonical_realpath F"
  shows "\<exists>r. realpath F web = Inr r
    \<and> (lstat F p = Inr RegularFile \<and> realpath F p = Inr q \<and> prefix (path_segments r) (path_segments q)
       \<or> lstat F p = Inl ENOENT \<and> q = p
         \<and> (\<exists>d. realpath F (resolve_path p (js ''..'')) = Inr d \<and> prefix (path_segments r) (path_segments d)))"
proof -
  obtain r where r: "realpath F web = Inr r"
      "lstat F p = Inr RegularFile \<and> realpath F p = Inr q \<and> isInsideDirectory r q
       \<or> lstat F p = Inl ENOENT \<and> q = p \<and> (\<exists>d. realpath F (resolve_path p (js ''..'')) = Inr d \<and> isInsideDirectory r d)"
    using assms(1)
    by (auto simp: resolveWebOutput_def from_fs_def bind_result_Inr_iff require_def simp del: js_Cons
        split: if_splits sum.splits fs_error.splits)
  then show ?thesis using assms(2) inside_iff_prefix unfolding canonical_realpath_def by blast
qed

text \<open>Making a directory and writing a file leave \<open>realpath\<close> what it is.\<close>

definition canonical_disk :: "disk \<Rightarrow> bool" where
  "canonical_disk D \<longleftrightarrow> (\<forall>F F' p content. canonical_realpath F
     \<longrightarrow> make_directory D p F = Inr F' \<or> write_file D p content F = Inr F' \<longrightarrow> canonical_realpath F')"

text \<open>A call that writes an output to a place that was checked on the file system it is made on.\<close>

definition written_inside :: "jsstr \<Rightarrow> (jsstr \<times> jsstr) list \<Rightarrow> disk_call \<Rightarrow> bool" where
  "written_inside web outs x =
     (case x of
        MakesDirectory F d \<Rightarrow> \<exists>p c. (p, c) \<in> set outs \<and> d = resolve_path p (js ''..'')
      | WritesFile F q c \<Rightarrow> \<exists>p r. (p, c) \<in> set outs \<and> realpath F web = Inr r
          \<and> (lstat F p = Inr RegularFile \<and> realpath F p = Inr q \<and> prefix (path_segments r) (path_segments q)
             \<or> lstat F p = Inl ENOENT \<and> q = p
               \<and> (\<exists>d. realpath F (resolve_path p (js ''..'')) = Inr d \<and> prefix (path_segments r) (path_segments d))))"

lemma written_inside_more: "written_inside web outs x \<Longrightarrow> written_inside web (out # outs) x"
  unfolding written_inside_def by (cases x) (simp_all, blast, metis)

lemma writes_inside:
  assumes "canonical_realpath F" and "canonical_disk D"
  shows "list_all (written_inside web outs) (fst (writeGenerated D web outs F))"
  using assms(1)
proof (induction outs arbitrary: F)
  case (Cons out outs)
  obtain p c where out: "out = (p, c)" by (cases out)
  have made: "written_inside web (out # outs) (MakesDirectory F (resolve_path p (js ''..'')))"
    unfolding written_inside_def out disk_call.case by (intro exI [where x = p] exI [where x = c] conjI) simp_all
  show ?case
  proof (cases "make_directory D (resolve_path p (js ''..'')) F")
    case (Inr F1)
    then have F1: "canonical_realpath F1" using assms(2) Cons.prems unfolding canonical_disk_def by blast
    show ?thesis
    proof (cases "resolveWebOutput F1 web p")
      case q: (Inr q)
      have wrote: "written_inside web (out # outs) (WritesFile F1 q c)"
        using output_inside [OF q F1] unfolding written_inside_def out by auto
      show ?thesis
      proof (cases "write_file D q c F1")
        case F2: (Inr F2)
        then have "canonical_realpath F2" using assms(2) F1 unfolding canonical_disk_def by blast
        then have "list_all (written_inside web (out # outs)) (fst (writeGenerated D web outs F2))"
          using Cons.IH written_inside_more by (metis (mono_tags, lifting) list.pred_mono_strong)
        then show ?thesis using Inr q F2 made wrote by (simp add: out Let_def del: js_Cons)
      qed (use Inr q made wrote in \<open>simp add: out Let_def del: js_Cons\<close>)
    qed (use Inr made in \<open>simp add: out Let_def del: js_Cons\<close>)
  qed (use made in \<open>simp add: out Let_def del: js_Cons\<close>)
qed simp

lemma writes_all:
  "snd (writeGenerated D web outs F) = Inr F'
     \<Longrightarrow> concat (map (\<lambda>x. case x of WritesFile _ _ c \<Rightarrow> [c] | _ \<Rightarrow> []) (fst (writeGenerated D web outs F))) = map snd outs"
  by (induction D web outs F rule: writeGenerated.induct) (auto simp: Let_def simp del: js_Cons split: sum.splits)

text \<open>
  C30. The files the generator reads and writes are where they belong, whatever the manifest names and however the
  directories are linked: a file it reads is a regular file whose real place is below the real place of the package.
  Each call by which it writes a file writes an output, and on the file system as it is then the place is below the
  real place of the client, or is a new file in a directory that is; when the writing succeeds all outputs were
  written, in order. The directories it makes are those named by the paths of the outputs, one step up; where they
  really lie is not checked before they are made.
\<close>

theorem generator_stays_inside:
  assumes "canonical_realpath F" and "canonical_disk D"
  shows "(resolveDesignSystemInput F dir file label = Inr q \<longrightarrow>
      (\<exists>r. realpath F dir = Inr r \<and> prefix (path_segments r) (path_segments q) \<and> lstat F (resolve_path dir file) = Inr RegularFile))
    \<and> (\<forall>x\<in>set (fst (writeGenerated D web outs F)). case x of
        MakesDirectory F' d \<Rightarrow> \<exists>p c. (p, c) \<in> set outs \<and> d = resolve_path p (js ''..'')
      | WritesFile F' q c \<Rightarrow> \<exists>p r. (p, c) \<in> set outs \<and> realpath F' web = Inr r
          \<and> (lstat F' p = Inr RegularFile \<and> realpath F' p = Inr q \<and> prefix (path_segments r) (path_segments q)
             \<or> lstat F' p = Inl ENOENT \<and> q = p
               \<and> (\<exists>d. realpath F' (resolve_path p (js ''..'')) = Inr d \<and> prefix (path_segments r) (path_segments d))))
    \<and> (snd (writeGenerated D web outs F) = Inr F'' \<longrightarrow>
        concat (map (\<lambda>x. case x of WritesFile _ _ c \<Rightarrow> [c] | _ \<Rightarrow> []) (fst (writeGenerated D web outs F))) = map snd outs)"
  using input_inside [OF _ assms(1)] writes_inside [OF assms, of web outs] writes_all
  unfolding list_all_iff written_inside_def by blast

text \<open>
  Making the directory first: where the directory of an output really lies outside the client, it is made there, and
  only then the generator stops.
\<close>

lemma directory_made_before_check:
  assumes "make_directory D (resolve_path p (js ''..'')) F = Inr F1" and "isInsideDirectory web p" and "lstat F1 web = Inr OtherKind"
    and "realpath F1 web = Inr w" and "lstat F1 p = Inl ENOENT" and "realpath F1 (resolve_path p (js ''..'')) = Inr d"
    and "\<not> isInsideDirectory w d"
  shows "writeGenerated D web ((p, c) # outs) F =
    ([MakesDirectory F (resolve_path p (js ''..''))], Inl (OutputParentOutside (relative_path web p)))"
  using assms by (simp add: resolveWebOutput_def from_fs_def require_def Let_def del: js_Cons)

text \<open>A file system without links, in which one text stands at every path, and which takes every write.\<close>

definition plain_files :: "jsstr \<Rightarrow> files" where
  "plain_files content =
     \<lparr>lstat = (\<lambda>_. Inr RegularFile), realpath = (\<lambda>p. Inr (resolve_path (js ''/'') p)), readFile = (\<lambda>_. Inr content)\<rparr>"

definition plain_disk :: disk where
  "plain_disk = \<lparr>make_directory = (\<lambda>_ F. Inr F), write_file = (\<lambda>_ _ F. Inr F)\<rparr>"

lemma plain_canonical: "canonical_realpath (plain_files c)"
  by (auto simp: canonical_realpath_def plain_files_def resolve_canonical)

lemma plain_disk_canonical: "canonical_disk plain_disk"
  by (simp add: canonical_disk_def plain_disk_def)

theorem generator_stays_inside_witness:
  "(\<exists>q. resolveDesignSystemInput (plain_files []) (js ''/w/ds'') (js ''themes/./a.css'') ManifestFile = Inr q
     \<and> prefix [js ''w'', js ''ds''] (path_segments q))
   \<and> (\<exists>F q. WritesFile F q (js ''x'') \<in> set (fst (writeGenerated plain_disk (js ''/w'') [(js ''/w/a/b'', js ''x'')] (plain_files [])))
       \<and> prefix [js ''w''] (path_segments q))"
proof
  note inside = generator_stays_inside [OF plain_canonical [of "[]"] plain_disk_canonical]
  have q: "resolveDesignSystemInput (plain_files []) (js ''/w/ds'') (js ''themes/./a.css'') ManifestFile = Inr (js ''/w/ds/themes/a.css'')"
    by code_simp
  have segments: "path_segments (resolve_path (js ''/'') (js ''/w/ds'')) = [js ''w'', js ''ds'']"
    "path_segments (resolve_path (js ''/'') (js ''/w'')) = [js ''w'']" by code_simp+
  have real: "realpath (plain_files []) p = Inr (resolve_path (js ''/'') p)" for p by (simp add: plain_files_def)
  show "\<exists>q. resolveDesignSystemInput (plain_files []) (js ''/w/ds'') (js ''themes/./a.css'') ManifestFile = Inr q
     \<and> prefix [js ''w'', js ''ds''] (path_segments q)"
    using inside q real segments(1) by fastforce
  have "resolveWebOutput (plain_files []) (js ''/w'') (js ''/w/a/b'') = Inr (js ''/w/a/b'')" by code_simp
  then have calls: "fst (writeGenerated plain_disk (js ''/w'') [(js ''/w/a/b'', js ''x'')] (plain_files [])) =
      [MakesDirectory (plain_files []) (resolve_path (js ''/w/a/b'') (js ''..'')), WritesFile (plain_files []) (js ''/w/a/b'') (js ''x'')]"
    by (simp add: plain_disk_def Let_def del: js_Cons)
  then have "prefix [js ''w''] (path_segments (js ''/w/a/b''))"
    using inside [THEN conjunct2, THEN conjunct1, of "js ''/w''" "[(js ''/w/a/b'', js ''x'')]"] real segments(2)
    by (auto simp: plain_files_def simp del: js_Cons)
  then show "\<exists>F q. WritesFile F q (js ''x'') \<in> set (fst (writeGenerated plain_disk (js ''/w'') [(js ''/w/a/b'', js ''x'')] (plain_files [])))
       \<and> prefix [js ''w''] (path_segments q)"
    unfolding calls by (intro exI [where x = "plain_files []"] exI [where x = "js ''/w/a/b''"]) simp
qed

section \<open>String literals\<close>

text \<open>The value of a single-quoted string literal, as the language reads it: the characters up to the closing
  quote. Line terminators other than U+2028 and U+2029 may not stand in a literal, and escapes of digits, \<open>\x\<close> and
  line continuations, which the generator does not print, are left out.\<close>

definition single_escape :: "code_unit \<Rightarrow> code_unit option" where
  "single_escape c =
     (if c = 110 then Some 10 else if c = 114 then Some 13 else if c = 116 then Some 9 else if c = 98 then Some 8
      else if c = 118 then Some 11 else if c = 102 then Some 12
      else if is_digit c \<or> c = 120 \<or> c = 117 \<or> c = 10 \<or> c = 13 \<or> c = 0x2028 \<or> c = 0x2029 then None
      else Some c)"

function literal_chars :: "jsstr \<Rightarrow> (jsstr \<times> jsstr) option" where
  "literal_chars [] = None"
| "literal_chars (c # r) =
     (if c = 39 then Some ([], r)
      else if c = 92 then
        (if r = [] then None
         else if hd r = 117 then
           (if length r < 5 then None
            else case unit_hex (r ! 1) (r ! 2) (r ! 3) (r ! 4) of
                   None \<Rightarrow> None
                 | Some x \<Rightarrow> push x (literal_chars (drop 5 r)))
         else case single_escape (hd r) of None \<Rightarrow> None | Some x \<Rightarrow> push x (literal_chars (tl r)))
      else if c = 10 \<or> c = 13 then None
      else push c (literal_chars r))"
  by pat_completeness auto
termination
  by (relation "measure length") (auto simp: Suc_diff_Suc neq_Nil_conv less_Suc_eq_le)

definition string_literal :: "jsstr \<Rightarrow> jsstr option" where
  "string_literal t =
     (case t of c # r \<Rightarrow> if c = 39 then (case literal_chars r of Some (s, []) \<Rightarrow> Some s | _ \<Rightarrow> None) else None | [] \<Rightarrow> None)"

definition escaped :: "code_unit \<Rightarrow> jsstr" where
  "escaped c =
     (if c = 92 then [92, 92] else if c = 39 then [92, 39] else if c = 13 then [92, 114] else if c = 10 then [92, 110]
      else if c = 0x2028 then [92, 117, 50, 48, 50, 56] else if c = 0x2029 then [92, 117, 50, 48, 50, 57] else [c])"

lemma replaceAll_append: "replaceAll c t (a @ b) = replaceAll c t a @ replaceAll c t b"
  by (simp add: replaceAll_def)

lemma replaceAll_Cons: "replaceAll c t (x # s) = replaceAll c t [x] @ replaceAll c t s"
  by (simp add: replaceAll_def)

lemma quote_escaped: "quoteForJavaScript s = 39 # concat (map escaped s) @ [39]"
proof -
  have "replaceAll 0x2029 [92, 117, 50, 48, 50, 57] (replaceAll 0x2028 [92, 117, 50, 48, 50, 56]
      (replaceAll 10 [92, 110] (replaceAll 13 [92, 114] (replaceAll 39 [92, 39] (replaceAll 92 [92, 92] s)))))
    = concat (map escaped s)"
  proof (induction s)
    case (Cons c s)
    have "replaceAll 0x2029 [92, 117, 50, 48, 50, 57] (replaceAll 0x2028 [92, 117, 50, 48, 50, 56]
        (replaceAll 10 [92, 110] (replaceAll 13 [92, 114] (replaceAll 39 [92, 39] (replaceAll 92 [92, 92] [c])))))
      = escaped c"
      by (simp add: replaceAll_def escaped_def)
    then show ?case using Cons by (simp only: replaceAll_Cons [of _ _ c s] replaceAll_append list.map concat.simps)
  qed (simp add: replaceAll_def)
  then show ?thesis by (simp add: quoteForJavaScript_def)
qed

lemma literal_escaped: "literal_chars (escaped c @ r) = push c (literal_chars r)"
proof -
  have "unit_hex 50 48 50 56 = Some 0x2028" "unit_hex 50 48 50 57 = Some 0x2029" by code_simp+
  then show ?thesis by (simp add: escaped_def single_escape_def in_range_def)
qed

lemma literal_quoted: "literal_chars (concat (map escaped s) @ 39 # r) = Some (s, r)"
  by (induction s) (simp_all add: literal_escaped push_def del: literal_chars.simps(2), simp)

lemma escaped_terminators: "x \<in> set (escaped c) \<Longrightarrow> x \<noteq> 10 \<and> x \<noteq> 13 \<and> x \<noteq> 0x2028 \<and> x \<noteq> 0x2029"
  by (auto simp: escaped_def split: if_splits)

text \<open>
  C37. Every text printed into the generated registry is read back by the language as exactly that text, whatever
  quotes, backslashes and line terminators are in it, and never breaks the line it stands on.
\<close>

theorem quoted_text_reads_back:
  "string_literal (quoteForJavaScript s) = Some s
   \<and> set (quoteForJavaScript s) \<inter> {10, 13, 0x2028, 0x2029} = {}"
proof -
  have "string_literal (quoteForJavaScript s) = Some s"
    using literal_quoted [of s "[]"] by (simp add: string_literal_def quote_escaped)
  moreover have "set (quoteForJavaScript s) \<inter> {10, 13, 0x2028, 0x2029} = {}"
    using escaped_terminators by (auto simp: quote_escaped)
  ultimately show ?thesis by blast
qed

section \<open>Manifests\<close>

definition good_theme :: "ThemeDefinition \<Rightarrow> bool" where
  "good_theme t \<longleftrightarrow> theme_id_pattern (theme_id t) \<and> theme_label t \<noteq> [] \<and> endsWith (theme_file t) (js ''.css'')
     \<and> \<not> isAbsolute (theme_file t) \<and> theme_version t \<ge> 1"

definition good_manifest :: "theme_manifest \<Rightarrow> bool" where
  "good_manifest m \<longleftrightarrow> tm_themes m \<noteq> [] \<and> distinct (map theme_id (tm_themes m)) \<and> list_all good_theme (tm_themes m)
     \<and> tm_default m \<in> set (map theme_id (tm_themes m)) \<and> tm_fallback m \<in> set (map theme_id (tm_themes m)) \<and> \<not> tm_follow m"

lemma positive_integer_ge: "positive_integer v = Some n \<Longrightarrow> n \<ge> 1"
  by (auto simp: positive_integer_def isInteger_def le_floor_iff split: json.splits number.splits if_splits)

lemma requireString_Inr: "requireString v label = Inr t \<longleftrightarrow> v = JStr t \<and> t \<noteq> []"
  by (auto simp: requireString_def split: json.splits)

lemma input_relative: "resolveDesignSystemInput F dir file label = Inr q \<Longrightarrow> file \<noteq> [] \<and> \<not> isAbsolute file"
  by (auto simp: resolveDesignSystemInput_def split: if_splits)

lemma load_theme_good: "load_theme F dir seen i v = Inr t \<Longrightarrow> good_theme t \<and> theme_id t \<notin> seen"
  unfolding load_theme_def bind_result_Inr_iff require_simps(1) requireString_Inr good_theme_def
  by (clarsimp simp del: js_Cons split: option.splits) (auto dest: input_relative positive_integer_ge simp del: js_Cons)

lemma load_themes_good:
  "load_themes F dir seen i vs = Inr ts \<Longrightarrow> list_all good_theme ts \<and> distinct (map theme_id ts) \<and> set (map theme_id ts) \<inter> seen = {}
     \<and> length ts = length vs"
proof (induction F dir seen i vs arbitrary: ts rule: load_themes.induct)
  case (2 F dir seen i v vs)
  then obtain t ts' where t: "load_theme F dir seen i v = Inr t" "ts = t # ts'"
      "load_themes F dir (insert (theme_id t) seen) (Suc i) vs = Inr ts'"
    by (auto simp: bind_result_Inr_iff)
  with "2.IH" [OF t(3)] load_theme_good [OF t(1)] show ?case by auto
qed simp

lemma requireThemes_Inr: "requireThemes v = Inr vs \<longleftrightarrow> v = JArr vs \<and> vs \<noteq> []"
  by (auto simp: requireThemes_def split: json.splits)

lemma loadManifest_good: "loadManifest F dir = Inr m \<Longrightarrow> good_manifest m"
  unfolding loadManifest_def bind_result_Inr_iff require_simps(1) requireString_Inr requireThemes_Inr good_manifest_def
  by (auto dest: load_themes_good simp del: js_Cons)

lemma check_iff:
  "checkGenerated F web outs = Inr u \<longleftrightarrow>
     (\<forall>(p, content)\<in>set outs. \<exists>q. resolveWebOutput F web p = Inr q \<and> readFile F q = Inr content)"
proof (induction outs)
  case (Cons out outs)
  obtain p c where out: "out = (p, c)" by (cases out)
  show ?case
  proof (cases "resolveWebOutput F web p")
    case (Inr q)
    then show ?thesis using Cons by (cases "readFile F q") (auto simp: out from_fs_def)
  qed (simp add: out)
qed simp

text \<open>
  The check of the generator succeeds exactly when the manifest is accepted and both generated files are in
  place and hold, character for character, what the manifest renders to. An accepted manifest registers at
  least one theme, each id once and in the form a selector needs, each with a label, a style sheet inside the
  package and a positive version, and its default and fallback are among them.
\<close>

lemma check_means_current:
  "(generate D web [js ''--check''] F = ([], Inr F) \<longleftrightarrow>
      (\<exists>m. loadManifest F (resolve_path web (js ''design-system'')) = Inr m
        \<and> (\<exists>q. resolveWebOutput F web (registry_output web) = Inr q \<and> readFile F q = Inr (renderRegistry m))
        \<and> (\<exists>q. resolveWebOutput F web (bootstrap_output web) = Inr q \<and> readFile F q = Inr (renderBootstrap m))))
   \<and> (\<forall>m. loadManifest F dir = Inr m \<longrightarrow> good_manifest m)"
proof -
  have "generate D web [js ''--check''] F = ([], Inr F) \<longleftrightarrow>
      (\<exists>expected. expectedOutputs F web = Inr expected \<and> checkGenerated F web expected = Inr ())"
    by (auto simp: generate_def bind_result_Inr_iff simp del: js_Cons split: sum.split)
  then show ?thesis using loadManifest_good
    by (auto simp: check_iff expectedOutputs_def bind_result_Inr_iff simp del: js_Cons)
qed

section \<open>The start of a page\<close>

lemma registered_cases: "isThemeId (JStr s) \<longleftrightarrow> s = js ''cherry-black'' \<or> s = js ''pure-white''"
  by (auto simp: isThemeId_def themeRegistry_def simp del: js_Cons)

lemma blank_not_registered: "trim s = [] \<Longrightarrow> \<not> isThemeId (JStr s)"
proof -
  have "trim (js ''cherry-black'') \<noteq> []" "trim (js ''pure-white'') \<noteq> []" by code_simp+
  then show "trim s = [] \<Longrightarrow> \<not> isThemeId (JStr s)" unfolding registered_cases by blast
qed

lemmas start_defs = initializeTheme_def createThemeController_def readStoredTheme_def Let_def themeColorSchemes_def isThemeId_def
  themeRegistry_def applyTheme_def getThemeDefinition_def scheme_text_def resolveTheme_def removeStoredTheme_def
  themeSelectorAttribute_def colorSchemeAttribute_def themeStorageKey_def defaultThemeId_def fallbackThemeId_def

text \<open>
  C36. The script at the start of a page and the program that runs later agree, whatever the storage holds
  and whichever access to it fails: the program keeps the theme and the attributes the script has set and
  leaves the storage as it is, and without the script it would have chosen the same theme.
\<close>

theorem start_script_agrees:
  "(case initializeTheme a attrs st of (attrs', st') \<Rightarrow>
      (\<exists>p. createThemeController a attrs' st' = (Inr p, st') \<and> root_attrs p = attrs'
         \<and> attrs' themeSelectorAttribute = Some (themeId (theme_snapshot p))
         \<and> (\<exists>p' st''. createThemeController a (attrs(themeSelectorAttribute := None)) st = (Inr p', st'')
              \<and> theme_snapshot p' = theme_snapshot p \<and> st'' = st')))"
proof (cases "no_storage a \<or> get_throws a")
  case True
  then show ?thesis
    by (auto simp: start_defs)
next
  case False
  show ?thesis
  proof (cases "st themeStorageKey")
    case None
    then show ?thesis using False
      by (auto simp: start_defs)
  next
    case (Some s)
    then show ?thesis using False blank_not_registered [of s] unfolding registered_cases
      by (auto simp: start_defs)
  qed
qed

end
