(* ===== verification/Source_Scan.thy ===== *)
theory Source_Scan
  imports Theme_Generator
begin

text \<open>
  The scan of the client's sources for forbidden spellings, \<open>apps/web/scripts/check-design-system.mjs\<close>: which files
  are read, how comments are blanked out before the rules look, where a violation is reported. A directory
  is a tree of files, directories and links; the regular expressions of the rules are an argument, a function from
  a text to its matches, and so is the order of \<open>localeCompare\<close>. The theorems say that blanking moves no
  position and hides nothing but what looks like a comment, and that the scan sees every file or fails.
\<close>

section \<open>Files\<close>

definition scannedExtensions :: "jsstr list" where
  "scannedExtensions = map js [''.cjs'', ''.css'', ''.html'', ''.js'', ''.jsx'', ''.json'', ''.mjs'', ''.svg'', ''.ts'', ''.tsx'']"

definition productionDirectoryTargets :: "jsstr list" where
  "productionDirectoryTargets = map js [''.storybook'', ''e2e'', ''public'', ''scripts'', ''src'']"

definition productionFileTargets :: "jsstr list" where
  "productionFileTargets = map js [''components.json'', ''eslint.config.js'', ''index.html'', ''openapi-ts.config.mjs'', ''package.json'',
     ''playwright.config.ts'', ''prettier.config.mjs'', ''tsconfig.app.json'', ''tsconfig.json'', ''tsconfig.node.json'', ''vite.config.ts'']"

text \<open>\<open>extname\<close> of a file name: from its last dot, unless that is the first character.\<close>

definition extname :: "jsstr \<Rightarrow> jsstr" where
  "extname name = (let k = lastIndexOf 46 name in if k \<le> 0 then [] else drop (nat k) name)"

datatype tree = TreeFile | TreeDir "(jsstr \<times> tree) list" | TreeLink | TreeOther

datatype scan_error = LinkInTree jsstr | LinkedFile jsstr | NoThemeList | BadIdAt nat | NoThemeIds | NoExternalRule
  | Violations nat | UnknownTokens nat | ScanFsFailed fs_error

definition path_join :: "jsstr \<Rightarrow> jsstr \<Rightarrow> jsstr" where
  "path_join dir name = dir @ 47 # name"

fun concat_results :: "('e, 'a list) result list \<Rightarrow> ('e, 'a list) result" where
  "concat_results [] = Inr []"
| "concat_results (r # rs) = bind_result r (\<lambda>xs. bind_result (concat_results rs) (\<lambda>ys. Inr (xs @ ys)))"

definition by_name :: "(jsstr \<Rightarrow> jsstr \<Rightarrow> int) \<Rightarrow> jsstr \<times> 'a \<Rightarrow> jsstr \<times> 'a \<Rightarrow> int" where
  "by_name localeCompare a b = localeCompare (fst a) (fst b)"

text \<open>The recursion over the entries in the order of their names; the first link in that order is the error.\<close>

fun collectDirectoryFiles :: "(jsstr \<Rightarrow> jsstr \<Rightarrow> int) \<Rightarrow> jsstr \<Rightarrow> tree \<Rightarrow> (scan_error, jsstr list) result" where
  "collectDirectoryFiles lc path (TreeDir entries) =
     concat_results (map snd (sort_by (by_name lc) (map (\<lambda>(name, t). (name,
       case t of
         TreeFile \<Rightarrow> Inr (if extname name \<in> set scannedExtensions then [path_join path name] else [])
       | TreeOther \<Rightarrow> Inr []
       | _ \<Rightarrow> collectDirectoryFiles lc (path_join path name) t)) entries)))"
| "collectDirectoryFiles lc path TreeLink = Inl (LinkInTree path)"
| "collectDirectoryFiles lc path TreeFile = Inl (ScanFsFailed OtherFailure)"
| "collectDirectoryFiles lc path TreeOther = Inl (ScanFsFailed OtherFailure)"

definition fullyAllowedFiles :: "jsstr list" where
  "fullyAllowedFiles = [js ''scripts/check-design-system.mjs'']"

definition ruleAllowlist :: "(jsstr \<times> jsstr list) list" where
  "ruleAllowlist =
     [(js ''inline-svg'', [js ''public/brand-mark.svg'']), (js ''raw-hex'', [js ''public/brand-mark.svg'']),
      (js ''random-dom-id'', [js ''src/features/submissions/submission-recovery.ts'']),
      (js ''literal-theme-id'', [js ''index.html'', js ''public/generated/theme-init.js'', js ''src/generated/design-system/themes.ts''])]"

definition isAllowed :: "jsstr \<Rightarrow> jsstr \<Rightarrow> bool" where
  "isAllowed relativePath ruleId \<longleftrightarrow> relativePath \<in> set fullyAllowedFiles
     \<or> (case map_of ruleAllowlist ruleId of Some ps \<Rightarrow> relativePath \<in> set ps | None \<Rightarrow> False)"

definition escapeRegExp :: "jsstr \<Rightarrow> jsstr" where
  "escapeRegExp v = concat (map (\<lambda>c. if c \<in> set (js ''.*+?^${}()|[]'') \<or> c = 92 then [92, c] else [c]) v)"

fun theme_ids_at :: "nat \<Rightarrow> json list \<Rightarrow> (scan_error, jsstr list) result" where
  "theme_ids_at i [] = Inr []"
| "theme_ids_at i (v # vs) =
     (case jget (js ''id'') v of
        JStr s \<Rightarrow> if s = [] then Inl (BadIdAt i) else bind_result (theme_ids_at (Suc i) vs) (\<lambda>ss. Inr (s # ss))
      | _ \<Rightarrow> Inl (BadIdAt i))"

definition readThemeIds :: "json \<Rightarrow> (scan_error, jsstr list) result" where
  "readThemeIds manifest =
     (case jget (js ''themes'') manifest of
        JArr vs \<Rightarrow> bind_result (theme_ids_at 0 vs) (\<lambda>ids. if ids = [] then Inl NoThemeIds else Inr ids)
      | _ \<Rightarrow> Inl NoThemeList)"

text \<open>\<open>themePattern\<close>: the ids joined by a bar, the longer ones first.\<close>

definition themePattern :: "jsstr list \<Rightarrow> jsstr" where
  "themePattern ids = join [124] (map escapeRegExp (sort_by (\<lambda>a b. int (length b) - int (length a)) ids))"

section \<open>Comments\<close>

definition blank :: "jsstr \<Rightarrow> jsstr" where
  "blank t = map (\<lambda>c. if c = 10 then 10 else 32) t"

text \<open>The length of the shortest prefix that ends a block comment.\<close>

fun comment_end :: "jsstr \<Rightarrow> nat option" where
  "comment_end (a # b # s) = (if a = 42 \<and> b = 47 then Some 2 else map_option Suc (comment_end (b # s)))"
| "comment_end _ = None"

text \<open>\<open>replaceAll(/\/\*[\s\S]*?\*\//g, blank)\<close>.\<close>

function mask_blocks :: "jsstr \<Rightarrow> jsstr" where
  "mask_blocks s =
     (if s = [] then []
      else case (if startsWith s (js ''/*'') then comment_end (drop 2 s) else None) of
          Some n \<Rightarrow> blank (take (n + 2) s) @ mask_blocks (drop (n + 2) s)
        | None \<Rightarrow> hd s # mask_blocks (tl s))"
  by pat_completeness auto
termination
  by (relation "measure length") auto

declare mask_blocks.simps [simp del]

text \<open>\<open>replaceAll(/(^|[^:\w])\/\/[^\n]*/g, ...)\<close>: a line comment at the start of the text (\<open>at_start\<close>) or after a character
  that is neither a colon nor a word character, which is kept.\<close>

function mask_lines :: "bool \<Rightarrow> jsstr \<Rightarrow> jsstr" where
  "mask_lines at_start s =
     (if s = [] then []
      else if at_start \<and> startsWith s (js ''//'')
      then blank (takeWhile (\<lambda>c. c \<noteq> 10) s) @ mask_lines False (dropWhile (\<lambda>c. c \<noteq> 10) s)
      else if hd s \<noteq> 58 \<and> \<not> is_word_char (hd s) \<and> startsWith (tl s) (js ''//'')
      then hd s # blank (takeWhile (\<lambda>c. c \<noteq> 10) (tl s)) @ mask_lines False (dropWhile (\<lambda>c. c \<noteq> 10) (tl s))
      else hd s # mask_lines False (tl s))"
  by pat_completeness auto
termination
proof (relation "measure (length \<circ> snd)", goal_cases)
  case (2 at_start s)
  then have "hd s \<noteq> 10" by (cases s) (auto simp: startsWith_def)
  with 2 show ?case by (cases s) (auto simp: le_imp_less_Suc length_dropWhile_le)
next
  case (3 at_start s)
  then show ?case by (cases s) (auto simp: le_imp_less_Suc length_dropWhile_le)
next
  case (4 at_start s)
  then show ?case by (cases s) auto
qed simp

declare mask_lines.simps [simp del]

definition maskComments :: "jsstr \<Rightarrow> jsstr" where
  "maskComments content = mask_lines True (mask_blocks content)"

definition positionAt :: "jsstr \<Rightarrow> nat \<Rightarrow> nat \<times> nat" where
  "positionAt content index =
     (let ls = split_on 10 (take index content) in (length ls, length (last ls) + 1))"

section \<open>Rules\<close>

record scan_rule =
  rule_id :: jsstr
  rule_matches :: "jsstr \<Rightarrow> (nat \<times> jsstr) list"
  appliesTo :: "jsstr \<Rightarrow> bool"

record violation =
  vi_line :: nat
  vi_column :: nat
  vi_path :: jsstr
  vi_rule :: jsstr
  vi_excerpt :: jsstr

definition ds_var_applies :: "jsstr \<Rightarrow> bool" where
  "ds_var_applies path \<longleftrightarrow> startsWith path (js ''src/'') \<and> \<not> startsWith path (js ''src/components/ui/'') \<and> path \<noteq> js ''src/styles/globals.css''"

definition rule_names :: "jsstr list" where
  "rule_names = map js [''external-design-system-source'', ''ds-var-outside-ui'', ''raw-hex'', ''raw-oklch'', ''legacy-dark-selector'',
     ''legacy-dark-utility'', ''literal-theme-id'', ''raw-design-token'', ''dynamic-color-mix'', ''inline-style-object'', ''inline-svg'',
     ''random-dom-id'', ''mouse-only-visual-state'', ''forbidden-transform-motion'', ''state-opacity-utility'', ''state-opacity-css'']"

text \<open>\<open>matchAll\<close> gives the matches of the pattern of a rule; one pattern contains the theme ids.\<close>

definition createRules :: "(jsstr \<Rightarrow> jsstr \<Rightarrow> jsstr \<Rightarrow> (nat \<times> jsstr) list) \<Rightarrow> jsstr list \<Rightarrow> scan_rule list" where
  "createRules matchAll themeIds = map (\<lambda>i. \<lparr>rule_id = i, rule_matches = matchAll (themePattern themeIds) i,
     appliesTo = (if i = js ''ds-var-outside-ui'' then ds_var_applies else (\<lambda>_. True))\<rparr>) rule_names"

text \<open>\<open>replaceAll(/\s+/g, ' ')\<close>.\<close>

function collapse_ws :: "jsstr \<Rightarrow> jsstr" where
  "collapse_ws [] = []"
| "collapse_ws (c # s) = (if is_ws c then 32 # collapse_ws (dropWhile is_ws s) else c # collapse_ws s)"
  by pat_completeness auto
termination
  by (relation "measure length") (auto simp: le_imp_less_Suc length_dropWhile_le)

definition scan_rule_in :: "jsstr \<Rightarrow> jsstr \<Rightarrow> scan_rule \<Rightarrow> violation list" where
  "scan_rule_in relativePath content r =
     (if isAllowed relativePath (rule_id r) \<or> \<not> appliesTo r relativePath then []
      else map (\<lambda>(index, m). case positionAt content index of (l, c) \<Rightarrow>
             \<lparr>vi_line = l, vi_column = c, vi_path = relativePath, vi_rule = rule_id r, vi_excerpt = take 100 (collapse_ws m)\<rparr>)
           (rule_matches r (maskComments content)))"

definition scan_file :: "files \<Rightarrow> jsstr \<Rightarrow> scan_rule list \<Rightarrow> jsstr \<Rightarrow> (scan_error, violation list) result" where
  "scan_file F dir rules path =
     (case lstat F path of
        Inl e \<Rightarrow> Inl (ScanFsFailed e)
      | Inr kind \<Rightarrow>
          if kind = SymbolicLink then Inl (LinkedFile (relative_path dir path))
          else (case readFile F path of
                  Inl e \<Rightarrow> Inl (ScanFsFailed e)
                | Inr content \<Rightarrow> Inr (concat (map (scan_rule_in (relative_path dir path) content) rules))))"

definition violation_order :: "(jsstr \<Rightarrow> jsstr \<Rightarrow> int) \<Rightarrow> violation \<Rightarrow> violation \<Rightarrow> int" where
  "violation_order lc a b =
     (let first = (\<lambda>x y. if x \<noteq> 0 then x else y :: int)
      in first (lc (vi_path a) (vi_path b)) (first (int (vi_line a) - int (vi_line b))
           (first (int (vi_column a) - int (vi_column b)) (lc (vi_rule a) (vi_rule b)))))"

definition scanFiles :: "(jsstr \<Rightarrow> jsstr \<Rightarrow> int) \<Rightarrow> files \<Rightarrow> jsstr \<Rightarrow> scan_rule list \<Rightarrow> jsstr list \<Rightarrow> (scan_error, violation list) result" where
  "scanFiles lc F dir rules paths =
     bind_result (concat_results (map (scan_file F dir rules) paths)) (\<lambda>vs. Inr (sort_by (violation_order lc) vs))"

section \<open>Tokens\<close>

definition is_ds_char :: "code_unit \<Rightarrow> bool" where
  "is_ds_char c \<longleftrightarrow> is_word_char c \<or> c = 45"

text \<open>\<open>matchAll(/(--ds-[A-Za-z0-9_-]+)\s*:/g)\<close> and \<open>matchAll(/var\(\s*(--ds-[A-Za-z0-9_-]+)/g)\<close>. A name and what follows it
  have no character in common, so a shorter name never matches where the longest one does not.\<close>

function ds_declared :: "jsstr \<Rightarrow> jsstr list" where
  "ds_declared s =
     (if s = [] then []
      else let name = takeWhile is_ds_char (drop 5 s); r = dropWhile is_ws (dropWhile is_ds_char (drop 5 s)) in
        if startsWith s (js ''--ds-'') \<and> name \<noteq> [] \<and> r \<noteq> [] \<and> hd r = 58
        then (js ''--ds-'' @ name) # ds_declared (tl r) else ds_declared (tl s))"
  by pat_completeness auto
termination
proof (relation "measure length", goal_cases)
  case (2 s name r)
  have "length r \<le> length (drop 5 s)" unfolding 2 by (meson length_dropWhile_le order_trans)
  with 2 show ?case by (cases s) auto
qed auto

function ds_referenced :: "jsstr \<Rightarrow> jsstr list" where
  "ds_referenced s =
     (if s = [] then []
      else let r = dropWhile is_ws (drop 4 s); name = takeWhile is_ds_char (drop 5 r) in
        if startsWith s (js ''var('') \<and> startsWith r (js ''--ds-'') \<and> name \<noteq> []
        then (js ''--ds-'' @ name) # ds_referenced (dropWhile is_ds_char (drop 5 r)) else ds_referenced (tl s))"
  by pat_completeness auto
termination
proof (relation "measure length", goal_cases)
  case (2 s r name)
  have "length (dropWhile is_ds_char (drop 5 r)) \<le> length r" using length_dropWhile_le [of is_ds_char "drop 5 r"] by simp
  also have "\<dots> \<le> length (drop 4 s)" unfolding 2 by (rule length_dropWhile_le)
  finally show ?case using 2 by (cases s) auto
qed auto

declare ds_declared.simps [simp del] ds_referenced.simps [simp del]

text \<open>\<open>css\<close> are the contents of the foundation and the two themes.\<close>

definition verifyReferencedTokensExist :: "jsstr list \<Rightarrow> (jsstr \<times> jsstr) list \<Rightarrow> (scan_error, unit) result" where
  "verifyReferencedTokensExist css sources =
     (let declared = concat (map ds_declared css);
          unknown = concat (map (\<lambda>(relativePath, content).
             if relativePath \<in> set fullyAllowedFiles then []
             else filter (\<lambda>t. t \<notin> set declared) (ds_referenced (maskComments content))) sources)
      in if unknown = [] then Inr () else Inl (UnknownTokens (length unknown)))"

section \<open>The whole scan\<close>

text \<open>The default order of \<open>sort()\<close>, by code units.\<close>

fun text_order :: "jsstr \<Rightarrow> jsstr \<Rightarrow> int" where
  "text_order [] [] = 0"
| "text_order [] _ = -1"
| "text_order _ [] = 1"
| "text_order (a # s) (b # t) = (if a < b then -1 else if b < a then 1 else text_order s t)"

text \<open>\<open>trees\<close> gives the tree at each name in the web directory.\<close>

definition collectProductionFiles :: "(jsstr \<Rightarrow> jsstr \<Rightarrow> int) \<Rightarrow> jsstr \<Rightarrow> (jsstr \<Rightarrow> tree) \<Rightarrow> (scan_error, jsstr list) result" where
  "collectProductionFiles lc web trees =
     bind_result (concat_results (map (\<lambda>t. collectDirectoryFiles lc (path_join web t) (trees t)) productionDirectoryTargets)) (\<lambda>fs.
     Inr (sort_by text_order (rev (remdups (rev (fs @ map (path_join web) productionFileTargets))))))"

definition read_sources :: "files \<Rightarrow> jsstr \<Rightarrow> jsstr list \<Rightarrow> (scan_error, (jsstr \<times> jsstr) list) result" where
  "read_sources F dir paths = concat_results (map (\<lambda>p.
     case readFile F p of Inl e \<Rightarrow> Inl (ScanFsFailed e) | Inr c \<Rightarrow> Inr [(relative_path dir p, c)]) paths)"

text \<open>The rules on the sources, then the rule on foreign design sources on the package itself, then the tokens.\<close>

definition runProductionScan ::
    "(jsstr \<Rightarrow> jsstr \<Rightarrow> int) \<Rightarrow> files \<Rightarrow> jsstr \<Rightarrow> (jsstr \<Rightarrow> tree) \<Rightarrow> scan_rule list \<Rightarrow> jsstr list \<Rightarrow> (scan_error, unit) result" where
  "runProductionScan lc F web trees rules css =
     bind_result (collectProductionFiles lc web trees) (\<lambda>productionFiles.
     bind_result (scanFiles lc F web rules productionFiles) (\<lambda>vs.
     case find (\<lambda>r. rule_id r = js ''external-design-system-source'') rules of
       None \<Rightarrow> Inl NoExternalRule
     | Some r \<Rightarrow>
         bind_result (collectDirectoryFiles lc (path_join web (js ''design-system'')) (trees (js ''design-system''))) (\<lambda>packageFiles.
         bind_result (scanFiles lc F web [r] packageFiles) (\<lambda>ws.
         if vs @ ws \<noteq> [] then Inl (Violations (length (vs @ ws)))
         else bind_result (read_sources F web productionFiles) (\<lambda>sources. verifyReferencedTokensExist css sources)))))"

section \<open>Facts\<close>

text \<open>Blanking keeps every line feed in its place and every other character or a space in its.\<close>

abbreviation blanked :: "code_unit \<Rightarrow> code_unit \<Rightarrow> bool" where
  "blanked c d \<equiv> d = c \<or> d = 32 \<and> c \<noteq> 10"

lemma blanked_blank: "list_all2 blanked s (blank s)"
  by (induction s) (auto simp: blank_def)

lemma blanked_Cons: "s \<noteq> [] \<Longrightarrow> hd s = c \<Longrightarrow> list_all2 blanked (tl s) t \<Longrightarrow> list_all2 blanked s (c # t)"
  by (cases s) auto

lemma blanked_part:
  assumes "list_all2 blanked (drop n s) t"
  shows "list_all2 blanked s (blank (take n s) @ t)"
  using list_all2_appendI [OF blanked_blank [of "take n s"] assms] by simp

lemma blanked_line:
  assumes "list_all2 blanked (dropWhile P s) t"
  shows "list_all2 blanked s (blank (takeWhile P s) @ t)"
  using list_all2_appendI [OF blanked_blank [of "takeWhile P s"] assms] by simp

lemma mask_blocks_blanked: "list_all2 blanked s (mask_blocks s)"
proof (induction s rule: mask_blocks.induct)
  case (1 s)
  then show ?case
    by (subst mask_blocks.simps) (auto split: option.split intro: blanked_part blanked_Cons)
qed

lemma mask_lines_blanked: "list_all2 blanked s (mask_lines b s)"
proof (induction b s rule: mask_lines.induct)
  case (1 b s)
  then show ?case
    by (subst mask_lines.simps) (auto intro: blanked_line blanked_Cons)
qed

lemma blanked_trans: "list_all2 blanked s t \<Longrightarrow> list_all2 blanked t u \<Longrightarrow> list_all2 blanked s u"
  by (erule (1) list_all2_trans [rotated]) auto

lemma mask_blanked: "list_all2 blanked s (maskComments s)"
  unfolding maskComments_def by (rule blanked_trans [OF mask_blocks_blanked mask_lines_blanked])

lemma blanked_pieces: "list_all2 blanked s t \<Longrightarrow> list_all2 (\<lambda>a b. length a = length b) (split_on 10 s) (split_on 10 t)"
proof (induction rule: list_all2_induct)
  case (Cons x xs y ys)
  then show ?case by (cases "split_on 10 xs"; cases "split_on 10 ys") auto
qed simp

lemma list_all2_last: "list_all2 P xs ys \<Longrightarrow> xs \<noteq> [] \<Longrightarrow> P (last xs) (last ys)"
  by (induction rule: list_all2_induct) (auto simp: list_all2_Nil2)

lemma blanked_position: "list_all2 blanked s t \<Longrightarrow> positionAt t i = positionAt s i"
proof -
  assume "list_all2 blanked s t"
  then have p: "list_all2 (\<lambda>a b. length a = length b) (split_on 10 (take i s)) (split_on 10 (take i t))"
    by (intro blanked_pieces list_all2_takeI)
  then have "length (last (split_on 10 (take i s))) = length (last (split_on 10 (take i t)))"
    by (rule list_all2_last) simp
  then show ?thesis using list_all2_lengthD [OF p] by (simp add: positionAt_def Let_def)
qed

text \<open>
  Blanking out comments moves nothing: the blanked text has the length of the file, every character in it
  is the file's or a space that stands for one, no line feed comes or goes, and so the line and column of an
  index are the same in both, which is why violations found in the blanked text are reported where they
  are in the file.
\<close>

lemma mask_keeps_positions:
  "length (maskComments s) = length s
   \<and> (\<forall>i<length s. maskComments s ! i = s ! i \<or> maskComments s ! i = 32 \<and> s ! i \<noteq> 10)
   \<and> positionAt (maskComments s) j = positionAt s j"
  using mask_blanked [of s] blanked_position [OF mask_blanked, of s j]
  by (auto simp: list_all2_conv_all_nth)

section \<open>What may be hidden\<close>

text \<open>
  Positions of a text that look like a comment, told without the masking: in a span from \<open>/*\<close> to the first \<open>*/\<close>
  after it; in a span that starts with two slashes, at the start of the text or after a character that is neither a colon
  nor a word character, and stays on its line. Whether a span stands in a string is not asked.
\<close>

definition block_span :: "jsstr \<Rightarrow> nat \<Rightarrow> nat \<Rightarrow> bool" where
  "block_span s i j \<longleftrightarrow> i + 4 \<le> j \<and> j \<le> length s \<and> s ! i = 47 \<and> s ! (i + 1) = 42 \<and> s ! (j - 2) = 42 \<and> s ! (j - 1) = 47
     \<and> (\<forall>m. i + 2 \<le> m \<and> m < j - 2 \<longrightarrow> \<not> (s ! m = 42 \<and> s ! (m + 1) = 47))"

definition in_block :: "jsstr \<Rightarrow> nat \<Rightarrow> bool" where
  "in_block s k \<longleftrightarrow> (\<exists>i j. block_span s i j \<and> i \<le> k \<and> k < j)"

definition line_start :: "bool \<Rightarrow> jsstr \<Rightarrow> nat \<Rightarrow> bool" where
  "line_start at_start s i \<longleftrightarrow> i + 1 < length s \<and> s ! i = 47 \<and> s ! (i + 1) = 47
     \<and> (if i = 0 then at_start else s ! (i - 1) \<noteq> 58 \<and> \<not> is_word_char (s ! (i - 1)))"

definition in_line :: "bool \<Rightarrow> jsstr \<Rightarrow> nat \<Rightarrow> bool" where
  "in_line at_start s k \<longleftrightarrow> (\<exists>i\<le>k. line_start at_start s i \<and> (\<forall>m. i \<le> m \<and> m \<le> k \<longrightarrow> s ! m \<noteq> 10))"

text \<open>\<open>t\<close> is the text \<open>s\<close> in which only such characters were replaced, by spaces.\<close>

definition hides_comments_only :: "jsstr \<Rightarrow> jsstr \<Rightarrow> bool" where
  "hides_comments_only s t \<longleftrightarrow> length t = length s
     \<and> (\<forall>k<length s. t ! k = s ! k \<or> t ! k = 32 \<and> s ! k \<noteq> 10 \<and> (in_block s k \<or> in_line True s k))"

lemma in_block_shift:
  assumes "in_block (drop n s) k" and "n \<le> length s"
  shows "in_block s (n + k)"
proof -
  obtain i j where b: "block_span (drop n s) i j" "i \<le> k" "k < j" using assms(1) unfolding in_block_def by blast
  then have j: "i + 4 \<le> j" "n + j \<le> length s" using assms(2) by (auto simp: block_span_def)
  have at: "drop n s ! m = s ! (n + m)" if "m < j" for m using that j by simp
  have e: "n + j - 2 = n + (j - 2)" "n + j - 1 = n + (j - 1)" using j by simp_all
  have inner: "\<not> (s ! m = 42 \<and> s ! (m + 1) = 47)" if m: "n + i + 2 \<le> m" "m < n + j - 2" for m
  proof -
    have "i + 2 \<le> m - n \<and> m - n < j - 2" using m by linarith
    then have "\<not> (drop n s ! (m - n) = 42 \<and> drop n s ! (m - n + 1) = 47)" using b(1) unfolding block_span_def by blast
    then show ?thesis using m at [of "m - n"] at [of "m - n + 1"] by simp
  qed
  have "s ! (n + i) = 47" "s ! (n + i + 1) = 42" "s ! (n + (j - 2)) = 42" "s ! (n + (j - 1)) = 47"
    using b(1) j at [of i] at [of "i + 1"] at [of "j - 2"] at [of "j - 1"] unfolding block_span_def by (simp_all add: add.assoc)
  then have "block_span s (n + i) (n + j)" using j inner unfolding block_span_def e by simp
  then show ?thesis using b(2,3) unfolding in_block_def by (intro exI [where x = "n + i"] exI [where x = "n + j"]) simp
qed

lemma comment_end_Some:
  "comment_end t = Some n \<Longrightarrow> 2 \<le> n \<and> n \<le> length t \<and> t ! (n - 2) = 42 \<and> t ! (n - 1) = 47
     \<and> (\<forall>m<n - 2. \<not> (t ! m = 42 \<and> t ! (m + 1) = 47))"
proof (induction t arbitrary: n rule: comment_end.induct)
  case (1 a b s)
  show ?case
  proof (cases "a = 42 \<and> b = 47")
    case False
    then obtain n' where n: "n = Suc n'" "comment_end (b # s) = Some n'" using 1(2) by auto
    note IH = 1(1) [OF False n(2)]
    have "\<not> ((a # b # s) ! m = 42 \<and> (a # b # s) ! (m + 1) = 47)" if "m < n - 2" for m
      using that IH False n(1) by (cases m) auto
    moreover have "(a # b # s) ! (n - 2) = 42" "(a # b # s) ! (n - 1) = 47"
      using IH n(1) by (auto simp: nth_Cons' Suc_diff_le numeral_2_eq_2)
    ultimately show ?thesis using IH n(1) by simp
  qed (use 1(2) in auto)
qed simp_all

lemma block_at_start:
  assumes "startsWith s (js ''/*'')" and "comment_end (drop 2 s) = Some n"
  shows "block_span s 0 (n + 2)"
proof -
  obtain r where s: "s = 47 # 42 # r" using assms(1) by (cases s; cases "tl s") (auto simp: startsWith_def)
  have r: "2 \<le> n \<and> n \<le> length r \<and> r ! (n - 2) = 42 \<and> r ! (n - 1) = 47 \<and> (\<forall>m<n - 2. \<not> (r ! m = 42 \<and> r ! (m + 1) = 47))"
    using comment_end_Some assms(2) by (simp add: s)
  have "\<not> (s ! m = 42 \<and> s ! (m + 1) = 47)" if "2 \<le> m" "m < n" for m
  proof -
    have m: "m = Suc (Suc (m - 2))" using that(1) by simp
    define m' where "m' = m - 2"
    note m = m [folded m'_def]
    then have "\<not> (r ! m' = 42 \<and> r ! (m' + 1) = 47)" using r that by simp
    then show ?thesis by (simp add: s m)
  qed
  moreover have "s ! n = 42" "s ! (n + 1) = 47" using r by (auto simp: s nth_Cons' numeral_2_eq_2)
  ultimately show ?thesis using r by (simp add: block_span_def s)
qed

lemma nth_blank: "k < length s \<Longrightarrow> blank s ! k \<in> {10, 32} \<and> length (blank s) = length s"
  by (simp add: blank_def)

lemma length_mask_blocks [simp]: "length (mask_blocks s) = length s"
  using mask_blocks_blanked [of s] by (simp add: list_all2_lengthD)

lemma mask_blocks_hidden:
  "k < length s \<Longrightarrow> mask_blocks s ! k \<noteq> s ! k \<Longrightarrow> in_block s k
     \<and> (k + 1 < length s \<and> mask_blocks s ! (k + 1) = 47 \<longrightarrow> s ! k = 47)"
proof (induction s arbitrary: k rule: mask_blocks.induct)
  case (1 s)
  have s: "s \<noteq> []" using "1.prems"(1) by auto
  show ?case
  proof (cases "if startsWith s (js ''/*'') then comment_end (drop 2 s) else None")
    case None
    then have m: "mask_blocks s = hd s # mask_blocks (tl s)" using s by (subst mask_blocks.simps) simp
    obtain x xs where xs: "s = x # xs" using s by (cases s) auto
    obtain k' where k: "k = Suc k'" using "1.prems"(2) unfolding m by (cases k) (auto simp: xs)
    have "in_block (tl s) k' \<and> (k' + 1 < length (tl s) \<and> mask_blocks (tl s) ! (k' + 1) = 47 \<longrightarrow> tl s ! k' = 47)"
      using "1.IH"(1) [OF s None] "1.prems" unfolding m k by (simp add: xs)
    then show ?thesis using in_block_shift [of 1 s k'] unfolding m k by (simp add: xs)
  next
    case (Some n)
    then have c: "startsWith s (js ''/*'')" "comment_end (drop 2 s) = Some n" by (auto split: if_splits)
    have m: "mask_blocks s = blank (take (n + 2) s) @ mask_blocks (drop (n + 2) s)" using s Some by (subst mask_blocks.simps) simp
    note span = block_at_start [OF c]
    then have n: "n + 2 \<le> length s" "s ! (n + 1) = 47" by (auto simp: block_span_def)
    have len: "length (blank (take (n + 2) s)) = n + 2" using n by (simp add: blank_def)
    show ?thesis
    proof (cases "k < n + 2")
      case True
      then have "in_block s k" using span unfolding in_block_def by blast
      moreover have "s ! k = 47" if "k + 1 < length s" "mask_blocks s ! (k + 1) = 47"
      proof (cases "k + 1 < n + 2")
        case less: True
        then have "mask_blocks s ! (k + 1) \<in> {10, 32}"
          using nth_blank [of "k + 1" "take (n + 2) s"] n unfolding m by (simp add: nth_append)
        then show ?thesis using that by auto
      next
        case False
        then have "k = n + 1" using True by simp
        then show ?thesis using n by simp
      qed
      ultimately show ?thesis by simp
    next
      case False
      then obtain k' where k: "k = n + 2 + k'" using le_Suc_ex by (metis not_less)
      have IH: "in_block (drop (n + 2) s) k' \<and> (k' + 1 < length (drop (n + 2) s) \<and> mask_blocks (drop (n + 2) s) ! (k' + 1) = 47
          \<longrightarrow> drop (n + 2) s ! k' = 47)"
        using "1.IH"(2) [OF s Some] "1.prems" n(1) len unfolding m k by (simp add: nth_append)
      then have "s ! k = 47" if "k + 1 < length s" "mask_blocks s ! (k + 1) = 47"
      proof -
        have "k' + 1 < length (drop (n + 2) s)" using that(1) n(1) unfolding k by simp
        moreover have "mask_blocks (drop (n + 2) s) ! (k' + 1) = 47" using that(2) len unfolding m k by (simp add: nth_append)
        moreover have "drop (n + 2) s ! k' = s ! k" using n(1) unfolding k by simp
        ultimately show ?thesis using IH by simp
      qed
      then show ?thesis using IH in_block_shift [of "n + 2" s k'] n(1) unfolding k by blast
    qed
  qed
qed

lemma in_line_shift:
  assumes "in_line False (drop n s) k" and "n \<le> length s"
  shows "in_line b s (n + k)"
proof -
  obtain i where i: "i \<le> k" "line_start False (drop n s) i" "\<forall>m. i \<le> m \<and> m \<le> k \<longrightarrow> drop n s ! m \<noteq> 10"
    using assms(1) unfolding in_line_def by blast
  then have "0 < i" by (auto simp: line_start_def split: if_splits)
  then have "line_start b s (n + i)" using i(2) assms(2) by (auto simp: line_start_def)
  moreover have "s ! m \<noteq> 10" if "n + i \<le> m" "m \<le> n + k" for m
  proof -
    have "i \<le> m - n \<and> m - n \<le> k" using that by linarith
    then show ?thesis using i(3) that assms(2) by fastforce
  qed
  ultimately show ?thesis using i(1) unfolding in_line_def by (intro exI [where x = "n + i"]) simp
qed

lemma takeWhile_line: "k < length (takeWhile (\<lambda>c. c \<noteq> 10) s) \<Longrightarrow> m \<le> k \<Longrightarrow> s ! m \<noteq> 10"
proof -
  assume "k < length (takeWhile (\<lambda>c. c \<noteq> 10) s)" and "m \<le> k"
  then have m: "m < length (takeWhile (\<lambda>c. c \<noteq> 10) s)" by simp
  show ?thesis using nth_mem [OF m] set_takeWhileD unfolding takeWhile_nth [OF m] by fast
qed

lemma mask_lines_hidden:
  "k < length s \<Longrightarrow> mask_lines b s ! k \<noteq> s ! k \<Longrightarrow> in_line b s k"
proof (induction b s arbitrary: k rule: mask_lines.induct)
  case (1 b s)
  have s: "s \<noteq> []" using "1.prems"(1) by auto
  obtain x xs where xs: "s = x # xs" using s by (cases s) auto
  let ?P = "\<lambda>c. c \<noteq> (10 :: code_unit)"
  consider (start) "b \<and> startsWith s (js ''//'')"
    | (after) "\<not> (b \<and> startsWith s (js ''//''))" "hd s \<noteq> 58 \<and> \<not> is_word_char (hd s) \<and> startsWith (tl s) (js ''//'')"
    | (other) "\<not> (b \<and> startsWith s (js ''//''))" "\<not> (hd s \<noteq> 58 \<and> \<not> is_word_char (hd s) \<and> startsWith (tl s) (js ''//''))"
    by blast
  then show ?case
  proof cases
    case start
    let ?n = "length (takeWhile ?P s)"
    have m: "mask_lines b s = blank (takeWhile ?P s) @ mask_lines False (drop ?n s)"
      using s start by (subst mask_lines.simps) (simp add: dropWhile_eq_drop)
    show ?thesis
    proof (cases "k < ?n")
      case True
      have "line_start b s 0" using start unfolding line_start_def xs by (cases xs) (auto simp: startsWith_def)
      then show ?thesis using takeWhile_line [OF True] unfolding in_line_def by (intro exI [where x = 0]) simp
    next
      case False
      then obtain k' where k: "k = ?n + k'" using le_Suc_ex by (metis not_less)
      have "in_line False (drop ?n s) k'"
        using "1.IH"(1) [OF s start, of k'] "1.prems" unfolding m k by (simp add: dropWhile_eq_drop nth_append blank_def)
      then show ?thesis unfolding k by (rule in_line_shift) (rule length_takeWhile_le)
    qed
  next
    case after
    let ?n = "length (takeWhile ?P (tl s))"
    have m: "mask_lines b s = hd s # blank (takeWhile ?P (tl s)) @ mask_lines False (drop ?n (tl s))"
      using s after by (subst mask_lines.simps) (auto simp: dropWhile_eq_drop simp del: js_Cons)
    obtain k' where k: "k = Suc k'" using "1.prems"(2) unfolding m by (cases k) (auto simp: xs)
    show ?thesis
    proof (cases "k' < ?n")
      case True
      have "line_start b s 1" using after(2) unfolding line_start_def xs by (cases xs; cases "tl xs") (auto simp: startsWith_def)
      moreover have "s ! j \<noteq> 10" if "1 \<le> j" "j \<le> k" for j
        using takeWhile_line [OF True, of "j - 1"] that unfolding xs k by (cases j) auto
      ultimately show ?thesis unfolding in_line_def k by (intro exI [where x = 1]) simp
    next
      case False
      then obtain k'' where k'': "k' = ?n + k''" using le_Suc_ex by (metis not_less)
      have "in_line False (drop ?n (tl s)) k''"
        using "1.IH"(2) [OF s after, of k''] "1.prems" unfolding m k k'' by (simp add: dropWhile_eq_drop nth_append blank_def xs)
      then have "in_line False (drop (Suc ?n) s) k''" by (simp add: xs)
      then have "in_line b s (Suc ?n + k'')" by (rule in_line_shift) (simp add: xs length_takeWhile_le)
      then show ?thesis by (simp add: k k'')
    qed
  next
    case other
    have m: "mask_lines b s = hd s # mask_lines False (tl s)"
      using s other by (subst mask_lines.simps) auto
    obtain k' where k: "k = Suc k'" using "1.prems"(2) unfolding m by (cases k) (auto simp: xs)
    have "in_line False (tl s) k'" using "1.IH"(3) [OF s other, of k'] "1.prems" unfolding m k by (simp add: xs)
    then show ?thesis using in_line_shift [of 1 s k' b] unfolding k by (simp add: xs)
  qed
qed

lemma mask_hides_comments_only: "hides_comments_only s (maskComments s)"
proof -
  let ?t = "mask_blocks s"
  have len: "length (maskComments s) = length s" using mask_blanked [of s] by (simp add: list_all2_lengthD)
  have t: "?t ! k = s ! k \<or> ?t ! k = 32 \<and> s ! k \<noteq> 10" if "k < length s" for k
    using mask_blocks_blanked [of s] that by (auto simp: list_all2_conv_all_nth)
  have "in_block s k \<or> in_line True s k" if k: "k < length s" and changed: "maskComments s ! k \<noteq> s ! k" for k
  proof (cases "?t ! k = s ! k")
    case True
    then have "in_line True ?t k" using mask_lines_hidden [of k ?t True] k changed by (simp add: maskComments_def)
    then obtain i where i: "i \<le> k" "line_start True ?t i" "\<forall>m. i \<le> m \<and> m \<le> k \<longrightarrow> ?t ! m \<noteq> 10" unfolding in_line_def by blast
    have slash: "?t ! i = 47" "?t ! (i + 1) = 47" "i + 1 < length s" using i(2) by (simp_all add: line_start_def)
    then have kept: "s ! i = 47" "s ! (i + 1) = 47" using t [of i] t [of "i + 1"] by auto
    have "s ! (i - 1) \<noteq> 58 \<and> \<not> is_word_char (s ! (i - 1))" if "i \<noteq> 0"
    proof (cases "?t ! (i - 1) = s ! (i - 1)")
      case True
      then show ?thesis using i(2) that by (simp add: line_start_def)
    next
      case False
      have "i - 1 < length s" using slash(3) by simp
      from mask_blocks_hidden [OF this False] have "s ! (i - 1) = 47" using slash that by simp
      then show ?thesis by (simp add: is_word_char_def in_range_def)
    qed
    then have "line_start True s i" using slash(3) kept by (simp add: line_start_def)
    moreover have "s ! m \<noteq> 10" if "i \<le> m" "m \<le> k" for m using i(3) t [of m] that k by force
    ultimately show ?thesis using i(1) unfolding in_line_def by blast
  next
    case False
    then show ?thesis using mask_blocks_hidden k by blast
  qed
  then show ?thesis
    using len mask_blanked [of s] unfolding hides_comments_only_def by (auto simp: list_all2_conv_all_nth)
qed

section \<open>The scan of a tree\<close>

text \<open>The files of a tree that the scan has to see, and the links in it.\<close>

fun tree_files :: "jsstr \<Rightarrow> tree \<Rightarrow> jsstr set" where
  "tree_files path (TreeDir entries) = \<Union> (set (map (\<lambda>(name, t).
     (if t = TreeFile \<and> extname name \<in> set scannedExtensions then {path_join path name} else {}) \<union> tree_files (path_join path name) t) entries))"
| "tree_files path _ = {}"

fun has_link :: "tree \<Rightarrow> bool" where
  "has_link (TreeDir entries) = list_ex (\<lambda>(name, t). has_link t) entries"
| "has_link t = (t = TreeLink)"

lemma concat_results_ok: "(\<exists>xs. concat_results rs = Inr xs) \<longleftrightarrow> (\<forall>r\<in>set rs. \<exists>ys. r = Inr ys)"
  by (induction rs) (auto simp: bind_result_Inr_iff)

lemma concat_results_set: "concat_results rs = Inr xs \<Longrightarrow> x \<in> set xs \<longleftrightarrow> (\<exists>ys. Inr ys \<in> set rs \<and> x \<in> set ys)"
  by (induction rs arbitrary: xs) (auto simp: bind_result_Inr_iff)

definition entry_result :: "(jsstr \<Rightarrow> jsstr \<Rightarrow> int) \<Rightarrow> jsstr \<Rightarrow> jsstr \<times> tree \<Rightarrow> (scan_error, jsstr list) result" where
  "entry_result lc path = (\<lambda>(name, t).
     case t of
       TreeFile \<Rightarrow> Inr (if extname name \<in> set scannedExtensions then [path_join path name] else [])
     | TreeOther \<Rightarrow> Inr []
     | _ \<Rightarrow> collectDirectoryFiles lc (path_join path name) t)"

lemma collect_entries:
  "\<exists>rs. collectDirectoryFiles lc path (TreeDir entries) = concat_results rs \<and> set rs = entry_result lc path ` set entries"
proof (intro exI conjI)
  let ?rs = "map snd (sort_by (by_name lc) (map (\<lambda>(name, t). (name, entry_result lc path (name, t))) entries))"
  show "collectDirectoryFiles lc path (TreeDir entries) = concat_results ?rs"
    by (simp add: entry_result_def)
  show "set ?rs = entry_result lc path ` set entries" by (force simp: image_image)
qed

lemma entry_ok:
  assumes "\<And>es. t = TreeDir es \<Longrightarrow> (\<exists>fs. collectDirectoryFiles lc (path_join path name) t = Inr fs) \<longleftrightarrow> \<not> has_link t"
  shows "(\<exists>fs. entry_result lc path (name, t) = Inr fs) \<longleftrightarrow> \<not> has_link t"
  using assms by (cases t) (auto simp: entry_result_def simp del: collectDirectoryFiles.simps(1) has_link.simps(1))

lemma collect_ok: "(\<exists>fs. collectDirectoryFiles lc path (TreeDir es) = Inr fs) \<longleftrightarrow> \<not> has_link (TreeDir es)"
proof -
  have "(\<exists>fs. collectDirectoryFiles lc path t = Inr fs) \<longleftrightarrow> \<not> has_link t" if "t = TreeDir es" for t es
    using that
  proof (induction lc path t arbitrary: es rule: collectDirectoryFiles.induct)
    case (1 lc path entries)
    obtain rs where rs: "collectDirectoryFiles lc path (TreeDir entries) = concat_results rs" "set rs = entry_result lc path ` set entries"
      using collect_entries by blast
    have "(\<exists>fs. entry_result lc path (name, t) = Inr fs) \<longleftrightarrow> \<not> has_link t" if "(name, t) \<in> set entries" for name t
      using "1.IH" that by (intro entry_ok) blast
    then show ?case unfolding rs(1) concat_results_ok rs(2) by (force simp: list_ex_iff)
  qed simp_all
  then show ?thesis by blast
qed

lemma collected_no_link: "\<exists>fs. collectDirectoryFiles lc path t = Inr fs \<Longrightarrow> \<not> has_link t"
proof (cases t)
  case (TreeDir es)
  then show "\<exists>fs. collectDirectoryFiles lc path t = Inr fs \<Longrightarrow> ?thesis" using collect_ok by blast
qed simp_all

lemma collect_set: "collectDirectoryFiles lc path t = Inr fs \<Longrightarrow> set fs = tree_files path t"
proof (induction lc path t arbitrary: fs rule: collectDirectoryFiles.induct)
  case (1 lc path entries)
  let ?own = "\<lambda>name t. (if t = TreeFile \<and> extname name \<in> set scannedExtensions then {path_join path name} else {}) \<union> tree_files (path_join path name) t"
  obtain rs where rs: "collectDirectoryFiles lc path (TreeDir entries) = concat_results rs" "set rs = entry_result lc path ` set entries"
    using collect_entries by blast
  then have ok: "concat_results rs = Inr fs" using "1.prems" by simp
  have entry: "set ys = ?own name t" if "(name, t) \<in> set entries" "entry_result lc path (name, t) = Inr ys" for name t ys
    using "1.IH" that by (cases t) (auto simp: entry_result_def simp del: collectDirectoryFiles.simps(1))
  have all: "\<exists>ys. entry_result lc path e = Inr ys" if "e \<in> set entries" for e
    using ok concat_results_ok [of rs] that rs(2) by blast
  have "x \<in> set fs \<longleftrightarrow> (\<exists>(name, t)\<in>set entries. x \<in> ?own name t)" for x
  proof -
    have "x \<in> set fs \<longleftrightarrow> (\<exists>e\<in>set entries. \<exists>ys. entry_result lc path e = Inr ys \<and> x \<in> set ys)"
      unfolding concat_results_set [OF ok] rs(2) image_iff by metis
    also have "\<dots> \<longleftrightarrow> (\<exists>(name, t)\<in>set entries. x \<in> ?own name t)"
    proof
      assume "\<exists>e\<in>set entries. \<exists>ys. entry_result lc path e = Inr ys \<and> x \<in> set ys"
      then obtain name t ys where "(name, t) \<in> set entries" "entry_result lc path (name, t) = Inr ys" "x \<in> set ys" by auto
      with entry show "\<exists>(name, t)\<in>set entries. x \<in> ?own name t" by blast
    next
      assume "\<exists>(name, t)\<in>set entries. x \<in> ?own name t"
      then obtain name t where t: "(name, t) \<in> set entries" "x \<in> ?own name t" by blast
      with all obtain ys where "entry_result lc path (name, t) = Inr ys" by blast
      with t entry show "\<exists>e\<in>set entries. \<exists>ys. entry_result lc path e = Inr ys \<and> x \<in> set ys" by blast
    qed
    finally show ?thesis .
  qed
  then show ?case by (intro set_eqI) (simp add: split_beta)
qed auto

lemma scan_rule_reports:
  assumes "(i, m) \<in> set (rule_matches r (maskComments c))" and "\<not> isAllowed p (rule_id r)" and "appliesTo r p"
  shows "\<exists>v\<in>set (scan_rule_in p c r). vi_rule v = rule_id r \<and> vi_path v = p \<and> (vi_line v, vi_column v) = positionAt c i"
proof -
  obtain l k where lk: "positionAt c i = (l, k)" by fastforce
  let ?v = "\<lparr>vi_line = l, vi_column = k, vi_path = p, vi_rule = rule_id r, vi_excerpt = take 100 (collapse_ws m)\<rparr>"
  have "?v = (\<lambda>(index, m). case positionAt c index of (l, c) \<Rightarrow>
      \<lparr>vi_line = l, vi_column = c, vi_path = p, vi_rule = rule_id r, vi_excerpt = take 100 (collapse_ws m)\<rparr>) (i, m)"
    by (simp add: lk)
  then have "?v \<in> set (scan_rule_in p c r)"
    using assms unfolding scan_rule_in_def by (simp only: if_False simp_thms set_map) (rule imageI)
  then show ?thesis by (rule bexI [rotated]) (simp add: lk)
qed

lemma scanned_file:
  assumes "scanFiles lc F dir rules paths = Inr vs" and "p \<in> set paths"
  shows "\<exists>c. readFile F p = Inr c \<and> lstat F p \<noteq> Inr SymbolicLink
    \<and> (\<forall>r\<in>set rules. set (scan_rule_in (relative_path dir p) c r) \<subseteq> set vs)"
proof -
  obtain us where us: "concat_results (map (scan_file F dir rules) paths) = Inr us" "set vs = set us"
    using assms(1) by (auto simp: scanFiles_def bind_result_Inr_iff)
  then obtain ys where ys: "scan_file F dir rules p = Inr ys"
    using concat_results_ok [of "map (scan_file F dir rules) paths"] assms(2) by auto
  then have "set ys \<subseteq> set vs" using concat_results_set [OF us(1)] us(2) assms(2) by (force simp: image_iff)
  with ys show ?thesis by (auto simp: scan_file_def split: sum.splits if_splits) blast
qed

text \<open>
  The files of a directory are collected exactly when no link is anywhere in it, and then they are all its files
  with a scanned extension; and when the scan of some files returns, each of them was read and every match of a rule
  in it, outside comments and the listed exceptions, is in the result with the rule, the file and the place.
\<close>

lemma scan_sees_everything:
  "((\<exists>fs. collectDirectoryFiles lc path (TreeDir es) = Inr fs) \<longleftrightarrow> \<not> has_link (TreeDir es))
   \<and> (\<forall>fs. collectDirectoryFiles lc path (TreeDir es) = Inr fs \<longrightarrow> set fs = tree_files path (TreeDir es))
   \<and> (\<forall>vs. scanFiles lc F dir rules paths = Inr vs \<longrightarrow>
        (\<forall>p\<in>set paths. \<exists>c. readFile F p = Inr c \<and> (\<forall>r\<in>set rules. \<forall>(i, m)\<in>set (rule_matches r (maskComments c)).
           isAllowed (relative_path dir p) (rule_id r) \<or> \<not> appliesTo r (relative_path dir p)
           \<or> (\<exists>v\<in>set vs. vi_rule v = rule_id r \<and> vi_path v = relative_path dir p \<and> (vi_line v, vi_column v) = positionAt c i))))"
proof (intro conjI allI impI ballI)
  show "(\<exists>fs. collectDirectoryFiles lc path (TreeDir es) = Inr fs) \<longleftrightarrow> \<not> has_link (TreeDir es)" by (rule collect_ok)
  show "set fs = tree_files path (TreeDir es)" if "collectDirectoryFiles lc path (TreeDir es) = Inr fs" for fs
    using that by (rule collect_set)
  fix vs p
  assume "scanFiles lc F dir rules paths = Inr vs" "p \<in> set paths"
  from scanned_file [OF this] obtain c where c: "readFile F p = Inr c"
    "\<forall>r\<in>set rules. set (scan_rule_in (relative_path dir p) c r) \<subseteq> set vs" by blast
  show "\<exists>c. readFile F p = Inr c \<and> (\<forall>r\<in>set rules. \<forall>(i, m)\<in>set (rule_matches r (maskComments c)).
           isAllowed (relative_path dir p) (rule_id r) \<or> \<not> appliesTo r (relative_path dir p)
           \<or> (\<exists>v\<in>set vs. vi_rule v = rule_id r \<and> vi_path v = relative_path dir p \<and> (vi_line v, vi_column v) = positionAt c i))"
    using c scan_rule_reports by (intro exI [of _ c] conjI) (fast, blast)
qed

text \<open>The files the scan has to look at, and what it must not find in one.\<close>

definition scanned_files :: "jsstr \<Rightarrow> (jsstr \<Rightarrow> tree) \<Rightarrow> jsstr set" where
  "scanned_files web trees = (\<Union>t\<in>set productionDirectoryTargets. tree_files (path_join web t) (trees t))
     \<union> path_join web ` set productionFileTargets"

definition clean_file :: "jsstr list \<Rightarrow> scan_rule list \<Rightarrow> jsstr \<Rightarrow> jsstr \<Rightarrow> bool" where
  "clean_file css rules path content \<longleftrightarrow>
     (\<exists>t. hides_comments_only content t
        \<and> (\<forall>r\<in>set rules. isAllowed path (rule_id r) \<or> \<not> appliesTo r path \<or> rule_matches r t = [])
        \<and> (path \<in> set fullyAllowedFiles \<or> set (ds_referenced t) \<subseteq> set (concat (map ds_declared css))))"

lemma collect_production_set:
  assumes "collectProductionFiles lc web trees = Inr fs"
  shows "set fs = scanned_files web trees"
proof -
  obtain us where us: "concat_results (map (\<lambda>t. collectDirectoryFiles lc (path_join web t) (trees t)) productionDirectoryTargets) = Inr us"
    "fs = sort_by text_order (rev (remdups (rev (us @ map (path_join web) productionFileTargets))))"
    using assms unfolding collectProductionFiles_def bind_result_Inr_iff sum.inject by blast
  have all: "\<exists>ys. collectDirectoryFiles lc (path_join web t) (trees t) = Inr ys" if "t \<in> set productionDirectoryTargets" for t
    using us(1) that concat_results_ok [of "map (\<lambda>t. collectDirectoryFiles lc (path_join web t) (trees t)) productionDirectoryTargets"] by auto
  have "x \<in> set us \<longleftrightarrow> (\<exists>t\<in>set productionDirectoryTargets. x \<in> tree_files (path_join web t) (trees t))" for x
    using concat_results_set [OF us(1), of x] all collect_set by (force simp: image_iff)
  then show ?thesis unfolding us(2) scanned_files_def by (auto simp del: rev_append rev_map)
qed

text \<open>
  C31. When the production scan passes, every file it has to look at is clean: there is no link in a production
  directory; each of their files with a scanned extension and each listed configuration file was read; and in its text,
  of which nothing is hidden but characters in spans that look like comments, no rule that applies to the file and is not
  excepted for it matches, and every design token it refers to is declared in the foundation or a theme. The package
  itself has no link, and in its files, read the same way, no reference to outside design sources that is not excepted.
  (What looks like a comment is hidden wherever it stands, also in a string.)
\<close>

theorem passed_scan_is_clean:
  assumes "runProductionScan lc F web trees rules css = Inr ()"
  shows "(\<forall>t\<in>set productionDirectoryTargets. \<not> has_link (trees t)) \<and> \<not> has_link (trees (js ''design-system''))
    \<and> (\<forall>p\<in>scanned_files web trees. \<exists>c. readFile F p = Inr c \<and> clean_file css rules (relative_path web p) c)
    \<and> (\<exists>r\<in>set rules. rule_id r = js ''external-design-system-source''
        \<and> (\<forall>p\<in>tree_files (path_join web (js ''design-system'')) (trees (js ''design-system'')). \<exists>c t. readFile F p = Inr c
            \<and> hides_comments_only c t
            \<and> (isAllowed (relative_path web p) (rule_id r) \<or> \<not> appliesTo r (relative_path web p) \<or> rule_matches r t = [])))"
proof -
  obtain ps vs r qs ws sources where
    ps: "collectProductionFiles lc web trees = Inr ps" and vs: "scanFiles lc F web rules ps = Inr vs"
    and r: "find (\<lambda>r. rule_id r = js ''external-design-system-source'') rules = Some r"
    and qs: "collectDirectoryFiles lc (path_join web (js ''design-system'')) (trees (js ''design-system'')) = Inr qs"
    and ws: "scanFiles lc F web [r] qs = Inr ws" and none: "vs = []" "ws = []"
    and sources: "read_sources F web ps = Inr sources" and tokens: "verifyReferencedTokensExist css sources = Inr ()"
    using assms by (auto simp: runProductionScan_def bind_result_Inr_iff split: option.splits if_splits)
  show ?thesis
  proof (intro conjI ballI bexI [of _ r])
    fix p assume "p \<in> scanned_files web trees"
    then have p: "p \<in> set ps" using collect_production_set [OF ps] by simp
    from scanned_file [OF vs this] obtain c where c: "readFile F p = Inr c"
      and empty: "\<forall>r\<in>set rules. set (scan_rule_in (relative_path web p) c r) \<subseteq> set vs" by blast
    have "isAllowed (relative_path web p) (rule_id r) \<or> \<not> appliesTo r (relative_path web p) \<or> rule_matches r (maskComments c) = []"
      if "r \<in> set rules" for r
      using empty that none(1) by (auto simp: scan_rule_in_def split: if_splits)
    moreover have "(relative_path web p, c) \<in> set sources"
      using concat_results_set [OF sources [unfolded read_sources_def], of "(relative_path web p, c)"] p c by (force simp: image_iff)
    then have "relative_path web p \<in> set fullyAllowedFiles
        \<or> set (ds_referenced (maskComments c)) \<subseteq> set (concat (map ds_declared css))"
      using tokens by (fastforce simp: verifyReferencedTokensExist_def Let_def filter_empty_conv split: if_splits)
    ultimately show "\<exists>c. readFile F p = Inr c \<and> clean_file css rules (relative_path web p) c"
      using c mask_hides_comments_only unfolding clean_file_def by blast
  next
    fix p assume "p \<in> tree_files (path_join web (js ''design-system'')) (trees (js ''design-system''))"
    then have "p \<in> set qs" using collect_set [OF qs] by simp
    from scanned_file [OF ws this] none(2) obtain c where "readFile F p = Inr c" "set (scan_rule_in (relative_path web p) c r) = {}"
      by auto
    then show "\<exists>c t. readFile F p = Inr c \<and> hides_comments_only c t
        \<and> (isAllowed (relative_path web p) (rule_id r) \<or> \<not> appliesTo r (relative_path web p) \<or> rule_matches r t = [])"
      using mask_hides_comments_only [of c] by (auto simp: scan_rule_in_def split: if_splits)
  next
    fix t assume t: "t \<in> set productionDirectoryTargets"
    obtain us where "concat_results (map (\<lambda>t. collectDirectoryFiles lc (path_join web t) (trees t)) productionDirectoryTargets) = Inr us"
      using ps unfolding collectProductionFiles_def bind_result_Inr_iff by blast
    then have "\<exists>ys. collectDirectoryFiles lc (path_join web t) (trees t) = Inr ys"
      using t concat_results_ok [of "map (\<lambda>t. collectDirectoryFiles lc (path_join web t) (trees t)) productionDirectoryTargets"] by auto
    then show "\<not> has_link (trees t)" by (rule collected_no_link)
  next
    show "\<not> has_link (trees (js ''design-system''))" using collected_no_link qs by blast
  qed (use r in \<open>auto simp: find_Some_iff\<close>)
qed

definition plain_text :: "jsstr \<Rightarrow> files" where
  "plain_text content = \<lparr>lstat = (\<lambda>_. Inr RegularFile), realpath = Inr, readFile = (\<lambda>_. Inr content)\<rparr>"

definition demo_rule :: scan_rule where
  "demo_rule = \<lparr>rule_id = js ''external-design-system-source'', rule_matches = (\<lambda>t. if 113 \<in> set t then [(0, take 1 t)] else []),
     appliesTo = (\<lambda>_. True)\<rparr>"

definition demo_trees :: "jsstr \<Rightarrow> tree" where
  "demo_trees t = TreeDir (if t = js ''src'' then [(js ''a.ts'', TreeFile), (js ''b.png'', TreeFile)] else [])"

definition demo_paths :: "jsstr list" where
  "demo_paths = map (path_join (js ''/w'')) (map js [''components.json'', ''eslint.config.js'', ''index.html'', ''openapi-ts.config.mjs'',
     ''package.json'', ''playwright.config.ts'', ''prettier.config.mjs'', ''src/a.ts'', ''tsconfig.app.json'', ''tsconfig.json'',
     ''tsconfig.node.json'', ''vite.config.ts''])"

definition demo_source :: files where
  "demo_source = plain_text (js ''var(--ds-x) // q'')"

definition demo_sources :: "(jsstr \<times> jsstr) list" where
  "demo_sources = map (\<lambda>p. (drop 3 p, js ''var(--ds-x) // q'')) demo_paths"

lemma demo_scan: "scanFiles text_order demo_source (js ''/w'') [demo_rule] ps = Inr []"
proof -
  have "rule_matches demo_rule (maskComments (js ''var(--ds-x) // q'')) = []" by code_simp
  then have "scan_file demo_source (js ''/w'') [demo_rule] p = Inr []" for p
    by (simp add: scan_file_def scan_rule_in_def demo_source_def plain_text_def del: js_Cons)
  then have "concat_results (map (scan_file demo_source (js ''/w'') [demo_rule]) ps) = Inr []"
    by (induction ps) (simp_all add: bind_result_def)
  then show ?thesis by (simp add: scanFiles_def bind_result_def)
qed

theorem passed_scan_is_clean_witness:
  "clean_file [js ''--ds-x: 1''] [demo_rule] (js ''src/a.ts'') (js ''var(--ds-x) // q'')"
proof -
  have "collectProductionFiles text_order (js ''/w'') demo_trees = Inr demo_paths" by code_simp
  moreover have "scanFiles text_order demo_source (js ''/w'') [demo_rule] ps = Inr []" for ps by (rule demo_scan)
  moreover have "find (\<lambda>r. rule_id r = js ''external-design-system-source'') [demo_rule] = Some demo_rule" by (simp add: demo_rule_def)
  moreover have "collectDirectoryFiles text_order (path_join (js ''/w'') (js ''design-system'')) (demo_trees (js ''design-system'')) = Inr []"
    by code_simp
  moreover have "read_sources demo_source (js ''/w'') demo_paths = Inr demo_sources" by code_simp
  moreover have "ds_declared (js ''--ds-x: 1'') = [js ''--ds-x'']" "ds_referenced (maskComments (js ''var(--ds-x) // q'')) = [js ''--ds-x'']"
    by code_simp+
  then have "verifyReferencedTokensExist [js ''--ds-x: 1''] demo_sources = Inr ()"
    by (auto simp: verifyReferencedTokensExist_def demo_sources_def simp del: js_Cons)
  ultimately have "runProductionScan text_order demo_source (js ''/w'') demo_trees [demo_rule] [js ''--ds-x: 1''] = Inr ()"
    by (simp add: runProductionScan_def bind_result_def del: js_Cons collectDirectoryFiles.simps)
  note passed_scan_is_clean [OF this]
  moreover have "js ''/w/src/a.ts'' \<in> scanned_files (js ''/w'') demo_trees" by code_simp
  moreover have "relative_path (js ''/w'') (js ''/w/src/a.ts'') = js ''src/a.ts''" by code_simp
  moreover have "readFile demo_source p = Inr (js ''var(--ds-x) // q'')" for p by (simp add: demo_source_def plain_text_def)
  ultimately show ?thesis by fastforce
qed

text \<open>Quotes are not looked at: two slashes in a string hide the rest of the line, so what is forbidden there is not found.\<close>

lemma string_hides_line: "maskComments (js ''f('' @ [39] @ js ''//x'' @ [39] @ js '', dark)'') = js ''f('' @ [39] @ js ''           ''"
  by code_simp

end
