(* ===== verification/Design_Css.thy ===== *)
theory Design_Css
  imports Source_Scan
begin

text \<open>
  How the tools of the design-system package read style sheets, \<open>design-system/tools/build.mjs\<close> and
  \<open>check.mjs\<close>: custom properties, the blocks of selectors, comments, colours, and values that are aliases of
  other values. The theorems say that following aliases always ends and finds exactly what the
  chain of aliases leads to.
\<close>

section \<open>Custom properties\<close>

type_synonym css_tokens = "(jsstr \<times> jsstr) list"

text \<open>\<open>[a-zA-Z0-9-]\<close>, and \<open>--\<close> followed by such characters.\<close>

definition is_name_char :: "code_unit \<Rightarrow> bool" where
  "is_name_char c \<longleftrightarrow> is_word_char c \<and> c \<noteq> 95 \<or> c = 45"

text \<open>What \<open>(--[a-zA-Z0-9-]+)\<close> matches at the start of a text: the name and the text after it. A name is followed by a character
  that no name contains, so the longest match is the only one that matters to the patterns that use it.\<close>

definition name_at :: "jsstr \<Rightarrow> (jsstr \<times> jsstr) option" where
  "name_at s =
     (let n = takeWhile is_name_char (drop 2 s)
      in if startsWith s (js ''--'') \<and> n \<noteq> [] then Some (js ''--'' @ n, dropWhile is_name_char (drop 2 s)) else None)"

text \<open>\<open>(--[a-zA-Z0-9-]+)\s*:\s*([^;]+);\<close> at the start of a text: the name, the value and the text after it.\<close>

definition declaration_at :: "jsstr \<Rightarrow> (jsstr \<times> jsstr \<times> jsstr) option" where
  "declaration_at s =
     (case name_at s of
        None \<Rightarrow> None
      | Some (n, r) \<Rightarrow>
          (case dropWhile is_ws r of
             [] \<Rightarrow> None
           | c # r' \<Rightarrow>
               if c = 58 \<and> takeWhile (\<lambda>d. d \<noteq> 59) r' \<noteq> [] \<and> dropWhile (\<lambda>d. d \<noteq> 59) r' \<noteq> []
               then Some (n, takeWhile (\<lambda>d. d \<noteq> 59) r', tl (dropWhile (\<lambda>d. d \<noteq> 59) r')) else None))"

lemma name_at_shorter: "name_at s = Some (n, r) \<Longrightarrow> length r < length s"
  using length_dropWhile_le [of is_name_char "drop 2 s"]
  by (cases s) (auto simp: name_at_def Let_def startsWith_def split: if_splits)

lemma name_at_then: "name_at s = Some (n, r) \<Longrightarrow> length (tl (dropWhile is_ws r)) < length s"
  using name_at_shorter [of s n r] length_dropWhile_le [of is_ws r] by simp

lemma name_at_tl: "name_at s = Some (n, r) \<Longrightarrow> length (tl s) < length s"
  by (drule name_at_shorter) (cases s; simp)

lemma declaration_at_shorter: "declaration_at s = Some (n, v, r) \<Longrightarrow> length r < length s"
proof -
  assume "declaration_at s = Some (n, v, r)"
  then obtain q c q' where q: "name_at s = Some (n, q)" "dropWhile is_ws q = c # q'" "r = tl (dropWhile (\<lambda>d. d \<noteq> 59) q')"
    by (auto simp: declaration_at_def split: option.splits list.splits if_splits)
  have "length r \<le> length q'" unfolding q(3) using length_dropWhile_le [of "\<lambda>d. d \<noteq> 59" q'] by simp
  also have "length q' < length q" using length_dropWhile_le [of is_ws q] q(2) by simp
  also have "\<dots> < length s" by (rule name_at_shorter [OF q(1)])
  finally show ?thesis .
qed

function declarations :: "jsstr \<Rightarrow> css_tokens" where
  "declarations s =
     (case declaration_at s of
        Some (n, v, r) \<Rightarrow> (n, v) # declarations r
      | None \<Rightarrow> (case s of [] \<Rightarrow> [] | _ # t \<Rightarrow> declarations t))"
  by pat_completeness auto
termination
  by (relation "measure length") (auto simp: declaration_at_shorter)

declare declarations.simps [simp del]

text \<open>A value loses its white space at the ends and every other run of it becomes a space; a repeated name keeps its place
  and takes the last value. The blanks the pattern skips before the value are among those trimmed.\<close>

definition parseCustomProperties :: "jsstr \<Rightarrow> css_tokens" where
  "parseCustomProperties css = fold (\<lambda>(n, v). AList.update n (trim (collapse_ws v))) (declarations css) []"

text \<open>\<open>matchAll(/(--[a-zA-Z0-9-]+)\s*:/g)\<close>.\<close>

function property_names :: "jsstr \<Rightarrow> jsstr list" where
  "property_names s =
     (case name_at s of
        Some (n, r) \<Rightarrow>
          if dropWhile is_ws r \<noteq> [] \<and> hd (dropWhile is_ws r) = 58 then n # property_names (tl (dropWhile is_ws r))
          else property_names (tl s)
      | None \<Rightarrow> (case s of [] \<Rightarrow> [] | _ # t \<Rightarrow> property_names t))"
  by pat_completeness auto
termination
  by (relation "measure length") (auto simp: name_at_then name_at_tl simp del: length_tl)

declare property_names.simps [simp del]

definition duplicateCustomProperties :: "jsstr \<Rightarrow> jsstr list" where
  "duplicateCustomProperties css =
     (let ns = property_names css in rev (remdups (rev (filter (\<lambda>n. count_list ns n > 1) ns))))"

text \<open>\<open>matchAll(/var\((--[a-zA-Z0-9-]+)\)/g)\<close>; no match begins inside another, since names have no parenthesis.\<close>

fun alias_references :: "jsstr \<Rightarrow> jsstr list" where
  "alias_references [] = []"
| "alias_references (c # s) =
     (case (if startsWith (c # s) (js ''var('') then name_at (drop 3 s) else None) of
        Some (n, r) \<Rightarrow> (if r \<noteq> [] \<and> hd r = 41 then [n] else []) @ alias_references s
      | None \<Rightarrow> alias_references s)"

section \<open>Blocks and comments\<close>

text \<open>A pattern made of literal texts and \<open>\s*\<close>; no literal starts with white space.\<close>

datatype piece = Lit jsstr | Blanks

fun pieces_at :: "piece list \<Rightarrow> jsstr \<Rightarrow> jsstr option" where
  "pieces_at [] s = Some s"
| "pieces_at (Lit t # ps) s = (if startsWith s t then pieces_at ps (drop (length t) s) else None)"
| "pieces_at (Blanks # ps) s = pieces_at ps (dropWhile is_ws s)"

text \<open>\<open>matchAll\<close> of the pattern followed by \<open>{([\s\S]*?)}\<close>: the texts between the braces.\<close>

lemma pieces_at_length: "pieces_at ps s = Some r \<Longrightarrow> length r \<le> length s"
  by (induction ps s rule: pieces_at.induct)
    (auto split: if_splits intro: order_trans [OF _ length_dropWhile_le])

definition block_at :: "piece list \<Rightarrow> jsstr \<Rightarrow> (jsstr \<times> jsstr) option" where
  "block_at ps s =
     (case pieces_at (ps @ [Lit (js ''{'')]) s of
        None \<Rightarrow> None
      | Some r \<Rightarrow> if 125 \<in> set r then Some (takeWhile (\<lambda>c. c \<noteq> 125) r, tl (dropWhile (\<lambda>c. c \<noteq> 125) r)) else None)"

lemma block_at_shorter: "block_at ps s = Some (b, r) \<Longrightarrow> length r < length s"
proof -
  assume "block_at ps s = Some (b, r)"
  then obtain q where q: "pieces_at (ps @ [Lit (js ''{'')]) s = Some q" "125 \<in> set q" "r = tl (dropWhile (\<lambda>c. c \<noteq> 125) q)"
    by (auto simp: block_at_def split: option.splits if_splits)
  then have "q \<noteq> []" by auto
  with q(3) length_dropWhile_le [of "\<lambda>c. c \<noteq> 125" q] have "length r < length q" by (cases q) auto
  then show ?thesis using pieces_at_length [OF q(1)] by simp
qed

function blocks :: "piece list \<Rightarrow> jsstr \<Rightarrow> jsstr list" where
  "blocks ps s =
     (case block_at ps s of
        Some (b, r) \<Rightarrow> b # blocks ps r
      | None \<Rightarrow> (case s of [] \<Rightarrow> [] | _ # t \<Rightarrow> blocks ps t))"
  by pat_completeness auto
termination
  by (relation "measure (length \<circ> snd)") (auto simp: block_at_shorter)

declare blocks.simps [simp del]

text \<open>\<open>css.match(/:root\s*\{([\s\S]*?)\}/)?.[1]\<close>.\<close>

definition first_block :: "piece list \<Rightarrow> jsstr \<Rightarrow> jsstr option" where
  "first_block ps s = (case blocks ps s of [] \<Rightarrow> None | b # _ \<Rightarrow> Some b)"

definition root_selector :: "piece list" where
  "root_selector = [Lit (js '':root''), Blanks]"

function stripCssComments :: "jsstr \<Rightarrow> jsstr" where
  "stripCssComments s =
     (if s = [] then []
      else case (if startsWith s (js ''/*'') then comment_end (drop 2 s) else None) of
          Some n \<Rightarrow> stripCssComments (drop (n + 2) s)
        | None \<Rightarrow> hd s # stripCssComments (tl s))"
  by pat_completeness auto
termination
  by (relation "measure length") auto

declare stripCssComments.simps [simp del]

section \<open>Aliases\<close>

datatype value_error = AliasCycle "jsstr list" | MissingTarget jsstr | UnsupportedColor jsstr | NotOpaqueColors

text \<open>\<open>/^var\((--[a-zA-Z0-9-]+)\)$/\<close>.\<close>

definition alias_of :: "jsstr \<Rightarrow> jsstr option" where
  "alias_of value =
     (if startsWith value (js ''var('') then
        (case name_at (drop 4 value) of Some (n, r) \<Rightarrow> if r = [41] then Some n else None | None \<Rightarrow> None)
      else None)"

function resolveValue :: "jsstr \<Rightarrow> css_tokens \<Rightarrow> jsstr list \<Rightarrow> (value_error, jsstr) result" where
  "resolveValue name tokens stack =
     (if name \<in> set stack then Inl (AliasCycle (stack @ [name]))
      else case map_of tokens name of
          None \<Rightarrow> Inl (MissingTarget name)
        | Some value \<Rightarrow>
            (case alias_of value of Some a \<Rightarrow> resolveValue a tokens (stack @ [name]) | None \<Rightarrow> Inr value))"
  by pat_completeness auto
termination
proof (relation "measure (\<lambda>(_, tokens, stack). card (fst ` set tokens - set stack))", goal_cases)
  case (2 name tokens stack v a)
  then have "name \<in> fst ` set tokens - set stack" by (auto dest: map_of_SomeD intro: rev_image_eqI)
  then have "fst ` set tokens - set (stack @ [name]) \<subset> fst ` set tokens - set stack" by auto
  then show ?case by (auto intro: psubset_card_mono)
qed simp

declare resolveValue.simps [simp del]

text \<open>The same relation without a search: the chain of aliases from a name to a value that is no alias.\<close>

inductive leads_to :: "css_tokens \<Rightarrow> jsstr \<Rightarrow> jsstr \<Rightarrow> bool" for ts where
  ends: "map_of ts n = Some v \<Longrightarrow> alias_of v = None \<Longrightarrow> leads_to ts n v"
| follows: "map_of ts n = Some w \<Longrightarrow> alias_of w = Some a \<Longrightarrow> leads_to ts a v \<Longrightarrow> leads_to ts n v"

inductive_cases leads_toE: "leads_to ts n v"

text \<open>One step of the chain, and what it means to come back to a name.\<close>

definition alias_step :: "css_tokens \<Rightarrow> (jsstr \<times> jsstr) set" where
  "alias_step ts = {(n, a). \<exists>w. map_of ts n = Some w \<and> alias_of w = Some a}"

lemma alias_step_det: "(n, a) \<in> alias_step ts \<Longrightarrow> (n, b) \<in> alias_step ts \<Longrightarrow> a = b"
  by (auto simp: alias_step_def)

lemma leads_to_step: "(n, a) \<in> alias_step ts \<Longrightarrow> leads_to ts n v \<longleftrightarrow> leads_to ts a v"
  by (auto simp: alias_step_def elim: leads_toE intro: follows)

lemma leads_to_det: "leads_to ts n v \<Longrightarrow> leads_to ts n w \<Longrightarrow> v = w"
  by (induction rule: leads_to.induct) (auto elim: leads_toE)

lemma leads_to_no_cycle: "leads_to ts n v \<Longrightarrow> (n, n) \<notin> (alias_step ts)\<^sup>+"
proof (induction rule: leads_to.induct)
  case (ends n v)
  then show ?case by (auto simp: alias_step_def dest!: tranclD)
next
  case (follows n w a v)
  then have na: "(n, a) \<in> alias_step ts" by (auto simp: alias_step_def)
  show ?case
  proof
    assume "(n, n) \<in> (alias_step ts)\<^sup>+"
    then obtain b where "(n, b) \<in> alias_step ts" "(b, n) \<in> (alias_step ts)\<^sup>*" by (auto dest: tranclD)
    with na have "(a, n) \<in> (alias_step ts)\<^sup>*" using alias_step_det by blast
    from this na have "(a, a) \<in> (alias_step ts)\<^sup>+" by (rule rtrancl_into_trancl1)
    with follows.IH show False by simp
  qed
qed

lemma resolve_sound: "resolveValue n ts stack = Inr v \<Longrightarrow> leads_to ts n v"
proof (induction n ts stack rule: resolveValue.induct)
  case (1 n ts stack)
  from "1.prems" show ?case
    by (subst (asm) resolveValue.simps) (auto split: if_splits option.splits intro: ends follows "1.IH")
qed

text \<open>Every name on the stack leads to the current one, so a name that comes back is on a cycle.\<close>

lemma resolve_complete:
  "leads_to ts n v \<Longrightarrow> \<forall>m\<in>set stack. (m, n) \<in> (alias_step ts)\<^sup>+ \<Longrightarrow> resolveValue n ts stack = Inr v"
proof (induction arbitrary: stack rule: leads_to.induct)
  case (ends n v)
  then have "n \<notin> set stack" using leads_to_no_cycle [OF leads_to.ends] by blast
  with ends show ?case by (subst resolveValue.simps) simp
next
  case (follows n w a v)
  then have na: "(n, a) \<in> alias_step ts" by (auto simp: alias_step_def)
  have "n \<notin> set stack" using leads_to_no_cycle [OF leads_to.follows [OF follows.hyps]] follows.prems by blast
  moreover have "\<forall>m\<in>set (stack @ [n]). (m, a) \<in> (alias_step ts)\<^sup>+" using follows.prems na by auto
  ultimately show ?case using follows.hyps follows.IH [of "stack @ [n]"] by (subst resolveValue.simps) simp
qed

lemma resolve_missing:
  "resolveValue n ts stack = Inl (MissingTarget m) \<Longrightarrow> (n, m) \<in> (alias_step ts)\<^sup>* \<and> map_of ts m = None"
proof (induction n ts stack rule: resolveValue.induct)
  case (1 n ts stack)
  show ?case
  proof (cases "map_of ts n")
    case None
    with "1.prems" show ?thesis by (subst (asm) resolveValue.simps) (auto split: if_splits)
  next
    case (Some w)
    with "1.prems" obtain a where a: "n \<notin> set stack" "alias_of w = Some a" "resolveValue a ts (stack @ [n]) = Inl (MissingTarget m)"
      by (subst (asm) resolveValue.simps) (auto split: if_splits option.splits)
    with Some have "(n, a) \<in> alias_step ts" by (auto simp: alias_step_def)
    with "1.IH" [OF a(1) Some a(2,3)] show ?thesis by (auto intro: converse_rtrancl_into_rtrancl)
  qed
qed

lemma resolve_cycle:
  "resolveValue n ts stack = Inl (AliasCycle p) \<Longrightarrow> \<forall>m\<in>set stack. (m, n) \<in> (alias_step ts)\<^sup>+
   \<Longrightarrow> \<exists>k. (n, k) \<in> (alias_step ts)\<^sup>* \<and> (k, k) \<in> (alias_step ts)\<^sup>+"
proof (induction n ts stack rule: resolveValue.induct)
  case (1 n ts stack)
  show ?case
  proof (cases "n \<in> set stack")
    case True
    with "1.prems"(2) show ?thesis by blast
  next
    case False
    with "1.prems"(1) obtain w a where a: "map_of ts n = Some w" "alias_of w = Some a" "resolveValue a ts (stack @ [n]) = Inl (AliasCycle p)"
      by (subst (asm) resolveValue.simps) (auto split: option.splits)
    then have na: "(n, a) \<in> alias_step ts" by (auto simp: alias_step_def)
    with "1.prems"(2) have "\<forall>m\<in>set (stack @ [n]). (m, a) \<in> (alias_step ts)\<^sup>+" by auto
    from "1.IH" [OF False a this] na show ?thesis by (auto intro: converse_rtrancl_into_rtrancl)
  qed
qed

lemma resolve_cases:
  "(\<exists>v. resolveValue n ts stack = Inr v) \<or> (\<exists>m. resolveValue n ts stack = Inl (MissingTarget m))
   \<or> (\<exists>p. resolveValue n ts stack = Inl (AliasCycle p))"
proof (induction n ts stack rule: resolveValue.induct)
  case (1 n ts stack)
  show ?case
  proof (cases "n \<in> set stack \<or> map_of ts n = None \<or> (\<exists>w. map_of ts n = Some w \<and> alias_of w = None)")
    case True
    then show ?thesis by (subst (1 2 3) resolveValue.simps) (auto split: if_splits option.splits)
  next
    case False
    then obtain w a where a: "n \<notin> set stack" "map_of ts n = Some w" "alias_of w = Some a" by auto
    then have "resolveValue n ts stack = resolveValue a ts (stack @ [n])" by (subst resolveValue.simps) simp
    with "1.IH" [OF a] show ?thesis by simp
  qed
qed

lemma leads_to_along: "(n, m) \<in> (alias_step ts)\<^sup>* \<Longrightarrow> leads_to ts n v \<Longrightarrow> leads_to ts m v"
  by (induction rule: rtrancl_induct) (auto simp: leads_to_step)

lemma cycle_along: "(k, m) \<in> (alias_step ts)\<^sup>* \<Longrightarrow> (k, k) \<in> (alias_step ts)\<^sup>+ \<Longrightarrow> (m, m) \<in> (alias_step ts)\<^sup>+"
proof (induction rule: rtrancl_induct)
  case (step y z)
  then obtain b where "(y, b) \<in> alias_step ts" "(b, y) \<in> (alias_step ts)\<^sup>*" by (auto dest: tranclD)
  with step.hyps(2) have "(z, y) \<in> (alias_step ts)\<^sup>*" using alias_step_det by blast
  from this step.hyps(2) show ?case by (rule rtrancl_into_trancl1)
qed

lemma steps_join:
  "(n, m) \<in> (alias_step ts)\<^sup>* \<Longrightarrow> (n, k) \<in> (alias_step ts)\<^sup>* \<Longrightarrow> (m, k) \<in> (alias_step ts)\<^sup>* \<or> (k, m) \<in> (alias_step ts)\<^sup>*"
proof (induction rule: rtrancl_induct)
  case (step y z)
  from step.IH [OF step.prems] show ?case
  proof
    assume "(y, k) \<in> (alias_step ts)\<^sup>*"
    then show ?thesis using step.hyps(2) alias_step_det by (cases rule: converse_rtranclE) blast+
  next
    assume "(k, y) \<in> (alias_step ts)\<^sup>*"
    then show ?thesis using step.hyps(2) by (blast intro: rtrancl_into_rtrancl)
  qed
qed simp

lemma undefined_stops: "map_of ts m = None \<Longrightarrow> (m, k) \<in> (alias_step ts)\<^sup>* \<Longrightarrow> k = m"
  by (erule converse_rtranclE) (auto simp: alias_step_def)

lemma undefined_no_cycle: "map_of ts m = None \<Longrightarrow> (m, m) \<notin> (alias_step ts)\<^sup>+"
  by (auto simp: alias_step_def dest!: tranclD)

lemma undefined_no_value: "map_of ts m = None \<Longrightarrow> \<not> leads_to ts m v"
  by (auto elim: leads_toE)

text \<open>
  C34. Following aliases always ends, and with the answer the chain deserves: a value exactly when the chain of
  aliases leads to it, the name of a missing target exactly when the chain runs into a name that is not declared, and
  the error for a cycle exactly when the chain runs into one.
\<close>

theorem resolveValue_follows_aliases:
  "(resolveValue n ts [] = Inr v \<longleftrightarrow> leads_to ts n v)
   \<and> (resolveValue n ts [] = Inl (MissingTarget m) \<longleftrightarrow> (n, m) \<in> (alias_step ts)\<^sup>* \<and> map_of ts m = None)
   \<and> ((\<exists>p. resolveValue n ts [] = Inl (AliasCycle p)) \<longleftrightarrow> (\<exists>k. (n, k) \<in> (alias_step ts)\<^sup>* \<and> (k, k) \<in> (alias_step ts)\<^sup>+))"
proof -
  let ?r = "resolveValue n ts []"
  have val: "?r = Inr v \<longleftrightarrow> leads_to ts n v" for v
    using resolve_sound resolve_complete [of ts n v "[]"] by auto
  have only_missing: "m' = m" if "?r = Inl (MissingTarget m')" "(n, m) \<in> (alias_step ts)\<^sup>*" "map_of ts m = None" for m m'
    using resolve_missing [OF that(1)] steps_join [OF that(2), of m'] that(3) undefined_stops by metis
  have no_value: "?r \<noteq> Inr v" if "(n, m) \<in> (alias_step ts)\<^sup>*" "\<And>w. \<not> leads_to ts m w" for v m
    using leads_to_along [OF that(1)] that(2) val by blast
  have no_both: "\<not> ((n, k) \<in> (alias_step ts)\<^sup>* \<and> (k, k) \<in> (alias_step ts)\<^sup>+)"
    if "(n, m) \<in> (alias_step ts)\<^sup>*" "map_of ts m = None" for k m
    using steps_join [OF that(1), of k] undefined_stops [OF that(2)] undefined_no_cycle [OF that(2)] cycle_along by metis
  have missing: "?r = Inl (MissingTarget m) \<longleftrightarrow> (n, m) \<in> (alias_step ts)\<^sup>* \<and> map_of ts m = None"
  proof
    assume m: "(n, m) \<in> (alias_step ts)\<^sup>* \<and> map_of ts m = None"
    then have "\<not> (\<exists>p. ?r = Inl (AliasCycle p))" using resolve_cycle [of n ts "[]"] no_both by auto
    moreover have "\<not> (\<exists>v. ?r = Inr v)" using no_value [of m] undefined_no_value m by blast
    ultimately show "?r = Inl (MissingTarget m)" using resolve_cases [of n ts "[]"] only_missing m by metis
  qed (rule resolve_missing)
  have "\<exists>p. ?r = Inl (AliasCycle p)" if k: "(n, k) \<in> (alias_step ts)\<^sup>*" "(k, k) \<in> (alias_step ts)\<^sup>+" for k
  proof -
    have "\<not> (\<exists>v. ?r = Inr v)" using no_value [OF k(1)] leads_to_no_cycle k(2) by blast
    moreover have "\<not> (\<exists>m. ?r = Inl (MissingTarget m))" using resolve_missing no_both k by blast
    ultimately show ?thesis using resolve_cases [of n ts "[]"] by blast
  qed
  then show ?thesis using val missing resolve_cycle [of n ts "[]"] by fastforce
qed

end
