(* ===== verification/Design_Build.thy ===== *)
theory Design_Build
  imports Design_Css
begin

text \<open>
  The build of the design-system package, \<open>design-system/tools/build.mjs\<close>: paths inside the package, the validation
  of the theme manifest, the two generated files and the check that they are current. \<open>dir\<close> is the
  package, \<open>rootReal\<close> what \<open>realpath\<close> says of it when the module is loaded.
\<close>

section \<open>Paths\<close>

datatype path_fault = NotRelative | Escapes | IsLink | NotRegular | ParentOutside | ReallyOutside

datatype theme_fault = BadId | BadFile | BadScheme | BadLabel | BadProvenance | BadVersionNumber

datatype build_error =
    BuildFs fs_error | InputPath path_fault jsstr | OutputPath path_fault jsstr | NotJson | NullAccess | NoRootBlock
  | SchemaVersions | NoRegisteredTheme | SelectorAttribute | FollowsSystemByDefault | BadTheme theme_fault json
  | DuplicateThemeOrFile json | DefaultsNotRegistered | DefaultNotFirst | OnlyCheckArgument | StaleOutputs "jsstr list"

definition isInsideRoot :: "jsstr \<Rightarrow> bool" where
  "isInsideRoot relativePath \<longleftrightarrow> relativePath \<noteq> js ''..'' \<and> \<not> startsWith relativePath (js ''../'') \<and> \<not> isAbsolute relativePath"

definition build_fs :: "(fs_error, 'a) result \<Rightarrow> (build_error, 'a) result" where
  "build_fs r = (case r of Inl e \<Rightarrow> Inl (BuildFs e) | Inr x \<Rightarrow> Inr x)"

definition resolveInputPath :: "files \<Rightarrow> jsstr \<Rightarrow> jsstr \<Rightarrow> jsstr \<Rightarrow> (build_error, jsstr) result" where
  "resolveInputPath F dir rootReal p =
     bind_result (require (p \<noteq> [] \<and> \<not> isAbsolute p) (InputPath NotRelative p)) (\<lambda>_.
     let lexicalPath = resolve_path dir p in
     bind_result (require (isInsideRoot (relative_path dir lexicalPath)) (InputPath Escapes p)) (\<lambda>_.
     bind_result (build_fs (lstat F lexicalPath)) (\<lambda>kind.
     bind_result (require (kind \<noteq> SymbolicLink) (InputPath IsLink p)) (\<lambda>_.
     bind_result (build_fs (realpath F lexicalPath)) (\<lambda>inputReal.
     bind_result (require (isInsideRoot (relative_path rootReal inputReal)) (InputPath ReallyOutside p)) (\<lambda>_.
     Inr inputReal))))))"

definition resolveOutputPath :: "files \<Rightarrow> jsstr \<Rightarrow> jsstr \<Rightarrow> jsstr \<Rightarrow> (build_error, jsstr) result" where
  "resolveOutputPath F dir rootReal p =
     bind_result (require (p \<noteq> [] \<and> \<not> isAbsolute p) (OutputPath NotRelative p)) (\<lambda>_.
     let lexicalPath = resolve_path dir p in
     bind_result (require (isInsideRoot (relative_path dir lexicalPath)) (OutputPath Escapes p)) (\<lambda>_.
     case lstat F lexicalPath of
       Inl ENOENT \<Rightarrow>
         bind_result (build_fs (realpath F (resolve_path lexicalPath (js ''..'')))) (\<lambda>parentReal.
         if \<not> isInsideRoot (relative_path rootReal parentReal) \<and> parentReal \<noteq> rootReal then Inl (OutputPath ParentOutside p)
         else Inr lexicalPath)
     | Inl e \<Rightarrow> Inl (BuildFs e)
     | Inr kind \<Rightarrow>
         bind_result (require (kind \<noteq> SymbolicLink) (OutputPath IsLink p)) (\<lambda>_.
         bind_result (require (kind = RegularFile) (OutputPath NotRegular p)) (\<lambda>_.
         bind_result (build_fs (realpath F lexicalPath)) (\<lambda>outputReal.
         bind_result (require (isInsideRoot (relative_path rootReal outputReal)) (OutputPath ReallyOutside p)) (\<lambda>_.
         Inr outputReal))))))"

definition readText :: "files \<Rightarrow> jsstr \<Rightarrow> jsstr \<Rightarrow> jsstr \<Rightarrow> (build_error, jsstr) result" where
  "readText F dir rootReal p = bind_result (resolveInputPath F dir rootReal p) (\<lambda>q. build_fs (readFile F q))"

definition readJsonInput :: "files \<Rightarrow> jsstr \<Rightarrow> jsstr \<Rightarrow> jsstr \<Rightarrow> (build_error, json) result" where
  "readJsonInput F dir rootReal p =
     bind_result (readText F dir rootReal p) (\<lambda>t. case JSON_parse t of None \<Rightarrow> Inl NotJson | Some v \<Rightarrow> Inr v)"

section \<open>The manifest\<close>

text \<open>\<open>===\<close> of values from different places of a parsed text: two arrays or objects there are never the same.\<close>

definition same_value :: "json \<Rightarrow> json \<Rightarrow> bool" where
  "same_value a b \<longleftrightarrow> a = b \<and> (case a of JArr _ \<Rightarrow> False | JObj _ \<Rightarrow> False | _ \<Rightarrow> True)"

text \<open>\<open>/^[a-z0-9]+(?:-[a-z0-9]+)*$/\<close>.\<close>

definition stable_id :: "jsstr \<Rightarrow> bool" where
  "stable_id s = list_all (\<lambda>p. p \<noteq> [] \<and> list_all (\<lambda>c. is_lower c \<or> is_digit c) p) (split_on 45 s)"

definition nonblank :: "json \<Rightarrow> bool" where
  "nonblank v = (case v of JStr s \<Rightarrow> trim s \<noteq> [] | _ \<Rightarrow> False)"

definition theme_path :: "json \<Rightarrow> jsstr" where
  "theme_path tid = js ''themes/'' @ json_string tid @ js ''.css''"

text \<open>One pass of the loop; \<open>seen\<close> are the ids of the themes before. Their files are determined by their ids' texts.\<close>

definition validate_theme :: "json list \<Rightarrow> jsstr list \<Rightarrow> json \<Rightarrow> (build_error, unit) result" where
  "validate_theme ids paths theme =
     bind_result (require (theme \<noteq> JNull) NullAccess) (\<lambda>_.
     let tid = jget (js ''id'') theme in
     bind_result (require (stable_id (json_string tid)) (BadTheme BadId tid)) (\<lambda>_.
     bind_result (require (jget (js ''file'') theme = JStr (theme_path tid)) (BadTheme BadFile tid)) (\<lambda>_.
     bind_result (require (jget (js ''colorScheme'') theme \<in> {JStr (js ''dark''), JStr (js ''light'')}) (BadTheme BadScheme tid)) (\<lambda>_.
     bind_result (require (nonblank (jget (js ''label'') theme)) (BadTheme BadLabel tid)) (\<lambda>_.
     bind_result (require (nonblank (jget (js ''provenance'') theme)) (BadTheme BadProvenance tid)) (\<lambda>_.
     bind_result (require (positive_integer (jget (js ''version'') theme) \<noteq> None) (BadTheme BadVersionNumber tid)) (\<lambda>_.
     require (\<not> list_ex (same_value tid) ids \<and> theme_path tid \<notin> set paths) (DuplicateThemeOrFile tid))))))))"

fun validate_themes :: "json list \<Rightarrow> jsstr list \<Rightarrow> json list \<Rightarrow> (build_error, json list) result" where
  "validate_themes ids paths [] = Inr ids"
| "validate_themes ids paths (t # ts) =
     bind_result (validate_theme ids paths t) (\<lambda>_.
     validate_themes (ids @ [jget (js ''id'') t]) (paths @ [theme_path (jget (js ''id'') t)]) ts)"

definition registered_themes :: "json \<Rightarrow> json list" where
  "registered_themes m = (case jget (js ''themes'') m of JArr ts \<Rightarrow> ts | _ \<Rightarrow> [])"

definition validateInputs :: "json \<Rightarrow> json \<Rightarrow> (build_error, unit) result" where
  "validateInputs m contract =
     bind_result (require (m \<noteq> JNull) NullAccess) (\<lambda>_.
     bind_result (require (jget (js ''schemaVersion'') m = JNum (Fin 1)) SchemaVersions) (\<lambda>_.
     bind_result (require (contract \<noteq> JNull) NullAccess) (\<lambda>_.
     bind_result (require (jget (js ''schemaVersion'') contract = JNum (Fin 1)) SchemaVersions) (\<lambda>_.
     bind_result (require (registered_themes m \<noteq> []) NoRegisteredTheme) (\<lambda>_.
     bind_result (require (jget (js ''selectorAttribute'') m = JStr (js ''data-theme'')) SelectorAttribute) (\<lambda>_.
     bind_result (require (jget (js ''followSystemByDefault'') m = JBool False) FollowsSystemByDefault) (\<lambda>_.
     bind_result (validate_themes [] [] (registered_themes m)) (\<lambda>ids.
     bind_result (require (list_ex (same_value (jget (js ''defaultTheme'') m)) ids
                           \<and> list_ex (same_value (jget (js ''fallbackTheme'') m)) ids) DefaultsNotRegistered) (\<lambda>_.
     require (same_value (jget (js ''id'') (hd (registered_themes m))) (jget (js ''defaultTheme'') m)) DefaultNotFirst)))))))))"

section \<open>The outputs\<close>

definition foundationFile :: jsstr where
  "foundationFile = js ''tokens.foundation.css''"

definition theme_files :: "json \<Rightarrow> jsstr list" where
  "theme_files m = map (\<lambda>t. json_string (jget (js ''file'') t)) (registered_themes m)"

definition parseFirstRootBlock :: "jsstr \<Rightarrow> (build_error, css_tokens) result" where
  "parseFirstRootBlock css =
     (case first_block root_selector css of
        None \<Rightarrow> Inl NoRootBlock
      | Some b \<Rightarrow> if b = [] then Inl NoRootBlock else Inr (parseCustomProperties b))"

definition generatedCss :: "json \<Rightarrow> jsstr" where
  "generatedCss m = join [10]
     ([js ''/*'', js '' * GENERATED by tools/build.mjs. Do not edit directly.'', js '' * Modified for Cherry OJ on 2026-09-03.'',
       js '' * Productionized from the frozen Claude Design Cherry OJ source; includes a'',
       js '' * semantic dual-theme contract, accessible interactions, and OJ states.'',
       js '' * See NOTICE.md and LICENSE.open-design in this directory.'', js '' */'', []] @
      map (\<lambda>f. js ''@import '' @ [34] @ js ''./'' @ f @ [34] @ js '';'') (foundationFile # theme_files m) @ [[]])"

text \<open>\<open>JSON.stringify(v, null, 2)\<close> at an indentation of \<open>n\<close>.\<close>

fun json_pretty :: "nat \<Rightarrow> json \<Rightarrow> jsstr" where
  "json_pretty n (JArr vs) =
     (if vs = [] then js ''[]''
      else js ''['' @ 10 # replicate (n + 2) 32
           @ join (44 # 10 # replicate (n + 2) 32) (map (\<lambda>v. if v = JUndef then js ''null'' else json_pretty (n + 2) v) vs)
           @ 10 # replicate n 32 @ js '']'')"
| "json_pretty n (JObj ms) =
     (let ts = concat (map (\<lambda>(k, v). if v = JUndef then [] else [quote k @ 58 # 32 # json_pretty (n + 2) v]) ms)
      in if ts = [] then js ''{}''
         else js ''{'' @ 10 # replicate (n + 2) 32 @ join (44 # 10 # replicate (n + 2) 32) ts @ 10 # replicate n 32 @ js ''}'')"
| "json_pretty n v = JSON_text v"

text \<open>\<open>...v\<close> in an object.\<close>

definition spread_entries :: "json \<Rightarrow> (jsstr \<times> json) list" where
  "spread_entries v =
     (case v of
        JObj ms \<Rightarrow> ms
      | JArr vs \<Rightarrow> zip (map (\<lambda>i. dec_text (int i)) [0..<length vs]) vs
      | JStr s \<Rightarrow> zip (map (\<lambda>i. dec_text (int i)) [0..<length s]) (map (\<lambda>c. JStr [c]) s)
      | _ \<Rightarrow> [])"

definition json_of_tokens :: "css_tokens \<Rightarrow> json" where
  "json_of_tokens ts = JObj (map (\<lambda>(n, v). (n, JStr v)) ts)"

fun theme_objects :: "files \<Rightarrow> jsstr \<Rightarrow> jsstr \<Rightarrow> json list \<Rightarrow> (build_error, json list) result" where
  "theme_objects F dir rootReal [] = Inr []"
| "theme_objects F dir rootReal (t # ts) =
     bind_result (readText F dir rootReal (json_string (jget (js ''file'') t))) (\<lambda>css.
     bind_result (theme_objects F dir rootReal ts) (\<lambda>vs.
     Inr (JObj (map (\<lambda>k. (k, jget k t)) [js ''id'', js ''label'', js ''colorScheme'', js ''version'', js ''file'', js ''provenance'']
                @ [(js ''tokens'', json_of_tokens (parseCustomProperties css))]) # vs)))"

definition contract_file :: jsstr where
  "contract_file = js ''theme-contract.json''"

definition token_object :: "json \<Rightarrow> json \<Rightarrow> css_tokens \<Rightarrow> json list \<Rightarrow> json" where
  "token_object m contract foundation themes = JObj
     [(js ''schemaVersion'', JNum (Fin 1)),
      (js ''provenance'', JObj (AList.update (js ''contract'') (JStr contract_file) (spread_entries (jget (js ''provenance'') m)))),
      (js ''modified'', JObj [(js ''for'', JStr (js ''Cherry OJ Web'')), (js ''date'', JStr (js ''2026-09-03'')),
         (js ''summary'', JStr (js ''Generated value anchor for the Web Foundation and both production themes.''))]),
      (js ''generated'', JObj [(js ''by'', JStr (js ''tools/build.mjs'')),
         (js ''inputs'', JArr (map JStr ([foundationFile, contract_file, manifest_name] @ theme_files m)))]),
      (js ''defaultTheme'', jget (js ''defaultTheme'') m), (js ''fallbackTheme'', jget (js ''fallbackTheme'') m),
      (js ''contractSchemaVersion'', jget (js ''schemaVersion'') contract),
      (js ''foundation'', JObj [(js ''file'', JStr foundationFile), (js ''tokens'', json_of_tokens foundation)]),
      (js ''themes'', JArr themes)]"

definition generatedJson :: "files \<Rightarrow> jsstr \<Rightarrow> jsstr \<Rightarrow> json \<Rightarrow> json \<Rightarrow> (build_error, jsstr) result" where
  "generatedJson F dir rootReal m contract =
     bind_result (readText F dir rootReal foundationFile) (\<lambda>css.
     bind_result (parseFirstRootBlock css) (\<lambda>foundation.
     bind_result (theme_objects F dir rootReal (registered_themes m)) (\<lambda>themes.
     Inr (json_pretty 0 (token_object m contract foundation themes) @ [10]))))"

fun resolve_all :: "files \<Rightarrow> jsstr \<Rightarrow> jsstr \<Rightarrow> jsstr list \<Rightarrow> (build_error, unit) result" where
  "resolve_all F dir rootReal [] = Inr ()"
| "resolve_all F dir rootReal (p # ps) = bind_result (resolveInputPath F dir rootReal p) (\<lambda>_. resolve_all F dir rootReal ps)"

definition generateOutputs :: "files \<Rightarrow> jsstr \<Rightarrow> jsstr \<Rightarrow> (build_error, (jsstr \<times> jsstr) list) result" where
  "generateOutputs F dir rootReal =
     bind_result (readJsonInput F dir rootReal manifest_name) (\<lambda>m.
     bind_result (readJsonInput F dir rootReal contract_file) (\<lambda>contract.
     bind_result (validateInputs m contract) (\<lambda>_.
     bind_result (resolve_all F dir rootReal (foundationFile # theme_files m)) (\<lambda>_.
     bind_result (generatedJson F dir rootReal m contract) (\<lambda>anchor.
     Inr [(js ''tokens.css'', generatedCss m), (js ''design-tokens.json'', anchor)])))))"

text \<open>A file that is not there counts as empty.\<close>

definition read_actual :: "files \<Rightarrow> jsstr \<Rightarrow> (build_error, jsstr) result" where
  "read_actual F q = (case readFile F q of Inl ENOENT \<Rightarrow> Inr [] | Inl e \<Rightarrow> Inl (BuildFs e) | Inr t \<Rightarrow> Inr t)"

fun stale_outputs :: "files \<Rightarrow> jsstr \<Rightarrow> jsstr \<Rightarrow> (jsstr \<times> jsstr) list \<Rightarrow> (build_error, jsstr list) result" where
  "stale_outputs F dir rootReal [] = Inr []"
| "stale_outputs F dir rootReal ((p, expected) # others) =
     bind_result (resolveOutputPath F dir rootReal p) (\<lambda>q.
     bind_result (read_actual F q) (\<lambda>actual.
     bind_result (stale_outputs F dir rootReal others) (\<lambda>stale.
     Inr (if actual \<noteq> expected then p # stale else stale))))"

fun write_outputs :: "files \<Rightarrow> jsstr \<Rightarrow> jsstr \<Rightarrow> (jsstr \<times> jsstr) list \<Rightarrow> (build_error, (jsstr \<times> jsstr) list) result" where
  "write_outputs F dir rootReal [] = Inr []"
| "write_outputs F dir rootReal ((p, expected) # others) =
     bind_result (resolveOutputPath F dir rootReal p) (\<lambda>q.
     bind_result (write_outputs F dir rootReal others) (\<lambda>ws. Inr ((q, expected) # ws)))"

definition build_run :: "files \<Rightarrow> jsstr \<Rightarrow> jsstr \<Rightarrow> jsstr list \<Rightarrow> (build_error, (jsstr \<times> jsstr) list) result" where
  "build_run F dir rootReal args =
     (if length args > 1 \<or> length args = 1 \<and> hd args \<noteq> js ''--check'' then Inl OnlyCheckArgument
      else bind_result (generateOutputs F dir rootReal) (\<lambda>outputs.
           if args = [js ''--check''] then
             bind_result (stale_outputs F dir rootReal outputs) (\<lambda>stale. if stale \<noteq> [] then Inl (StaleOutputs stale) else Inr [])
           else write_outputs F dir rootReal outputs))"

end
