(* ===== verification/Build_Properties.thy ===== *)
theory Build_Properties
  imports Design_Build
begin

text \<open>
  What \<open>validateInputs\<close> of the design-system build guarantees of the manifests it accepts, whose ids need not be strings.
\<close>

text \<open>What is accepted of one theme; \<open>i\<close> is the text of its id, which the file is named after.\<close>

definition accepted_theme :: "json \<Rightarrow> jsstr \<Rightarrow> bool" where
  "accepted_theme t i \<longleftrightarrow> t \<noteq> JNull \<and> i = json_string (jget (js ''id'') t) \<and> stable_id i
     \<and> jget (js ''file'') t = JStr (js ''themes/'' @ i @ js ''.css'')
     \<and> jget (js ''colorScheme'') t \<in> {JStr (js ''dark''), JStr (js ''light'')}
     \<and> nonblank (jget (js ''label'') t) \<and> nonblank (jget (js ''provenance'') t) \<and> positive_integer (jget (js ''version'') t) \<noteq> None"

lemma positive_integer_value: "positive_integer v = Some n \<Longrightarrow> 0 < n \<and> v = JNum (Fin (of_int n))"
  by (auto simp: positive_integer_def isInteger_def le_floor_iff split: json.splits number.splits if_splits)

lemma validate_theme_iff:
  "validate_theme ids paths t = Inr u \<longleftrightarrow> accepted_theme t (json_string (jget (js ''id'') t)) \<and> \<not> list_ex (same_value (jget (js ''id'') t)) ids
     \<and> theme_path (jget (js ''id'') t) \<notin> set paths"
  unfolding validate_theme_def Let_def bind_result_Inr_iff require_simps(1) accepted_theme_def theme_path_def by (simp del: js_Cons)

lemma validate_themes_ok:
  "validate_themes ids paths ts = Inr ids' \<Longrightarrow> distinct paths \<Longrightarrow>
   ids' = ids @ map (jget (js ''id'')) ts \<and> distinct (paths @ map (\<lambda>t. theme_path (jget (js ''id'') t)) ts) \<and> (\<forall>t\<in>set ts. accepted_theme t (json_string (jget (js ''id'') t)))"
proof (induction ts arbitrary: ids paths)
  case (Cons t ts)
  then obtain u where t: "validate_theme ids paths t = Inr u"
    and ts: "validate_themes (ids @ [jget (js ''id'') t]) (paths @ [theme_path (jget (js ''id'') t)]) ts = Inr ids'"
    by (auto simp: bind_result_Inr_iff simp del: js_Cons)
  from t have "accepted_theme t (json_string (jget (js ''id'') t))" "theme_path (jget (js ''id'') t) \<notin> set paths" unfolding validate_theme_iff by blast+
  with Cons.IH [OF ts] Cons.prems(2) show ?case by auto
qed simp

lemma split_on_one: "c \<notin> set s \<Longrightarrow> split_on c s = [s]"
  by (induction s) auto

lemma in_split_on: "x \<in> set s \<Longrightarrow> x \<noteq> c \<Longrightarrow> \<exists>p\<in>set (split_on c s). x \<in> set p"
proof (induction s)
  case (Cons y s)
  then show ?case by (cases "split_on c s") auto
qed simp

lemma stable_id_no_slash: "stable_id s \<Longrightarrow> 47 \<notin> set s"
proof
  assume s: "stable_id s" and "47 \<in> set s"
  then obtain p where "p \<in> set (split_on 45 s)" "(47 :: code_unit) \<in> set p" using in_split_on [of 47 s 45] by auto
  with s have "is_lower (47 :: code_unit) \<or> is_digit (47 :: code_unit)" unfolding stable_id_def list_all_iff by blast
  then show False by (auto simp: in_range_def)
qed

lemma split_on_first: "c \<notin> set s \<Longrightarrow> split_on c (s @ c # t) = s # split_on c t"
  by (induction s) auto

lemma theme_path_segments:
  assumes "stable_id i"
  shows "path_segments (js ''themes/'' @ i @ js ''.css'') = [js ''themes'', i @ js ''.css'']"
proof -
  have themes: "js ''themes/'' = js ''themes'' @ [47]" by code_simp
  have "47 \<notin> set (js ''themes'')" "47 \<notin> set (js ''.css'')" by code_simp+
  with stable_id_no_slash [OF assms] have "split_on 47 (js ''themes'' @ 47 # i @ js ''.css'') = [js ''themes'', i @ js ''.css'']"
    by (subst split_on_first) (simp_all add: split_on_one del: js_Cons)
  then show ?thesis by (simp add: path_segments_def themes)
qed

text \<open>
  C35. Every manifest the build accepts registers at least one theme, and of each theme: the text of its id consists of
  words of lower-case letters and digits with single hyphens between them, no other theme's id has the same text, and the
  file is the style sheet named after it directly in the directory of the themes; the colour scheme is dark or light,
  label and provenance are texts that are not blank, the version is a positive integer. The id is this text itself, or
  it is no string: then a missing id, a null, a number, a truth value or an array counts by its text. The default theme is
  the id of the first theme and the fallback theme the id of some theme.
\<close>

theorem accepted_manifest_wellformed:
  assumes "validateInputs m contract = Inr ()"
  shows "registered_themes m \<noteq> [] \<and> distinct (theme_files m)
    \<and> distinct (map (\<lambda>t. json_string (jget (js ''id'') t)) (registered_themes m))
    \<and> (\<forall>t\<in>set (registered_themes m). \<exists>i. stable_id i
        \<and> (jget (js ''id'') t = JStr i \<or> (\<forall>s. jget (js ''id'') t \<noteq> JStr s) \<and> json_string (jget (js ''id'') t) = i)
        \<and> jget (js ''file'') t = JStr (js ''themes/'' @ i @ js ''.css'')
        \<and> path_segments (js ''themes/'' @ i @ js ''.css'') = [js ''themes'', i @ js ''.css'']
        \<and> jget (js ''colorScheme'') t \<in> {JStr (js ''dark''), JStr (js ''light'')}
        \<and> (\<exists>label provenance. jget (js ''label'') t = JStr label \<and> trim label \<noteq> []
             \<and> jget (js ''provenance'') t = JStr provenance \<and> trim provenance \<noteq> [])
        \<and> (\<exists>n > 0. jget (js ''version'') t = JNum (Fin (of_int n))))
    \<and> jget (js ''defaultTheme'') m = jget (js ''id'') (hd (registered_themes m))
    \<and> (\<exists>t\<in>set (registered_themes m). jget (js ''id'') t = jget (js ''fallbackTheme'') m)"
proof -
  let ?ts = "registered_themes m"
  obtain ids where ts: "?ts \<noteq> []" and ids: "validate_themes [] [] ?ts = Inr ids"
    and dflt: "list_ex (same_value (jget (js ''fallbackTheme'') m)) ids" "same_value (jget (js ''id'') (hd ?ts)) (jget (js ''defaultTheme'') m)"
    using assms unfolding validateInputs_def bind_result_Inr_iff require_simps(1) by blast
  have v: "ids = map (jget (js ''id'')) ?ts" "distinct (map (\<lambda>t. theme_path (jget (js ''id'') t)) ?ts)"
    "\<forall>t\<in>set ?ts. accepted_theme t (json_string (jget (js ''id'') t))"
    using validate_themes_ok [OF ids] by simp_all
  have files: "theme_files m = map (\<lambda>t. theme_path (jget (js ''id'') t)) ?ts"
    using v(3) by (simp add: theme_files_def accepted_theme_def theme_path_def del: js_Cons)
  have "map (\<lambda>t. theme_path (jget (js ''id'') t)) ?ts
      = map (\<lambda>i. js ''themes/'' @ i @ js ''.css'') (map (\<lambda>t. json_string (jget (js ''id'') t)) ?ts)"
    by (simp add: theme_path_def del: js_Cons)
  then have texts: "distinct (map (\<lambda>t. json_string (jget (js ''id'') t)) ?ts)" using v(2) by (metis distinct_map)
  have theme: "\<exists>i. stable_id i
        \<and> (jget (js ''id'') t = JStr i \<or> (\<forall>s. jget (js ''id'') t \<noteq> JStr s) \<and> json_string (jget (js ''id'') t) = i)
        \<and> jget (js ''file'') t = JStr (js ''themes/'' @ i @ js ''.css'')
        \<and> path_segments (js ''themes/'' @ i @ js ''.css'') = [js ''themes'', i @ js ''.css'']
        \<and> jget (js ''colorScheme'') t \<in> {JStr (js ''dark''), JStr (js ''light'')}
        \<and> (\<exists>label provenance. jget (js ''label'') t = JStr label \<and> trim label \<noteq> []
             \<and> jget (js ''provenance'') t = JStr provenance \<and> trim provenance \<noteq> [])
        \<and> (\<exists>n > 0. jget (js ''version'') t = JNum (Fin (of_int n)))" if "t \<in> set ?ts" for t
  proof -
    let ?i = "json_string (jget (js ''id'') t)"
    have t: "accepted_theme t ?i" using v(3) that by blast
    then have "stable_id ?i" by (simp add: accepted_theme_def)
    moreover have "jget (js ''id'') t = JStr ?i \<or> (\<forall>s. jget (js ''id'') t \<noteq> JStr s)" by (metis json_string.simps(5))
    moreover note theme_path_segments [OF \<open>stable_id ?i\<close>]
    moreover have "\<exists>label provenance. jget (js ''label'') t = JStr label \<and> trim label \<noteq> []
             \<and> jget (js ''provenance'') t = JStr provenance \<and> trim provenance \<noteq> []"
      using t by (auto simp: accepted_theme_def nonblank_def simp del: js_Cons split: json.splits)
    moreover have "\<exists>n > 0. jget (js ''version'') t = JNum (Fin (of_int n))"
      using t positive_integer_value unfolding accepted_theme_def by blast
    ultimately show ?thesis using t unfolding accepted_theme_def by (intro exI [where x = ?i]) simp
  qed
  moreover have "jget (js ''defaultTheme'') m = jget (js ''id'') (hd ?ts)" using dflt(2) by (simp add: same_value_def del: js_Cons)
  moreover have "\<exists>t\<in>set ?ts. jget (js ''id'') t = jget (js ''fallbackTheme'') m"
    using dflt(1) unfolding v(1) list_ex_iff by (auto simp: same_value_def simp del: js_Cons)
  moreover have "distinct (theme_files m)" unfolding files by (rule v(2))
  ultimately show ?thesis using ts texts by blast
qed

definition demo_json_theme :: json where
  "demo_json_theme = JObj [(js ''id'', JStr (js ''a'')), (js ''file'', JStr (js ''themes/a.css'')), (js ''colorScheme'', JStr (js ''dark'')),
     (js ''label'', JStr (js ''A'')), (js ''provenance'', JStr (js ''p'')), (js ''version'', JNum (Fin 1))]"

definition demo_json_manifest :: json where
  "demo_json_manifest = JObj [(js ''schemaVersion'', JNum (Fin 1)), (js ''themes'', JArr [demo_json_theme]),
     (js ''selectorAttribute'', JStr (js ''data-theme'')), (js ''followSystemByDefault'', JBool False),
     (js ''defaultTheme'', JStr (js ''a'')), (js ''fallbackTheme'', JStr (js ''a''))]"

theorem accepted_manifest_wellformed_witness:
  "theme_files demo_json_manifest = [js ''themes/a.css''] \<and> (\<exists>i. stable_id i \<and> jget (js ''file'') demo_json_theme = JStr (js ''themes/'' @ i @ js ''.css''))"
proof -
  have "validateInputs demo_json_manifest (JObj [(js ''schemaVersion'', JNum (Fin 1))]) = Inr ()" by code_simp
  note accepted_manifest_wellformed [OF this]
  moreover have "registered_themes demo_json_manifest = [demo_json_theme]" "theme_files demo_json_manifest = [js ''themes/a.css'']" by code_simp+
  ultimately show ?thesis by (auto simp del: js_Cons)
qed

text \<open>The pattern for ids tests the text of the id, so a second theme without an id is accepted as \<open>undefined\<close>.\<close>

lemma missing_id_accepted:
  assumes "nonblank (jget (js ''label'') t)" "nonblank (jget (js ''provenance'') t)" "positive_integer (jget (js ''version'') t) \<noteq> None"
    "jget (js ''colorScheme'') t = JStr (js ''dark'')" "jget (js ''id'') t = JUndef" "jget (js ''file'') t = JStr (js ''themes/undefined.css'')"
  shows "validate_theme [JStr (js ''a'')] [js ''themes/a.css''] t = Inr ()"
proof -
  have "stable_id (json_string JUndef)" "theme_path JUndef = js ''themes/undefined.css''" "js ''themes/undefined.css'' \<noteq> js ''themes/a.css''"
    by code_simp+
  moreover have "t \<noteq> JNull" using assms(4) by (auto simp: jget_def)
  ultimately show ?thesis unfolding validate_theme_iff accepted_theme_def using assms by (simp add: same_value_def theme_path_def del: js_Cons)
qed

end
