(* ===== verification/Design_Contract.thy ===== *)
theory Design_Contract
  imports Design_Build
begin

text \<open>
  The contract every theme of the design system has to meet, as \<open>design-system/tools/check.mjs\<close> checks it: the required
  names, the shape expected of each, and \<open>verifyContract\<close> on the parsed JSON. What \<open>fail\<close> collects in that
  program are values of \<open>contract_error\<close>, what is thrown are values of \<open>check_throw\<close>.
\<close>

section \<open>The contract\<close>

definition neutralSurfaces :: "jsstr list" where
  "neutralSurfaces = map js [''--ds-canvas'', ''--ds-panel'', ''--ds-surface'', ''--ds-surface-subtle'', ''--ds-surface-raised'',
     ''--ds-surface-hover'']"

definition statuses :: "jsstr list" where
  "statuses = map js [''success'', ''warning'', ''danger'', ''info'', ''special'']"

definition status_name :: "jsstr \<Rightarrow> jsstr \<Rightarrow> jsstr" where
  "status_name status part = js ''--ds-'' @ status @ js ''-'' @ part"

definition requiredNames :: "jsstr list" where
  "requiredNames = neutralSurfaces @
     map js [''--ds-surface-translucent'', ''--ds-surface-translucent-hover'', ''--ds-surface-translucent-selected'', ''--ds-fg'',
       ''--ds-fg-2'', ''--ds-fg-muted'', ''--ds-fg-meta'', ''--ds-fg-disabled'', ''--ds-fg-ghost'', ''--ds-border-soft'', ''--ds-border'',
       ''--ds-border-solid'', ''--ds-border-strong'', ''--ds-line-tertiary'', ''--ds-brand-surface'', ''--ds-brand-surface-hover'',
       ''--ds-brand-surface-active'', ''--ds-on-brand'', ''--ds-brand-foreground'', ''--ds-brand-foreground-hover'', ''--ds-brand-soft'',
       ''--ds-on-brand-soft'', ''--ds-link'', ''--ds-link-hover'', ''--ds-focus'', ''--ds-selection-surface'', ''--ds-selection-foreground''] @
     concat (map (\<lambda>s. map (status_name s) (map js [''foreground'', ''surface'', ''border'', ''solid'', ''on-solid''])) statuses) @
     map js [''--ds-overlay'', ''--ds-elevation-flat'', ''--ds-elevation-subtle'', ''--ds-elevation-ring'', ''--ds-elevation-inset'',
       ''--ds-elevation-dialog'', ''--ds-elevation-raised'']"

record shape =
  sh_type :: jsstr
  sh_class :: jsstr
  sh_allowedOn :: "jsstr list"
  sh_opaque :: bool

definition define_shape :: "string \<Rightarrow> jsstr list \<Rightarrow> bool \<Rightarrow> jsstr \<Rightarrow> jsstr \<times> shape" where
  "define_shape cls allowedOn opaque name =
     (name, \<lparr>sh_type = js ''color'', sh_class = js cls, sh_allowedOn = allowedOn, sh_opaque = opaque\<rparr>)"

definition define_shadow :: "jsstr \<Rightarrow> jsstr \<times> shape" where
  "define_shadow name = (name, \<lparr>sh_type = js ''shadow'', sh_class = js ''none'', sh_allowedOn = [], sh_opaque = False\<rparr>)"

definition brandSurfaces :: "jsstr list" where
  "brandSurfaces = map js [''--ds-brand-surface'', ''--ds-brand-surface-hover'', ''--ds-brand-surface-active'']"

definition status_shapes :: "jsstr \<Rightarrow> (jsstr \<times> shape) list" where
  "status_shapes s =
     [define_shape ''text'' (neutralSurfaces @ [status_name s (js ''surface'')]) False (status_name s (js ''foreground'')),
      define_shape ''none'' [] True (status_name s (js ''surface'')),
      define_shape ''nonText'' (neutralSurfaces @ [status_name s (js ''surface'')]) False (status_name s (js ''border'')),
      define_shape ''none'' [] True (status_name s (js ''solid'')),
      define_shape ''text'' [status_name s (js ''solid'')] False (status_name s (js ''on-solid''))]"

definition expectedContractShape :: "(jsstr \<times> shape) list" where
  "expectedContractShape =
     map (define_shape ''none'' [] True) neutralSurfaces @
     map (define_shape ''none'' [] False) (map js [''--ds-surface-translucent'', ''--ds-surface-translucent-hover'',
       ''--ds-surface-translucent-selected'']) @
     map (define_shape ''text'' neutralSurfaces False) (map js [''--ds-fg'', ''--ds-fg-2'', ''--ds-fg-muted'', ''--ds-fg-meta'']) @
     [define_shape ''decorative'' neutralSurfaces False (js ''--ds-fg-disabled''),
      define_shape ''text'' neutralSurfaces False (js ''--ds-fg-ghost''),
      define_shape ''decorative'' neutralSurfaces False (js ''--ds-border-soft''),
      define_shape ''decorative'' neutralSurfaces False (js ''--ds-border''),
      define_shape ''decorative'' neutralSurfaces False (js ''--ds-border-solid''),
      define_shape ''nonText'' neutralSurfaces False (js ''--ds-border-strong''),
      define_shape ''decorative'' neutralSurfaces False (js ''--ds-line-tertiary'')] @
     map (define_shape ''none'' [] True) brandSurfaces @
     [define_shape ''text'' brandSurfaces False (js ''--ds-on-brand''),
      define_shape ''text'' (neutralSurfaces @ [js ''--ds-brand-soft'']) False (js ''--ds-brand-foreground''),
      define_shape ''text'' (neutralSurfaces @ [js ''--ds-brand-soft'']) False (js ''--ds-brand-foreground-hover''),
      define_shape ''none'' [] True (js ''--ds-brand-soft''),
      define_shape ''text'' [js ''--ds-brand-soft''] False (js ''--ds-on-brand-soft''),
      define_shape ''text'' neutralSurfaces False (js ''--ds-link''),
      define_shape ''text'' neutralSurfaces False (js ''--ds-link-hover''),
      define_shape ''nonText'' neutralSurfaces False (js ''--ds-focus''),
      define_shape ''none'' [] True (js ''--ds-selection-surface''),
      define_shape ''text'' [js ''--ds-selection-surface''] False (js ''--ds-selection-foreground'')] @
     concat (map status_shapes statuses) @
     [define_shape ''none'' [] False (js ''--ds-overlay'')] @
     map define_shadow (map js [''--ds-elevation-flat'', ''--ds-elevation-subtle'', ''--ds-elevation-ring'', ''--ds-elevation-inset'',
       ''--ds-elevation-dialog'', ''--ds-elevation-raised''])"

definition expectedContractRules :: "(jsstr \<times> bool) list" where
  "expectedContractRules =
     [(js ''themeMustDeclareEveryRequiredEntry'', True), (js ''aliasesMustResolveWithinTheSameTheme'', True),
      (js ''opaqueEntriesRejectAlpha'', True), (js ''componentsMayConsumeRawTokens'', False),
      (js ''necessaryStatusMustAlsoUseTextIconOrShape'', True)]"

datatype contract_error =
    ContractSchema | ContractMetadata | EntriesNotArray | DuplicateEntries "json list" | MissingEntry jsstr
  | UnexpectedEntry json | NotRequired json | InvalidType json | NoRole json | AllowedOnNotArray json | InvalidClass json
  | UnknownSurface json json | WrongType json | WrongClass json | WrongAllowedOn json | OpaqueNotBoolean json | WrongOpaque json
  | WrongThresholds | WrongNullThresholds | WrongRuleNames | WrongRule jsstr

datatype check_throw = NotIterable | NullProperty | UncaughtValue value_error | UncaughtBuild build_error | LinkInPackage jsstr
  | LegalIsLink | LegalFileIsLink jsstr | LegalFileOutside jsstr | CheckFs fs_error

definition truthy_json :: "json \<Rightarrow> bool" where
  "truthy_json v = (case v of
     JUndef \<Rightarrow> False | JNull \<Rightarrow> False | JBool b \<Rightarrow> b | JNum n \<Rightarrow> n \<noteq> Fin 0 \<and> n \<noteq> NaN | JStr s \<Rightarrow> s \<noteq> [] | _ \<Rightarrow> True)"

text \<open>The characters an iteration over a string meets: code points, as strings.\<close>

fun characters :: "jsstr \<Rightarrow> jsstr list" where
  "characters [] = []"
| "characters [c] = [[c]]"
| "characters (c # d # s) =
     (if in_range 0xD800 0xDBFF c \<and> in_range 0xDC00 0xDFFF d then [c, d] # characters s else [c] # characters (d # s))"

definition iterable :: "json \<Rightarrow> (check_throw, json list) result" where
  "iterable v = (case v of JArr vs \<Rightarrow> Inr vs | JStr s \<Rightarrow> Inr (map JStr (characters s)) | _ \<Rightarrow> Inl NotIterable)"

fun later_values :: "json list \<Rightarrow> json list \<Rightarrow> json list" where
  "later_values seen [] = []"
| "later_values seen (v # vs) = (if list_ex (same_value v) seen then v # later_values seen vs else later_values (v # seen) vs)"

fun first_values :: "json list \<Rightarrow> json list \<Rightarrow> json list" where
  "first_values seen [] = []"
| "first_values seen (v # vs) = (if list_ex (same_value v) seen then first_values seen vs else v # first_values (v # seen) vs)"

text \<open>What every object inherits: looking up one of these names in the table of shapes finds something that is no shape.\<close>

definition prototype_names :: "jsstr list" where
  "prototype_names = map js [''constructor'', ''__defineGetter__'', ''__defineSetter__'', ''hasOwnProperty'', ''__lookupGetter__'',
     ''__lookupSetter__'', ''isPrototypeOf'', ''propertyIsEnumerable'', ''toString'', ''valueOf'', ''__proto__'', ''toLocaleString'']"

definition string_values :: "json list \<Rightarrow> jsstr list option" where
  "string_values vs = (if list_all (\<lambda>v. case v of JStr _ \<Rightarrow> True | _ \<Rightarrow> False) vs then Some (map json_string vs) else None)"

text \<open>The comparison of two sorted lists of names; a value that is no string differs from every name.\<close>

definition same_names :: "json list \<Rightarrow> jsstr list \<Rightarrow> bool" where
  "same_names actual expected =
     (case string_values actual of None \<Rightarrow> False | Some ns \<Rightarrow> sort_by text_order ns = sort_by text_order expected)"

definition entry_errors :: "json \<Rightarrow> contract_error list" where
  "entry_errors entry =
     (let name = jget (js ''name'') entry in
      (if jget (js ''required'') entry \<noteq> JBool True then [NotRequired name] else []) @
      (if jget (js ''type'') entry \<notin> {JStr (js ''color''), JStr (js ''shadow'')} then [InvalidType name] else []) @
      (case jget (js ''role'') entry of JStr s \<Rightarrow> if s = [] then [NoRole name] else [] | _ \<Rightarrow> [NoRole name]) @
      (case jget (js ''allowedOn'') entry of JArr _ \<Rightarrow> [] | _ \<Rightarrow> [AllowedOnNotArray name]) @
      (if jget (js ''contrastClass'') entry \<notin> JStr ` js ` {''text'', ''nonText'', ''decorative'', ''none''} then [InvalidClass name] else []))"

definition shape_errors :: "json \<Rightarrow> json list \<Rightarrow> shape \<Rightarrow> contract_error list" where
  "shape_errors entry allowed expected =
     (let name = jget (js ''name'') entry; opaque = jget (js ''opaque'') entry in
      (if jget (js ''type'') entry \<noteq> JStr (sh_type expected) then [WrongType name] else []) @
      (if jget (js ''contrastClass'') entry \<noteq> JStr (sh_class expected) then [WrongClass name] else []) @
      (if \<not> same_names allowed (sh_allowedOn expected) then [WrongAllowedOn name] else []) @
      (case opaque of JUndef \<Rightarrow> [] | JBool _ \<Rightarrow> [] | _ \<Rightarrow> [OpaqueNotBoolean name]) @
      (if (if opaque = JUndef \<or> opaque = JNull then JBool False else opaque) \<noteq> JBool (sh_opaque expected) then [WrongOpaque name] else []))"

definition check_entry :: "json list \<Rightarrow> json \<Rightarrow> (check_throw, contract_error list) result" where
  "check_entry names entry =
     (let name = jget (js ''name'') entry; allowedOn = jget (js ''allowedOn'') entry in
      bind_result (if allowedOn = JUndef \<or> allowedOn = JNull then Inr [] else iterable allowedOn) (\<lambda>surfaces.
      let own = entry_errors entry @ map (UnknownSurface name) (filter (\<lambda>s. \<not> list_ex (same_value s) names) surfaces) in
      if json_string name \<in> set prototype_names then Inl NotIterable
      else case map_of expectedContractShape (json_string name) of
          None \<Rightarrow> Inr own
        | Some expected \<Rightarrow> bind_result (iterable allowedOn) (\<lambda>allowed. Inr (own @ shape_errors entry allowed expected))))"

definition name_errors :: "json list \<Rightarrow> contract_error list" where
  "name_errors names =
     (if later_values [] names \<noteq> [] then [DuplicateEntries (first_values [] (later_values [] names))] else []) @
     map MissingEntry (filter (\<lambda>n. JStr n \<notin> set names) requiredNames) @
     map UnexpectedEntry (filter (\<lambda>v. v \<notin> JStr ` set requiredNames) (first_values [] names))"

definition object_keys :: "json \<Rightarrow> jsstr list" where
  "object_keys v = map fst (spread_entries v)"

definition threshold_errors :: "json \<Rightarrow> contract_error list" where
  "threshold_errors thresholds =
     (if jget (js ''text'') thresholds \<noteq> JNum (Fin (9 / 2)) \<or> jget (js ''nonText'') thresholds \<noteq> JNum (Fin 3) then [WrongThresholds] else []) @
     (if jget (js ''decorative'') thresholds \<noteq> JNull \<or> jget (js ''none'') thresholds \<noteq> JNull then [WrongNullThresholds] else [])"

definition rule_errors :: "json \<Rightarrow> contract_error list" where
  "rule_errors rules =
     (if sort_by text_order (object_keys rules) \<noteq> sort_by text_order (map fst expectedContractRules) then [WrongRuleNames] else []) @
     map (WrongRule \<circ> fst) (filter (\<lambda>(r, expected). jget r rules \<noteq> JBool expected) expectedContractRules)"

definition verifyContract :: "json \<Rightarrow> (check_throw, contract_error list) result" where
  "verifyContract contract =
     bind_result (require (contract \<noteq> JNull) NullProperty) (\<lambda>_.
     let head = (if jget (js ''schemaVersion'') contract \<noteq> JNum (Fin 1) then [ContractSchema] else []) @
       (if \<not> truthy_json (jget (js ''provenance'') contract) \<or> \<not> truthy_json (jget (js ''modified'') contract) then [ContractMetadata] else [])
     in case jget (js ''entries'') contract of
        JArr entries \<Rightarrow>
          bind_result (require (JNull \<notin> set entries) NullProperty) (\<lambda>_.
          let names = map (jget (js ''name'')) entries in
          bind_result (concat_results (map (check_entry names) entries)) (\<lambda>own.
          Inr (head @ name_errors names @ own @ threshold_errors (jget (js ''contrastThresholds'') contract)
               @ rule_errors (jget (js ''rules'') contract))))
      | _ \<Rightarrow> Inr (head @ [EntriesNotArray]))"

end
