(* ===== verification/Design_Check.thy ===== *)
theory Design_Check
  imports Design_Contract
begin

text \<open>
  The rest of the check of the design-system package, \<open>design-system/tools/check.mjs\<close>: colours and their contrast,
  the themes, the mapping for Tailwind, provenance, generated outputs and links. The power function of the language, whose
  result an implementation may approximate, is the argument \<open>pow\<close>. Contracts come as the records that
  \<open>contract_entries\<close> reads from the JSON; it reads every contract that \<open>verifyContract\<close> accepts.
\<close>

section \<open>Colours\<close>

record color =
  col_r :: number
  col_g :: number
  col_b :: number
  col_a :: number

definition ascii_lower :: "code_unit \<Rightarrow> code_unit" where
  "ascii_lower c = (if is_upper c then c + 32 else c)"

definition hex_channel :: "code_unit \<Rightarrow> code_unit \<Rightarrow> number option" where
  "hex_channel a b =
     (case (hex_val a, hex_val b) of
        (Some x, Some y) \<Rightarrow> Some (num_div (Fin (of_int (16 * x + y))) (Fin 255))
      | _ \<Rightarrow> None)"

text \<open>\<open>/^#([0-9a-f]{6})$/i\<close>.\<close>

definition hex_color :: "jsstr \<Rightarrow> color option" where
  "hex_color s =
     (case s of
        [h, a, b, c, d, e, f] \<Rightarrow>
          if h = 35 then
            (case (hex_channel a b, hex_channel c d, hex_channel e f) of
               (Some r, Some g, Some bl) \<Rightarrow> Some \<lparr>col_r = r, col_g = g, col_b = bl, col_a = Fin 1\<rparr>
             | _ \<Rightarrow> None)
          else None
      | _ \<Rightarrow> None)"

text \<open>\<open>/^rgba?\(\s*([\d.]+)\s*,\s*([\d.]+)\s*,\s*([\d.]+)(?:\s*,\s*([\d.]+))?\s*\)$/i\<close>: three or four parts between commas, each made of
  digits and points with blanks around them.\<close>

definition rgba_parts :: "jsstr \<Rightarrow> jsstr list option" where
  "rgba_parts s =
     (let k = (if startsWith (map ascii_lower s) (js ''rgba('') then 5 else 4);
          parts = map trim (split_on 44 (butlast (drop k s)))
      in if (startsWith (map ascii_lower s) (js ''rgba('') \<or> startsWith (map ascii_lower s) (js ''rgb(''))
            \<and> drop k s \<noteq> [] \<and> last s = 41 \<and> length parts \<in> {3, 4}
            \<and> list_all (\<lambda>p. p \<noteq> [] \<and> list_all (\<lambda>c. is_digit c \<or> c = 46) p) parts
         then Some parts else None)"

definition parseColorValue :: "jsstr \<Rightarrow> (value_error, color) result" where
  "parseColorValue v =
     (case hex_color v of
        Some c \<Rightarrow> Inr c
      | None \<Rightarrow>
          (case rgba_parts v of
             None \<Rightarrow> Inl (UnsupportedColor v)
           | Some ps \<Rightarrow>
               let channel = (\<lambda>i. num_div (Number_of (ps ! i)) (Fin 255))
               in Inr \<lparr>col_r = channel 0, col_g = channel 1, col_b = channel 2,
                       col_a = (if length ps = 4 then Number_of (ps ! 3) else Fin 1)\<rparr>))"

definition parseResolvedColor :: "jsstr \<Rightarrow> css_tokens \<Rightarrow> (value_error, color) result" where
  "parseResolvedColor name ts = bind_result (resolveValue name ts []) parseColorValue"

text \<open>The comparisons of Numbers; none holds of \<open>NaN\<close>.\<close>

fun num_less :: "number \<Rightarrow> number \<Rightarrow> bool" where
  "num_less (Fin a) (Fin b) = (a < b)"
| "num_less (Fin a) (Infinity s) = s"
| "num_less (Infinity s) (Fin b) = (\<not> s)"
| "num_less (Infinity s) (Infinity t) = (\<not> s \<and> t)"
| "num_less _ _ = False"

definition num_le :: "number \<Rightarrow> number \<Rightarrow> bool" where
  "num_le x y \<longleftrightarrow> num_less x y \<or> x = y \<and> x \<noteq> NaN"

definition math_max :: "number \<Rightarrow> number \<Rightarrow> number" where
  "math_max x y = (if x = NaN \<or> y = NaN then NaN else if num_less x y then y else x)"

definition math_min :: "number \<Rightarrow> number \<Rightarrow> number" where
  "math_min x y = (if x = NaN \<or> y = NaN then NaN else if num_less y x then y else x)"

type_synonym power = "number \<Rightarrow> number \<Rightarrow> number"

definition literal :: "string \<Rightarrow> number" where
  "literal s = Number_of (js s)"

definition linearChannel :: "power \<Rightarrow> number \<Rightarrow> number" where
  "linearChannel pow channel =
     (if num_le channel (literal ''0.04045'') then num_div channel (literal ''12.92'')
      else pow (num_div (num_plus channel (literal ''0.055'')) (literal ''1.055'')) (literal ''2.4''))"

definition luminance :: "power \<Rightarrow> color \<Rightarrow> number" where
  "luminance pow c =
     num_plus (num_plus (num_mult (literal ''0.2126'') (linearChannel pow (col_r c)))
                        (num_mult (literal ''0.7152'') (linearChannel pow (col_g c))))
              (num_mult (literal ''0.0722'') (linearChannel pow (col_b c)))"

definition contrastRatio :: "power \<Rightarrow> color \<Rightarrow> color \<Rightarrow> (value_error, number) result" where
  "contrastRatio pow foreground background =
     (if col_a foreground \<noteq> Fin 1 \<or> col_a background \<noteq> Fin 1 then Inl NotOpaqueColors
      else let f = luminance pow foreground; b = luminance pow background
           in Inr (num_div (num_plus (math_max f b) (literal ''0.05'')) (num_plus (math_min f b) (literal ''0.05''))))"

section \<open>Themes\<close>

record contract_entry =
  ce_name :: jsstr
  ce_type :: jsstr
  ce_class :: jsstr
  ce_allowedOn :: "jsstr list"
  ce_opaque :: bool

definition contract_entry_of :: "json \<Rightarrow> contract_entry option" where
  "contract_entry_of entry =
     (case (jget (js ''name'') entry, jget (js ''type'') entry, jget (js ''contrastClass'') entry, jget (js ''allowedOn'') entry) of
        (JStr n, JStr t, JStr c, JArr vs) \<Rightarrow>
          map_option (\<lambda>ns. \<lparr>ce_name = n, ce_type = t, ce_class = c, ce_allowedOn = ns,
            ce_opaque = truthy_json (jget (js ''opaque'') entry)\<rparr>) (string_values vs)
      | _ \<Rightarrow> None)"

definition contract_entries :: "json \<Rightarrow> contract_entry list option" where
  "contract_entries contract =
     (case jget (js ''entries'') contract of JArr vs \<Rightarrow> those (map contract_entry_of vs) | _ \<Rightarrow> None)"

text \<open>\<open>contract.contrastThresholds[entry.contrastClass]\<close>, where null and undefined are no threshold.\<close>

definition contract_threshold :: "json \<Rightarrow> jsstr \<Rightarrow> number option" where
  "contract_threshold contract cls =
     (case jget cls (jget (js ''contrastThresholds'') contract) of JNum n \<Rightarrow> Some n | _ \<Rightarrow> None)"

datatype theme_error =
    SelectorNotOnce jsstr | DuplicateDeclarations jsstr "jsstr list" | OutsideSelector jsstr | NotDeclared jsstr jsstr
  | DanglingAlias jsstr jsstr jsstr | DisabledTooStrong jsstr | BorderNotAlias jsstr jsstr | NotOpaqueToken jsstr jsstr
  | ColorUnusable jsstr jsstr value_error | LowContrast jsstr jsstr jsstr | ContrastUnknown jsstr jsstr jsstr value_error

record check_state =
  cs_errors :: "theme_error list"
  contrastChecks :: nat
  minimumContrast :: "number \<times> jsstr \<times> jsstr \<times> jsstr"

definition initial_check :: check_state where
  "initial_check = \<lparr>cs_errors = [], contrastChecks = 0, minimumContrast = (Infinity True, [], [], [])\<rparr>"

definition fail_with :: "theme_error list \<Rightarrow> check_state \<Rightarrow> check_state" where
  "fail_with es st = st\<lparr>cs_errors := cs_errors st @ es\<rparr>"

definition theme_selector :: "jsstr \<Rightarrow> piece list" where
  "theme_selector tid =
     (let attribute = js '':root[data-theme='' @ [34] @ tid @ [34] @ js '']'' in
      if tid = js ''cherry-black'' then [Lit (js '':root''), Blanks, Lit (js '',''), Blanks, Lit attribute, Blanks]
      else [Lit attribute, Blanks])"

definition extractThemeSelectorBlock :: "jsstr \<Rightarrow> jsstr \<Rightarrow> check_state \<Rightarrow> jsstr \<times> check_state" where
  "extractThemeSelectorBlock tid css st =
     (case blocks (theme_selector tid) css of [b] \<Rightarrow> (b, st) | _ \<Rightarrow> ([], fail_with [SelectorNotOnce tid] st))"

definition declaration_errors :: "jsstr \<Rightarrow> jsstr \<Rightarrow> css_tokens \<Rightarrow> theme_error list" where
  "declaration_errors tid css ts =
     (let allTokens = parseCustomProperties css in
      (if duplicateCustomProperties css \<noteq> [] then [DuplicateDeclarations tid (duplicateCustomProperties css)] else []) @
      (if list_ex (\<lambda>(n, v). map_of ts n \<noteq> Some v) allTokens \<or> length allTokens \<noteq> length ts then [OutsideSelector tid] else []) @
      map (NotDeclared tid) (filter (\<lambda>n. map_of ts n = None) requiredNames) @
      concat (map (\<lambda>n. case map_of ts n of
          None \<Rightarrow> []
        | Some v \<Rightarrow> map (DanglingAlias tid n) (filter (\<lambda>a. map_of ts a = None) (alias_references v))) requiredNames))"

text \<open>The ladder of the weak foregrounds. What is thrown here is not caught.\<close>

definition ladder_errors :: "power \<Rightarrow> jsstr \<Rightarrow> css_tokens \<Rightarrow> (value_error, theme_error list) result" where
  "ladder_errors pow tid ts =
     (if list_ex (\<lambda>n. map_of ts n = None) (map js [''--ds-fg-disabled'', ''--ds-fg-meta'', ''--ds-canvas'']) then Inr []
      else bind_result (parseResolvedColor (js ''--ds-fg-disabled'') ts) (\<lambda>disabled.
           bind_result (parseResolvedColor (js ''--ds-fg-meta'') ts) (\<lambda>meta.
           bind_result (parseResolvedColor (js ''--ds-canvas'') ts) (\<lambda>canvas.
           bind_result (contrastRatio pow disabled canvas) (\<lambda>disabledRatio.
           bind_result (contrastRatio pow meta canvas) (\<lambda>metaRatio.
           Inr (if num_le metaRatio disabledRatio then [DisabledTooStrong tid] else [])))))))"

definition border_errors :: "jsstr \<Rightarrow> css_tokens \<Rightarrow> theme_error list" where
  "border_errors tid ts =
     map (BorderNotAlias tid) (filter (\<lambda>s. map_of ts (status_name s (js ''border''))
       \<noteq> Some (js ''var('' @ status_name s (js ''foreground'') @ js '')'')) statuses)"

definition color_errors :: "jsstr \<Rightarrow> css_tokens \<Rightarrow> contract_entry \<Rightarrow> theme_error list" where
  "color_errors tid ts e =
     (if map_of ts (ce_name e) = None \<or> ce_type e \<noteq> js ''color'' then []
      else case parseResolvedColor (ce_name e) ts of
          Inl x \<Rightarrow> [ColorUnusable tid (ce_name e) x]
        | Inr c \<Rightarrow> if ce_opaque e \<and> col_a c \<noteq> Fin 1 then [NotOpaqueToken tid (ce_name e)] else [])"

definition pair_ratio :: "power \<Rightarrow> css_tokens \<Rightarrow> jsstr \<Rightarrow> jsstr \<Rightarrow> (value_error, number) result" where
  "pair_ratio pow ts name background =
     bind_result (parseResolvedColor name ts) (\<lambda>f.
     bind_result (parseResolvedColor background ts) (\<lambda>b. contrastRatio pow f b))"

definition contrast_check :: "power \<Rightarrow> jsstr \<Rightarrow> css_tokens \<Rightarrow> number \<Rightarrow> jsstr \<Rightarrow> jsstr \<Rightarrow> check_state \<Rightarrow> check_state" where
  "contrast_check pow tid ts threshold name background st =
     (case pair_ratio pow ts name background of
        Inl x \<Rightarrow> fail_with [ContrastUnknown tid name background x] st
      | Inr ratio \<Rightarrow>
          let st1 = st\<lparr>contrastChecks := contrastChecks st + 1\<rparr>;
              st2 = (if num_less ratio (fst (minimumContrast st1)) then st1\<lparr>minimumContrast := (ratio, tid, name, background)\<rparr> else st1)
          in if num_less ratio threshold then fail_with [LowContrast tid name background] st2 else st2)"

definition entry_contrasts :: "power \<Rightarrow> jsstr \<Rightarrow> css_tokens \<Rightarrow> (jsstr \<Rightarrow> number option) \<Rightarrow> contract_entry \<Rightarrow> check_state \<Rightarrow> check_state" where
  "entry_contrasts pow tid ts thresholds e st =
     (case thresholds (ce_class e) of
        None \<Rightarrow> st
      | Some threshold \<Rightarrow> fold (contrast_check pow tid ts threshold (ce_name e)) (ce_allowedOn e) st)"

definition verifyTheme ::
    "power \<Rightarrow> jsstr \<Rightarrow> contract_entry list \<Rightarrow> (jsstr \<Rightarrow> number option) \<Rightarrow> jsstr \<Rightarrow> jsstr \<Rightarrow> check_state
     \<Rightarrow> (check_throw, css_tokens \<times> check_state) result" where
  "verifyTheme pow tid entries thresholds css selectorBlock st =
     (let ts = parseCustomProperties selectorBlock;
          st1 = fail_with (declaration_errors tid css ts) st
      in case ladder_errors pow tid ts of
           Inl x \<Rightarrow> Inl (UncaughtValue x)
         | Inr ladder \<Rightarrow>
             let st2 = fail_with (ladder @ border_errors tid ts @ concat (map (color_errors tid ts) entries)) st1
             in Inr (ts, fold (entry_contrasts pow tid ts thresholds) entries st2))"

section \<open>Adapter, provenance, outputs and links\<close>

datatype package_error =
    AdapterKnowsThemes | NoDarkVariant | AdapterAlias jsstr | UtilityAlias jsstr | UtilityFixed jsstr
  | ProvenanceSource jsstr | ProvenanceOfficial jsstr | ProvenanceField jsstr jsstr | ProvenanceLicense jsstr
  | ProvenanceLicenseFile jsstr | StaleOutput jsstr

definition adapterAliases :: "(jsstr \<times> jsstr) list" where
  "adapterAliases = map (\<lambda>(a, c). (js a, js c))
     [(''--background'', ''--ds-canvas''), (''--foreground'', ''--ds-fg''), (''--surface'', ''--ds-surface''),
      (''--surface-subtle'', ''--ds-surface-subtle''), (''--surface-raised'', ''--ds-surface-raised''), (''--card'', ''--ds-surface-raised''),
      (''--card-foreground'', ''--ds-fg''), (''--popover'', ''--ds-surface-raised''), (''--popover-foreground'', ''--ds-fg''),
      (''--secondary'', ''--ds-surface-subtle''), (''--secondary-foreground'', ''--ds-fg''), (''--muted'', ''--ds-surface-subtle''),
      (''--muted-foreground'', ''--ds-fg-muted''), (''--accent'', ''--ds-surface-hover''), (''--accent-foreground'', ''--ds-fg''),
      (''--primary'', ''--ds-brand-surface''), (''--primary-foreground'', ''--ds-on-brand''), (''--brand'', ''--ds-brand-foreground''),
      (''--brand-soft'', ''--ds-brand-soft''), (''--border'', ''--ds-border''), (''--border-strong'', ''--ds-border-strong''),
      (''--input'', ''--ds-border-strong''), (''--input-background'', ''--ds-surface-subtle''), (''--ring'', ''--ds-focus''),
      (''--destructive'', ''--ds-danger-solid''), (''--destructive-foreground'', ''--ds-danger-on-solid''), (''--sidebar'', ''--ds-panel''),
      (''--sidebar-foreground'', ''--ds-fg''), (''--sidebar-primary'', ''--ds-brand-surface''),
      (''--sidebar-primary-foreground'', ''--ds-on-brand''), (''--sidebar-accent'', ''--ds-surface-hover''),
      (''--sidebar-accent-foreground'', ''--ds-fg''), (''--sidebar-border'', ''--ds-border''), (''--sidebar-ring'', ''--ds-focus''),
      (''--chart-1'', ''--ds-brand-foreground''), (''--chart-2'', ''--ds-success-foreground''), (''--chart-3'', ''--ds-info-foreground''),
      (''--chart-4'', ''--ds-warning-foreground''), (''--chart-5'', ''--ds-special-foreground''), (''--radius'', ''--ds-radius-md''),
      (''--font-sans'', ''--ds-font-body''), (''--font-display'', ''--ds-font-display''), (''--font-mono'', ''--ds-font-mono'')] @
     concat (map (\<lambda>s. [(js ''--'' @ s, status_name s (js ''foreground'')), (js ''--'' @ s @ js ''-soft'', status_name s (js ''surface'')),
       (js ''--'' @ s @ js ''-solid'', status_name s (js ''solid'')), (js ''--'' @ s @ js ''-on-solid'', status_name s (js ''on-solid''))]) statuses)"

definition var_of :: "jsstr \<Rightarrow> jsstr" where
  "var_of name = js ''var('' @ name @ js '')''"

definition fixed_utilities :: "(jsstr \<times> jsstr) list" where
  "fixed_utilities = map (\<lambda>(a, c). (js a, js c))
     [(''--radius-sm'', ''--ds-radius-sm''), (''--radius-md'', ''--ds-radius-md''), (''--radius-lg'', ''--ds-radius-lg''),
      (''--radius-full'', ''--ds-radius-pill''), (''--font-sans'', ''--ds-font-body''), (''--font-display'', ''--ds-font-display''),
      (''--font-mono'', ''--ds-font-mono'')]"

definition dark_variant :: jsstr where
  "dark_variant = js ''@custom-variant dark (&:where([data-color-scheme='' @ [34] @ js ''dark'' @ [34] @ js ''], [data-color-scheme=''
     @ [34] @ js ''dark'' @ [34] @ js ''] *));''"

text \<open>\<open>/@theme\s+inline\s*\{([\s\S]*?)\}/\<close>: at least one blank, which is the first character after the word.\<close>

fun theme_block :: "jsstr \<Rightarrow> jsstr" where
  "theme_block [] = []"
| "theme_block (c # s) =
     (let r = drop 6 (c # s) in
      case (if startsWith (c # s) (js ''@theme'') \<and> r \<noteq> [] \<and> is_ws (hd r) then block_at [Blanks, Lit (js ''inline''), Blanks] r else None) of
        Some (b, _) \<Rightarrow> b
      | None \<Rightarrow> theme_block s)"

definition verifyAdapter :: "jsstr \<Rightarrow> package_error list" where
  "verifyAdapter css =
     (let rootAliases = parseCustomProperties (case first_block root_selector css of Some b \<Rightarrow> b | None \<Rightarrow> []);
          utilityAliases = parseCustomProperties (theme_block css) in
      (if list_ex (includes_str css) (map js [''data-theme'', ''cherry-black'', ''pure-white'']) then [AdapterKnowsThemes] else []) @
      (if includes_str css dark_variant then [] else [NoDarkVariant]) @
      map (AdapterAlias \<circ> fst) (filter (\<lambda>(a, c). map_of rootAliases a \<noteq> Some (var_of c)) adapterAliases) @
      map UtilityAlias (filter (\<lambda>a. map_of utilityAliases (js ''--color-'' @ drop 2 a) \<noteq> Some (var_of a))
        (filter (\<lambda>a. a \<notin> set (map js [''--radius'', ''--font-sans'', ''--font-display'', ''--font-mono''])) (map fst adapterAliases))) @
      map (UtilityFixed \<circ> fst) (filter (\<lambda>(u, c). map_of utilityAliases u \<noteq> Some (var_of c)) fixed_utilities))"

definition fixedSourceProvenance :: "(jsstr \<times> json) list" where
  "fixedSourceProvenance =
     [(js ''designSource'', JStr (js ''Claude Design export: Cherry OJ Design System'')),
      (js ''designSourceRootSha256'', JStr (js ''68d93dd52ee2c7e9da3b058156ead5e2a789f82f56a2ead28beb9a3f676f9e7d'')),
      (js ''designSourceFileCount'', JNum (Fin 99)),
      (js ''sourceTokensSha256'', JStr (js ''9f99cf1b4b799f1871b742542a56fc9dd8c9a179fc452c1e56e7b6e2cdfd022e'')),
      (js ''sourceDesignSha256'', JStr (js ''4c7264d8bc0e26de761c550e9f0445b0e7d92078c1a288f3fdb604b4f6df8fb7'')),
      (js ''sourceLicenseSha256'', JStr (js ''9d95806a26532623360eb84bb17d298f394b55ef73fb4c0796d99b4319b2b0da''))]"

definition verifyFixedProvenance :: "jsstr \<Rightarrow> json \<Rightarrow> package_error list" where
  "verifyFixedProvenance label provenance =
     (if jget (js ''source'') provenance \<noteq> JStr (js ''OpenDesign curated bundled fixture: design-systems/linear-app'')
      then [ProvenanceSource label] else []) @
     (if jget (js ''officialLinearSource'') provenance \<noteq> JBool False then [ProvenanceOfficial label] else []) @
     map (ProvenanceField label \<circ> fst) (filter (\<lambda>(k, v). jget k provenance \<noteq> v) fixedSourceProvenance) @
     (if jget (js ''license'') provenance \<noteq> JStr (js ''Apache-2.0'') then [ProvenanceLicense label] else []) @
     (if jget (js ''licenseFile'') provenance \<noteq> JStr (js ''LICENSE.open-design'') then [ProvenanceLicenseFile label] else [])"

text \<open>The outputs in place against those generated now; one that is not there counts as empty.\<close>

fun output_errors :: "files \<Rightarrow> jsstr \<Rightarrow> jsstr \<Rightarrow> (jsstr \<times> jsstr) list \<Rightarrow> (check_throw, package_error list) result" where
  "output_errors F dir rootReal [] = Inr []"
| "output_errors F dir rootReal ((p, content) # others) =
     bind_result (case readText F dir rootReal p of
         Inr t \<Rightarrow> Inr t
       | Inl e \<Rightarrow> if e = BuildFs ENOENT then Inr [] else Inl (UncaughtBuild e)) (\<lambda>actual.
     bind_result (output_errors F dir rootReal others) (\<lambda>es. Inr (if actual \<noteq> content then StaleOutput p # es else es)))"

definition verifyGeneratedOutputs :: "files \<Rightarrow> jsstr \<Rightarrow> jsstr \<Rightarrow> (check_throw, package_error list) result" where
  "verifyGeneratedOutputs F dir rootReal =
     (case generateOutputs F dir rootReal of
        Inl e \<Rightarrow> Inl (UncaughtBuild e)
      | Inr expected \<Rightarrow> output_errors F dir rootReal expected)"

text \<open>Both walks take the entries in the order the directory gives them; \<open>at\<close> is the path from the package.\<close>

definition below :: "jsstr \<Rightarrow> jsstr \<Rightarrow> jsstr" where
  "below dir name = (if dir = [] then name else path_join dir name)"

fun verifyNoSymlinks :: "jsstr \<Rightarrow> tree \<Rightarrow> (check_throw, jsstr list) result" where
  "verifyNoSymlinks dir (TreeDir entries) =
     concat_results (map (\<lambda>(name, t). case t of
         TreeLink \<Rightarrow> Inl (LinkInPackage (below dir name))
       | TreeDir _ \<Rightarrow> verifyNoSymlinks (below dir name) t
       | _ \<Rightarrow> Inr []) entries)"
| "verifyNoSymlinks dir TreeLink = Inl (LinkInPackage (if dir = [] then js ''.'' else dir))"
| "verifyNoSymlinks dir _ = Inl (CheckFs OtherFailure)"

fun listFiles :: "jsstr \<Rightarrow> tree \<Rightarrow> (check_throw, jsstr list) result" where
  "listFiles dir (TreeDir entries) =
     concat_results (map (\<lambda>(name, t). case t of
         TreeLink \<Rightarrow> Inl (LinkInPackage (below dir name))
       | TreeDir _ \<Rightarrow> listFiles (below dir name) t
       | TreeFile \<Rightarrow> Inr [below dir name]
       | TreeOther \<Rightarrow> Inr []) entries)"
| "listFiles dir _ = Inl (CheckFs OtherFailure)"

definition check_fs :: "(fs_error, 'a) result \<Rightarrow> (check_throw, 'a) result" where
  "check_fs r = (case r of Inl e \<Rightarrow> Inl (CheckFs e) | Inr x \<Rightarrow> Inr x)"

definition readDistributionFile :: "files \<Rightarrow> jsstr \<Rightarrow> jsstr \<Rightarrow> (check_throw, jsstr) result" where
  "readDistributionFile F legalDir fileName =
     bind_result (check_fs (lstat F legalDir)) (\<lambda>legalKind.
     bind_result (require (legalKind \<noteq> SymbolicLink) LegalIsLink) (\<lambda>_.
     bind_result (check_fs (realpath F legalDir)) (\<lambda>legalReal.
     bind_result (check_fs (lstat F (resolve_path legalDir fileName))) (\<lambda>kind.
     bind_result (require (kind \<noteq> SymbolicLink) (LegalFileIsLink fileName)) (\<lambda>_.
     bind_result (check_fs (realpath F (resolve_path legalDir fileName))) (\<lambda>fileReal.
     bind_result (require (isInsideRoot (relative_path legalReal fileReal)) (LegalFileOutside fileName)) (\<lambda>_.
     check_fs (readFile F fileReal))))))))"

end
