(* ===== verification/Design_Package.thy ===== *)
theory Design_Package
  imports Design_Check
begin

text \<open>
  \<open>verifyPackage\<close> and the sequence of all checks, \<open>run\<close>, of \<open>design-system/tools/check.mjs\<close>. \<open>F\<close> answers for paths and \<open>package\<close> is the
  tree of the package; \<open>digest\<close> gives the SHA-256 of the bytes that reading a path yields. A value of the manifests that is used as a
  text counts as \<open>json_string\<close> of it. The result of \<open>check_run\<close> are the errors that are printed, none for a
  successful check, or the exception that ends it.
\<close>

section \<open>The package manifest\<close>

datatype file_fault = LocalPath | NoNotice | NoMetadata | InvalidJson

datatype manifest_error =
    PackageMetadata | PackageSchema | PackageName | PackageVersion | FilesNotArray | DuplicateStatic | StaticFilesChanged | EmptyPath
  | NoFileRole json | MarkedGenerated json | EntrypointsChanged | ManagedFilesChanged | ManagedNotUnique | ManagedOutside json
  | ManagedStatic json | NotRegistered jsstr | RegisteredMissing json | CannotRead json build_error | FileFault file_fault jsstr
  | LicenseChanged jsstr | NoticeLacks jsstr | FontsLack jsstr | LegalDiffers jsstr

definition expectedPackageFiles :: "jsstr list" where
  "expectedPackageFiles = map js [''manifest.json'', ''README.md'', ''LICENSE.open-design'', ''LICENSE.fonts'', ''NOTICE.md'',
     ''tokens.foundation.css'', ''theme-contract.json'', ''themes.manifest.json'', ''tokens.css'', ''design-tokens.json'', ''tailwind-v4.css'',
     ''tools/build.mjs'', ''tools/check.mjs'']"

definition expectedEntrypoints :: json where
  "expectedEntrypoints = JObj (map (\<lambda>(k, v). (js k, JStr (js v)))
     [(''documentation'', ''README.md''), (''tokens'', ''tokens.css''), (''valueAnchor'', ''design-tokens.json''), (''tailwind'', ''tailwind-v4.css''),
      (''themeContract'', ''theme-contract.json''), (''themeManifest'', ''themes.manifest.json'')])"

definition expectedManagedFiles :: json where
  "expectedManagedFiles = JArr [JObj (map (\<lambda>(k, v). (js k, JStr (js v)))
     [(''registry'', ''themes.manifest.json''), (''selector'', ''themes[].file''), (''role'', ''complete registered theme sources'')])]"

text \<open>What is given for a list of records when one of them, or the list, is nothing.\<close>

definition records :: "json \<Rightarrow> (check_throw, json list) result" where
  "records v = (case v of JArr vs \<Rightarrow> if JNull \<in> set vs then Inl NullProperty else Inr vs | _ \<Rightarrow> Inl NullProperty)"

definition package_head :: "json \<Rightarrow> manifest_error list" where
  "package_head pkg =
     (if \<not> truthy_json (jget (js ''provenance'') pkg) \<or> \<not> truthy_json (jget (js ''modified'') pkg) then [PackageMetadata] else []) @
     (if jget (js ''schemaVersion'') pkg \<noteq> JNum (Fin 1) then [PackageSchema] else []) @
     (if jget (js ''name'') pkg \<noteq> JStr (js ''cherry-oj-web-design-system'') then [PackageName] else []) @
     (if jget (js ''version'') pkg \<noteq> JStr (js ''2.0.0'') then [PackageVersion] else [])"

definition nonempty_string :: "json \<Rightarrow> bool" where
  "nonempty_string v = (case v of JStr s \<Rightarrow> s \<noteq> [] | _ \<Rightarrow> False)"

definition file_record_errors :: "json \<Rightarrow> manifest_error list" where
  "file_record_errors file =
     (let p = jget (js ''path'') file in
      (if \<not> nonempty_string p then [EmptyPath] else []) @
      (if \<not> nonempty_string (jget (js ''role'') file) then [NoFileRole p] else []) @
      (if jget (js ''generated'') file = JBool True \<and> p \<notin> {JStr (js ''tokens.css''), JStr (js ''design-tokens.json'')} then [MarkedGenerated p] else []))"

definition static_errors :: "json list \<Rightarrow> json list \<Rightarrow> manifest_error list" where
  "static_errors files staticPaths =
     (if later_values [] staticPaths \<noteq> [] then [DuplicateStatic] else []) @
     (if staticPaths \<noteq> map JStr expectedPackageFiles then [StaticFilesChanged] else []) @
     concat (map file_record_errors files)"

text \<open>\<open>/^themes\/[a-z0-9-]+\.css$/\<close>.\<close>

definition managed_path :: "jsstr \<Rightarrow> bool" where
  "managed_path s \<longleftrightarrow>
     (let n = drop 7 (take (length s - 4) s)
      in startsWith s (js ''themes/'') \<and> drop (length s - 4) s = js ''.css'' \<and> n \<noteq> [] \<and> list_all (\<lambda>c. is_lower c \<or> is_digit c \<or> c = 45) n)"

definition managed_errors :: "json list \<Rightarrow> json list \<Rightarrow> manifest_error list" where
  "managed_errors staticPaths managedPaths =
     (if later_values [] managedPaths \<noteq> [] then [ManagedNotUnique] else []) @
     concat (map (\<lambda>p. (if \<not> managed_path (json_string p) then [ManagedOutside p] else []) @
        (if list_ex (same_value p) staticPaths then [ManagedStatic p] else [])) managedPaths)"

text \<open>The files there are against those registered; \<open>sort\<close> compares texts and puts undefined last.\<close>

definition sorted_paths :: "json list \<Rightarrow> json list" where
  "sorted_paths ps =
     sort_by (\<lambda>a b. text_order (json_string a) (json_string b)) (filter (\<lambda>p. p \<noteq> JUndef) ps) @ filter (\<lambda>p. p = JUndef) ps"

definition registration_errors :: "jsstr list \<Rightarrow> json list \<Rightarrow> manifest_error list" where
  "registration_errors actual paths =
     map NotRegistered (filter (\<lambda>p. \<not> list_ex (same_value (JStr p)) paths) (sort_by text_order actual)) @
     map RegisteredMissing (filter (\<lambda>p. \<not> list_ex (\<lambda>a. same_value p (JStr a)) actual) (sorted_paths paths))"

definition path_extension :: "jsstr \<Rightarrow> jsstr" where
  "path_extension p = (case rev (filter (\<lambda>s. s \<noteq> []) (split_on 47 p)) of [] \<Rightarrow> [] | name # _ \<Rightarrow> extname name)"

definition file_faults :: "jsstr \<Rightarrow> jsstr \<Rightarrow> file_fault list" where
  "file_faults p content =
     (if includes_str content (js ''/Users/charon/Downloads'') \<or> includes_str content (js ''~/Downloads'') then [LocalPath] else []) @
     (if p \<in> {js ''LICENSE.open-design'', js ''LICENSE.fonts''} then []
      else (if path_extension p \<in> set (map js [''.css'', ''.html'', ''.md'', ''.mjs'']) \<and> \<not> includes_str content (js ''Modified for Cherry OJ'')
            then [NoNotice] else []) @
           (if path_extension p \<noteq> js ''.json'' then []
            else case JSON_parse content of
                None \<Rightarrow> [InvalidJson]
              | Some v \<Rightarrow>
                  if v = JNull then [InvalidJson]
                  else if \<not> truthy_json (jget (js ''provenance'') v) \<or> \<not> truthy_json (jget (js ''modified'') v) then [NoMetadata] else []))"

definition read_path :: "files \<Rightarrow> jsstr \<Rightarrow> jsstr \<Rightarrow> json \<Rightarrow> (build_error, jsstr) result" where
  "read_path F dir rootReal p = (case p of JStr t \<Rightarrow> readText F dir rootReal t | _ \<Rightarrow> Inl (InputPath NotRelative (json_string p)))"

definition registered_file_errors :: "files \<Rightarrow> jsstr \<Rightarrow> jsstr \<Rightarrow> json \<Rightarrow> manifest_error list" where
  "registered_file_errors F dir rootReal p =
     (case read_path F dir rootReal p of
        Inl e \<Rightarrow> [CannotRead p e]
      | Inr content \<Rightarrow> map (\<lambda>f. FileFault f (json_string p)) (file_faults (json_string p) content))"

definition uncaught :: "(build_error, 'a) result \<Rightarrow> (check_throw, 'a) result" where
  "uncaught r = (case r of Inl e \<Rightarrow> Inl (UncaughtBuild e) | Inr x \<Rightarrow> Inr x)"

definition licenseHash :: jsstr where
  "licenseHash = js ''9d95806a26532623360eb84bb17d298f394b55ef73fb4c0796d99b4319b2b0da''"

definition noticeTexts :: "jsstr list" where
  "noticeTexts = map js [''OpenDesign repository'', ''not official Linear source code''] @
     map (\<lambda>k. case map_of fixedSourceProvenance (js k) of Some v \<Rightarrow> json_string v | None \<Rightarrow> [])
       [''sourceTokensSha256'', ''sourceDesignSha256'', ''sourceLicenseSha256''] @
     [js ''Moved the executable frontend assets into this Web-owned package'']"

definition fontTexts :: "jsstr list" where
  "fontTexts = map js [''Copyright 2016 The Inter Project Authors'', ''Copyright 2020 The JetBrains Mono Project Authors'',
     ''SIL OPEN FONT LICENSE Version 1.1'']"

definition license_errors :: "(jsstr \<Rightarrow> jsstr) \<Rightarrow> files \<Rightarrow> jsstr \<Rightarrow> jsstr \<Rightarrow> jsstr \<Rightarrow> (check_throw, manifest_error list) result" where
  "license_errors digest F dir rootReal legalDir =
     bind_result (uncaught (resolveInputPath F dir rootReal (js ''LICENSE.open-design''))) (\<lambda>q.
     bind_result (check_fs (readFile F q)) (\<lambda>license.
     bind_result (uncaught (readText F dir rootReal (js ''NOTICE.md''))) (\<lambda>notice.
     bind_result (uncaught (readText F dir rootReal (js ''LICENSE.fonts''))) (\<lambda>fontLicense.
     bind_result (readDistributionFile F legalDir (js ''LICENSE.open-design'')) (\<lambda>distributedLicense.
     bind_result (readDistributionFile F legalDir (js ''LICENSE.fonts'')) (\<lambda>distributedFontLicense.
     bind_result (readDistributionFile F legalDir (js ''NOTICE.md'')) (\<lambda>distributedNotice.
     Inr ((if digest q \<noteq> licenseHash then [LicenseChanged (digest q)] else []) @
          map NoticeLacks (filter (\<lambda>t. \<not> includes_str notice t) noticeTexts) @
          map FontsLack (filter (\<lambda>t. \<not> includes_str fontLicense t) fontTexts) @
          (if distributedLicense \<noteq> license then [LegalDiffers (js ''LICENSE.open-design'')] else []) @
          (if distributedNotice \<noteq> notice then [LegalDiffers (js ''NOTICE.md'')] else []) @
          (if distributedFontLicense \<noteq> fontLicense then [LegalDiffers (js ''LICENSE.fonts'')] else [])))))))))"

definition verifyPackage ::
    "(jsstr \<Rightarrow> jsstr) \<Rightarrow> files \<Rightarrow> jsstr \<Rightarrow> jsstr \<Rightarrow> jsstr \<Rightarrow> tree \<Rightarrow> json \<Rightarrow> json \<Rightarrow> (check_throw, manifest_error list) result" where
  "verifyPackage digest F dir rootReal legalDir package pkg m =
     bind_result (require (pkg \<noteq> JNull) NullProperty) (\<lambda>_.
     case jget (js ''files'') pkg of
       JArr _ \<Rightarrow>
         bind_result (records (jget (js ''files'') pkg)) (\<lambda>files.
         let staticPaths = map (jget (js ''path'')) files in
         bind_result (records (jget (js ''themes'') m)) (\<lambda>themes.
         let managedPaths = map (jget (js ''file'')) themes in
         bind_result (listFiles [] package) (\<lambda>actual.
         bind_result (license_errors digest F dir rootReal legalDir) (\<lambda>legal.
         Inr (package_head pkg @ static_errors files staticPaths @
              (if JSON_text (jget (js ''entrypoints'') pkg) \<noteq> JSON_text expectedEntrypoints then [EntrypointsChanged] else []) @
              (if JSON_text (jget (js ''managedFiles'') pkg) \<noteq> JSON_text expectedManagedFiles then [ManagedFilesChanged] else []) @
              managed_errors staticPaths managedPaths @
              registration_errors actual (staticPaths @ managedPaths) @
              concat (map (registered_file_errors F dir rootReal) (staticPaths @ managedPaths)) @ legal)))))
     | _ \<Rightarrow> Inr (package_head pkg @ [FilesNotArray]))"

section \<open>The theme manifest\<close>

datatype themes_error =
    ThemesSchema | ThemesMetadata | ThemesSelector | ThemesDefault | ThemesFollowSystem | ThemeIdsChanged | ThemeIdsNotUnique
  | DefaultUnregistered | ThemeFilesNotUnique | ThemeLabelsNotUnique | UnsafeThemeFile json | ThemeRecord theme_fault json

datatype check_fault =
    ContractFault contract_error | ThemesFault themes_error | ThemeFault theme_error | PackageFault package_error | ManifestFault manifest_error
  | SchemeDeclaration jsstr | LinearPurple jsstr | RetiredValue jsstr | NoReducedMotion | NoInterFeatures | NoFoundationTokens
  | MotionNotReduced | ContrastCount nat | MinimumChanged

definition themes_head :: "json \<Rightarrow> themes_error list" where
  "themes_head m =
     (if jget (js ''schemaVersion'') m \<noteq> JNum (Fin 1) then [ThemesSchema] else []) @
     (if \<not> truthy_json (jget (js ''provenance'') m) \<or> \<not> truthy_json (jget (js ''modified'') m) then [ThemesMetadata] else [])"

definition themes_settings :: "json \<Rightarrow> json list \<Rightarrow> themes_error list" where
  "themes_settings m themes =
     (if jget (js ''selectorAttribute'') m \<noteq> JStr (js ''data-theme'') then [ThemesSelector] else []) @
     (if jget (js ''defaultTheme'') m \<noteq> JStr (js ''cherry-black'') \<or> jget (js ''fallbackTheme'') m \<noteq> JStr (js ''cherry-black'') then [ThemesDefault] else []) @
     (if jget (js ''followSystemByDefault'') m \<noteq> JBool False then [ThemesFollowSystem] else []) @
     (if JSON_text (JArr (map (jget (js ''id'')) themes)) \<noteq> JSON_text (JArr [JStr (js ''cherry-black''), JStr (js ''pure-white'')])
      then [ThemeIdsChanged] else []) @
     (if later_values [] (map (jget (js ''id'')) themes) \<noteq> [] then [ThemeIdsNotUnique] else [])"

definition theme_record_errors :: "json \<Rightarrow> themes_error list" where
  "theme_record_errors t =
     (let tid = jget (js ''id'') t in
      (if \<not> stable_id (json_string tid) then [ThemeRecord BadId tid] else []) @
      (if jget (js ''colorScheme'') t \<notin> {JStr (js ''dark''), JStr (js ''light'')} then [ThemeRecord BadScheme tid] else []) @
      (if \<not> managed_path (json_string (jget (js ''file'') t)) then [UnsafeThemeFile tid] else []) @
      (if jget (js ''file'') t \<noteq> JStr (theme_path tid) then [ThemeRecord BadFile tid] else []) @
      (if positive_integer (jget (js ''version'') t) = None then [ThemeRecord BadVersionNumber tid] else []) @
      (if \<not> nonblank (jget (js ''label'') t) then [ThemeRecord BadLabel tid] else []) @
      (if \<not> nonblank (jget (js ''provenance'') t) then [ThemeRecord BadProvenance tid] else []))"

definition themes_registered :: "json \<Rightarrow> json list \<Rightarrow> themes_error list" where
  "themes_registered m themes =
     (let ids = map (jget (js ''id'')) themes in
      (if \<not> list_ex (same_value (jget (js ''defaultTheme'') m)) ids \<or> \<not> list_ex (same_value (jget (js ''fallbackTheme'') m)) ids
       then [DefaultUnregistered] else []) @
      (if later_values [] (map (jget (js ''file'')) themes) \<noteq> [] then [ThemeFilesNotUnique] else []) @
      (if later_values [] (map (jget (js ''label'')) themes) \<noteq> [] then [ThemeLabelsNotUnique] else []) @
      concat (map theme_record_errors themes))"

section \<open>The sources of the themes\<close>

text \<open>\<open>matchAll(/\bcolor-scheme\s*:\s*([^;{}]+)\s*;/g)\<close>, trimmed; \<open>boundary\<close> says that no word ends where the text starts.\<close>

definition scheme_at :: "jsstr \<Rightarrow> (jsstr \<times> jsstr) option" where
  "scheme_at s =
     (case pieces_at [Lit (js ''color-scheme''), Blanks, Lit (js '':'')] s of
        None \<Rightarrow> None
      | Some r \<Rightarrow>
          let v = takeWhile (\<lambda>c. c \<notin> {59, 123, 125}) r; r' = dropWhile (\<lambda>c. c \<notin> {59, 123, 125}) r
          in if v \<noteq> [] \<and> r' \<noteq> [] \<and> hd r' = 59 then Some (trim v, tl r') else None)"

lemma scheme_at_shorter: "scheme_at s = Some (v, r) \<Longrightarrow> length r < length s"
proof -
  assume "scheme_at s = Some (v, r)"
  then obtain q where q: "pieces_at [Lit (js ''color-scheme''), Blanks, Lit (js '':'')] s = Some q"
    and r: "dropWhile (\<lambda>c. c \<notin> {59, 123, 125}) q \<noteq> []" "r = tl (dropWhile (\<lambda>c. c \<notin> {59, 123, 125}) q)"
    by (auto simp: scheme_at_def Let_def simp del: js_Cons pieces_at.simps split: option.splits if_splits)
  have "length r < length (dropWhile (\<lambda>c. c \<notin> {59, 123, 125}) q)" using r by simp
  also have "\<dots> \<le> length q" by (rule length_dropWhile_le)
  also have "\<dots> \<le> length s" by (rule pieces_at_length [OF q])
  finally show ?thesis .
qed

function scheme_declarations :: "bool \<Rightarrow> jsstr \<Rightarrow> jsstr list" where
  "scheme_declarations boundary s =
     (case (if boundary then scheme_at s else None) of
        Some (v, r) \<Rightarrow> v # scheme_declarations True r
      | None \<Rightarrow> (case s of [] \<Rightarrow> [] | c # t \<Rightarrow> scheme_declarations (\<not> is_word_char c) t))"
  by pat_completeness auto
termination
  by (relation "measure (length \<circ> snd)") (auto simp: scheme_at_shorter split: if_splits)

declare scheme_declarations.simps [simp del]

definition purple_values :: "jsstr list" where
  "purple_values = map js [''#5e6ad2'', ''#828fff'', ''#4752c4'', ''#7170ff'', ''#7a7fad'']"

definition retired_values :: "jsstr list" where
  "retired_values = map js [''#de1c4e'', ''#dd2c53'', ''#d7194b'', ''#c01242'', ''#f9667a'', ''#ff8494'', ''#a70f38'']"

definition contains_value :: "jsstr list \<Rightarrow> jsstr \<Rightarrow> bool" where
  "contains_value vs css = list_ex (includes_str (map ascii_lower css)) vs"

definition theme_pass ::
    "power \<Rightarrow> files \<Rightarrow> jsstr \<Rightarrow> jsstr \<Rightarrow> contract_entry list \<Rightarrow> (jsstr \<Rightarrow> number option) \<Rightarrow> json \<Rightarrow> check_state
     \<Rightarrow> (check_throw, check_fault list \<times> check_state) result" where
  "theme_pass pow F dir rootReal entries thresholds t st =
     bind_result (uncaught (read_path F dir rootReal (jget (js ''file'') t))) (\<lambda>text.
     let css = stripCssComments text;
         tid = json_string (jget (js ''id'') t);
         (selectorBlock, st1) = extractThemeSelectorBlock tid css (st\<lparr>cs_errors := []\<rparr>);
         schemes = scheme_declarations True selectorBlock
     in bind_result (verifyTheme pow tid entries thresholds css selectorBlock (st1\<lparr>cs_errors := []\<rparr>)) (\<lambda>(_, st2).
        Inr (map ThemeFault (cs_errors st1) @
             (if map JStr schemes \<noteq> [jget (js ''colorScheme'') t] then [SchemeDeclaration tid] else []) @
             map ThemeFault (cs_errors st2) @
             (if contains_value purple_values css then [LinearPurple tid] else []) @
             (if contains_value retired_values css then [RetiredValue tid] else []), st2)))"

fun theme_passes ::
    "power \<Rightarrow> files \<Rightarrow> jsstr \<Rightarrow> jsstr \<Rightarrow> contract_entry list \<Rightarrow> (jsstr \<Rightarrow> number option) \<Rightarrow> json list \<Rightarrow> check_state
     \<Rightarrow> (check_throw, check_fault list \<times> check_state) result" where
  "theme_passes pow F dir rootReal entries thresholds [] st = Inr ([], st)"
| "theme_passes pow F dir rootReal entries thresholds (t # ts) st =
     bind_result (theme_pass pow F dir rootReal entries thresholds t st) (\<lambda>(es, st1).
     bind_result (theme_passes pow F dir rootReal entries thresholds ts st1) (\<lambda>(es', st2). Inr (es @ es', st2)))"

section \<open>The Foundation\<close>

text \<open>\<open>/@media\s*\(prefers-reduced-motion:\s*reduce\)\s*\{([\s\S]*)\}\s*$/\<close>.\<close>

fun reduced_motion :: "jsstr \<Rightarrow> jsstr" where
  "reduced_motion [] = []"
| "reduced_motion (c # s) =
     (case pieces_at [Lit (js ''@media''), Blanks, Lit (js ''(prefers-reduced-motion:''), Blanks, Lit (js ''reduce)''), Blanks, Lit (js ''{'')] (c # s) of
        None \<Rightarrow> reduced_motion s
      | Some r \<Rightarrow>
          let q = rev (dropWhile is_ws (rev r))
          in if q \<noteq> [] \<and> last q = 125 then butlast q else reduced_motion s)"

definition foundation_errors :: "jsstr \<Rightarrow> check_fault list" where
  "foundation_errors foundation =
     (let foundationTokens = parseCustomProperties (case first_block root_selector foundation of Some b \<Rightarrow> b | None \<Rightarrow> []);
          reducedTokens = parseCustomProperties (reduced_motion foundation) in
      (if includes_str foundation (js ''prefers-reduced-motion: reduce'') then [] else [NoReducedMotion]) @
      (if includes_str foundation (34 # js ''cv01'' @ 34 # js '', '' @ 34 # js ''ss03'' @ [34]) then [] else [NoInterFeatures]) @
      (if foundationTokens = [] then [NoFoundationTokens] else []) @
      (if list_ex (\<lambda>n. map_of reducedTokens (js n) \<noteq> Some (js ''0ms'')) [''--ds-motion-fast'', ''--ds-motion-base'', ''--ds-motion-slow'']
       then [MotionNotReduced] else []))"

section \<open>The run\<close>

fun num_neg :: "number \<Rightarrow> number" where
  "num_neg (Fin x) = Fin (- x)"
| "num_neg (Infinity s) = Infinity (\<not> s)"
| "num_neg NaN = NaN"

definition num_abs :: "number \<Rightarrow> number" where
  "num_abs x = (if num_less x (Fin 0) then num_neg x else x)"

definition combinationsPerTheme :: "json \<Rightarrow> nat" where
  "combinationsPerTheme contract =
     sum_list (map (\<lambda>(_, sh). if jget (sh_class sh) (jget (js ''contrastThresholds'') contract) \<in> {JNull, JUndef} then 0
       else length (sh_allowedOn sh)) expectedContractShape)"

definition expected_pair :: jsstr where
  "expected_pair = js ''pure-white --ds-border-strong on --ds-surface-hover''"

definition minimum_pair :: "check_state \<Rightarrow> jsstr" where
  "minimum_pair st = (case minimumContrast st of (_, tid, name, background) \<Rightarrow> tid @ 32 # name @ js '' on '' @ background)"

definition contrast_totals :: "json \<Rightarrow> json list \<Rightarrow> check_state \<Rightarrow> check_fault list" where
  "contrast_totals contract themes st =
     (let expectedContrastChecks = combinationsPerTheme contract * length themes in
      (if contrastChecks st \<noteq> expectedContrastChecks then [ContrastCount expectedContrastChecks] else []) @
      (if minimum_pair st \<noteq> expected_pair
          \<or> num_less (literal ''1e-15'') (num_abs (num_plus (fst (minimumContrast st)) (num_neg (literal ''3.318324835677781''))))
       then [MinimumChanged] else []))"

text \<open>A contract whose entries cannot be read has an error already; the check then goes on without its themes.\<close>

definition check_run ::
    "power \<Rightarrow> (jsstr \<Rightarrow> jsstr) \<Rightarrow> files \<Rightarrow> jsstr \<Rightarrow> jsstr \<Rightarrow> jsstr \<Rightarrow> tree \<Rightarrow> (check_throw, check_fault list) result" where
  "check_run pow digest F dir rootReal legalDir package =
     bind_result (verifyNoSymlinks [] package) (\<lambda>_.
     bind_result (uncaught (readJsonInput F dir rootReal contract_file)) (\<lambda>contract.
     bind_result (uncaught (readJsonInput F dir rootReal manifest_name)) (\<lambda>m.
     bind_result (uncaught (readJsonInput F dir rootReal (js ''manifest.json''))) (\<lambda>pkg.
     bind_result (verifyContract contract) (\<lambda>contractErrors.
     bind_result (require (m \<noteq> JNull) NullProperty) (\<lambda>_.
     bind_result (records (jget (js ''themes'') m)) (\<lambda>themes.
     bind_result (require (pkg \<noteq> JNull) NullProperty) (\<lambda>_.
     bind_result (case contract_entries contract of
         None \<Rightarrow> Inr ([], initial_check)
       | Some entries \<Rightarrow> theme_passes pow F dir rootReal entries (contract_threshold contract) themes initial_check) (\<lambda>(themeErrors, st).
     bind_result (uncaught (readText F dir rootReal foundationFile)) (\<lambda>foundation.
     bind_result (uncaught (readText F dir rootReal (js ''tailwind-v4.css''))) (\<lambda>tailwind.
     bind_result (verifyGeneratedOutputs F dir rootReal) (\<lambda>stale.
     bind_result (verifyPackage digest F dir rootReal legalDir package pkg m) (\<lambda>manifestErrors.
     bind_result (require (jget (js ''contrastThresholds'') contract \<notin> {JNull, JUndef}) NullProperty) (\<lambda>_.
     Inr (map ContractFault contractErrors @
          map PackageFault (verifyFixedProvenance contract_file (jget (js ''provenance'') contract)) @
          map ThemesFault (themes_head m) @
          map PackageFault (verifyFixedProvenance manifest_name (jget (js ''provenance'') m)) @
          map ThemesFault (themes_settings m themes) @
          map PackageFault (verifyFixedProvenance (js ''manifest.json'') (jget (js ''provenance'') pkg)) @
          map ThemesFault (themes_registered m themes) @
          themeErrors @ foundation_errors foundation @ map PackageFault (verifyAdapter tailwind @ stale) @
          map ManifestFault manifestErrors @ contrast_totals contract themes st)))))))))))))))"

end
