(* ===== verification/Contract_Properties.thy ===== *)
theory Contract_Properties
  imports Design_Contract
begin

text \<open>
  \<open>verifyContract\<close> reports nothing exactly for the contracts it is meant to accept: those with the required names, each
  once and with the shape expected of it.
\<close>

section \<open>Sorted names\<close>

lemma text_order_refl [simp]: "text_order a a = 0"
  by (induction a) auto

lemma text_order_zero [simp]: "text_order a b = 0 \<longleftrightarrow> a = b"
  by (induction a b rule: text_order.induct) auto

lemma text_order_swap: "text_order b a = - text_order a b"
  by (induction a b rule: text_order.induct) auto

lemma text_order_trans: "text_order a b \<le> 0 \<Longrightarrow> text_order b c \<le> 0 \<Longrightarrow> text_order a c \<le> 0"
proof (induction a b arbitrary: c rule: text_order.induct)
  case (4 x s y t)
  then show ?case by (cases c) (auto split: if_splits)
next
  case (2 y t)
  then show ?case by (cases c) auto
qed (auto split: if_splits)

lemma text_order_antisym: "text_order a b \<le> 0 \<Longrightarrow> text_order b a \<le> 0 \<Longrightarrow> a = b"
  using text_order_swap [of b a] by (metis neg_le_0_iff_le order_antisym text_order_zero)

lemma text_order_total: "\<not> text_order a b \<le> 0 \<Longrightarrow> text_order b a \<le> 0"
  using text_order_swap [of b a] by linarith

lemma insert_commute_names: "insert_by text_order x (insert_by text_order y l) = insert_by text_order y (insert_by text_order x l)"
proof (induction l)
  case Nil
  then show ?case using text_order_antisym text_order_total by auto
next
  case (Cons z l)
  then show ?case
    using text_order_antisym [of x y] text_order_total [of x y] text_order_total [of x z] text_order_total [of y z]
      text_order_trans [of x y z] text_order_trans [of y x z] text_order_trans [of x z y] text_order_trans [of y z x]
    by auto
qed

lemma sort_names_middle: "sort_by text_order (xs @ x # ys) = insert_by text_order x (sort_by text_order (xs @ ys))"
  by (induction xs) (simp_all add: insert_commute_names)

lemma sort_names_eq: "sort_by text_order xs = sort_by text_order ys \<longleftrightarrow> mset xs = mset ys"
proof
  show "mset xs = mset ys" if "sort_by text_order xs = sort_by text_order ys"
    using that mset_sort_by by metis
  show "mset xs = mset ys \<Longrightarrow> sort_by text_order xs = sort_by text_order ys"
  proof (induction xs arbitrary: ys)
    case (Cons x xs)
    then have "x \<in> set ys" by (metis list.set_intros(1) set_mset_mset)
    then obtain as bs where ys: "ys = as @ x # bs" by (auto dest: split_list)
    with Cons.prems have "mset xs = mset (as @ bs)" by simp
    with Cons.IH [of "as @ bs"] show ?case unfolding ys by (simp add: sort_names_middle)
  qed simp
qed

section \<open>Names\<close>

lemma concat_results_empty: "concat_results rs = Inr [] \<longleftrightarrow> (\<forall>r\<in>set rs. r = Inr [])"
  by (induction rs) (auto simp: bind_result_Inr_iff)

lemma same_value_eq: "same_value a b \<Longrightarrow> a = b"
  by (simp add: same_value_def)

lemma same_string [simp]: "same_value v (JStr s) \<longleftrightarrow> v = JStr s" "same_value (JStr s) v \<longleftrightarrow> v = JStr s"
  by (auto simp: same_value_def)

lemma first_values_set: "set (first_values seen vs) \<subseteq> set vs" "set vs \<subseteq> set (first_values seen vs) \<union> set seen"
  by (induction vs arbitrary: seen) (auto simp: list_ex_iff dest: same_value_eq, force dest: same_value_eq)

lemma later_values_strings:
  "set vs \<subseteq> range JStr \<Longrightarrow> set seen \<subseteq> range JStr \<Longrightarrow> later_values seen vs = [] \<longleftrightarrow> distinct vs \<and> set vs \<inter> set seen = {}"
  by (induction vs arbitrary: seen) (auto simp: list_ex_iff)

lemma name_errors_empty: "name_errors ns = [] \<longleftrightarrow> distinct ns \<and> set ns = JStr ` set requiredNames"
proof -
  have "set ns \<subseteq> range JStr \<Longrightarrow> later_values [] ns = [] \<longleftrightarrow> distinct ns"
    using later_values_strings [of ns "[]"] by simp
  moreover have "set (first_values [] ns) = set ns" using first_values_set(1) [of "[]" ns] first_values_set(2) [of ns "[]"] by simp
  ultimately show ?thesis
    by (auto simp: name_errors_def filter_empty_conv image_iff) blast+
qed

section \<open>Entries\<close>

text \<open>What the table of shapes is like.\<close>

lemma fst_define [simp]: "fst (define_shape c as b n) = n" "fst (define_shadow n) = n"
  by (simp_all add: define_shape_def define_shadow_def)

lemma shape_names: "map fst expectedContractShape = requiredNames"
  by (simp add: expectedContractShape_def requiredNames_def status_shapes_def brandSurfaces_def map_concat o_def del: js_Cons)

lemma known_names:
  "set neutralSurfaces \<subseteq> set requiredNames" "set brandSurfaces \<subseteq> set requiredNames"
  "js ''--ds-brand-soft'' \<in> set requiredNames" "js ''--ds-selection-surface'' \<in> set requiredNames"
  "s \<in> set statuses \<Longrightarrow> status_name s (js ''surface'') \<in> set requiredNames"
  "s \<in> set statuses \<Longrightarrow> status_name s (js ''solid'') \<in> set requiredNames"
  unfolding requiredNames_def brandSurfaces_def by (auto simp del: js_Cons)

lemma shapes_wellformed:
  "list_all (\<lambda>(n, sh). sh_type sh \<in> {js ''color'', js ''shadow''}
     \<and> sh_class sh \<in> js ` {''text'', ''nonText'', ''decorative'', ''none''} \<and> set (sh_allowedOn sh) \<subseteq> set requiredNames) expectedContractShape"
  unfolding expectedContractShape_def status_shapes_def define_shape_def define_shadow_def
  by (simp add: known_names list_all_iff split_beta ball_Un del: js_Cons)

lemma shape_of_name: "map_of expectedContractShape n \<noteq> None \<longleftrightarrow> n \<in> set requiredNames"
  unfolding shape_names [symmetric] by (simp add: map_of_eq_None_iff)

lemma shape_fields:
  assumes "map_of expectedContractShape n = Some sh"
  shows "n \<in> set requiredNames" "JStr (sh_type sh) \<in> {JStr (js ''color''), JStr (js ''shadow'')}"
    "JStr (sh_class sh) \<in> JStr ` js ` {''text'', ''nonText'', ''decorative'', ''none''}" "set (sh_allowedOn sh) \<subseteq> set requiredNames"
  using assms shape_of_name [of n] shapes_wellformed map_of_SomeD [OF assms] by (auto simp: list_all_iff simp del: js_Cons)

lemma required_not_prototype: "n \<in> set requiredNames \<Longrightarrow> n \<notin> set prototype_names"
proof -
  assume n: "n \<in> set requiredNames"
  have "list_all (\<lambda>n. startsWith n (js ''--'')) requiredNames" "list_all (\<lambda>n. \<not> startsWith n (js ''--'')) prototype_names" by code_simp+
  with n show ?thesis by (auto simp: list_all_iff)
qed

text \<open>What an entry has to be.\<close>

definition entry_ok :: "json \<Rightarrow> bool" where
  "entry_ok e \<longleftrightarrow> (\<exists>n sh ns. jget (js ''name'') e = JStr n \<and> map_of expectedContractShape n = Some sh
     \<and> jget (js ''required'') e = JBool True \<and> (\<exists>s. s \<noteq> [] \<and> jget (js ''role'') e = JStr s)
     \<and> jget (js ''type'') e = JStr (sh_type sh) \<and> jget (js ''contrastClass'') e = JStr (sh_class sh)
     \<and> jget (js ''allowedOn'') e = JArr (map JStr ns) \<and> mset ns = mset (sh_allowedOn sh)
     \<and> (jget (js ''opaque'') e = JBool (sh_opaque sh) \<or> jget (js ''opaque'') e = JUndef \<and> \<not> sh_opaque sh))"

lemma is_string: "(case v of JStr _ \<Rightarrow> True | _ \<Rightarrow> False) \<longleftrightarrow> v = JStr (json_string v)"
  by (cases v) auto

lemma string_values_iff: "string_values vs = Some ns \<longleftrightarrow> vs = map JStr ns"
proof
  assume "string_values vs = Some ns"
  then have "\<forall>v\<in>set vs. v = JStr (json_string v)" "ns = map json_string vs"
    unfolding string_values_def is_string by (auto simp: list_all_iff split: if_splits)
  then show "vs = map JStr ns" by (simp add: map_idI)
qed (simp add: string_values_def list_all_iff o_def)

lemma same_names_iff: "same_names vs expected \<longleftrightarrow> (\<exists>ns. vs = map JStr ns \<and> mset ns = mset expected)"
  by (auto simp: same_names_def sort_names_eq string_values_iff [symmetric] split: option.splits)

lemma entry_errors_empty:
  "entry_errors e = [] \<longleftrightarrow> jget (js ''required'') e = JBool True \<and> jget (js ''type'') e \<in> {JStr (js ''color''), JStr (js ''shadow'')}
     \<and> (\<exists>s. s \<noteq> [] \<and> jget (js ''role'') e = JStr s) \<and> (\<exists>vs. jget (js ''allowedOn'') e = JArr vs)
     \<and> jget (js ''contrastClass'') e \<in> JStr ` js ` {''text'', ''nonText'', ''decorative'', ''none''}"
  by (cases "jget (js ''role'') e"; cases "jget (js ''allowedOn'') e") (simp_all add: entry_errors_def Let_def del: js_Cons)

lemma shape_errors_empty:
  "shape_errors e vs sh = [] \<longleftrightarrow> jget (js ''type'') e = JStr (sh_type sh) \<and> jget (js ''contrastClass'') e = JStr (sh_class sh)
     \<and> same_names vs (sh_allowedOn sh)
     \<and> (jget (js ''opaque'') e = JBool (sh_opaque sh) \<or> jget (js ''opaque'') e = JUndef \<and> \<not> sh_opaque sh)"
  by (cases "jget (js ''opaque'') e") (auto simp: shape_errors_def Let_def simp del: js_Cons)

lemma check_entry_empty:
  assumes "set names = JStr ` set requiredNames" and "jget (js ''name'') e = JStr n" and "n \<in> set requiredNames"
  shows "check_entry names e = Inr [] \<longleftrightarrow> entry_ok e"
proof -
  obtain sh where sh: "map_of expectedContractShape n = Some sh" using shape_of_name [of n] assms(3) by auto
  have all_known: "filter (\<lambda>s. \<not> list_ex (same_value s) names) (map JStr ns) = []" if "set ns \<subseteq> set requiredNames" for ns
    using that assms(1) by (auto simp: filter_empty_conv list_ex_iff)
  show ?thesis
  proof
    assume ok: "check_entry names e = Inr []"
    then have "entry_errors e = []"
      by (auto simp: check_entry_def Let_def assms(2) sh bind_result_Inr_iff required_not_prototype [OF assms(3)] simp del: js_Cons)
    then obtain vs where vs: "jget (js ''allowedOn'') e = JArr vs" "jget (js ''required'') e = JBool True"
      "\<exists>s. s \<noteq> [] \<and> jget (js ''role'') e = JStr s"
      unfolding entry_errors_empty by blast
    with ok have "shape_errors e vs sh = []"
      by (auto simp: check_entry_def Let_def assms(2) sh iterable_def bind_result_Inr_iff required_not_prototype [OF assms(3)] simp del: js_Cons)
    then show "entry_ok e" unfolding shape_errors_empty same_names_iff entry_ok_def using vs sh assms(2) by blast
  next
    assume "entry_ok e"
    then obtain ns where ns: "jget (js ''allowedOn'') e = JArr (map JStr ns)" "mset ns = mset (sh_allowedOn sh)"
      and e: "jget (js ''required'') e = JBool True" "\<exists>s. s \<noteq> [] \<and> jget (js ''role'') e = JStr s"
        "jget (js ''type'') e = JStr (sh_type sh)" "jget (js ''contrastClass'') e = JStr (sh_class sh)"
        "jget (js ''opaque'') e = JBool (sh_opaque sh) \<or> jget (js ''opaque'') e = JUndef \<and> \<not> sh_opaque sh"
      unfolding entry_ok_def assms(2) using sh by auto
    have "entry_errors e = []" unfolding entry_errors_empty using e ns(1) shape_fields(2,3) [OF sh] by metis
    moreover have "shape_errors e (map JStr ns) sh = []" unfolding shape_errors_empty same_names_iff using e ns(2) by blast
    moreover have "set ns \<subseteq> set requiredNames" using shape_fields(4) [OF sh] ns(2) by (metis set_mset_mset)
    ultimately show "check_entry names e = Inr []"
      using all_known by (simp add: check_entry_def Let_def assms(2) sh iterable_def ns(1) bind_result_def required_not_prototype [OF assms(3)] del: js_Cons)
  qed
qed

section \<open>The whole contract\<close>

definition contract_ok :: "json \<Rightarrow> bool" where
  "contract_ok c \<longleftrightarrow> c \<noteq> JNull \<and> jget (js ''schemaVersion'') c = JNum (Fin 1)
     \<and> truthy_json (jget (js ''provenance'') c) \<and> truthy_json (jget (js ''modified'') c)
     \<and> (\<exists>es. jget (js ''entries'') c = JArr es \<and> distinct (map (jget (js ''name'')) es)
          \<and> jget (js ''name'') ` set es = JStr ` set requiredNames \<and> (\<forall>e\<in>set es. entry_ok e))
     \<and> jget (js ''text'') (jget (js ''contrastThresholds'') c) = JNum (Fin (9 / 2))
     \<and> jget (js ''nonText'') (jget (js ''contrastThresholds'') c) = JNum (Fin 3)
     \<and> jget (js ''decorative'') (jget (js ''contrastThresholds'') c) = JNull
     \<and> jget (js ''none'') (jget (js ''contrastThresholds'') c) = JNull
     \<and> mset (object_keys (jget (js ''rules'') c)) = mset (map fst expectedContractRules)
     \<and> (\<forall>(r, b)\<in>set expectedContractRules. jget r (jget (js ''rules'') c) = JBool b)"

lemma threshold_errors_empty:
  "threshold_errors t = [] \<longleftrightarrow> jget (js ''text'') t = JNum (Fin (9 / 2)) \<and> jget (js ''nonText'') t = JNum (Fin 3)
     \<and> jget (js ''decorative'') t = JNull \<and> jget (js ''none'') t = JNull"
  by (simp add: threshold_errors_def del: js_Cons)

lemma rule_errors_empty:
  "rule_errors r = [] \<longleftrightarrow> mset (object_keys r) = mset (map fst expectedContractRules)
     \<and> (\<forall>(k, b)\<in>set expectedContractRules. jget k r = JBool b)"
  by (simp add: rule_errors_def sort_names_eq filter_empty_conv split_beta del: js_Cons mset_map)

lemma entries_empty:
  assumes "name_errors (map (jget (js ''name'')) es) = []"
  shows "concat_results (map (check_entry (map (jget (js ''name'')) es)) es) = Inr [] \<longleftrightarrow> (\<forall>e\<in>set es. entry_ok e)"
proof -
  have names: "set (map (jget (js ''name'')) es) = JStr ` set requiredNames" using assms unfolding name_errors_empty by blast
  have "check_entry (map (jget (js ''name'')) es) e = Inr [] \<longleftrightarrow> entry_ok e" if "e \<in> set es" for e
  proof -
    from that names have "jget (js ''name'') e \<in> JStr ` set requiredNames" by (metis image_eqI set_map)
    then show ?thesis using check_entry_empty [OF names] by blast
  qed
  then show ?thesis unfolding concat_results_empty by simp
qed

lemma contract_entries_empty:
  "verifyContract c = Inr [] \<longleftrightarrow> c \<noteq> JNull \<and> jget (js ''schemaVersion'') c = JNum (Fin 1)
     \<and> truthy_json (jget (js ''provenance'') c) \<and> truthy_json (jget (js ''modified'') c)
     \<and> (\<exists>es. jget (js ''entries'') c = JArr es \<and> JNull \<notin> set es \<and> name_errors (map (jget (js ''name'')) es) = []
          \<and> concat_results (map (check_entry (map (jget (js ''name'')) es)) es) = Inr [])
     \<and> threshold_errors (jget (js ''contrastThresholds'') c) = [] \<and> rule_errors (jget (js ''rules'') c) = []"
  by (cases "jget (js ''entries'') c")
    (auto simp: verifyContract_def Let_def bind_result_Inr_iff require_simps(1) simp del: js_Cons)

text \<open>
  The check of the contract reports nothing, and throws nothing, exactly for the contracts that say what is
  required: the schema, the metadata, the required names once each, every entry with its expected type,
  contrast class, opacity and surfaces in any order, the thresholds without rounding, and exactly the
  rules. No malformed JSON, whatever the types of its parts, slips through.
\<close>

lemma verifyContract_ok_iff: "verifyContract c = Inr [] \<longleftrightarrow> contract_ok c"
proof -
  have no_null: "JNull \<notin> set es" if "\<forall>e\<in>set es. entry_ok e" for es
    using that by (auto simp: entry_ok_def jget_def)
  have "(JNull \<notin> set es \<and> name_errors (map (jget (js ''name'')) es) = []
      \<and> concat_results (map (check_entry (map (jget (js ''name'')) es)) es) = Inr [])
    \<longleftrightarrow> distinct (map (jget (js ''name'')) es) \<and> jget (js ''name'') ` set es = JStr ` set requiredNames \<and> (\<forall>e\<in>set es. entry_ok e)" for es
    using no_null [of es] entries_empty [of es] name_errors_empty [of "map (jget (js ''name'')) es"] unfolding set_map by blast
  then show ?thesis
    by (simp only: contract_entries_empty contract_ok_def threshold_errors_empty rule_errors_empty conj_assoc)
qed

end
