(* ===== verification/Theme_Properties.thy ===== *)
theory Theme_Properties
  imports Design_Check Contract_Properties
begin

text \<open>
  \<open>verifyTheme\<close> adds no error exactly for the themes that \<open>theme_ok\<close> describes. The description speaks of the chain of
  aliases and of colours, not of the order in which the program looks.
\<close>

section \<open>Tokens\<close>

lemma distinct_tokens: "distinct (map fst (parseCustomProperties css))"
proof -
  have "distinct (map fst (fold (\<lambda>(n, v). AList.update n (trim (collapse_ws v))) ds ts))" if "distinct (map fst ts)" for ds ts
    using that by (induction ds arbitrary: ts) (auto simp: distinct_update)
  from this [of "[]"] show ?thesis by (simp add: parseCustomProperties_def)
qed

lemma tokens_same_iff:
  assumes "distinct (map fst xs)" and "distinct (map fst ys)"
  shows "\<not> list_ex (\<lambda>(n, v). map_of ys n \<noteq> Some v) xs \<and> length xs = length ys \<longleftrightarrow> set xs = set ys"
proof -
  have *: "\<not> list_ex (\<lambda>(n, v). map_of ys n \<noteq> Some v) xs \<longleftrightarrow> set xs \<subseteq> set ys"
    using assms(2) by (auto simp: list_ex_iff)
  have d: "distinct xs" "distinct ys" using assms by (simp_all add: distinct_map)
  have "set xs = set ys" if "set xs \<subseteq> set ys" "length xs = length ys"
    using that d by (simp add: card_subset_eq distinct_card)
  moreover have "length xs = length ys" if "set xs = set ys"
    using that d distinct_card by metis
  ultimately show ?thesis unfolding * by blast
qed

lemma no_duplicates_iff: "duplicateCustomProperties css = [] \<longleftrightarrow> distinct (property_names css)"
proof -
  have "(\<forall>n\<in>set ns. \<not> count_list ns n > 1) \<longleftrightarrow> distinct ns" for ns :: "jsstr list"
    by (induction ns) (auto simp: count_list_0_iff)
  then show ?thesis by (simp add: duplicateCustomProperties_def Let_def filter_empty_conv)
qed

section \<open>Colours and contrasts\<close>

definition color_at :: "css_tokens \<Rightarrow> jsstr \<Rightarrow> color \<Rightarrow> bool" where
  "color_at ts n c \<longleftrightarrow> (\<exists>v. leads_to ts n v \<and> parseColorValue v = Inr c)"

definition ratio_at :: "power \<Rightarrow> css_tokens \<Rightarrow> jsstr \<Rightarrow> jsstr \<Rightarrow> number \<Rightarrow> bool" where
  "ratio_at pow ts n b r \<longleftrightarrow> (\<exists>f g. color_at ts n f \<and> color_at ts b g \<and> contrastRatio pow f g = Inr r)"

lemma resolve_iff: "resolveValue n ts [] = Inr v \<longleftrightarrow> leads_to ts n v"
  using resolve_sound resolve_complete [of ts n v "[]"] by auto

lemma parse_iff: "parseResolvedColor n ts = Inr c \<longleftrightarrow> color_at ts n c"
  by (simp add: parseResolvedColor_def color_at_def bind_result_Inr_iff resolve_iff)

lemma ratio_iff: "pair_ratio pow ts n b = Inr r \<longleftrightarrow> ratio_at pow ts n b r"
  by (auto simp: pair_ratio_def ratio_at_def bind_result_Inr_iff parse_iff)

text \<open>The errors of the contrasts, apart from the counting that goes with them.\<close>

definition pair_errors :: "power \<Rightarrow> jsstr \<Rightarrow> css_tokens \<Rightarrow> number \<Rightarrow> jsstr \<Rightarrow> jsstr \<Rightarrow> theme_error list" where
  "pair_errors pow tid ts t n b =
     (case pair_ratio pow ts n b of
        Inl x \<Rightarrow> [ContrastUnknown tid n b x]
      | Inr r \<Rightarrow> if num_less r t then [LowContrast tid n b] else [])"

definition contrast_errors :: "power \<Rightarrow> jsstr \<Rightarrow> css_tokens \<Rightarrow> (jsstr \<Rightarrow> number option) \<Rightarrow> contract_entry \<Rightarrow> theme_error list" where
  "contrast_errors pow tid ts thresholds e =
     (case thresholds (ce_class e) of None \<Rightarrow> [] | Some t \<Rightarrow> concat (map (pair_errors pow tid ts t (ce_name e)) (ce_allowedOn e)))"

lemma contrast_check_errors:
  "cs_errors (contrast_check pow tid ts t n b st) = cs_errors st @ pair_errors pow tid ts t n b"
  by (simp add: contrast_check_def pair_errors_def fail_with_def Let_def split: sum.split)

lemma entry_contrasts_errors:
  "cs_errors (entry_contrasts pow tid ts thresholds e st) = cs_errors st @ contrast_errors pow tid ts thresholds e"
proof -
  have "cs_errors (fold (contrast_check pow tid ts t n) bs st) = cs_errors st @ concat (map (pair_errors pow tid ts t n) bs)" for t n bs st
    by (induction bs arbitrary: st) (simp_all add: contrast_check_errors)
  then show ?thesis by (simp add: entry_contrasts_def contrast_errors_def split: option.split)
qed

lemma all_contrasts_errors:
  "cs_errors (fold (entry_contrasts pow tid ts thresholds) es st) = cs_errors st @ concat (map (contrast_errors pow tid ts thresholds) es)"
  by (induction es arbitrary: st) (simp_all add: entry_contrasts_errors)

lemma pair_errors_empty: "pair_errors pow tid ts t n b = [] \<longleftrightarrow> (\<exists>r. ratio_at pow ts n b r \<and> \<not> num_less r t)"
  by (simp add: pair_errors_def ratio_iff [symmetric] split: sum.split)

lemma contrast_errors_empty:
  "contrast_errors pow tid ts thresholds e = [] \<longleftrightarrow>
     (\<forall>t. thresholds (ce_class e) = Some t \<longrightarrow> (\<forall>b\<in>set (ce_allowedOn e). \<exists>r. ratio_at pow ts (ce_name e) b r \<and> \<not> num_less r t))"
  by (simp add: contrast_errors_def pair_errors_empty split: option.split)

lemma color_errors_empty:
  "color_errors tid ts e = [] \<longleftrightarrow> map_of ts (ce_name e) = None \<or> ce_type e \<noteq> js ''color''
     \<or> (\<exists>c. color_at ts (ce_name e) c \<and> (ce_opaque e \<longrightarrow> col_a c = Fin 1))"
  by (simp add: color_errors_def parse_iff [symmetric] del: js_Cons split: sum.split)

lemma ladder_empty:
  assumes "\<forall>n\<in>set requiredNames. map_of ts n \<noteq> None"
  shows "ladder_errors pow tid ts = Inr [] \<longleftrightarrow>
    (\<exists>d m. ratio_at pow ts (js ''--ds-fg-disabled'') (js ''--ds-canvas'') d
       \<and> ratio_at pow ts (js ''--ds-fg-meta'') (js ''--ds-canvas'') m \<and> \<not> num_le m d)"
proof -
  have "map_of ts n \<noteq> None" if "n \<in> set (map js [''--ds-fg-disabled'', ''--ds-fg-meta'', ''--ds-canvas''])" for n
    using that assms by (auto simp: requiredNames_def neutralSurfaces_def simp del: js_Cons)
  then have "\<not> list_ex (\<lambda>n. map_of ts n = None) (map js [''--ds-fg-disabled'', ''--ds-fg-meta'', ''--ds-canvas''])"
    unfolding list_ex_iff by blast
  then have step: "ladder_errors pow tid ts = bind_result (parseResolvedColor (js ''--ds-fg-disabled'') ts) (\<lambda>disabled.
           bind_result (parseResolvedColor (js ''--ds-fg-meta'') ts) (\<lambda>meta.
           bind_result (parseResolvedColor (js ''--ds-canvas'') ts) (\<lambda>canvas.
           bind_result (contrastRatio pow disabled canvas) (\<lambda>disabledRatio.
           bind_result (contrastRatio pow meta canvas) (\<lambda>metaRatio.
           Inr (if num_le metaRatio disabledRatio then [DisabledTooStrong tid] else []))))))"
    unfolding ladder_errors_def by (rule if_not_P)
  have unique: "g = h" if "color_at ts n g" "color_at ts n h" for n g h
    using that parse_iff by (metis sum.inject(2))
  show ?thesis unfolding step bind_result_Inr_iff parse_iff ratio_at_def
    using unique by (auto split: if_splits) blast+
qed

section \<open>Themes\<close>

definition theme_ok :: "power \<Rightarrow> css_tokens \<Rightarrow> jsstr \<Rightarrow> contract_entry list \<Rightarrow> (jsstr \<Rightarrow> number option) \<Rightarrow> bool" where
  "theme_ok pow ts css es thresholds \<longleftrightarrow>
     distinct (property_names css) \<and> set (parseCustomProperties css) = set ts
     \<and> (\<forall>n\<in>set requiredNames. \<exists>v. map_of ts n = Some v \<and> (\<forall>a\<in>set (alias_references v). map_of ts a \<noteq> None))
     \<and> (\<exists>d m. ratio_at pow ts (js ''--ds-fg-disabled'') (js ''--ds-canvas'') d
          \<and> ratio_at pow ts (js ''--ds-fg-meta'') (js ''--ds-canvas'') m \<and> \<not> num_le m d)
     \<and> (\<forall>s\<in>set statuses. map_of ts (status_name s (js ''border'')) = Some (js ''var('' @ status_name s (js ''foreground'') @ js '')''))
     \<and> (\<forall>e\<in>set es. map_of ts (ce_name e) \<noteq> None \<and> ce_type e = js ''color''
          \<longrightarrow> (\<exists>c. color_at ts (ce_name e) c \<and> (ce_opaque e \<longrightarrow> col_a c = Fin 1)))
     \<and> (\<forall>e\<in>set es. \<forall>t. thresholds (ce_class e) = Some t \<longrightarrow>
          (\<forall>b\<in>set (ce_allowedOn e). \<exists>r. ratio_at pow ts (ce_name e) b r \<and> \<not> num_less r t))"

lemma declaration_errors_empty:
  assumes "distinct (map fst ts)"
  shows "declaration_errors tid css ts = [] \<longleftrightarrow>
     distinct (property_names css) \<and> set (parseCustomProperties css) = set ts
     \<and> (\<forall>n\<in>set requiredNames. \<exists>v. map_of ts n = Some v \<and> (\<forall>a\<in>set (alias_references v). map_of ts a \<noteq> None))"
proof -
  let ?own = "concat (map (\<lambda>n. case map_of ts n of None \<Rightarrow> []
        | Some v \<Rightarrow> map (DanglingAlias tid n) (filter (\<lambda>a. map_of ts a = None) (alias_references v))) requiredNames)"
  have own: "map (NotDeclared tid) (filter (\<lambda>n. map_of ts n = None) requiredNames) @ ?own = [] \<longleftrightarrow>
    (\<forall>n\<in>set requiredNames. \<exists>v. map_of ts n = Some v \<and> (\<forall>a\<in>set (alias_references v). map_of ts a \<noteq> None))"
    by (fastforce simp: filter_empty_conv split: option.splits)
  show ?thesis unfolding declaration_errors_def Let_def
    using own no_duplicates_iff [of css] tokens_same_iff [OF distinct_tokens [of css] assms] by auto
qed

lemma verifyTheme_ok:
  "(\<exists>st'. verifyTheme pow tid es thresholds css selectorBlock st = Inr (parseCustomProperties selectorBlock, st') \<and> cs_errors st' = cs_errors st)
   \<longleftrightarrow> theme_ok pow (parseCustomProperties selectorBlock) css es thresholds"
proof -
  let ?ts = "parseCustomProperties selectorBlock"
  have "(\<exists>st'. verifyTheme pow tid es thresholds css selectorBlock st = Inr (?ts, st') \<and> cs_errors st' = cs_errors st)
    \<longleftrightarrow> declaration_errors tid css ?ts = [] \<and> ladder_errors pow tid ?ts = Inr [] \<and> border_errors tid ?ts = []
      \<and> (\<forall>e\<in>set es. color_errors tid ?ts e = []) \<and> (\<forall>e\<in>set es. contrast_errors pow tid ?ts thresholds e = [])"
    by (cases "ladder_errors pow tid ?ts") (auto simp: verifyTheme_def Let_def all_contrasts_errors fail_with_def)
  also have "\<dots> \<longleftrightarrow> theme_ok pow ?ts css es thresholds"
  proof -
    have border: "border_errors tid ?ts = [] \<longleftrightarrow> (\<forall>s\<in>set statuses. map_of ?ts (status_name s (js ''border''))
        = Some (js ''var('' @ status_name s (js ''foreground'') @ js '')''))"
      by (simp add: border_errors_def filter_empty_conv del: js_Cons)
    have color: "(\<forall>e\<in>set es. color_errors tid ?ts e = []) \<longleftrightarrow> (\<forall>e\<in>set es. map_of ?ts (ce_name e) \<noteq> None \<and> ce_type e = js ''color''
          \<longrightarrow> (\<exists>c. color_at ?ts (ce_name e) c \<and> (ce_opaque e \<longrightarrow> col_a c = Fin 1)))"
      unfolding color_errors_empty by auto
    have "declaration_errors tid css ?ts = [] \<Longrightarrow> \<forall>n\<in>set requiredNames. map_of ?ts n \<noteq> None"
      unfolding declaration_errors_empty [OF distinct_tokens] by auto
    from ladder_empty [OF this, of pow tid] show ?thesis
      unfolding theme_ok_def declaration_errors_empty [OF distinct_tokens, symmetric] border color contrast_errors_empty
      by (auto simp: declaration_errors_empty [OF distinct_tokens])
  qed
  finally show ?thesis .
qed

lemma verifyTheme_tokens: "verifyTheme pow tid es thresholds css selectorBlock st = Inr (ts, st') \<Longrightarrow> ts = parseCustomProperties selectorBlock"
  by (auto simp: verifyTheme_def Let_def split: sum.splits)

text \<open>The check of a theme only adds errors.\<close>

lemma verifyTheme_adds:
  assumes "verifyTheme pow tid es thresholds css selectorBlock st = Inr (ts, st')"
  shows "\<exists>xs. cs_errors st' = cs_errors st @ xs"
proof -
  obtain ladder where "st' = fold (entry_contrasts pow tid (parseCustomProperties selectorBlock) thresholds) es
      (fail_with (ladder @ border_errors tid (parseCustomProperties selectorBlock)
        @ concat (map (color_errors tid (parseCustomProperties selectorBlock)) es))
        (fail_with (declaration_errors tid css (parseCustomProperties selectorBlock)) st))"
    using assms by (auto simp: verifyTheme_def Let_def split: sum.splits)
  then show ?thesis by (simp add: all_contrasts_errors fail_with_def)
qed

lemma theme_block:
  "extractThemeSelectorBlock tid css st =
     (if \<exists>b. blocks (theme_selector tid) css = [b] then (hd (blocks (theme_selector tid) css), st)
      else ([], fail_with [SelectorNotOnce tid] st))"
  by (auto simp: extractThemeSelectorBlock_def split: list.splits)

text \<open>
  C32. A theme is accepted, its selector taken out of the style sheet and then checked without an error and without
  an exception, exactly when the selector of the theme has one block in the style sheet and \<open>theme_ok\<close> holds of
  what the block declares: no property is declared twice in the style sheet, and the properties of the block are all
  there are; every required token is declared, and each name its value refers to is declared too; the colours of
  disabled and of secondary text have a contrast with the canvas, and that of disabled text is not at least the other;
  each border of a state is the alias of the state's foreground; every declared token that the contract calls a colour
  comes, through its aliases, to a text that the patterns for colours accept, and is opaque where the contract says so;
  and each pair of token and surface of a class with a threshold has a contrast that does not compare as less than it.
  (The patterns accept channels that are no numbers; a contrast that is no number compares as less than nothing.)
\<close>

theorem theme_accepted_iff:
  "(\<exists>st1 st'. extractThemeSelectorBlock tid css st = (block, st1)
      \<and> verifyTheme pow tid es thresholds css block st1 = Inr (ts, st') \<and> cs_errors st' = cs_errors st)
   \<longleftrightarrow> blocks (theme_selector tid) css = [block] \<and> ts = parseCustomProperties block \<and> theme_ok pow ts css es thresholds"
proof (cases "\<exists>b. blocks (theme_selector tid) css = [b]")
  case True
  then obtain b where b: "blocks (theme_selector tid) css = [b]" by blast
  have "(\<exists>st'. verifyTheme pow tid es thresholds css b st = Inr (ts, st') \<and> cs_errors st' = cs_errors st)
      \<longleftrightarrow> ts = parseCustomProperties b \<and> theme_ok pow ts css es thresholds"
    using verifyTheme_ok verifyTheme_tokens by blast
  then show ?thesis unfolding theme_block using b by auto
next
  case False
  have "cs_errors st' \<noteq> cs_errors st"
    if "verifyTheme pow tid es thresholds css block (fail_with [SelectorNotOnce tid] st) = Inr (ts, st')" for st'
    using verifyTheme_adds [OF that] by (auto simp: fail_with_def)
  then show ?thesis using False unfolding theme_block by auto
qed

section \<open>Contract and themes together\<close>

lemma those_all: "\<forall>v\<in>set vs. f v \<noteq> None \<Longrightarrow> those (map f vs) = Some (map (the \<circ> f) vs)"
  by (induction vs) auto

lemma read_entry:
  assumes "entry_ok e"
  shows "\<exists>x sh. contract_entry_of e = Some x \<and> jget (js ''name'') e = JStr (ce_name x) \<and> map_of expectedContractShape (ce_name x) = Some sh
    \<and> ce_type x = sh_type sh \<and> ce_class x = sh_class sh \<and> mset (ce_allowedOn x) = mset (sh_allowedOn sh) \<and> ce_opaque x = sh_opaque sh"
proof -
  obtain n sh ns where e: "jget (js ''name'') e = JStr n" "map_of expectedContractShape n = Some sh"
    "jget (js ''type'') e = JStr (sh_type sh)" "jget (js ''contrastClass'') e = JStr (sh_class sh)"
    "jget (js ''allowedOn'') e = JArr (map JStr ns)" "mset ns = mset (sh_allowedOn sh)"
    "jget (js ''opaque'') e = JBool (sh_opaque sh) \<or> jget (js ''opaque'') e = JUndef \<and> \<not> sh_opaque sh"
    using assms by (auto simp: entry_ok_def)
  have "string_values (map JStr ns) = Some ns" by (simp add: string_values_iff)
  then show ?thesis using e by (auto simp: contract_entry_of_def truthy_json_def simp del: js_Cons)
qed

text \<open>The check of the themes reads every accepted contract as what it says.\<close>

lemma accepted_contract_read:
  assumes "contract_ok c"
  shows "\<exists>es. contract_entries c = Some es
    \<and> (\<forall>n sh. map_of expectedContractShape n = Some sh \<longrightarrow> (\<exists>e\<in>set es. ce_name e = n \<and> ce_type e = sh_type sh
         \<and> ce_class e = sh_class sh \<and> set (ce_allowedOn e) = set (sh_allowedOn sh) \<and> ce_opaque e = sh_opaque sh))"
proof -
  obtain vs where vs: "jget (js ''entries'') c = JArr vs" "jget (js ''name'') ` set vs = JStr ` set requiredNames" "\<forall>e\<in>set vs. entry_ok e"
    using assms unfolding contract_ok_def by blast
  have "\<forall>v\<in>set vs. contract_entry_of v \<noteq> None" using vs(3) read_entry by force
  then have es: "contract_entries c = Some (map (the \<circ> contract_entry_of) vs)"
    by (simp add: contract_entries_def vs(1) those_all del: js_Cons)
  have "\<exists>e\<in>set (map (the \<circ> contract_entry_of) vs). ce_name e = n \<and> ce_type e = sh_type sh
         \<and> ce_class e = sh_class sh \<and> set (ce_allowedOn e) = set (sh_allowedOn sh) \<and> ce_opaque e = sh_opaque sh"
    if n: "map_of expectedContractShape n = Some sh" for n sh
  proof -
    have "JStr n \<in> jget (js ''name'') ` set vs" using shape_fields(1) [OF n] vs(2) by simp
    then obtain v where v: "v \<in> set vs" "jget (js ''name'') v = JStr n" by force
    with vs(3) read_entry [of v] n obtain x where x: "contract_entry_of v = Some x" "ce_name x = n" "ce_type x = sh_type sh"
      "ce_class x = sh_class sh" "mset (ce_allowedOn x) = mset (sh_allowedOn sh)" "ce_opaque x = sh_opaque sh"
      by auto
    from x(5) have "set (ce_allowedOn x) = set (sh_allowedOn sh)" by (metis set_mset_mset)
    with v(1) x show ?thesis by (intro bexI [of _ x]) (auto intro!: rev_image_eqI [of v])
  qed
  with es show ?thesis by blast
qed

text \<open>What a reader of the site gets from both checks: every pair of text and surface the table allows has its contrast.\<close>

lemma accepted_pairs_contrast:
  assumes "contract_ok c" and "contract_entries c = Some es" and "theme_ok pow ts css es (contract_threshold c)"
    and "map_of expectedContractShape n = Some sh" and "b \<in> set (sh_allowedOn sh)"
  shows "(sh_class sh = js ''text'' \<longrightarrow> (\<exists>r. ratio_at pow ts n b r \<and> \<not> num_less r (Fin (9 / 2))))
    \<and> (sh_class sh = js ''nonText'' \<longrightarrow> (\<exists>r. ratio_at pow ts n b r \<and> \<not> num_less r (Fin 3)))"
proof -
  obtain e where e: "e \<in> set es" "ce_name e = n" "ce_class e = sh_class sh" "set (ce_allowedOn e) = set (sh_allowedOn sh)"
  proof -
    obtain es' where "contract_entries c = Some es'" and all: "\<forall>n sh. map_of expectedContractShape n = Some sh \<longrightarrow>
        (\<exists>e\<in>set es'. ce_name e = n \<and> ce_type e = sh_type sh \<and> ce_class e = sh_class sh
           \<and> set (ce_allowedOn e) = set (sh_allowedOn sh) \<and> ce_opaque e = sh_opaque sh)"
      using accepted_contract_read [OF assms(1)] by blast
    with assms(2) have "es' = es" by simp
    with all assms(4) that show thesis by blast
  qed
  have thresholds: "contract_threshold c (js ''text'') = Some (Fin (9 / 2))" "contract_threshold c (js ''nonText'') = Some (Fin 3)"
    using assms(1) by (simp_all add: contract_ok_def contract_threshold_def del: js_Cons)
  have "\<exists>r. ratio_at pow ts n b r \<and> \<not> num_less r t" if "contract_threshold c (sh_class sh) = Some t" for t
    using assms(3,5) e that unfolding theme_ok_def by metis
  with thresholds show ?thesis by metis
qed

text \<open>A channel that is no number, like \<open>1.2.3\<close>, is matched by the pattern for colours and makes the contrast \<open>NaN\<close>, of which no
  comparison holds: the pair counts as checked and no error is reported. The hypothesis is what the language says of the power of \<open>NaN\<close>.\<close>

lemma malformed_channel_accepted:
  assumes "\<And>x. pow NaN x = NaN" and "col_a g = Fin 1"
  shows "\<exists>c. parseColorValue (js ''rgb(1.2.3, 0, 0)'') = Inr c \<and> contrastRatio pow c g = Inr NaN \<and> \<not> num_less NaN t"
proof -
  have "hex_color (js ''rgb(1.2.3, 0, 0)'') = None" "rgba_parts (js ''rgb(1.2.3, 0, 0)'') = Some (map js [''1.2.3'', ''0'', ''0''])"
    "Number_of (js ''1.2.3'') = NaN" by code_simp+
  then obtain c where c: "parseColorValue (js ''rgb(1.2.3, 0, 0)'') = Inr c" "col_r c = NaN" "col_a c = Fin 1"
    by (simp add: parseColorValue_def Let_def del: js_Cons)
  have "linearChannel pow NaN = NaN" by (simp add: linearChannel_def num_le_def num_plus_def assms(1))
  then have "luminance pow c = NaN" by (simp add: luminance_def c(2) num_plus_def)
  then have "contrastRatio pow c g = Inr NaN"
    by (simp add: contrastRatio_def c(3) assms(2) math_max_def math_min_def num_plus_def)
  with c(1) show ?thesis by simp
qed

text \<open>The walk over the package succeeds exactly when no link is anywhere in it.\<close>

lemma no_symlinks_iff: "(\<exists>xs. verifyNoSymlinks dir (TreeDir es) = Inr xs) \<longleftrightarrow> \<not> has_link (TreeDir es)"
proof -
  have "(\<exists>xs. verifyNoSymlinks dir t = Inr xs) \<longleftrightarrow> \<not> has_link t" if "t = TreeDir es" for t es
    using that
  proof (induction dir t arbitrary: es rule: verifyNoSymlinks.induct)
    case (1 dir entries)
    have "(\<exists>xs. (case t of TreeLink \<Rightarrow> Inl (LinkInPackage (below dir name)) | TreeDir _ \<Rightarrow> verifyNoSymlinks (below dir name) t
        | _ \<Rightarrow> Inr []) = Inr xs) \<longleftrightarrow> \<not> has_link t" if "(name, t) \<in> set entries" for name t
      using "1.IH" [OF that] by (cases t) (auto simp del: verifyNoSymlinks.simps(1) has_link.simps(1))
    then show ?case unfolding verifyNoSymlinks.simps concat_results_ok by (force simp: list_ex_iff)
  qed simp_all
  then show ?thesis by blast
qed

end
