(* ===== verification/Package_Properties.thy ===== *)
theory Package_Properties
  imports Design_Package Theme_Properties
begin

text \<open>
  What a package must be like for \<open>verifyPackage\<close> to accept it, and what the readers of the repository can rely on
  when the whole check has passed.
\<close>

section \<open>Lists of errors\<close>

lemma records_iff: "records v = Inr vs \<longleftrightarrow> v = JArr vs \<and> JNull \<notin> set vs"
  by (auto simp: records_def split: json.splits)

lemma uncaught_Inr [simp]: "uncaught r = Inr x \<longleftrightarrow> r = Inr x"
  by (cases r) (auto simp: uncaught_def)

lemma check_fs_Inr [simp]: "check_fs r = Inr x \<longleftrightarrow> r = Inr x"
  by (cases r) (auto simp: check_fs_def)

lemma if_empty [simp]: "(if P then [x] else []) = [] \<longleftrightarrow> \<not> P" "(if P then [] else [x]) = [] \<longleftrightarrow> P"
  by simp_all

lemma list_ex_same_string: "list_ex (same_value (JStr s)) vs \<longleftrightarrow> JStr s \<in> set vs" "list_ex (\<lambda>a. same_value v (JStr a)) ss \<longleftrightarrow> v \<in> JStr ` set ss"
  by (auto simp: list_ex_iff)

lemma expected_not_managed: "p \<in> set expectedPackageFiles \<Longrightarrow> \<not> managed_path p"
proof -
  have "list_all (\<lambda>p. \<not> managed_path p) expectedPackageFiles" by code_simp
  then show "p \<in> set expectedPackageFiles \<Longrightarrow> \<not> managed_path p" by (simp add: list_all_iff)
qed

lemma expected_distinct: "distinct expectedPackageFiles"
  by code_simp

section \<open>The files of the package\<close>

definition file_record_ok :: "json \<Rightarrow> bool" where
  "file_record_ok file \<longleftrightarrow> nonempty_string (jget (js ''role'') file)
     \<and> (jget (js ''generated'') file = JBool True \<longrightarrow> jget (js ''path'') file \<in> {JStr (js ''tokens.css''), JStr (js ''design-tokens.json'')})"

definition package_head_ok :: "json \<Rightarrow> bool" where
  "package_head_ok pkg \<longleftrightarrow> truthy_json (jget (js ''provenance'') pkg) \<and> truthy_json (jget (js ''modified'') pkg)
     \<and> jget (js ''schemaVersion'') pkg = JNum (Fin 1) \<and> jget (js ''name'') pkg = JStr (js ''cherry-oj-web-design-system'')
     \<and> jget (js ''version'') pkg = JStr (js ''2.0.0'') \<and> JSON_text (jget (js ''entrypoints'') pkg) = JSON_text expectedEntrypoints
     \<and> JSON_text (jget (js ''managedFiles'') pkg) = JSON_text expectedManagedFiles"

text \<open>Files are registered that are there, and nothing else is there; each can be read and carries what its kind asks for.\<close>

definition files_ok :: "files \<Rightarrow> jsstr \<Rightarrow> jsstr \<Rightarrow> tree \<Rightarrow> jsstr list \<Rightarrow> bool" where
  "files_ok F dir rootReal package managed \<longleftrightarrow>
     (\<exists>actual. listFiles [] package = Inr actual \<and> set actual = set expectedPackageFiles \<union> set managed
        \<and> (\<forall>p\<in>set actual. \<exists>content. readText F dir rootReal p = Inr content \<and> file_faults p content = []))"

definition licenses_ok :: "(jsstr \<Rightarrow> jsstr) \<Rightarrow> files \<Rightarrow> jsstr \<Rightarrow> jsstr \<Rightarrow> jsstr \<Rightarrow> bool" where
  "licenses_ok digest F dir rootReal legalDir \<longleftrightarrow>
     (\<exists>q license notice fonts. resolveInputPath F dir rootReal (js ''LICENSE.open-design'') = Inr q \<and> readFile F q = Inr license
        \<and> digest q = licenseHash \<and> readText F dir rootReal (js ''NOTICE.md'') = Inr notice \<and> (\<forall>t\<in>set noticeTexts. includes_str notice t)
        \<and> readText F dir rootReal (js ''LICENSE.fonts'') = Inr fonts \<and> (\<forall>t\<in>set fontTexts. includes_str fonts t)
        \<and> readDistributionFile F legalDir (js ''LICENSE.open-design'') = Inr license
        \<and> readDistributionFile F legalDir (js ''LICENSE.fonts'') = Inr fonts \<and> readDistributionFile F legalDir (js ''NOTICE.md'') = Inr notice)"

definition package_ok :: "(jsstr \<Rightarrow> jsstr) \<Rightarrow> files \<Rightarrow> jsstr \<Rightarrow> jsstr \<Rightarrow> jsstr \<Rightarrow> tree \<Rightarrow> json \<Rightarrow> json \<Rightarrow> bool" where
  "package_ok digest F dir rootReal legalDir package pkg m \<longleftrightarrow> pkg \<noteq> JNull \<and> package_head_ok pkg
     \<and> (\<exists>files. jget (js ''files'') pkg = JArr files \<and> JNull \<notin> set files \<and> map (jget (js ''path'')) files = map JStr expectedPackageFiles
          \<and> (\<forall>f\<in>set files. file_record_ok f))
     \<and> (\<exists>themes managed. jget (js ''themes'') m = JArr themes \<and> JNull \<notin> set themes \<and> map (jget (js ''file'')) themes = map JStr managed
          \<and> distinct managed \<and> (\<forall>p\<in>set managed. managed_path p) \<and> files_ok F dir rootReal package managed)
     \<and> licenses_ok digest F dir rootReal legalDir"

lemma package_head_empty:
  "package_head pkg = [] \<and> JSON_text (jget (js ''entrypoints'') pkg) = JSON_text expectedEntrypoints
     \<and> JSON_text (jget (js ''managedFiles'') pkg) = JSON_text expectedManagedFiles \<longleftrightarrow> package_head_ok pkg"
  by (auto simp: package_head_def package_head_ok_def simp del: js_Cons)

lemma license_errors_empty: "license_errors digest F dir rootReal legalDir = Inr [] \<longleftrightarrow> licenses_ok digest F dir rootReal legalDir"
  unfolding license_errors_def licenses_ok_def bind_result_Inr_iff uncaught_Inr check_fs_Inr
  by (auto simp: filter_empty_conv simp del: js_Cons)

lemma later_strings [simp]: "later_values [] (map JStr ss) = [] \<longleftrightarrow> distinct ss"
  using later_values_strings [of "map JStr ss" "[]"] by (auto simp: distinct_map inj_on_def)

lemma file_record_errors_empty: "file_record_errors f = [] \<longleftrightarrow> nonempty_string (jget (js ''path'') f) \<and> file_record_ok f"
  by (auto simp: file_record_errors_def file_record_ok_def Let_def simp del: js_Cons)

lemma static_errors_empty:
  "static_errors files (map (jget (js ''path'')) files) = []
   \<longleftrightarrow> map (jget (js ''path'')) files = map JStr expectedPackageFiles \<and> (\<forall>f\<in>set files. file_record_ok f)"
proof (cases "map (jget (js ''path'')) files = map JStr expectedPackageFiles")
  case True
  have "list_all (\<lambda>p. p \<noteq> []) expectedPackageFiles" by code_simp
  then have "\<forall>v\<in>set (map JStr expectedPackageFiles). nonempty_string v" by (simp add: nonempty_string_def list_all_iff)
  then have "\<forall>f\<in>set files. nonempty_string (jget (js ''path'') f)" unfolding True [symmetric] by simp
  then show ?thesis unfolding static_errors_def True by (simp add: file_record_errors_empty expected_distinct)
qed (simp add: static_errors_def)

lemma managed_errors_empty:
  "managed_errors (map JStr expectedPackageFiles) (map JStr managed) = [] \<longleftrightarrow> distinct managed \<and> (\<forall>p\<in>set managed. managed_path p)"
  using expected_not_managed by (fastforce simp: managed_errors_def list_ex_same_string)

lemma registration_errors_empty:
  "registration_errors actual paths = [] \<longleftrightarrow> set paths = JStr ` set actual"
  unfolding registration_errors_def sorted_paths_def list_ex_same_string(1)
  by (auto simp: filter_empty_conv list_ex_iff)

lemma registered_file_errors_empty:
  "registered_file_errors F dir rootReal (JStr p) = [] \<longleftrightarrow> (\<exists>content. readText F dir rootReal p = Inr content \<and> file_faults p content = [])"
  by (simp add: registered_file_errors_def read_path_def split: sum.split)

lemma strings_iff: "set vs \<subseteq> range JStr \<longleftrightarrow> (\<exists>ss. vs = map JStr ss)"
proof
  assume "set vs \<subseteq> range JStr"
  then have "\<forall>v\<in>set vs. v = JStr (json_string v)" by auto
  then show "\<exists>ss. vs = map JStr ss" by (intro exI [of _ "map json_string vs"]) (simp add: map_idI)
qed auto

lemma paths_errors_empty:
  "managed_errors (map JStr expectedPackageFiles) vs = [] \<and> registration_errors actual (map JStr expectedPackageFiles @ vs) = []
     \<and> (\<forall>p\<in>set (map JStr expectedPackageFiles @ vs). registered_file_errors F dir rootReal p = [])
   \<longleftrightarrow> (\<exists>managed. vs = map JStr managed \<and> distinct managed \<and> (\<forall>p\<in>set managed. managed_path p)
        \<and> set actual = set expectedPackageFiles \<union> set managed
        \<and> (\<forall>p\<in>set actual. \<exists>content. readText F dir rootReal p = Inr content \<and> file_faults p content = []))"
proof (cases "\<exists>managed. vs = map JStr managed")
  case True
  then obtain managed where vs: "vs = map JStr managed" by blast
  have "map JStr managed = map JStr managed' \<longleftrightarrow> managed' = managed" for managed' by (auto simp: inj_map_eq_map inj_def)
  moreover have "JStr ` set expectedPackageFiles \<union> JStr ` set managed = JStr ` set actual \<longleftrightarrow> set actual = set expectedPackageFiles \<union> set managed"
    unfolding image_Un [symmetric] by (auto simp: inj_image_eq_iff inj_def)
  ultimately show ?thesis
    unfolding vs managed_errors_empty registration_errors_empty by (auto simp: registered_file_errors_empty ball_Un)
next
  case False
  then have "registration_errors actual (map JStr expectedPackageFiles @ vs) \<noteq> []"
    unfolding registration_errors_empty strings_iff [symmetric] by auto
  with False show ?thesis by blast
qed

lemma verifyPackage_ok_iff:
  "verifyPackage digest F dir rootReal legalDir package pkg m = Inr [] \<longleftrightarrow> package_ok digest F dir rootReal legalDir package pkg m"
proof (cases "jget (js ''files'') pkg")
  case (JArr files)
  let ?files = "map (jget (js ''path'')) files"
  have "verifyPackage digest F dir rootReal legalDir package pkg m = Inr [] \<longleftrightarrow> pkg \<noteq> JNull \<and> JNull \<notin> set files \<and> package_head_ok pkg
     \<and> static_errors files ?files = []
     \<and> (\<exists>themes actual. jget (js ''themes'') m = JArr themes \<and> JNull \<notin> set themes \<and> listFiles [] package = Inr actual
          \<and> managed_errors ?files (map (jget (js ''file'')) themes) = []
          \<and> registration_errors actual (?files @ map (jget (js ''file'')) themes) = []
          \<and> (\<forall>p\<in>set (?files @ map (jget (js ''file'')) themes). registered_file_errors F dir rootReal p = []))
     \<and> licenses_ok digest F dir rootReal legalDir"
    unfolding license_errors_empty [symmetric] package_head_empty [symmetric]
    by (auto simp: verifyPackage_def JArr bind_result_Inr_iff records_iff Let_def simp del: js_Cons)
  also have "\<dots> \<longleftrightarrow> pkg \<noteq> JNull \<and> JNull \<notin> set files \<and> package_head_ok pkg
     \<and> ?files = map JStr expectedPackageFiles \<and> (\<forall>f\<in>set files. file_record_ok f)
     \<and> (\<exists>themes actual. jget (js ''themes'') m = JArr themes \<and> JNull \<notin> set themes \<and> listFiles [] package = Inr actual
          \<and> (\<exists>managed. map (jget (js ''file'')) themes = map JStr managed \<and> distinct managed \<and> (\<forall>p\<in>set managed. managed_path p)
               \<and> set actual = set expectedPackageFiles \<union> set managed
               \<and> (\<forall>p\<in>set actual. \<exists>content. readText F dir rootReal p = Inr content \<and> file_faults p content = [])))
     \<and> licenses_ok digest F dir rootReal legalDir"
    unfolding static_errors_empty paths_errors_empty [symmetric]
    by (cases "?files = map JStr expectedPackageFiles") (simp_all only: simp_thms)
  also have "\<dots> \<longleftrightarrow> package_ok digest F dir rootReal legalDir package pkg m"
    unfolding package_ok_def files_ok_def JArr json.inject by blast
  finally show ?thesis .
qed (auto simp: verifyPackage_def package_ok_def bind_result_Inr_iff simp del: js_Cons)

section \<open>The whole check\<close>

lemma output_errors_empty:
  "output_errors F dir rootReal outs = Inr [] \<Longrightarrow> (p, c) \<in> set outs \<Longrightarrow> c \<noteq> [] \<Longrightarrow> readText F dir rootReal p = Inr c"
proof (induction outs)
  case (Cons x outs)
  obtain q d where x: "x = (q, d)" by (cases x)
  from Cons.prems(1) obtain a where a: "(case readText F dir rootReal q of Inr t \<Rightarrow> Inr t
      | Inl e \<Rightarrow> if e = BuildFs ENOENT then Inr [] else Inl (UncaughtBuild e)) = Inr a" "output_errors F dir rootReal outs = Inr []" "a = d"
    unfolding x by (auto simp: bind_result_Inr_iff split: if_splits)
  show ?case
  proof (cases "(p, c) = (q, d)")
    case True
    with a(1,3) Cons.prems(3) show ?thesis by (auto split: sum.splits if_splits)
  next
    case False
    with Cons.prems(2) have "(p, c) \<in> set outs" by (auto simp: x)
    with Cons.IH [OF a(2)] Cons.prems(3) show ?thesis by blast
  qed
qed simp

lemma generated_nonempty: "generateOutputs F dir rootReal = Inr outs \<Longrightarrow> (p, c) \<in> set outs \<Longrightarrow> c \<noteq> []"
  by (auto simp: generateOutputs_def generatedJson_def generatedCss_def bind_result_Inr_iff)

lemma outputs_current:
  assumes "verifyGeneratedOutputs F dir rootReal = Inr []"
  shows "\<exists>outs. generateOutputs F dir rootReal = Inr outs \<and> (\<forall>(p, c)\<in>set outs. readText F dir rootReal p = Inr c)"
  using assms output_errors_empty generated_nonempty by (fastforce simp: verifyGeneratedOutputs_def split: sum.splits)

text \<open>A theme whose source has one block for its selector, with its colour scheme, and is what the contract asks for.\<close>

definition theme_source_ok :: "power \<Rightarrow> files \<Rightarrow> jsstr \<Rightarrow> jsstr \<Rightarrow> contract_entry list \<Rightarrow> (jsstr \<Rightarrow> number option) \<Rightarrow> json \<Rightarrow> bool" where
  "theme_source_ok pow F dir rootReal entries thresholds t \<longleftrightarrow>
     (\<exists>text block. read_path F dir rootReal (jget (js ''file'') t) = Inr text
        \<and> blocks (theme_selector (json_string (jget (js ''id'') t))) (stripCssComments text) = [block]
        \<and> map JStr (scheme_declarations True block) = [jget (js ''colorScheme'') t]
        \<and> theme_ok pow (parseCustomProperties block) (stripCssComments text) entries thresholds
        \<and> \<not> contains_value (purple_values @ retired_values) (stripCssComments text))"

lemma theme_pass_empty:
  assumes "theme_pass pow F dir rootReal entries thresholds t st = Inr ([], st')"
  shows "theme_source_ok pow F dir rootReal entries thresholds t"
proof -
  obtain src where src: "read_path F dir rootReal (jget (js ''file'') t) = Inr src"
    using assms by (auto simp: theme_pass_def bind_result_Inr_iff simp del: js_Cons)
  let ?css = "stripCssComments src" and ?tid = "json_string (jget (js ''id'') t)"
  obtain block st1 where ex: "extractThemeSelectorBlock ?tid ?css (st\<lparr>cs_errors := []\<rparr>) = (block, st1)" by fastforce
  obtain ts st2 where v: "verifyTheme pow ?tid entries thresholds ?css block (st1\<lparr>cs_errors := []\<rparr>) = Inr (ts, st2)"
    and none: "cs_errors st1 = []" "map JStr (scheme_declarations True block) = [jget (js ''colorScheme'') t]" "cs_errors st2 = []"
      "\<not> contains_value purple_values ?css" "\<not> contains_value retired_values ?css"
    using assms by (auto simp: theme_pass_def bind_result_Inr_iff src ex Let_def simp del: js_Cons split: if_splits)
  have "blocks (theme_selector ?tid) ?css = [block]"
    using ex none(1) by (auto simp: extractThemeSelectorBlock_def fail_with_def split: list.splits)
  moreover have "ts = parseCustomProperties block" by (rule verifyTheme_tokens [OF v])
  then have "theme_ok pow (parseCustomProperties block) ?css entries thresholds"
    using v none(3) verifyTheme_ok [of pow ?tid entries thresholds ?css block "st1\<lparr>cs_errors := []\<rparr>"] by auto
  moreover have "\<not> contains_value (purple_values @ retired_values) ?css" using none(4,5) by (simp add: contains_value_def)
  ultimately show ?thesis using src none(2) unfolding theme_source_ok_def by (intro exI [of _ src] exI [of _ block] conjI)
qed

lemma theme_passes_empty:
  "theme_passes pow F dir rootReal entries thresholds ts st = Inr ([], st') \<Longrightarrow> t \<in> set ts \<Longrightarrow>
   theme_source_ok pow F dir rootReal entries thresholds t"
  by (induction ts arbitrary: st) (auto simp: bind_result_Inr_iff intro: theme_pass_empty)

lemma no_links: "verifyNoSymlinks [] package = Inr xs \<Longrightarrow> \<not> has_link package"
  using no_symlinks_iff [of "[]"] by (cases package) auto

text \<open>
  When the whole check passes, there is no link in the package; the contract is the required one; every registered theme
  meets it; the generated files are what the build would write now, which implies that the build accepts both manifests; and the
  package is complete.
\<close>

lemma passed_check_promises:
  assumes "check_run pow digest F dir rootReal legalDir package = Inr []"
  shows "\<exists>contract m pkg entries. \<not> has_link package
    \<and> readJsonInput F dir rootReal contract_file = Inr contract \<and> readJsonInput F dir rootReal manifest_name = Inr m
    \<and> contract_ok contract \<and> contract_entries contract = Some entries
    \<and> (\<forall>t\<in>set (registered_themes m). theme_source_ok pow F dir rootReal entries (contract_threshold contract) t)
    \<and> (\<exists>outs. generateOutputs F dir rootReal = Inr outs \<and> (\<forall>(p, c)\<in>set outs. readText F dir rootReal p = Inr c))
    \<and> validateInputs m contract = Inr () \<and> package_ok digest F dir rootReal legalDir package pkg m"
proof -
  obtain links contract m pkg themes st where
    r: "verifyNoSymlinks [] package = Inr links" "readJsonInput F dir rootReal contract_file = Inr contract"
      "readJsonInput F dir rootReal manifest_name = Inr m" "verifyContract contract = Inr []" "records (jget (js ''themes'') m) = Inr themes"
      "(case contract_entries contract of
         None \<Rightarrow> Inr ([], initial_check)
       | Some entries \<Rightarrow> theme_passes pow F dir rootReal entries (contract_threshold contract) themes initial_check) = Inr ([], st)"
      "verifyGeneratedOutputs F dir rootReal = Inr []" "verifyPackage digest F dir rootReal legalDir package pkg m = Inr []"
    using assms unfolding check_run_def by (auto simp: bind_result_Inr_iff simp del: js_Cons)
  have c: "contract_ok contract" using r(4) verifyContract_ok_iff by blast
  then obtain entries where entries: "contract_entries contract = Some entries" using accepted_contract_read by blast
  have "registered_themes m = themes" using r(5) by (simp add: records_iff registered_themes_def del: js_Cons)
  then have "\<forall>t\<in>set (registered_themes m). theme_source_ok pow F dir rootReal entries (contract_threshold contract) t"
    using r(6) theme_passes_empty unfolding entries by auto
  moreover have "\<exists>outs. generateOutputs F dir rootReal = Inr outs \<and> (\<forall>(p, c)\<in>set outs. readText F dir rootReal p = Inr c)"
    by (rule outputs_current [OF r(7)])
  moreover from this have "validateInputs m contract = Inr ()"
    using r(2,3) unfolding generateOutputs_def bind_result_Inr_iff by auto
  moreover have "package_ok digest F dir rootReal legalDir package pkg m" using r(8) verifyPackage_ok_iff by blast
  ultimately show ?thesis using no_links [OF r(1)] r(2,3) c entries by blast
qed

text \<open>
  C33. A package is accepted, without an error and without an exception, exactly when it is complete and nothing else: its
  manifest has the fixed head and lists the fixed files in their order; the registered themes have distinct files of
  their own in the directory of the themes; the files that are there are exactly those two groups, each can be read,
  carries the notice or the metadata its kind asks for and names no local path; and licence and notices are the fixed
  ones, with identical copies beside the site.
\<close>

theorem package_accepted_iff:
  "verifyPackage digest F dir rootReal legalDir package pkg m = Inr [] \<longleftrightarrow> package_ok digest F dir rootReal legalDir package pkg m"
  by (rule verifyPackage_ok_iff)

end
