(* ===== verification/Ui_Components.thy ===== *)
theory Ui_Components
  imports Js_Text
begin

text \<open>
  The components that hold text between its owner and a third-party editor: \<open>components/ui/text-editor.tsx\<close> around
  CodeMirror, \<open>code-editor.tsx\<close> with \<open>code-editor-runtime.ts\<close> around Monaco; and the wiring of a form field,
  \<open>field.tsx\<close>. The libraries appear as the document they show, the flags they report and the events they send.
  CodeMirror splits a text into lines at each line break and joins them with line feeds. For Monaco, \<open>create\<close> is
  the text of a model that \<open>createModel\<close> was given a text for, and \<open>edit\<close> what \<open>executeEdits\<close> makes of a document.
  The owner gives back as value what it is told, as every page does that uses these components. The theorems say that
  the owner has the text that is shown, up to line breaks, that no candidate of an input method reaches it, and that
  no editor outlives its place on the page.
\<close>

section \<open>Line breaks\<close>

text \<open>The text of the lines between \<open>\r\n\<close>, \<open>\r\<close> and \<open>\n\<close>, joined with \<open>\n\<close>.\<close>

function line_feeds :: "jsstr \<Rightarrow> jsstr" where
  "line_feeds [] = []"
| "line_feeds (c # s) =
     (if c = 13 then 10 # line_feeds (if s \<noteq> [] \<and> hd s = 10 then tl s else s) else c # line_feeds s)"
  by pat_completeness auto
termination
  by (relation "measure length") auto

section \<open>The text editor\<close>

record text_editor =
  te_mounted :: bool
  te_editable :: bool
  te_doc :: jsstr
  compositionStarted :: bool
  composing :: bool
  compositionFrame :: bool
  lastReported :: jsstr
  te_value :: jsstr
  te_reports :: "jsstr list"

definition open_text_editor :: "jsstr \<Rightarrow> bool \<Rightarrow> bool \<Rightarrow> text_editor" where
  "open_text_editor v readOnly disabled =
     \<lparr>te_mounted = True, te_editable = (\<not> readOnly \<and> \<not> disabled), te_doc = line_feeds v, compositionStarted = False, composing = False,
      compositionFrame = False, lastReported = v, te_value = v, te_reports = []\<rparr>"

definition notifyChange :: "text_editor \<Rightarrow> text_editor" where
  "notifyChange s =
     (if te_doc s = lastReported s then s
      else s\<lparr>lastReported := te_doc s, te_reports := te_reports s @ [te_doc s], te_value := te_doc s\<rparr>)"

text \<open>A change the library makes for the user, and the listener that follows it.\<close>

definition updateListener :: "jsstr \<Rightarrow> text_editor \<Rightarrow> text_editor" where
  "updateListener t s =
     (if \<not> te_mounted s \<or> \<not> te_editable s \<or> te_doc s = line_feeds t then s
      else if composing s \<or> compositionStarted s then s\<lparr>te_doc := line_feeds t\<rparr>
      else notifyChange (s\<lparr>te_doc := line_feeds t\<rparr>))"

definition beginComposition :: "text_editor \<Rightarrow> text_editor" where
  "beginComposition s =
     (if te_mounted s then s\<lparr>composing := True, compositionStarted := True, compositionFrame := False\<rparr> else s)"

definition finishComposition :: "text_editor \<Rightarrow> text_editor" where
  "finishComposition s = (if te_mounted s then s\<lparr>compositionFrame := True\<rparr> else s)"

definition compositionFrameRuns :: "text_editor \<Rightarrow> text_editor" where
  "compositionFrameRuns s =
     (if \<not> compositionFrame s then s
      else if \<not> te_mounted s \<or> compositionStarted s then s\<lparr>compositionFrame := False\<rparr>
      else notifyChange (s\<lparr>compositionFrame := False, composing := False\<rparr>))"

text \<open>The effect on the value runs when the value is another one.\<close>

definition value_effect :: "jsstr \<Rightarrow> text_editor \<Rightarrow> text_editor" where
  "value_effect v s =
     (if v = te_value s then s
      else if \<not> te_mounted s \<or> composing s \<or> compositionStarted s \<or> te_doc s = v then s\<lparr>te_value := v\<rparr>
      else s\<lparr>te_value := v, te_doc := line_feeds v, lastReported := v\<rparr>)"

text \<open>The effect on the settings reconfigures the editor that is there.\<close>

definition reconfigure :: "bool \<Rightarrow> bool \<Rightarrow> text_editor \<Rightarrow> text_editor" where
  "reconfigure readOnly disabled s =
     (if te_mounted s then s\<lparr>te_editable := (\<not> readOnly \<and> \<not> disabled)\<rparr> else s)"

definition unmount_text_editor :: "text_editor \<Rightarrow> text_editor" where
  "unmount_text_editor s = s\<lparr>compositionFrame := False, composing := False, te_mounted := False\<rparr>"

datatype text_editor_op = UserEdits jsstr | CompositionStart | CompositionEnd | LibraryFinishes | FrameRuns | GiveValue jsstr
  | Reconfigure bool bool | RemoveEditor

fun TextEditor :: "text_editor_op \<Rightarrow> text_editor \<Rightarrow> text_editor" where
  "TextEditor (UserEdits t) s = updateListener t s"
| "TextEditor CompositionStart s = beginComposition s"
| "TextEditor CompositionEnd s = finishComposition s"
| "TextEditor LibraryFinishes s = s\<lparr>compositionStarted := False\<rparr>"
| "TextEditor FrameRuns s = compositionFrameRuns s"
| "TextEditor (GiveValue v) s = value_effect v s"
| "TextEditor (Reconfigure readOnly disabled) s = reconfigure readOnly disabled s"
| "TextEditor RemoveEditor s = unmount_text_editor s"

section \<open>The code editor\<close>

record code_settings =
  cs_readOnly :: bool
  cs_cpp :: bool

record code_view =
  cv_doc :: jsstr
  cv_composing :: bool
  cv_settings :: code_settings

datatype load_phase = Importing | Creating jsstr code_settings

datatype load_status = EditorLoading | EditorReady | EditorError

text \<open>\<open>loads\<close> are the attempts whose promises are not settled, \<open>live\<close> the views that were created and not disposed of.\<close>

record code_editor =
  ce_mounted :: bool
  ce_value :: jsstr
  ce_settings :: code_settings
  ce_attempt :: nat
  ce_status :: load_status
  ce_loads :: "(nat \<times> load_phase) list"
  ce_view :: "nat option"
  ce_live :: "(nat \<times> code_view) list"
  ce_reports :: "jsstr list"
  ce_loadErrors :: nat

definition open_code_editor :: "jsstr \<Rightarrow> code_settings \<Rightarrow> code_editor" where
  "open_code_editor v st =
     \<lparr>ce_mounted = True, ce_value = v, ce_settings = st, ce_attempt = 0, ce_status = EditorLoading, ce_loads = [(0, Importing)],
      ce_view = None, ce_live = [], ce_reports = [], ce_loadErrors = 0\<rparr>"

type_synonym create_model = "jsstr \<Rightarrow> jsstr"
type_synonym execute_edits = "bool \<Rightarrow> jsstr \<Rightarrow> jsstr \<Rightarrow> jsstr"

definition createCodeEditor :: "create_model \<Rightarrow> jsstr \<Rightarrow> code_settings \<Rightarrow> code_view" where
  "createCodeEditor create v st = \<lparr>cv_doc = create v, cv_composing = False, cv_settings = st\<rparr>"

definition handle_setValue :: "execute_edits \<Rightarrow> jsstr \<Rightarrow> code_view \<Rightarrow> code_view" where
  "handle_setValue edit v w =
     (if cv_composing w \<or> cv_doc w = v then w else w\<lparr>cv_doc := edit (cs_readOnly (cv_settings w)) (cv_doc w) v\<rparr>)"

definition updateSettings :: "code_settings \<Rightarrow> code_view \<Rightarrow> code_view" where
  "updateSettings st w = w\<lparr>cv_settings := st\<rparr>"

definition is_active :: "nat \<Rightarrow> code_editor \<Rightarrow> bool" where
  "is_active i s \<longleftrightarrow> ce_mounted s \<and> ce_attempt s = i"

definition on_view :: "(code_view \<Rightarrow> code_view) \<Rightarrow> code_editor \<Rightarrow> code_editor" where
  "on_view f s = s\<lparr>ce_live := map (\<lambda>(i, w). (i, if ce_view s = Some i then f w else w)) (ce_live s)\<rparr>"

definition settle_load :: "nat \<Rightarrow> code_editor \<Rightarrow> code_editor" where
  "settle_load i s = s\<lparr>ce_loads := filter (\<lambda>l. fst l \<noteq> i) (ce_loads s)\<rparr>"

definition dispose_owned :: "nat \<Rightarrow> code_editor \<Rightarrow> code_editor" where
  "dispose_owned i s = s\<lparr>ce_live := filter (\<lambda>l. fst l \<noteq> i) (ce_live s)\<rparr>"

text \<open>The handler of a failure, for the import as for the creation.\<close>

definition load_fails :: "nat \<Rightarrow> code_editor \<Rightarrow> code_editor" where
  "load_fails i s =
     (if is_active i s
      then (dispose_owned i (settle_load i s))\<lparr>ce_view := None, ce_status := EditorError, ce_loadErrors := ce_loadErrors s + 1\<rparr>
      else settle_load i s)"

definition import_ends :: "nat \<Rightarrow> bool \<Rightarrow> code_editor \<Rightarrow> code_editor" where
  "import_ends i ok s =
     (if map_of (ce_loads s) i \<noteq> Some Importing then s
      else if \<not> ok then load_fails i s
      else if \<not> is_active i s then settle_load i s
      else (settle_load i s)\<lparr>ce_loads := (i, Creating (ce_value s) (ce_settings s)) # ce_loads (settle_load i s)\<rparr>)"

text \<open>A view that comes too late is disposed of at once; one that comes in time takes the latest value and settings.\<close>

definition creation_ends :: "create_model \<Rightarrow> execute_edits \<Rightarrow> nat \<Rightarrow> bool \<Rightarrow> code_editor \<Rightarrow> code_editor" where
  "creation_ends create edit i ok s =
     (case map_of (ce_loads s) i of
        Some (Creating v st) \<Rightarrow>
          if \<not> ok then load_fails i s
          else if \<not> is_active i s then settle_load i s
          else (settle_load i s)\<lparr>ce_live := (i, updateSettings (ce_settings s) (handle_setValue edit (ce_value s) (createCodeEditor create v st))) # ce_live s,
                 ce_view := Some i, ce_status := EditorReady\<rparr>
      | _ \<Rightarrow> s)"

definition code_reports :: "jsstr \<Rightarrow> code_editor \<Rightarrow> code_editor" where
  "code_reports t s = s\<lparr>ce_value := t, ce_reports := ce_reports s @ [t]\<rparr>"

definition shown_view :: "code_editor \<Rightarrow> code_view option" where
  "shown_view s = Option.bind (ce_view s) (map_of (ce_live s))"

definition view_edits :: "jsstr \<Rightarrow> code_editor \<Rightarrow> code_editor" where
  "view_edits t s =
     (case shown_view s of
        None \<Rightarrow> s
      | Some w \<Rightarrow>
          if cs_readOnly (cv_settings w) \<or> cv_doc w = t then s
          else let s1 = on_view (\<lambda>w. w\<lparr>cv_doc := t\<rparr>) s in if cv_composing w then s1 else code_reports t s1)"

definition view_composes :: "code_editor \<Rightarrow> code_editor" where
  "view_composes s = on_view (\<lambda>w. w\<lparr>cv_composing := True\<rparr>) s"

definition view_composed :: "code_editor \<Rightarrow> code_editor" where
  "view_composed s =
     (case shown_view s of None \<Rightarrow> s | Some w \<Rightarrow> code_reports (cv_doc w) (on_view (\<lambda>w. w\<lparr>cv_composing := False\<rparr>) s))"

definition code_value :: "execute_edits \<Rightarrow> jsstr \<Rightarrow> code_editor \<Rightarrow> code_editor" where
  "code_value edit v s = (if v = ce_value s then s else on_view (handle_setValue edit v) (s\<lparr>ce_value := v\<rparr>))"

definition code_new_settings :: "code_settings \<Rightarrow> code_editor \<Rightarrow> code_editor" where
  "code_new_settings st s = on_view (updateSettings st) (s\<lparr>ce_settings := st\<rparr>)"

text \<open>What the effect of an attempt does when it ends.\<close>

definition end_attempt :: "code_editor \<Rightarrow> code_editor" where
  "end_attempt s = (dispose_owned (ce_attempt s) s)\<lparr>ce_view := (if ce_view s = Some (ce_attempt s) then None else ce_view s)\<rparr>"

definition retry_load :: "code_editor \<Rightarrow> code_editor" where
  "retry_load s =
     (if \<not> ce_mounted s \<or> ce_status s \<noteq> EditorError then s
      else (end_attempt s)\<lparr>ce_status := EditorLoading, ce_attempt := ce_attempt s + 1,
             ce_loads := (ce_attempt s + 1, Importing) # ce_loads s\<rparr>)"

definition unmount_code_editor :: "code_editor \<Rightarrow> code_editor" where
  "unmount_code_editor s = (if ce_mounted s then (end_attempt s)\<lparr>ce_mounted := False\<rparr> else s)"

datatype code_op = ImportEnds nat bool | CreationEnds nat bool | ViewEdits jsstr | ViewComposes | ViewComposed | CodeValue jsstr
  | CodeSettings code_settings | RetryLoad | RemoveCodeEditor

fun CodeEditor :: "create_model \<Rightarrow> execute_edits \<Rightarrow> code_op \<Rightarrow> code_editor \<Rightarrow> code_editor" where
  "CodeEditor create edit (ImportEnds i ok) s = import_ends i ok s"
| "CodeEditor create edit (CreationEnds i ok) s = creation_ends create edit i ok s"
| "CodeEditor create edit (ViewEdits t) s = view_edits t s"
| "CodeEditor create edit ViewComposes s = view_composes s"
| "CodeEditor create edit ViewComposed s = view_composed s"
| "CodeEditor create edit (CodeValue v) s = code_value edit v s"
| "CodeEditor create edit (CodeSettings st) s = code_new_settings st s"
| "CodeEditor create edit RetryLoad s = retry_load s"
| "CodeEditor create edit RemoveCodeEditor s = unmount_code_editor s"

section \<open>Form fields\<close>

text \<open>What React shows nothing for, texts, and other content.\<close>

datatype node = NoNode | FalseNode | TextNode jsstr | OtherNode

definition hasContent :: "node \<Rightarrow> bool" where
  "hasContent n \<longleftrightarrow> n \<noteq> NoNode \<and> n \<noteq> FalseNode \<and> n \<noteq> TextNode []"

definition mergeIds :: "jsstr option list \<Rightarrow> jsstr option" where
  "mergeIds ids =
     (let present = concat (map (\<lambda>i. case i of Some t \<Rightarrow> if t = [] then [] else [t] | None \<Rightarrow> []) ids)
      in if present = [] then None else Some (join [32] present))"

record field_child =
  fc_id :: "jsstr option"
  fc_disabled :: bool
  fc_required :: bool
  fc_describedBy :: "jsstr option"
  fc_invalid :: bool

record form_field =
  ff_control :: field_child
  ff_labelFor :: jsstr
  ff_description :: "jsstr option"
  ff_error :: "jsstr option"
  ff_invalid :: bool

definition FormField :: "jsstr \<Rightarrow> field_child \<Rightarrow> node \<Rightarrow> node \<Rightarrow> bool \<Rightarrow> bool \<Rightarrow> bool \<Rightarrow> form_field" where
  "FormField generatedId child description err invalid disabled required =
     (let controlId = (case fc_id child of Some i \<Rightarrow> i | None \<Rightarrow> js ''field-'' @ generatedId);
          descriptionId = (if hasContent description then Some (controlId @ js ''-description'') else None);
          errorId = (if hasContent err then Some (controlId @ js ''-error'') else None);
          isInvalid = (invalid \<or> hasContent err \<or> fc_invalid child);
          describedBy = mergeIds [fc_describedBy child, descriptionId, errorId]
      in \<lparr>ff_control = \<lparr>fc_id = Some controlId, fc_disabled = (disabled \<or> fc_disabled child), fc_required = (required \<or> fc_required child),
            fc_describedBy = (case describedBy of Some d \<Rightarrow> Some d | None \<Rightarrow> fc_describedBy child), fc_invalid = isInvalid\<rparr>,
          ff_labelFor = controlId, ff_description = descriptionId, ff_error = errorId, ff_invalid = isInvalid\<rparr>)"

text \<open>The messages of \<open>FieldError\<close>, each once; \<open>children\<close> come first.\<close>

definition unique_messages :: "jsstr option list \<Rightarrow> jsstr option list" where
  "unique_messages errors = rev (remdups (rev errors))"

datatype field_message = NoMessage | ShowsChildren | ShowsMessages "jsstr list"

definition FieldError :: "node \<Rightarrow> jsstr option list \<Rightarrow> field_message" where
  "FieldError children errors =
     (if hasContent children then ShowsChildren
      else if errors = [] then NoMessage
      else case unique_messages errors of
          [m] \<Rightarrow> (case m of Some t \<Rightarrow> if t = [] then NoMessage else ShowsMessages [t] | None \<Rightarrow> NoMessage)
        | ms \<Rightarrow> ShowsMessages (concat (map (\<lambda>m. case m of Some t \<Rightarrow> if t = [] then [] else [t] | None \<Rightarrow> []) ms)))"

end
