(* ===== verification/Ui_Properties.thy ===== *)
theory Ui_Properties
  imports Ui_Components
begin

text \<open>
  What the owners of the editors can rely on, and where the text editor lets them down.
\<close>

section \<open>Line breaks\<close>

lemma no_return: "13 \<notin> set (line_feeds s)"
  by (induction s rule: line_feeds.induct) auto

lemma line_feeds_plain: "13 \<notin> set s \<Longrightarrow> line_feeds s = s"
  by (induction s) auto

lemma line_feeds_again [simp]: "line_feeds (line_feeds s) = line_feeds s"
  by (rule line_feeds_plain [OF no_return])

lemma line_feeds_image: "line_feeds s = t \<Longrightarrow> line_feeds t = t"
  by auto

section \<open>The text editor\<close>

definition good_text_editor :: "text_editor \<Rightarrow> bool" where
  "good_text_editor s \<longleftrightarrow> (te_mounted s \<and> compositionStarted s \<longrightarrow> composing s)
     \<and> line_feeds (te_doc s) = te_doc s
     \<and> (te_mounted s \<and> \<not> composing s \<longrightarrow> te_doc s = line_feeds (lastReported s))"

lemmas text_editor_defs = updateListener_def beginComposition_def finishComposition_def compositionFrameRuns_def value_effect_def
  unmount_text_editor_def notifyChange_def reconfigure_def

interpretation te: kept_invariant TextEditor good_text_editor
proof
  show "good_text_editor s \<Longrightarrow> good_text_editor (TextEditor op s)" for op s
    by (cases op) (auto simp: good_text_editor_def text_editor_defs dest: line_feeds_image)
qed

lemma open_text_good: "good_text_editor (open_text_editor v r d)"
  by (simp add: good_text_editor_def open_text_editor_def)

text \<open>Typing while a composition is under way changes the document and tells nobody.\<close>

lemma typing_unreported:
  "te_mounted s \<Longrightarrow> te_editable s \<Longrightarrow> composing s
     \<Longrightarrow> fold TextEditor (map UserEdits ts) s = s\<lparr>te_doc := last (te_doc s # map line_feeds ts)\<rparr>"
proof (induction ts arbitrary: s)
  case (Cons t ts)
  have "TextEditor (UserEdits t) s = s\<lparr>te_doc := line_feeds t\<rparr>" using Cons.prems by (simp add: updateListener_def)
  with Cons.IH [of "s\<lparr>te_doc := line_feeds t\<rparr>"] Cons.prems show ?case by simp
qed simp

lemma composition_reported_once:
  assumes "te_mounted s" "te_editable s"
  shows "fold TextEditor (CompositionStart # map UserEdits ts @ [CompositionEnd, LibraryFinishes] @ map UserEdits us @ [FrameRuns]) s =
    (let d = last (te_doc s # map line_feeds (ts @ us))
     in s\<lparr>te_doc := d, compositionStarted := False, composing := False, compositionFrame := False, lastReported := d,
          te_reports := te_reports s @ (if d = lastReported s then [] else [d]),
          te_value := (if d = lastReported s then te_value s else d)\<rparr>)"
proof -
  let ?s1 = "s\<lparr>composing := True, compositionStarted := True, compositionFrame := False\<rparr>"
  let ?s2 = "?s1\<lparr>te_doc := last (te_doc s # map line_feeds ts)\<rparr>"
  let ?s3 = "?s2\<lparr>compositionFrame := True, compositionStarted := False\<rparr>"
  have 1: "TextEditor CompositionStart s = ?s1" using assms by (simp add: beginComposition_def)
  have 2: "fold TextEditor (map UserEdits ts) ?s1 = ?s2" using typing_unreported [of ?s1 ts] assms by simp
  have 3: "TextEditor LibraryFinishes (TextEditor CompositionEnd ?s2) = ?s3" using assms by (simp add: finishComposition_def)
  have 4: "fold TextEditor (map UserEdits us) ?s3 = ?s3\<lparr>te_doc := last (last (te_doc s # map line_feeds ts) # map line_feeds us)\<rparr>"
    using typing_unreported [of ?s3 us] assms by simp
  have l: "last (last (te_doc s # map line_feeds ts) # map line_feeds us) = last (te_doc s # map line_feeds (ts @ us))"
    by (cases us) auto
  have "fold TextEditor (CompositionStart # map UserEdits ts @ [CompositionEnd, LibraryFinishes] @ map UserEdits us @ [FrameRuns]) s
      = TextEditor FrameRuns (fold TextEditor (map UserEdits us) (TextEditor LibraryFinishes (TextEditor CompositionEnd
          (fold TextEditor (map UserEdits ts) (TextEditor CompositionStart s)))))"
    by (simp del: TextEditor.simps)
  also have "\<dots> = TextEditor FrameRuns (?s3\<lparr>te_doc := last (te_doc s # map line_feeds (ts @ us))\<rparr>)" unfolding 1 2 3 4 l ..
  also have "\<dots> = (let d = last (te_doc s # map line_feeds (ts @ us))
     in s\<lparr>te_doc := d, compositionStarted := False, composing := False, compositionFrame := False, lastReported := d,
          te_reports := te_reports s @ (if d = lastReported s then [] else [d]),
          te_value := (if d = lastReported s then te_value s else d)\<rparr>)"
    using assms by (auto simp: compositionFrameRuns_def notifyChange_def Let_def)
  finally show ?thesis .
qed

text \<open>
  C27. The text editor and its owner, in any state that was reached since the editor was opened and in which it can be
  written and no composition is under way. The document is the text last reported, or the value last taken over, with
  line feeds as its line breaks. A change of the user is reported once and becomes the owner's text. Another value of
  the owner is shown, with line feeds, and is not reported back. A whole composition, whatever its candidates and
  whatever the library still changes after its end, is reported once with its result, or not at all if that is the text
  last reported or taken over. And a value that is given during a composition is not shown: the document stays as it is.
\<close>

theorem text_editor_agrees:
  assumes "s = fold TextEditor ops (open_text_editor v readOnly disabled)" and "te_mounted s" and "te_editable s" and "\<not> composing s"
  shows "te_doc s = line_feeds (lastReported s)
    \<and> (line_feeds t \<noteq> te_doc s \<longrightarrow> TextEditor (UserEdits t) s =
        s\<lparr>te_doc := line_feeds t, lastReported := line_feeds t, te_value := line_feeds t, te_reports := te_reports s @ [line_feeds t]\<rparr>)
    \<and> (w \<noteq> te_value s \<longrightarrow> TextEditor (GiveValue w) s =
        s\<lparr>te_doc := line_feeds w, lastReported := (if te_doc s = w then lastReported s else w), te_value := w\<rparr>)
    \<and> fold TextEditor (CompositionStart # map UserEdits ts @ [CompositionEnd, LibraryFinishes] @ map UserEdits us @ [FrameRuns]) s =
      (let d = last (te_doc s # map line_feeds (ts @ us))
       in s\<lparr>te_doc := d, compositionStarted := False, composing := False, compositionFrame := False, lastReported := d,
            te_reports := te_reports s @ (if d = lastReported s then [] else [d]),
            te_value := (if d = lastReported s then te_value s else d)\<rparr>)
    \<and> TextEditor (GiveValue w) (TextEditor CompositionStart s) = (TextEditor CompositionStart s)\<lparr>te_value := w\<rparr>"
proof -
  have good: "good_text_editor s" unfolding assms(1) by (rule te.run_keeps [OF open_text_good])
  then have doc: "te_doc s = line_feeds (lastReported s)" and calm: "\<not> compositionStarted s"
    and plain: "line_feeds (te_doc s) = te_doc s"
    using assms by (auto simp: good_text_editor_def)
  have "line_feeds t \<noteq> lastReported s" if "line_feeds t \<noteq> te_doc s" using that doc line_feeds_again by metis
  then have "line_feeds t \<noteq> te_doc s \<Longrightarrow> TextEditor (UserEdits t) s =
      s\<lparr>te_doc := line_feeds t, lastReported := line_feeds t, te_value := line_feeds t, te_reports := te_reports s @ [line_feeds t]\<rparr>"
    using calm assms(2-4) by (auto simp: updateListener_def notifyChange_def)
  moreover have "w \<noteq> te_value s \<Longrightarrow> TextEditor (GiveValue w) s =
      s\<lparr>te_doc := line_feeds w, lastReported := (if te_doc s = w then lastReported s else w), te_value := w\<rparr>"
    using calm assms plain by (auto simp: value_effect_def)
  moreover have "TextEditor (GiveValue w) (TextEditor CompositionStart s) = (TextEditor CompositionStart s)\<lparr>te_value := w\<rparr>"
    using assms(2) by (simp add: value_effect_def beginComposition_def)
  ultimately show ?thesis using composition_reported_once [OF assms(2,3)] doc by blast
qed

theorem text_editor_agrees_witness:
  "TextEditor (UserEdits (js ''b'')) (open_text_editor (js ''a'') False False)
    = (open_text_editor (js ''a'') False False)\<lparr>te_doc := js ''b'', lastReported := js ''b'', te_value := js ''b'', te_reports := [js ''b'']\<rparr>"
proof -
  let ?s = "open_text_editor (js ''a'') False False"
  have plain: "line_feeds (js ''b'') = js ''b''" "line_feeds (js ''a'') = js ''a''" by simp_all
  have "te_mounted ?s" "te_editable ?s" "\<not> composing ?s" "js ''b'' \<noteq> te_doc ?s" "te_reports ?s = []"
    by (simp_all add: open_text_editor_def)
  then show ?thesis using text_editor_agrees [of ?s "[]" "js ''a''" False False "js ''b''"] by (simp add: plain del: js_Cons)
qed

text \<open>The effect on the value is skipped during a composition and runs only when the value changes: a value given meanwhile is
  never shown when the composition ends without a change.\<close>

lemma value_lost_in_composition:
  assumes "line_feeds v = v"
  shows "fold TextEditor [CompositionStart, GiveValue w, CompositionEnd, LibraryFinishes, FrameRuns, GiveValue w] (open_text_editor v False False)
    = (open_text_editor v False False)\<lparr>te_value := w\<rparr>"
  using assms by (simp add: open_text_editor_def text_editor_defs)

text \<open>The text that was taken over is kept as it was given, the document has line feeds: after a value with other line breaks
  a composition that changes nothing is reported as a change.\<close>

lemma line_breaks_reported:
  assumes "line_feeds v \<noteq> v"
  shows "te_reports (fold TextEditor [CompositionStart, CompositionEnd, LibraryFinishes, FrameRuns] (open_text_editor v False False))
    = [line_feeds v]"
  using assms by (simp add: open_text_editor_def text_editor_defs)

section \<open>The code editor\<close>

definition good_code_editor :: "code_editor \<Rightarrow> bool" where
  "good_code_editor s \<longleftrightarrow> distinct (map fst (ce_loads s)) \<and> (\<forall>(i, p)\<in>set (ce_loads s). i \<le> ce_attempt s)
     \<and> (case ce_view s of
          None \<Rightarrow> ce_live s = [] \<and> (ce_mounted s \<longrightarrow> ce_status s \<noteq> EditorReady)
        | Some i \<Rightarrow> i = ce_attempt s \<and> ce_mounted s \<and> ce_status s = EditorReady \<and> map fst (ce_live s) = [i] \<and> i \<notin> set (map fst (ce_loads s)))
     \<and> (ce_mounted s \<and> ce_status s = EditorLoading \<longleftrightarrow> ce_mounted s \<and> ce_attempt s \<in> set (map fst (ce_loads s)))"

lemmas code_editor_defs = import_ends_def creation_ends_def load_fails_def settle_load_def dispose_owned_def is_active_def
  view_edits_def view_composes_def view_composed_def code_value_def code_new_settings_def code_reports_def on_view_def
  end_attempt_def retry_load_def unmount_code_editor_def shown_view_def

lemma on_view_keeps: "good_code_editor (on_view f s) = good_code_editor s"
  by (cases "ce_view s") (simp_all add: good_code_editor_def on_view_def comp_def split_beta)

lemma report_keeps: "good_code_editor (code_reports t s) = good_code_editor s"
  by (cases "ce_view s") (simp_all add: good_code_editor_def code_reports_def)

lemma settle_late: "good_code_editor s \<Longrightarrow> \<not> is_active i s \<Longrightarrow> good_code_editor (settle_load i s)"
  by (cases "ce_view s") (auto simp: good_code_editor_def settle_load_def is_active_def distinct_map_filter)

lemma fails_keeps: "good_code_editor s \<Longrightarrow> (i, p) \<in> set (ce_loads s) \<Longrightarrow> good_code_editor (load_fails i s)"
  by (cases "ce_view s")
    (auto simp: good_code_editor_def load_fails_def settle_load_def dispose_owned_def is_active_def distinct_map_filter rev_image_eqI)

lemma code_editor_keeps: "good_code_editor s \<Longrightarrow> good_code_editor (CodeEditor create edit op s)"
proof (cases op)
  case (ImportEnds i ok)
  assume good: "good_code_editor s"
  show ?thesis
  proof (cases "map_of (ce_loads s) i = Some Importing")
    case True
    then have mem: "(i, Importing) \<in> set (ce_loads s)" by (rule map_of_SomeD)
    show ?thesis
    proof (cases "ok \<and> is_active i s")
      case active: True
      then show ?thesis using good mem True ImportEnds
        by (cases "ce_view s") (auto simp: good_code_editor_def import_ends_def settle_load_def is_active_def distinct_map_filter rev_image_eqI)
    next
      case False
      then show ?thesis using good mem True ImportEnds settle_late fails_keeps by (auto simp: import_ends_def)
    qed
  qed (use good ImportEnds in \<open>simp add: import_ends_def\<close>)
next
  case (CreationEnds i ok)
  assume good: "good_code_editor s"
  show ?thesis
  proof (cases "\<exists>v st. map_of (ce_loads s) i = Some (Creating v st)")
    case True
    then obtain v st where l: "map_of (ce_loads s) i = Some (Creating v st)" by blast
    then have mem: "(i, Creating v st) \<in> set (ce_loads s)" by (rule map_of_SomeD)
    show ?thesis
    proof (cases "ok \<and> is_active i s")
      case active: True
      then show ?thesis using good mem l CreationEnds
        by (cases "ce_view s") (auto simp: good_code_editor_def creation_ends_def settle_load_def is_active_def distinct_map_filter rev_image_eqI)
    next
      case False
      then show ?thesis using good mem l CreationEnds settle_late fails_keeps by (auto simp: creation_ends_def)
    qed
  next
    case False
    then show ?thesis using good CreationEnds by (auto simp: creation_ends_def split: option.split load_phase.split)
  qed
next
  case (ViewEdits t)
  assume "good_code_editor s"
  with ViewEdits show ?thesis by (auto simp: view_edits_def Let_def on_view_keeps report_keeps split: option.split)
next
  case ViewComposed
  assume "good_code_editor s"
  with ViewComposed show ?thesis by (auto simp: view_composed_def on_view_keeps report_keeps split: option.split)
next
  case (CodeValue v)
  assume "good_code_editor s"
  moreover have "good_code_editor (s\<lparr>ce_value := v\<rparr>) = good_code_editor s" by (cases "ce_view s") (simp_all add: good_code_editor_def)
  ultimately show ?thesis using CodeValue by (simp add: code_value_def on_view_keeps)
next
  case (CodeSettings st)
  assume "good_code_editor s"
  moreover have "good_code_editor (s\<lparr>ce_settings := st\<rparr>) = good_code_editor s" by (cases "ce_view s") (simp_all add: good_code_editor_def)
  ultimately show ?thesis using CodeSettings by (simp add: code_new_settings_def on_view_keeps)
next
  case RetryLoad
  assume "good_code_editor s"
  with RetryLoad show ?thesis
    by (cases "ce_view s") (auto simp: good_code_editor_def retry_load_def end_attempt_def dispose_owned_def)
next
  case RemoveCodeEditor
  assume "good_code_editor s"
  with RemoveCodeEditor show ?thesis
    by (cases "ce_view s") (auto simp: good_code_editor_def unmount_code_editor_def end_attempt_def dispose_owned_def filter_empty_conv map_eq_Cons_conv)
qed (simp add: view_composes_def on_view_keeps)

interpretation cd: kept_invariant "CodeEditor create edit" good_code_editor for create edit
  by unfold_locales (rule code_editor_keeps)

lemma open_code_good: "good_code_editor (open_code_editor v st)"
  by (simp add: good_code_editor_def open_code_editor_def)

text \<open>Between a writable view and its owner.\<close>

text \<open>
  A text up to what Monaco may do to it: the line breaks of a model are of one kind, and a byte order mark at the
  start of a model is dropped. \<open>lands\<close>: a new model has the text it was given, and edits of the whole document of an
  editor that can be written put in their text, up to that.
\<close>

definition plain_model_text :: "jsstr \<Rightarrow> jsstr" where
  "plain_model_text v = line_feeds (dropWhile (\<lambda>c. c = 0xFEFF) v)"

definition lands :: "create_model \<Rightarrow> execute_edits \<Rightarrow> bool" where
  "lands create edit \<longleftrightarrow> (\<forall>v. plain_model_text (create v) = plain_model_text v) \<and> (\<forall>d n. plain_model_text (edit False d n) = plain_model_text n)"

text \<open>For instance an editor that uses line feeds.\<close>

lemma line_feeds_mark: "dropWhile (\<lambda>c. c = 0xFEFF) (line_feeds v) = line_feeds (dropWhile (\<lambda>c. c = 0xFEFF) v)"
  by (induction v rule: line_feeds.induct) auto

lemma lands_line_feeds: "lands line_feeds (\<lambda>readOnly d n. if readOnly then d else line_feeds n)"
  by (simp add: lands_def plain_model_text_def line_feeds_mark)

definition writable_op :: "code_op \<Rightarrow> bool" where
  "writable_op op = (case op of CodeSettings st \<Rightarrow> \<not> cs_readOnly st | _ \<Rightarrow> True)"

definition synced_view :: "code_editor \<Rightarrow> code_view \<Rightarrow> bool" where
  "synced_view s w \<longleftrightarrow> cv_settings w = ce_settings s \<and> (\<not> cv_composing w \<longrightarrow> plain_model_text (cv_doc w) = plain_model_text (ce_value s))"

definition creating_writable :: "nat \<times> load_phase \<Rightarrow> bool" where
  "creating_writable l = (case snd l of Creating v st \<Rightarrow> \<not> cs_readOnly st | Importing \<Rightarrow> True)"

definition synced :: "code_editor \<Rightarrow> bool" where
  "synced s \<longleftrightarrow> good_code_editor s \<and> \<not> cs_readOnly (ce_settings s) \<and> list_all creating_writable (ce_loads s)
     \<and> (\<forall>w. shown_view s = Some w \<longrightarrow> synced_view s w)"

lemma shown_live: "good_code_editor s \<Longrightarrow> shown_view s = Some w \<longleftrightarrow> ce_live s = [(ce_attempt s, w)] \<and> ce_view s = Some (ce_attempt s)"
  by (cases "ce_view s") (auto simp: good_code_editor_def shown_view_def map_eq_Cons_conv)

lemma shown_on_view: "good_code_editor s \<Longrightarrow> shown_view (on_view f s) = map_option f (shown_view s)"
  by (cases "ce_view s") (auto simp: good_code_editor_def shown_view_def on_view_def map_eq_Cons_conv)

lemma shown_other:
  "shown_view (code_reports t s) = shown_view s" "shown_view (s\<lparr>ce_value := t\<rparr>) = shown_view s" "shown_view (s\<lparr>ce_settings := st\<rparr>) = shown_view s"
  "good_code_editor (s\<lparr>ce_value := t\<rparr>) = good_code_editor s" "good_code_editor (s\<lparr>ce_settings := st\<rparr>) = good_code_editor s"
  by (cases "ce_view s", simp_all add: shown_view_def code_reports_def good_code_editor_def)+

lemma synced_keeps:
  assumes "synced s" and "lands create edit" and "writable_op op"
  shows "synced (CodeEditor create edit op s)"
proof -
  have good: "good_code_editor s" and good': "good_code_editor (CodeEditor create edit op s)" and writable: "\<not> cs_readOnly (ce_settings s)"
    and loads: "list_all creating_writable (ce_loads s)" and view: "\<And>w. shown_view s = Some w \<Longrightarrow> synced_view s w"
    using assms(1) code_editor_keeps by (auto simp: synced_def)
  have fresh: "\<exists>t. handle_setValue edit v w = w\<lparr>cv_doc := t\<rparr> \<and> plain_model_text t = plain_model_text v"
    if "\<not> cs_readOnly (cv_settings w)" "\<not> cv_composing w" for v w
  proof (cases "cv_doc w = v")
    case True
    then have "handle_setValue edit v w = w\<lparr>cv_doc := v\<rparr>" by (simp add: handle_setValue_def)
    then show ?thesis by blast
  next
    case False
    then have "handle_setValue edit v w = w\<lparr>cv_doc := edit False (cv_doc w) v\<rparr>" using that by (simp add: handle_setValue_def)
    then show ?thesis using assms(2) unfolding lands_def by blast
  qed
  note simps = on_view_def settle_load_def dispose_owned_def code_reports_def
  have settings: "\<not> cs_readOnly (ce_settings (CodeEditor create edit op s))"
    using writable assms(3)
    by (cases op) (auto simp: writable_op_def code_editor_defs Let_def split: option.splits load_phase.splits)
  moreover have "list_all creating_writable (ce_loads (CodeEditor create edit op s))"
    using loads writable
    by (cases op) (auto simp: list_all_iff creating_writable_def code_editor_defs Let_def split: option.splits load_phase.splits)
  moreover have "synced_view (CodeEditor create edit op s) w" if w: "shown_view (CodeEditor create edit op s) = Some w" for w
  proof (cases op)
    case (ImportEnds i ok)
    with w view show ?thesis
      by (auto simp: import_ends_def load_fails_def simps shown_view_def synced_view_def split: if_splits)
  next
    case (CreationEnds i ok)
    show ?thesis
    proof (cases "\<exists>v st. map_of (ce_loads s) i = Some (Creating v st) \<and> ok \<and> is_active i s")
      case True
      then obtain v st where l: "map_of (ce_loads s) i = Some (Creating v st)" "ok" "is_active i s" by blast
      then have "\<not> cs_readOnly st" using loads map_of_SomeD [OF l(1)] by (auto simp: list_all_iff creating_writable_def)
      then obtain t where "handle_setValue edit (ce_value s) (createCodeEditor create v st) = (createCodeEditor create v st)\<lparr>cv_doc := t\<rparr>"
        and "plain_model_text t = plain_model_text (ce_value s)"
        using fresh [of "createCodeEditor create v st" "ce_value s"] by (auto simp: createCodeEditor_def)
      with w l CreationEnds show ?thesis
        by (auto simp: creation_ends_def settle_load_def shown_view_def synced_view_def updateSettings_def)
    next
      case False
      with w view CreationEnds show ?thesis
        by (auto simp: creation_ends_def load_fails_def simps shown_view_def synced_view_def split: if_splits option.splits load_phase.splits)
    qed
  next
    case (ViewEdits t)
    with w view show ?thesis
      by (cases "shown_view s")
        (auto simp: view_edits_def Let_def shown_other shown_on_view [OF good] synced_view_def split: if_splits, auto simp: code_reports_def on_view_def)
  next
    case ViewComposes
    with w view show ?thesis
      by (auto simp: view_composes_def shown_on_view [OF good] synced_view_def) (auto simp: on_view_def)
  next
    case ViewComposed
    with w view show ?thesis
      by (cases "shown_view s")
        (auto simp: view_composed_def shown_other shown_on_view [OF good] synced_view_def, auto simp: code_reports_def on_view_def)
  next
    case (CodeValue v)
    show ?thesis
    proof (cases "v = ce_value s")
      case False
      with w CodeValue obtain u where u: "shown_view s = Some u" "w = handle_setValue edit v u"
        using shown_on_view [of "s\<lparr>ce_value := v\<rparr>"] good by (auto simp: code_value_def shown_other)
      have "synced_view s u" by (rule view [OF u(1)])
      then have "cv_composing u \<and> w = u \<or> (\<exists>t. w = u\<lparr>cv_doc := t\<rparr> \<and> plain_model_text t = plain_model_text v)"
        using u(2) writable fresh [of u v] by (cases "cv_composing u") (simp_all add: synced_view_def, simp add: handle_setValue_def)
      with \<open>synced_view s u\<close> CodeValue False show ?thesis
        by (auto simp: synced_view_def code_value_def on_view_def)
    qed (use w view CodeValue in \<open>simp add: code_value_def\<close>)
  next
    case (CodeSettings st)
    with w view show ?thesis using shown_on_view [of "s\<lparr>ce_settings := st\<rparr>"] good
      by (auto simp: code_new_settings_def shown_other synced_view_def updateSettings_def) (auto simp: on_view_def)
  next
    case RetryLoad
    with w view good show ?thesis
      by (cases "ce_view s") (auto simp: good_code_editor_def retry_load_def end_attempt_def simps shown_view_def split: if_splits)
  next
    case RemoveCodeEditor
    with w view good show ?thesis
      by (cases "ce_view s") (auto simp: good_code_editor_def unmount_code_editor_def end_attempt_def simps shown_view_def split: if_splits)
  qed
  ultimately show ?thesis using good' by (simp add: synced_def)
qed

lemma load_keeps_value:
  "ce_value (import_ends i ok s) = ce_value s" "ce_value (creation_ends create edit i ok s) = ce_value s" "ce_value (retry_load s) = ce_value s"
  "ce_reports (import_ends i ok s) = ce_reports s" "ce_reports (creation_ends create edit i ok s) = ce_reports s" "ce_reports (retry_load s) = ce_reports s"
  by (auto simp: code_editor_defs split: option.split load_phase.split)

text \<open>
  C28. The code editor shows the owner's text, while the owner keeps it writable, and outlives nothing. However
  imports and creations of attempts end, in whatever order, with retries, edits, values and settings in between: at
  most one view exists, only while the component is there and says that it is ready, and it belongs to the last
  attempt; when no composition is under way that view shows the owner's text, up to the kind of its line breaks and a
  byte order mark, under the owner's settings; and neither a failure to load nor a retry changes the text. The
  hypotheses: texts land in models and in editors that can be written, and the owner keeps the editor writable.
\<close>

theorem code_editor_shows_value:
  assumes "lands create edit" and "\<not> cs_readOnly st" and "list_all writable_op ops" and "s = fold (CodeEditor create edit) ops (open_code_editor v st)"
  shows "(if ce_mounted s \<and> ce_status s = EditorReady
       then \<exists>w. ce_live s = [(ce_attempt s, w)] \<and> cv_settings w = ce_settings s \<and> (\<not> cv_composing w \<longrightarrow> plain_model_text (cv_doc w) = plain_model_text (ce_value s))
       else ce_live s = [])
    \<and> (\<forall>op\<in>{ImportEnds i ok, CreationEnds i ok, RetryLoad}. ce_value (CodeEditor create edit op s) = ce_value s \<and> ce_reports (CodeEditor create edit op s) = ce_reports s)"
proof -
  have "synced (fold (CodeEditor create edit) ops s)" if "synced s" "list_all writable_op ops" for s ops
    using that by (induction ops arbitrary: s) (simp_all add: synced_keeps [OF _ assms(1)] del: CodeEditor.simps)
  moreover have "synced (open_code_editor v st)"
    using open_code_good [of v st] assms(2) by (simp add: synced_def open_code_editor_def shown_view_def creating_writable_def)
  ultimately have s: "synced s" using assms(3,4) by simp
  then have good: "good_code_editor s" by (simp add: synced_def)
  have "if ce_mounted s \<and> ce_status s = EditorReady
       then \<exists>w. ce_live s = [(ce_attempt s, w)] \<and> cv_settings w = ce_settings s \<and> (\<not> cv_composing w \<longrightarrow> plain_model_text (cv_doc w) = plain_model_text (ce_value s))
       else ce_live s = []"
  proof (cases "ce_view s")
    case None
    then show ?thesis using good by (auto simp: good_code_editor_def)
  next
    case (Some i)
    then obtain w where w: "ce_live s = [(ce_attempt s, w)]" "ce_view s = Some (ce_attempt s)" and ready: "ce_mounted s" "ce_status s = EditorReady"
      using good by (auto simp: good_code_editor_def map_eq_Cons_conv)
    then have "synced_view s w" using s shown_live [OF good] by (simp add: synced_def)
    with w ready show ?thesis by (simp add: synced_view_def)
  qed
  then show ?thesis by (simp add: load_keeps_value)
qed

text \<open>In an editor that cannot be written the edits are refused, and another value of the owner is not shown.\<close>

lemma value_refused_read_only:
  assumes "shown_view s = Some w" and "\<not> cv_composing w" and "cs_readOnly (cv_settings w)" and "good_code_editor s"
  shows "shown_view (CodeEditor create (\<lambda>readOnly d n. if readOnly then d else line_feeds n) (CodeValue v) s) = Some w"
  using assms shown_on_view [of "s\<lparr>ce_value := v\<rparr>" "handle_setValue (\<lambda>readOnly d n. if readOnly then d else line_feeds n) v"]
  by (simp add: code_value_def shown_other handle_setValue_def)

definition demo_code_editor :: code_editor where
  "demo_code_editor = fold (CodeEditor line_feeds (\<lambda>readOnly d n. if readOnly then d else line_feeds n))
     [ImportEnds 0 False, RetryLoad, ImportEnds 1 True, CodeValue [98, 13, 10], CreationEnds 1 True]
     (open_code_editor (js ''a'') \<lparr>cs_readOnly = False, cs_cpp = True\<rparr>)"

theorem code_editor_shows_value_witness:
  "\<exists>w. ce_live demo_code_editor = [(1, w)] \<and> ce_value demo_code_editor = [98, 13, 10] \<and> plain_model_text (cv_doc w) = [98, 10]"
proof -
  have facts: "ce_mounted demo_code_editor \<and> ce_status demo_code_editor = EditorReady" "ce_attempt demo_code_editor = 1"
    "ce_value demo_code_editor = [98, 13, 10]" "list_ex (cv_composing \<circ> snd) (ce_live demo_code_editor) = False"
    by code_simp+
  have "if ce_mounted demo_code_editor \<and> ce_status demo_code_editor = EditorReady
      then \<exists>w. ce_live demo_code_editor = [(ce_attempt demo_code_editor, w)] \<and> cv_settings w = ce_settings demo_code_editor
        \<and> (\<not> cv_composing w \<longrightarrow> plain_model_text (cv_doc w) = plain_model_text (ce_value demo_code_editor))
      else ce_live demo_code_editor = []"
    by (rule code_editor_shows_value [THEN conjunct1, OF lands_line_feeds _ _ demo_code_editor_def]) (simp_all add: writable_op_def)
  then obtain w where w: "ce_live demo_code_editor = [(1, w)]" "\<not> cv_composing w \<longrightarrow> plain_model_text (cv_doc w) = plain_model_text [98, 13, 10]"
    using facts(1-3) by auto
  moreover have "\<not> cv_composing w" using facts(4) w(1) by simp
  moreover have "plain_model_text [98, 13, 10] = [98, 10]" by (simp add: plain_model_text_def)
  ultimately show ?thesis using facts(3) by simp
qed

section \<open>Form fields\<close>

text \<open>An error that is shown is announced: the control is invalid and its description contains the id of the message.\<close>

lemma error_announced:
  assumes "hasContent err"
  shows "\<exists>i. ff_error (FormField g child d err bad dis req) = Some i \<and> fc_invalid (ff_control (FormField g child d err bad dis req))
    \<and> ff_labelFor (FormField g child d err bad dis req) = the (fc_id (ff_control (FormField g child d err bad dis req)))
    \<and> (\<exists>a. fc_describedBy (ff_control (FormField g child d err bad dis req)) = Some (a @ i))"
proof -
  have last: "\<exists>a. join [32] (xs @ [i]) = a @ i" for xs and i :: jsstr
  proof (induction xs)
    case (Cons x xs)
    then obtain a where "join [32] (xs @ [i]) = a @ i" by blast
    then have "join [32] ((x # xs) @ [i]) = (x @ 32 # a) @ i" by (cases xs) auto
    then show ?case by blast
  qed simp
  define i where "i = (case fc_id child of Some i \<Rightarrow> i | None \<Rightarrow> js ''field-'' @ g) @ js ''-error''"
  have "i \<noteq> []" by (simp add: i_def)
  then have merged: "\<exists>a. mergeIds [x, y, Some i] = Some (a @ i)" for x y
    using last [of "concat (map (\<lambda>i. case i of Some t \<Rightarrow> if t = [] then [] else [t] | None \<Rightarrow> []) [x, y])" i]
    by (simp add: mergeIds_def Let_def)
  have parts: "ff_error (FormField g child d err bad dis req) = Some i" "fc_invalid (ff_control (FormField g child d err bad dis req))"
    "ff_labelFor (FormField g child d err bad dis req) = the (fc_id (ff_control (FormField g child d err bad dis req)))"
    "\<exists>x y. fc_describedBy (ff_control (FormField g child d err bad dis req))
      = (case mergeIds [x, y, Some i] of Some d \<Rightarrow> Some d | None \<Rightarrow> fc_describedBy child)"
    using assms unfolding FormField_def Let_def i_def by (simp_all del: js_Cons) blast
  then obtain x y where "fc_describedBy (ff_control (FormField g child d err bad dis req))
      = (case mergeIds [x, y, Some i] of Some d \<Rightarrow> Some d | None \<Rightarrow> fc_describedBy child)" by blast
  with merged [of x y] have "\<exists>a. fc_describedBy (ff_control (FormField g child d err bad dis req)) = Some (a @ i)" by auto
  with parts(1-3) show ?thesis by blast
qed

end
