(* ===== verification/Spec2Isabelle.thy ===== *)
theory Spec2Isabelle
  imports Draft_Properties Api_Properties Theme Custom_Run Editor_Properties Page_Properties List_Properties Site_Properties Generator_Properties
    Build_Properties Package_Properties Ui_Properties
begin

text \<open>
  Cherry OJ, the web client (\<open>src/apps/web\<close>).

  Cherry OJ is an online judge: students read problems, write code, try it on samples and submit it;
  administrators write problems, upload test data, calibrate limits and publish. The client is a
  TypeScript program in the browser. Everything it knows of the server comes through one HTTP client;
  what it must not lose (drafts, requests of unknown outcome, the chosen theme) it keeps in the storage
  of the browser, which other pages of the same user read and write too. This development models the
  logic of that program: the data and their JSON, the requests, the state of each page as a record and
  each handler as a function on it, and proves what makes it safe to use: saved text stays readable, a key a
  program is submitted under never gets another source, no result is shown that belongs to something else, and
  publishing is asked for only while the form is what was confirmed last. Where the program falls short of what
  it means to do, a lemma says how, next to the theorem it limits.

  \<^bold>\<open>The text layer\<close>. \<open>Cherry_Prelude\<close>: strings of UTF-16 code units (\<open>jsstr\<close>), results as sums, the
  stable sort, and the locale \<open>kept_invariant\<close> of executions. \<open>Js_Text\<close>: \<open>trim\<close>, \<open>split\<close>, \<open>lastIndexOf\<close> and
  decimal texts. \<open>Js_Encoding\<close>: UTF-8 lengths, \<open>encodeURIComponent\<close>, query strings. \<open>Js_Number\<close>: Numbers as
  binary64 with rounding, \<open>Number(text)\<close> and \<open>String(number)\<close>; the search for the shortest digits has fuel
  17, the digits that always determine a double. \<open>Js_Json\<close>: \<open>JSON.stringify\<close> and \<open>JSON.parse\<close>; the parser's
  fuel is the length of the text plus one, and the round trip shows that it is enough for every printed
  value. \<open>Js_Url\<close>: the part of the URL parser that return paths meet. \<open>Zod_Schema\<close>: the schema language of the
  source as a datatype; the library's \<open>safeParse\<close> is a parameter, its documented laws the locale \<open>zod\<close>, with an
  executable instance.

  \<^bold>\<open>Drafts\<close> (\<open>features/problems/lib/code-draft.ts\<close>, \<open>hooks/use-code-draft.ts\<close>). \<open>Code_Draft\<close> has the controller: records
  with revisions, the scan of the storage, saving, refreshing, conflicts, the events of the hook. What happens
  in the storage while a call runs is the argument \<open>env\<close>, with failures and writes of other pages.
  \<open>Draft_Records\<close>: round trips of records and revisions. \<open>Draft_Controller\<close>: executions of one page and what its
  snapshot promises. \<open>Draft_Causality\<close>: histories of all pages and the causal order the compacted revision lists
  stand for. \<open>Draft_Pages\<close>: every call keeps page, storage and history in agreement. \<open>Draft_Properties\<close>: saved text
  stays readable, unseen drafts end in conflicts, choices converge, a reload shows what was saved.

  \<^bold>\<open>Requests\<close> (\<open>lib/api\<close>, \<open>features/*/api\<close>). \<open>Api_Client\<close>: \<open>requestJson\<close> with headers, cancellation, error bodies and
  validation; \<open>fetch\<close> is a field of the parameter \<open>net\<close>. \<open>Csrf\<close>: tokens, once as state passing and once as a step
  relation with overlapping calls. \<open>Api_Calls\<close>: the locale \<open>json_transport\<close>, what a call of the client promises to
  the code above it. \<open>Auth\<close>, \<open>Languages\<close>, \<open>Problems_Api\<close>, \<open>Submissions_Api\<close>, \<open>Admin_Api\<close>: schemas and calls of the
  features, route guards, return paths, sample checks, the history bound to an account. \<open>Api_Properties\<close>: data
  reach the pages validated, a submission is posted at most twice with one key and body, history belongs to
  its account and problem.

  \<^bold>\<open>Pages\<close>. Each has its state as a record, its handlers as functions on it and executions as sequences of
  operations: \<open>Theme\<close> (\<open>lib/theme\<close>, \<open>app/shells/theme-switcher.tsx\<close>); \<open>Submission_Panel\<close>
  (\<open>features/submissions/submission-panel.tsx\<close>); \<open>Custom_Run\<close> (\<open>features/custom-runs/custom-run-workbench.tsx\<close>), whose
  asynchronous runs are threads that answers resume in any order; \<open>Problem_Editor\<close>
  (\<open>admin-problem-workbench.tsx\<close> with its dialogs and sample list), with saves in flight beside the form, each call made by one step
  and each clean form traced to the operation that confirmed it;
  \<open>Problem_Page\<close> (\<open>problem-detail-page.tsx\<close>, \<open>problem-source-editor.tsx\<close>, \<open>submission-history-panel.tsx\<close>), which joins
  session, draft and history; \<open>Admin_Forms\<close> (\<open>problem-tag-property.tsx\<close>, \<open>admin-problem-create-dialog.tsx\<close>);
  \<open>Admin_Languages\<close> (\<open>features/admin-languages/components\<close>), where the page mounts and unmounts the editor of the
  prefix code; \<open>Admin_Users\<close> (\<open>admin-users-page.tsx\<close>), where the browser checks the
  length of a name only, because the pattern of the field does not compile; \<open>Problem_Lists\<close> (the public list, the administration's list
  and overview, and the searches of their routes, which any address may open); \<open>Site_Pages\<close> (login, password and home pages, account menu,
  navigation, split panes). \<open>Editor_Properties\<close>, \<open>Page_Properties\<close>, \<open>List_Properties\<close> and \<open>Site_Properties\<close> hold the
  theorems of the larger ones, the others their own; \<open>Return_Path\<close> shows that a return path checked twice stays
  on the site. Texts shown to the user are constructors of datatypes, one per literal.

  \<^bold>\<open>Tools\<close>. What the client is built with guards what it can become. \<open>Theme_Generator\<close>
  (\<open>scripts/generate-design-system.mjs\<close>, \<open>public/generated/theme-init.js\<close>): paths, the theme manifest, the two
  generated files, and the script that sets the theme before the page starts. \<open>Generator_Properties\<close>: the generator reads
  and writes files inside its directories only (it makes a directory before it looks where that is), quoted texts read
  back, and the start script agrees with the theme module. \<open>Source_Scan\<close> (\<open>scripts/check-design-system.mjs\<close>): which
  sources are read, the blanking of comments, the rules, the tokens; a scan that passes leaves no forbidden spelling
  outside what looks like a comment, which is told without the masking. The file system is an argument: the record
  \<open>files\<close> of what it answers, the record \<open>disk\<close> of the two operations that change it, with the calls as a trace, and
  trees of files, directories and links. \<open>Design_Css\<close> reads style sheets for both tools of the package
  (\<open>design-system/tools\<close>) and follows aliases, with an inductive relation for the chain; \<open>Design_Build\<close> (\<open>build.mjs\<close>)
  validates the manifest and generates the token files; \<open>Design_Contract\<close> and \<open>Design_Check\<close> (\<open>check.mjs\<close>) check the
  contract, the themes with the contrast of their colours, the adapter, provenance and links; \<open>Design_Package\<close> has the check of
  the package's files and the sequence of all checks. \<open>Build_Properties\<close>, \<open>Contract_Properties\<close>, \<open>Theme_Properties\<close> and
  \<open>Package_Properties\<close> say exactly which manifests, contracts, themes and packages are accepted, and what a check that passes
  promises as a whole. The power
  function in the luminance is an argument, since the language lets it be approximated.

  \<^bold>\<open>How they interact\<close>. A page gives the draft's text to the trial runs and the submission panel; a source of the
  history reaches the draft only through the editor's confirmation; every call of a page goes through
  \<open>requestJson\<close>, and its data through a schema. A guard sends a visitor to the login page with a path that the
  login page checks again. A list page is mounted anew for each search of its route, and an editor of the
  administration only lives while the query above it has data and no error. The query and form libraries appear as what the pages see of
  them: data, error and pending flag of a query, the mutation a page watches.

  \<^bold>\<open>What is not modelled\<close>. The wiring of router and entry point and the layout of the shells; the component library
  (except the split panes, the password field, the two text editors and the form field), class names and the DOM; timers other than that they
  fire; the text editors' libraries but for their documents, whose line breaks CodeMirror makes line feeds and Monaco,
  by hypothesis, keeps up to their kind; the generated types and route tree; the regular expressions of the scan's rules, which are an argument, and the
  self-tests of the tools; the token files of the design system; the services behind the client
  (server, judge engine, sandbox), which the client sees only through HTTP. Locale-dependent formatting
  of dates and the collation order are parameters or left out.
\<close>

end
